(* ===== verification/Prelude.thy ===== *)
theory Prelude
  imports Main "HOL-Library.Char_ord"
begin

text \<open>
  What every component shares.

  \<^item> Database tables.  The backend keeps its durable state in PostgreSQL tables.  A table is
    a list of rows (records) in primary-key order; the statements the code issues are the
    operations \<open>upd_where\<close> (\<open>UPDATE .. WHERE\<close>), \<open>delete_where\<close>, \<open>count_where\<close> (\<open>rowcount\<close>),
    \<open>find\<close> (\<open>SELECT .. ORDER BY id LIMIT 1\<close>) and \<open>find_last\<close> (\<open>.. ORDER BY id DESC LIMIT 1\<close>).
  \<^item> Time.  \<open>NOW()\<close> and \<open>datetime.now\<close> are arguments of the operations, integers counting
    microseconds, the resolution of a PostgreSQL \<open>TIMESTAMP\<close>.
  \<^item> Python strings.  \<open>str\<close> is a list of (ASCII) characters; \<open>lower\<close>, \<open>upper\<close>, \<open>strip\<close>,
    \<open>replace\<close> of a single character, \<open>in\<close>, \<open>startswith\<close>, \<open>endswith\<close> and the idiom
    \<open>x or default\<close> are defined here.
  \<^item> JSON values, for payloads and results that the code stores without looking inside.
\<close>

named_theorems sql "characteristic facts of the table operations"
named_theorems py "characteristic facts of the Python string operations"

section \<open>Tables\<close>

definition upd_where :: "('r \<Rightarrow> bool) \<Rightarrow> ('r \<Rightarrow> 'r) \<Rightarrow> 'r list \<Rightarrow> 'r list" where
  "upd_where p f t = map (\<lambda>r. if p r then f r else r) t"

definition delete_where :: "('r \<Rightarrow> bool) \<Rightarrow> 'r list \<Rightarrow> 'r list" where
  "delete_where p t = filter (\<lambda>r. \<not> p r) t"

definition count_where :: "('r \<Rightarrow> bool) \<Rightarrow> 'r list \<Rightarrow> int" where
  "count_where p t = int (length (filter p t))"

definition find_last :: "('r \<Rightarrow> bool) \<Rightarrow> 'r list \<Rightarrow> 'r option" where
  "find_last p t = find p (rev t)"

lemma upd_where_Nil [simp, sql]: "upd_where p f [] = []"
  by (simp add: upd_where_def)

lemma upd_where_Cons [simp, sql]:
  "upd_where p f (r # t) = (if p r then f r else r) # upd_where p f t"
  by (simp add: upd_where_def)

lemma upd_where_append [simp, sql]: "upd_where p f (s @ t) = upd_where p f s @ upd_where p f t"
  by (simp add: upd_where_def)

lemma length_upd_where [simp]: "length (upd_where p f t) = length t"
  by (simp add: upd_where_def)

lemma set_upd_where: "set (upd_where p f t) = (\<lambda>r. if p r then f r else r) ` set t"
  by (simp add: upd_where_def)

lemma upd_where_idle: "(\<And>r. r \<in> set t \<Longrightarrow> \<not> p r) \<Longrightarrow> upd_where p f t = t"
  by (induction t) auto

lemma map_upd_where_same:
  "(\<And>r. p r \<Longrightarrow> key (f r) = key r) \<Longrightarrow> map key (upd_where p f t) = map key t"
  by (induction t) auto

lemma upd_where_all:
  assumes "\<forall>r \<in> set t. P r" and "\<And>r. P r \<Longrightarrow> p r \<Longrightarrow> P (f r)"
  shows "\<forall>r \<in> set (upd_where p f t). P r"
  using assms by (auto simp: set_upd_where)

lemma set_delete_where [simp, sql]: "set (delete_where p t) = {r \<in> set t. \<not> p r}"
  by (auto simp: delete_where_def)

lemma delete_where_Nil [simp]: "delete_where p [] = []"
  by (simp add: delete_where_def)

lemma delete_where_Cons [simp]:
  "delete_where p (r # t) = (if p r then delete_where p t else r # delete_where p t)"
  by (simp add: delete_where_def)

lemma delete_where_append [simp]: "delete_where p (s @ t) = delete_where p s @ delete_where p t"
  by (simp add: delete_where_def)

lemma count_where_Nil [simp]: "count_where p [] = 0"
  by (simp add: count_where_def)

lemma count_where_Cons [simp]:
  "count_where p (r # t) = (if p r then 1 else 0) + count_where p t"
  by (simp add: count_where_def)

lemma count_where_nonneg [simp]: "0 \<le> count_where p t"
  by (simp add: count_where_def)

lemma count_where_zero: "count_where p t = 0 \<longleftrightarrow> (\<forall>r \<in> set t. \<not> p r)"
  by (simp add: count_where_def filter_empty_conv)

lemma count_where_pos: "0 < count_where p t \<longleftrightarrow> (\<exists>r \<in> set t. p r)"
  by (auto simp: count_where_def filter_empty_conv)

lemma find_SomeD: "find p t = Some r \<Longrightarrow> r \<in> set t \<and> p r"
  by (auto simp: find_Some_iff)

lemma find_NoneD: "find p t = None \<Longrightarrow> r \<in> set t \<Longrightarrow> \<not> p r"
  by (auto simp: find_None_iff)

lemma find_append:
  "find p (s @ t) = (case find p s of None \<Rightarrow> find p t | Some r \<Rightarrow> Some r)"
  by (induction s) auto

lemma find_last_SomeD: "find_last p t = Some r \<Longrightarrow> r \<in> set t \<and> p r"
  using find_SomeD [of p "rev t" r] by (simp add: find_last_def)

lemma find_last_None: "find_last p t = None \<longleftrightarrow> (\<forall>r \<in> set t. \<not> p r)"
  by (auto simp: find_last_def find_None_iff)

lemma find_last_snoc [simp, sql]:
  "find_last p (t @ [r]) = (if p r then Some r else find_last p t)"
  by (simp add: find_last_def)

text \<open>A row is determined by its primary key.\<close>

lemma distinct_key_eq:
  "distinct (map key t) \<Longrightarrow> r \<in> set t \<Longrightarrow> s \<in> set t \<Longrightarrow> key r = key s \<Longrightarrow> r = s"
  by (induction t) (auto simp: image_iff)

lemma find_key:
  assumes "distinct (map key t)" and "r \<in> set t"
  shows "find (\<lambda>x. key x = key r) t = Some r"
  using assms by (induction t) (auto simp: image_iff)

lemma find_key_upd_where:
  assumes "\<And>r. p r \<Longrightarrow> key (f r) = key r"
  shows "find (\<lambda>x. key x = k) (upd_where p f t)
       = map_option (\<lambda>r. if p r then f r else r) (find (\<lambda>x. key x = k) t)"
  using assms by (induction t) auto

lemma find_key_delete_where:
  assumes "distinct (map key t)"
  shows "find (\<lambda>x. key x = k) (delete_where p t)
       = (case find (\<lambda>x. key x = k) t of None \<Rightarrow> None | Some r \<Rightarrow> if p r then None else Some r)"
  using assms
proof (induction t)
  case Nil
  then show ?case by simp
next
  case (Cons r t)
  have "key r = k \<Longrightarrow> find (\<lambda>x. key x = k) t = None"
    using Cons.prems by (auto simp: find_None_iff image_iff)
  with Cons show ?case by auto
qed

lemma distinct_key_delete_where:
  "distinct (map key t) \<Longrightarrow> distinct (map key (delete_where p t))"
  by (induction t) auto

section \<open>Time\<close>

text \<open>\<open>INTERVAL '1 second'\<close> and \<open>INTERVAL '1 day'\<close> in microseconds.\<close>

definition second :: int where
  "second = 1000000"

definition day :: int where
  "day = 86400 * 1000000"

lemma second_pos [simp]: "0 < second" and day_pos [simp]: "0 < day"
  by (simp_all add: second_def day_def)

section \<open>Strings\<close>

definition lower_char :: "char \<Rightarrow> char" where
  "lower_char c = (let n = (of_char c :: nat) in if 65 \<le> n \<and> n \<le> 90 then char_of (n + 32) else c)"

definition upper_char :: "char \<Rightarrow> char" where
  "upper_char c = (let n = (of_char c :: nat) in if 97 \<le> n \<and> n \<le> 122 then char_of (n - 32) else c)"

definition py_lower :: "string \<Rightarrow> string" where
  "py_lower s = map lower_char s"

definition py_upper :: "string \<Rightarrow> string" where
  "py_upper s = map upper_char s"

text \<open>The ASCII characters for which \<open>str.isspace\<close> holds: 9 to 13, 28 to 31 and the blank.\<close>

definition is_space :: "char \<Rightarrow> bool" where
  "is_space c = (let n = (of_char c :: nat) in (9 \<le> n \<and> n \<le> 13) \<or> (28 \<le> n \<and> n \<le> 32))"

definition py_strip :: "string \<Rightarrow> string" where
  "py_strip s = rev (dropWhile is_space (rev (dropWhile is_space s)))"

definition remove_char :: "char \<Rightarrow> string \<Rightarrow> string" where
  "remove_char c s = filter (\<lambda>d. d \<noteq> c) s"

definition replace_char :: "char \<Rightarrow> char \<Rightarrow> string \<Rightarrow> string" where
  "replace_char c d s = map (\<lambda>x. if x = c then d else x) s"

definition py_endswith :: "string \<Rightarrow> string \<Rightarrow> bool" where
  "py_endswith s suf = (length suf \<le> length s \<and> drop (length s - length suf) s = suf)"

definition py_startswith :: "string \<Rightarrow> string \<Rightarrow> bool" where
  "py_startswith s pre = (take (length pre) s = pre)"

text \<open>\<open>needle in s\<close>\<close>

fun py_contains :: "string \<Rightarrow> string \<Rightarrow> bool" where
  "py_contains needle [] = (needle = [])"
| "py_contains needle (c # s) = (py_startswith (c # s) needle \<or> py_contains needle s)"

text \<open>\<open>s or d\<close> on strings: the empty string is false.\<close>

definition str_or :: "string \<Rightarrow> string \<Rightarrow> string" where
  "str_or s d = (if s = [] then d else s)"

text \<open>\<open>str(v or '')\<close> where \<open>v\<close> may be \<open>None\<close>.\<close>

definition opt_str :: "string option \<Rightarrow> string" where
  "opt_str v = (case v of None \<Rightarrow> [] | Some s \<Rightarrow> s)"

text \<open>\<open>s.split(sep)\<close> for a one-character separator.\<close>

fun split_on :: "char \<Rightarrow> string \<Rightarrow> string list" where
  "split_on sep [] = [[]]"
| "split_on sep (c # s) =
     (if c = sep then [] # split_on sep s
      else (case split_on sep s of [] \<Rightarrow> [[c]] | w # ws \<Rightarrow> (c # w) # ws))"

text \<open>\<open>str(n)\<close>\<close>

fun nat_str :: "nat \<Rightarrow> string" where
  "nat_str n = (if n < 10 then [char_of (48 + n)] else nat_str (n div 10) @ [char_of (48 + n mod 10)])"

declare nat_str.simps [simp del]

definition int_str :: "int \<Rightarrow> string" where
  "int_str i = (if i < 0 then CHR ''-'' # nat_str (nat (- i)) else nat_str (nat i))"

lemma lower_char_cases: "lower_char c = c \<or> (97 \<le> (of_char (lower_char c) :: nat) \<and> (of_char (lower_char c) :: nat) \<le> 122)"
  by (auto simp: lower_char_def Let_def)

lemma lower_char_idem [simp, py]: "lower_char (lower_char c) = lower_char c"
proof (cases "65 \<le> (of_char c :: nat) \<and> (of_char c :: nat) \<le> 90")
  case True
  then have "(of_char (lower_char c) :: nat) = of_char c + 32"
    by (simp add: lower_char_def)
  with True show ?thesis by (simp add: lower_char_def [of "lower_char c"])
next
  case False
  then have "lower_char c = c" by (auto simp: lower_char_def)
  then show ?thesis by simp
qed

lemma upper_char_idem [simp, py]: "upper_char (upper_char c) = upper_char c"
proof (cases "97 \<le> (of_char c :: nat) \<and> (of_char c :: nat) \<le> 122")
  case True
  then have "(of_char (upper_char c) :: nat) = (of_char c - 32) mod 256"
    by (simp add: upper_char_def)
  also have "\<dots> = of_char c - 32"
    using True by (intro mod_less) linarith
  finally have "(of_char (upper_char c) :: nat) = of_char c - 32" .
  with True show ?thesis by (auto simp: upper_char_def [of "upper_char c"] Let_def)
next
  case False
  then have "upper_char c = c" by (auto simp: upper_char_def)
  then show ?thesis by simp
qed

lemma py_lower_idem [simp, py]: "py_lower (py_lower s) = py_lower s"
  by (simp add: py_lower_def)

lemma py_upper_idem [simp, py]: "py_upper (py_upper s) = py_upper s"
  by (simp add: py_upper_def)

lemma py_lower_Nil [simp]: "py_lower [] = []" and py_upper_Nil [simp]: "py_upper [] = []"
  and py_strip_Nil [simp]: "py_strip [] = []"
  by (simp_all add: py_lower_def py_upper_def py_strip_def)

lemma str_or_nonempty [simp]: "s \<noteq> [] \<Longrightarrow> str_or s d = s" and str_or_Nil [simp]: "str_or [] d = d"
  by (simp_all add: str_or_def)

section \<open>JSON\<close>

datatype json = JNull | JBool bool | JInt int | JStr string
  | JList "json list" | JObj "(string \<times> json) list"

type_synonym payload = "(string \<times> json) list"

text \<open>\<open>bool(payload.get(key))\<close>\<close>

fun json_truthy :: "json \<Rightarrow> bool" where
  "json_truthy JNull = False"
| "json_truthy (JBool b) = b"
| "json_truthy (JInt i) = (i \<noteq> 0)"
| "json_truthy (JStr s) = (s \<noteq> [])"
| "json_truthy (JList xs) = (xs \<noteq> [])"
| "json_truthy (JObj kvs) = (kvs \<noteq> [])"

definition truthy_key :: "payload \<Rightarrow> string \<Rightarrow> bool" where
  "truthy_key p k = (case map_of p k of None \<Rightarrow> False | Some v \<Rightarrow> json_truthy v)"

text \<open>\<open>d.setdefault(key, value)\<close>\<close>

definition set_default :: "string \<Rightarrow> json \<Rightarrow> payload \<Rightarrow> payload" where
  "set_default k v p = (case map_of p k of None \<Rightarrow> p @ [(k, v)] | Some _ \<Rightarrow> p)"

lemma map_of_set_default:
  "map_of (set_default k v p) j
     = (if j = k \<and> map_of p k = None then Some v else map_of p j)"
  by (auto simp: set_default_def map_add_def split: option.splits)

end
