(* ===== verification/Command_Db.thy ===== *)
theory Command_Db
  imports Prelude
begin

text \<open>
  The tables behind \<open>backend/app/services/strategy_command_repository.py\<close>
  (\<open>migrations/20260713_process_roles_and_strategy_commands.sql\<close>): durable lifecycle commands,
  runtime leases of strategies, process leases and worker heartbeats.  Columns that no code of
  the repository reads (\<open>created_at\<close>) are left out; \<open>VARCHAR\<close> length limits are not modelled.
\<close>

datatype cmd_type = Start | Stop | Restart | Reconcile

datatype cmd_status = Pending | Processing | Succeeded | Failed | Cancelled

definition active_statuses :: "cmd_status set" where
  "active_statuses = {Pending, Processing}"

text \<open>\<open>TERMINAL_COMMAND_STATUSES\<close>\<close>

definition terminal_status :: "cmd_status \<Rightarrow> bool" where
  "terminal_status s = (s \<in> {Succeeded, Failed, Cancelled})"

record cmd_row =
  c_id :: int
  c_strategy_id :: int
  c_user_id :: int
  c_type :: cmd_type
  c_status :: cmd_status
  c_key :: string
  c_payload :: payload
  c_result :: payload
  c_error :: string
  c_attempts :: int
  c_available_at :: int
  c_claimed_by :: string
  c_claimed_at :: "int option"
  c_lease :: "int option"
  c_completed_at :: "int option"
  c_updated_at :: int

record lease_row =
  l_strategy :: int
  l_owner :: string
  l_token :: int
  l_expires :: int
  l_heartbeat :: int

record process_lease_row =
  p_key :: string
  p_owner :: string
  p_expires :: int
  p_heartbeat :: int

datatype worker_status = WRunning | WStopped

record heartbeat_row =
  h_worker :: string
  h_role :: string
  h_status :: worker_status
  h_metadata :: payload
  h_started_at :: int
  h_heartbeat_at :: int

record cmd_db =
  commands :: "cmd_row list"
  next_command_id :: int
  leases :: "lease_row list"
  process_leases :: "process_lease_row list"
  heartbeats :: "heartbeat_row list"

definition empty_db :: cmd_db where
  "empty_db = \<lparr>commands = [], next_command_id = 1, leases = [], process_leases = [], heartbeats = []\<rparr>"

definition is_active :: "cmd_row \<Rightarrow> bool" where
  "is_active r = (c_status r = Pending \<or> c_status r = Processing)"

lemma not_active_terminal: "is_active r \<longleftrightarrow> \<not> terminal_status (c_status r)"
  by (cases "c_status r") (auto simp: is_active_def terminal_status_def)

end
