(* ===== verification/Leases.thy ===== *)
theory Leases
  imports Command_Db
begin

text \<open>
  Leases: \<open>acquire_strategy_lease\<close>, \<open>renew_strategy_lease\<close>, \<open>release_strategy_lease\<close>,
  \<open>has_active_strategy_lease\<close> and their process counterparts of
  \<open>StrategyCommandRepository\<close>.  Each method is one SQL statement in one transaction; \<open>now\<close> is
  the transaction's \<open>NOW()\<close>.

  Both families obey one contract, the locale \<open>lease_service\<close>: an acquisition succeeds exactly
  when the key is free, held by the same owner or expired; a renewal exactly when the owner
  holds an unexpired lease.  Mutual exclusion over arbitrary sequences of operations is proved
  once from the contract and holds for both tables by interpretation.
\<close>

section \<open>The operations\<close>

definition lease_of :: "cmd_db \<Rightarrow> int \<Rightarrow> lease_row option" where
  "lease_of db sid = find (\<lambda>l. l_strategy l = sid) (leases db)"

definition has_active_strategy_lease :: "int \<Rightarrow> int \<Rightarrow> cmd_db \<Rightarrow> bool" where
  "has_active_strategy_lease sid now db =
     (find (\<lambda>l. l_strategy l = sid \<and> now \<le> l_expires l) (leases db) \<noteq> None)"

text \<open>\<open>INSERT .. ON CONFLICT (strategy_id) DO UPDATE .. WHERE .. RETURNING fencing_token\<close>\<close>

definition acquire_strategy_lease ::
  "int \<Rightarrow> string \<Rightarrow> int \<Rightarrow> int \<Rightarrow> cmd_db \<Rightarrow> int option \<times> cmd_db" where
  "acquire_strategy_lease sid owner secs now db =
     (case lease_of db sid of
        None \<Rightarrow>
          (Some 1, db\<lparr>leases := leases db @
             [\<lparr>l_strategy = sid, l_owner = owner, l_token = 1,
               l_expires = now + secs * second, l_heartbeat = now\<rparr>]\<rparr>)
      | Some l \<Rightarrow>
          if l_owner l = owner \<or> l_expires l < now then
            let token = (if l_owner l = owner then l_token l else l_token l + 1) in
            (Some token, db\<lparr>leases := upd_where (\<lambda>r. l_strategy r = sid)
               (\<lambda>r. r\<lparr>l_owner := owner, l_token := token,
                       l_expires := now + secs * second, l_heartbeat := now\<rparr>) (leases db)\<rparr>)
          else (None, db))"

definition renewable :: "int \<Rightarrow> string \<Rightarrow> int \<Rightarrow> lease_row \<Rightarrow> bool" where
  "renewable sid owner now l = (l_strategy l = sid \<and> l_owner l = owner \<and> now \<le> l_expires l)"

definition renew_strategy_lease ::
  "int \<Rightarrow> string \<Rightarrow> int \<Rightarrow> int \<Rightarrow> cmd_db \<Rightarrow> bool \<times> cmd_db" where
  "renew_strategy_lease sid owner secs now db =
     (count_where (renewable sid owner now) (leases db) = 1,
      db\<lparr>leases := upd_where (renewable sid owner now)
           (\<lambda>r. r\<lparr>l_expires := now + secs * second, l_heartbeat := now\<rparr>) (leases db)\<rparr>)"

definition release_strategy_lease :: "int \<Rightarrow> string \<Rightarrow> cmd_db \<Rightarrow> cmd_db" where
  "release_strategy_lease sid owner db =
     db\<lparr>leases := delete_where (\<lambda>l. l_strategy l = sid \<and> l_owner l = owner) (leases db)\<rparr>"

definition process_lease_of :: "cmd_db \<Rightarrow> string \<Rightarrow> process_lease_row option" where
  "process_lease_of db k = find (\<lambda>l. p_key l = k) (process_leases db)"

definition acquire_process_lease ::
  "string \<Rightarrow> string \<Rightarrow> int \<Rightarrow> int \<Rightarrow> cmd_db \<Rightarrow> bool \<times> cmd_db" where
  "acquire_process_lease k owner secs now db =
     (case process_lease_of db k of
        None \<Rightarrow>
          (True, db\<lparr>process_leases := process_leases db @
             [\<lparr>p_key = k, p_owner = owner, p_expires = now + secs * second, p_heartbeat = now\<rparr>]\<rparr>)
      | Some l \<Rightarrow>
          if p_owner l = owner \<or> p_expires l < now then
            (True, db\<lparr>process_leases := upd_where (\<lambda>r. p_key r = k)
               (\<lambda>r. r\<lparr>p_owner := owner, p_expires := now + secs * second, p_heartbeat := now\<rparr>)
               (process_leases db)\<rparr>)
          else (False, db))"

definition process_renewable :: "string \<Rightarrow> string \<Rightarrow> int \<Rightarrow> process_lease_row \<Rightarrow> bool" where
  "process_renewable k owner now l = (p_key l = k \<and> p_owner l = owner \<and> now \<le> p_expires l)"

definition renew_process_lease ::
  "string \<Rightarrow> string \<Rightarrow> int \<Rightarrow> int \<Rightarrow> cmd_db \<Rightarrow> bool \<times> cmd_db" where
  "renew_process_lease k owner secs now db =
     (count_where (process_renewable k owner now) (process_leases db) = 1,
      db\<lparr>process_leases := upd_where (process_renewable k owner now)
           (\<lambda>r. r\<lparr>p_expires := now + secs * second, p_heartbeat := now\<rparr>) (process_leases db)\<rparr>)"

definition release_process_lease :: "string \<Rightarrow> string \<Rightarrow> cmd_db \<Rightarrow> cmd_db" where
  "release_process_lease k owner db =
     db\<lparr>process_leases := delete_where (\<lambda>l. p_key l = k \<and> p_owner l = owner) (process_leases db)\<rparr>"

text \<open>The primary keys of the two tables.\<close>

definition leases_ok :: "cmd_db \<Rightarrow> bool" where
  "leases_ok db = (distinct (map l_strategy (leases db)) \<and> distinct (map p_key (process_leases db)))"

section \<open>The contract\<close>

datatype ('k, 'o) lease_op = Acquire 'k 'o int int | Renew 'k 'o int int | Release 'k 'o int

fun op_owner :: "('k, 'o) lease_op \<Rightarrow> 'o" where
  "op_owner (Acquire k ow secs now) = ow"
| "op_owner (Renew k ow secs now) = ow"
| "op_owner (Release k ow now) = ow"

fun op_time :: "('k, 'o) lease_op \<Rightarrow> int" where
  "op_time (Acquire k ow secs now) = now"
| "op_time (Renew k ow secs now) = now"
| "op_time (Release k ow now) = now"

locale lease_service =
  fixes holder :: "'db \<Rightarrow> 'k \<Rightarrow> ('o \<times> int) option"
    and acquire :: "'k \<Rightarrow> 'o \<Rightarrow> int \<Rightarrow> int \<Rightarrow> 'db \<Rightarrow> bool \<times> 'db"
    and renew :: "'k \<Rightarrow> 'o \<Rightarrow> int \<Rightarrow> int \<Rightarrow> 'db \<Rightarrow> bool \<times> 'db"
    and release :: "'k \<Rightarrow> 'o \<Rightarrow> 'db \<Rightarrow> 'db"
    and invar :: "'db \<Rightarrow> bool"
  assumes acquire_iff: "invar db \<Longrightarrow> fst (acquire k ow secs now db)
        \<longleftrightarrow> (\<forall>h e. holder db k = Some (h, e) \<longrightarrow> h = ow \<or> e < now)"
    and acquire_holder: "invar db \<Longrightarrow> holder (snd (acquire k ow secs now db)) j
        = (if j = k \<and> fst (acquire k ow secs now db) then Some (ow, now + secs * second)
           else holder db j)"
    and renew_iff: "invar db \<Longrightarrow> fst (renew k ow secs now db)
        \<longleftrightarrow> (\<exists>e. holder db k = Some (ow, e) \<and> now \<le> e)"
    and renew_holder: "invar db \<Longrightarrow> holder (snd (renew k ow secs now db)) j
        = (if j = k \<and> fst (renew k ow secs now db) then Some (ow, now + secs * second)
           else holder db j)"
    and release_holder: "invar db \<Longrightarrow> holder (release k ow db) j
        = (if j = k \<and> (\<exists>e. holder db k = Some (ow, e)) then None else holder db j)"
    and invar_acquire: "invar db \<Longrightarrow> invar (snd (acquire k ow secs now db))"
    and invar_renew: "invar db \<Longrightarrow> invar (snd (renew k ow secs now db))"
    and invar_release: "invar db \<Longrightarrow> invar (release k ow db)"
begin

fun apply_op :: "('k, 'o) lease_op \<Rightarrow> 'db \<Rightarrow> 'db" where
  "apply_op (Acquire k ow secs now) db = snd (acquire k ow secs now db)"
| "apply_op (Renew k ow secs now) db = snd (renew k ow secs now db)"
| "apply_op (Release k ow now) db = release k ow db"

lemma invar_apply_op: "invar db \<Longrightarrow> invar (apply_op op db)"
  by (cases op) (simp_all add: invar_acquire invar_renew invar_release)

lemma invar_fold: "invar db \<Longrightarrow> invar (fold apply_op ops db)"
  by (induction ops arbitrary: db) (simp_all add: invar_apply_op)

lemma apply_op_keeps:
  assumes "invar db" and "holder db k = Some (ow, e)"
    and "op_owner op \<noteq> ow" and "op_time op \<le> e"
  shows "holder (apply_op op db) k = Some (ow, e)"
  using assms by (cases op) (auto simp: acquire_holder acquire_iff renew_holder renew_iff release_holder)

text \<open>While a lease runs, no sequence of operations of other owners takes it away.\<close>

lemma held_until_expiry:
  assumes "invar db" and "holder db k = Some (ow, e)"
    and "\<forall>op \<in> set ops. op_owner op \<noteq> ow \<and> op_time op \<le> e"
  shows "holder (fold apply_op ops db) k = Some (ow, e)"
  using assms by (induction ops arbitrary: db) (simp_all add: invar_apply_op apply_op_keeps)

lemma exclusive:
  assumes inv: "invar db" and acq: "fst (acquire k ow secs now db)"
    and ops: "\<forall>op \<in> set ops. op_owner op \<noteq> ow \<and> op_time op \<le> now + secs * second"
    and other: "b \<noteq> ow" and time: "t \<le> now + secs * second"
  shows "\<not> fst (acquire k b s t (fold apply_op ops (snd (acquire k ow secs now db))))"
proof -
  have "holder (fold apply_op ops (snd (acquire k ow secs now db))) k = Some (ow, now + secs * second)"
    using inv acq ops by (intro held_until_expiry) (simp_all add: acquire_holder invar_acquire)
  then show ?thesis
    using inv other time by (auto simp: acquire_iff invar_fold invar_acquire)
qed

lemma takeover_after_expiry:
  "invar db \<Longrightarrow> holder db k = Some (h, e) \<Longrightarrow> e < now
   \<Longrightarrow> fst (acquire k ow secs now db) \<and> \<not> fst (renew k h s now db)"
  by (auto simp: acquire_iff renew_iff)

end

section \<open>The two tables provide it\<close>

definition strategy_holder :: "cmd_db \<Rightarrow> int \<Rightarrow> (string \<times> int) option" where
  "strategy_holder db sid = map_option (\<lambda>l. (l_owner l, l_expires l)) (lease_of db sid)"

definition process_holder :: "cmd_db \<Rightarrow> string \<Rightarrow> (string \<times> int) option" where
  "process_holder db k = map_option (\<lambda>l. (p_owner l, p_expires l)) (process_lease_of db k)"

definition acquire_runtime_lease :: "int \<Rightarrow> string \<Rightarrow> int \<Rightarrow> int \<Rightarrow> cmd_db \<Rightarrow> bool \<times> cmd_db" where
  "acquire_runtime_lease sid owner secs now db =
     (let (token, db') = acquire_strategy_lease sid owner secs now db in (token \<noteq> None, db'))"

lemma find_other_append: "\<not> p r \<Longrightarrow> find p (t @ [r]) = find p t"
  by (induction t) auto

lemma count_where_key:
  assumes "distinct (map key t)"
  shows "count_where (\<lambda>r. key r = k \<and> q r) t
       = (case find (\<lambda>r. key r = k) t of None \<Rightarrow> 0 | Some r \<Rightarrow> if q r then 1 else 0)"
  using assms
proof (induction t)
  case Nil
  then show ?case by simp
next
  case (Cons r t)
  have "key r = k \<Longrightarrow> find (\<lambda>x. key x = k) t = None"
    using Cons.prems by (auto simp: find_None_iff image_iff)
  with Cons show ?case by auto
qed

lemma lease_of_upd:
  assumes "\<And>r. p r \<Longrightarrow> l_strategy (f r) = l_strategy r"
  shows "lease_of (db\<lparr>leases := upd_where p f (leases db)\<rparr>) j
       = map_option (\<lambda>r. if p r then f r else r) (lease_of db j)"
  using assms by (simp add: lease_of_def find_key_upd_where)

lemma process_lease_of_upd:
  assumes "\<And>r. p r \<Longrightarrow> p_key (f r) = p_key r"
  shows "process_lease_of (db\<lparr>process_leases := upd_where p f (process_leases db)\<rparr>) j
       = map_option (\<lambda>r. if p r then f r else r) (process_lease_of db j)"
  using assms by (simp add: process_lease_of_def find_key_upd_where)

lemma lease_of_key: "lease_of db j = Some l \<Longrightarrow> l_strategy l = j \<and> l \<in> set (leases db)"
  unfolding lease_of_def by (auto dest: find_SomeD)

lemma process_lease_of_key:
  "process_lease_of db j = Some l \<Longrightarrow> p_key l = j \<and> l \<in> set (process_leases db)"
  unfolding process_lease_of_def by (auto dest: find_SomeD)

lemma count_renewable:
  assumes "distinct (map l_strategy (leases db))"
  shows "count_where (renewable sid ow now) (leases db)
       = (case lease_of db sid of None \<Rightarrow> 0
          | Some l \<Rightarrow> if l_owner l = ow \<and> now \<le> l_expires l then 1 else 0)"
proof -
  have "renewable sid ow now = (\<lambda>l. l_strategy l = sid \<and> (l_owner l = ow \<and> now \<le> l_expires l))"
    by (simp add: renewable_def fun_eq_iff)
  then show ?thesis using count_where_key [OF assms] by (simp add: lease_of_def)
qed

lemma count_process_renewable:
  assumes "distinct (map p_key (process_leases db))"
  shows "count_where (process_renewable k ow now) (process_leases db)
       = (case process_lease_of db k of None \<Rightarrow> 0
          | Some l \<Rightarrow> if p_owner l = ow \<and> now \<le> p_expires l then 1 else 0)"
proof -
  have "process_renewable k ow now = (\<lambda>l. p_key l = k \<and> (p_owner l = ow \<and> now \<le> p_expires l))"
    by (simp add: process_renewable_def fun_eq_iff)
  then show ?thesis using count_where_key [OF assms] by (simp add: process_lease_of_def)
qed

interpretation runtime: lease_service strategy_holder acquire_runtime_lease renew_strategy_lease
  release_strategy_lease leases_ok
proof (unfold_locales, goal_cases)
  case (1 db k ow secs now)
  then show ?case
    by (auto simp: acquire_runtime_lease_def acquire_strategy_lease_def strategy_holder_def Let_def
             split: option.splits)
next
  case (2 db k ow secs now j)
  show ?case
  proof (cases "lease_of db k")
    case None
    then show ?thesis
      by (auto simp: acquire_runtime_lease_def acquire_strategy_lease_def strategy_holder_def
          lease_of_def find_append find_other_append split: option.splits)
  next
    case (Some l)
    then show ?thesis
      by (cases "lease_of db j")
         (auto simp: acquire_runtime_lease_def acquire_strategy_lease_def strategy_holder_def
          Let_def lease_of_upd dest: lease_of_key)
  qed
next
  case (3 db k ow secs now)
  then show ?case
    by (auto simp: renew_strategy_lease_def strategy_holder_def leases_ok_def count_renewable
        split: option.splits)
next
  case (4 db k ow secs now j)
  then have d: "distinct (map l_strategy (leases db))" by (simp add: leases_ok_def)
  show ?case
  proof (cases "lease_of db j")
    case None
    then show ?thesis
      by (auto simp: renew_strategy_lease_def strategy_holder_def renewable_def lease_of_upd
          count_renewable [OF d])
  next
    case (Some a)
    with lease_of_key [OF Some] show ?thesis
      by (auto simp: renew_strategy_lease_def strategy_holder_def renewable_def lease_of_upd
          count_renewable [OF d] split: option.splits)
  qed
next
  case (5 db k ow j)
  then have d: "distinct (map l_strategy (leases db))" by (simp add: leases_ok_def)
  have del: "lease_of (release_strategy_lease k ow db) j
      = (case lease_of db j of None \<Rightarrow> None
         | Some l \<Rightarrow> if l_strategy l = k \<and> l_owner l = ow then None else Some l)"
    by (simp add: release_strategy_lease_def lease_of_def find_key_delete_where [OF d])
  show ?case
  proof (cases "lease_of db j")
    case None
    then show ?thesis by (auto simp: strategy_holder_def del)
  next
    case (Some a)
    with lease_of_key [OF Some] show ?thesis by (auto simp: strategy_holder_def del)
  qed
next
  case (6 db k ow secs now)
  then show ?case
    by (auto simp: acquire_runtime_lease_def acquire_strategy_lease_def leases_ok_def Let_def
        lease_of_def map_upd_where_same find_None_iff split: option.splits)
next
  case (7 db k ow secs now)
  then show ?case by (simp add: renew_strategy_lease_def leases_ok_def map_upd_where_same)
next
  case (8 db k ow)
  then show ?case by (simp add: release_strategy_lease_def leases_ok_def distinct_key_delete_where)
qed

interpretation process: lease_service process_holder acquire_process_lease renew_process_lease
  release_process_lease leases_ok
proof (unfold_locales, goal_cases)
  case (1 db k ow secs now)
  then show ?case
    by (auto simp: acquire_process_lease_def process_holder_def split: option.splits)
next
  case (2 db k ow secs now j)
  show ?case
  proof (cases "process_lease_of db k")
    case None
    then show ?thesis
      by (auto simp: acquire_process_lease_def process_holder_def
          process_lease_of_def find_append find_other_append split: option.splits)
  next
    case (Some l)
    then show ?thesis
      by (cases "process_lease_of db j")
         (auto simp: acquire_process_lease_def process_holder_def process_lease_of_upd
          dest: process_lease_of_key)
  qed
next
  case (3 db k ow secs now)
  then show ?case
    by (auto simp: renew_process_lease_def process_holder_def leases_ok_def count_process_renewable
        split: option.splits)
next
  case (4 db k ow secs now j)
  then have d: "distinct (map p_key (process_leases db))" by (simp add: leases_ok_def)
  show ?case
  proof (cases "process_lease_of db j")
    case None
    then show ?thesis
      by (auto simp: renew_process_lease_def process_holder_def process_renewable_def
          process_lease_of_upd count_process_renewable [OF d])
  next
    case (Some a)
    with process_lease_of_key [OF Some] show ?thesis
      by (auto simp: renew_process_lease_def process_holder_def process_renewable_def
          process_lease_of_upd count_process_renewable [OF d] split: option.splits)
  qed
next
  case (5 db k ow j)
  then have d: "distinct (map p_key (process_leases db))" by (simp add: leases_ok_def)
  have del: "process_lease_of (release_process_lease k ow db) j
      = (case process_lease_of db j of None \<Rightarrow> None
         | Some l \<Rightarrow> if p_key l = k \<and> p_owner l = ow then None else Some l)"
    by (simp add: release_process_lease_def process_lease_of_def find_key_delete_where [OF d])
  show ?case
  proof (cases "process_lease_of db j")
    case None
    then show ?thesis by (auto simp: process_holder_def del)
  next
    case (Some a)
    with process_lease_of_key [OF Some] show ?thesis by (auto simp: process_holder_def del)
  qed
next
  case (6 db k ow secs now)
  then show ?case
    by (auto simp: acquire_process_lease_def leases_ok_def process_lease_of_def
        map_upd_where_same find_None_iff split: option.splits)
next
  case (7 db k ow secs now)
  then show ?case by (simp add: renew_process_lease_def leases_ok_def map_upd_where_same)
next
  case (8 db k ow)
  then show ?case by (simp add: release_process_lease_def leases_ok_def distinct_key_delete_where)
qed

end
