(* ===== verification/Commands.thy ===== *)
theory Commands
  imports Leases
begin

text \<open>
  Durable lifecycle commands: \<open>enqueue\<close>, \<open>claim_next\<close>, \<open>complete\<close>, \<open>fail\<close>,
  \<open>fail_exhausted_commands\<close>, \<open>cleanup_runtime_metadata\<close>, \<open>get\<close> and the worker heartbeat of
  \<open>StrategyCommandRepository\<close>.

  The invariant \<open>commands_ok\<close> is what the table's constraints and the methods keep together:
  primary and idempotency keys are unique, a strategy has at most one active command of a kind,
  a processing command has a lease, attempts stay within the bound the workers claim with.
\<close>

section \<open>The value the repository returns\<close>

record strategy_command =
  sc_id :: int
  sc_strategy_id :: int
  sc_user_id :: int
  sc_type :: cmd_type
  sc_status :: cmd_status
  sc_key :: string
  sc_payload :: payload
  sc_result :: payload
  sc_attempts :: int
  sc_error :: string

definition from_row :: "cmd_row \<Rightarrow> strategy_command" where
  "from_row r = \<lparr>sc_id = c_id r, sc_strategy_id = c_strategy_id r, sc_user_id = c_user_id r,
     sc_type = c_type r, sc_status = c_status r, sc_key = c_key r, sc_payload = c_payload r,
     sc_result = c_result r, sc_attempts = c_attempts r, sc_error = c_error r\<rparr>"

datatype cmd_error = UnsupportedCommand string | UniqueViolation

section \<open>Enqueue\<close>

definition parse_type :: "string \<Rightarrow> cmd_type option" where
  "parse_type s =
     (if s = ''start'' then Some Start else if s = ''stop'' then Some Stop
      else if s = ''restart'' then Some Restart else if s = ''reconcile'' then Some Reconcile
      else None)"

definition new_command :: "int \<Rightarrow> int \<Rightarrow> int \<Rightarrow> cmd_type \<Rightarrow> string \<Rightarrow> payload \<Rightarrow> int \<Rightarrow> cmd_row" where
  "new_command i sid uid ct key body now =
     \<lparr>c_id = i, c_strategy_id = sid, c_user_id = uid, c_type = ct, c_status = Pending, c_key = key,
      c_payload = body, c_result = [], c_error = [], c_attempts = 0, c_available_at = now,
      c_claimed_by = [], c_claimed_at = None, c_lease = None, c_completed_at = None,
      c_updated_at = now\<rparr>"

definition same_action :: "int \<Rightarrow> cmd_type \<Rightarrow> cmd_row \<Rightarrow> bool" where
  "same_action sid ct r = (c_strategy_id r = sid \<and> c_type r = ct \<and> is_active r)"

text \<open>
  The advisory lock serialises the enqueuers of one strategy, so the method is one step.  An
  active command of the same kind is returned instead of a new one; so is, whatever it is, the
  command that already has the idempotency key (\<open>ON CONFLICT .. DO UPDATE .. RETURNING\<close>, which
  has drawn an id from the sequence all the same).  \<open>uuid\<close> stands for \<open>uuid.uuid4().hex\<close>.
\<close>

definition enqueue ::
  "int \<Rightarrow> string \<Rightarrow> int \<Rightarrow> payload option \<Rightarrow> string option \<Rightarrow> string \<Rightarrow> int \<Rightarrow> cmd_db
   \<Rightarrow> cmd_error + (strategy_command \<times> cmd_db)" where
  "enqueue sid command_type uid payload key uuid now db =
     (let name = py_lower (py_strip command_type) in
      case parse_type name of
        None \<Rightarrow> Inl (UnsupportedCommand name)
      | Some ct \<Rightarrow>
          let k = str_or (opt_str key) uuid;
              body = (case payload of None \<Rightarrow> [] | Some p \<Rightarrow> p) in
          (case find_last (same_action sid ct) (commands db) of
             Some row \<Rightarrow> Inr (from_row row, db)
           | None \<Rightarrow>
               (case find (\<lambda>r. c_key r = k) (commands db) of
                  Some row \<Rightarrow> Inr (from_row row, db\<lparr>next_command_id := next_command_id db + 1\<rparr>)
                | None \<Rightarrow>
                    let row = new_command (next_command_id db) sid uid ct k body now in
                    Inr (from_row row, db\<lparr>commands := commands db @ [row],
                                           next_command_id := next_command_id db + 1\<rparr>))))"

section \<open>Claim\<close>

definition due :: "int \<Rightarrow> cmd_row \<Rightarrow> bool" where
  "due now r = ((c_status r = Pending \<and> c_available_at r \<le> now)
     \<or> (c_status r = Processing \<and> (case c_lease r of None \<Rightarrow> False | Some e \<Rightarrow> e < now)))"

definition lease_permits :: "string \<Rightarrow> int \<Rightarrow> cmd_db \<Rightarrow> cmd_row \<Rightarrow> bool" where
  "lease_permits owner now db r =
     (c_type r = Start \<or> c_type r = Reconcile \<or>
      (case lease_of db (c_strategy_id r) of
         None \<Rightarrow> True | Some l \<Rightarrow> l_owner l = owner \<or> l_expires l < now))"

definition claimable :: "string \<Rightarrow> int \<Rightarrow> int \<Rightarrow> cmd_db \<Rightarrow> cmd_row \<Rightarrow> bool" where
  "claimable owner max_attempts now db r =
     (c_attempts r < max_attempts \<and> due now r \<and> lease_permits owner now db r)"

definition claim_row :: "string \<Rightarrow> int \<Rightarrow> int \<Rightarrow> cmd_row \<Rightarrow> cmd_row" where
  "claim_row owner secs now r =
     r\<lparr>c_status := Processing, c_claimed_by := owner,
       c_claimed_at := (case c_claimed_at r of None \<Rightarrow> Some now | Some t \<Rightarrow> Some t),
       c_lease := Some (now + secs * second), c_attempts := c_attempts r + 1, c_updated_at := now\<rparr>"

text \<open>
  \<open>locked\<close> are the rows other transactions have locked at this moment: \<open>FOR UPDATE SKIP LOCKED\<close>
  passes over them.
\<close>

definition claim_next ::
  "string \<Rightarrow> int \<Rightarrow> int \<Rightarrow> (int \<Rightarrow> bool) \<Rightarrow> int \<Rightarrow> cmd_db \<Rightarrow> strategy_command option \<times> cmd_db" where
  "claim_next owner secs max_attempts locked now db =
     (case find (\<lambda>r. claimable owner max_attempts now db r \<and> \<not> locked (c_id r)) (commands db) of
        None \<Rightarrow> (None, db)
      | Some r \<Rightarrow>
          (Some (from_row (claim_row owner secs now r)),
           db\<lparr>commands := upd_where (\<lambda>x. c_id x = c_id r) (claim_row owner secs now) (commands db)\<rparr>))"

section \<open>Finish\<close>

definition finish_row :: "cmd_status \<Rightarrow> payload \<Rightarrow> string \<Rightarrow> int \<Rightarrow> cmd_row \<Rightarrow> cmd_row" where
  "finish_row status result error now r =
     r\<lparr>c_status := status, c_result := result, c_error := take 4000 error,
       c_completed_at := Some now, c_lease := None, c_updated_at := now\<rparr>"

definition finish_command :: "int \<Rightarrow> cmd_status \<Rightarrow> payload \<Rightarrow> string \<Rightarrow> int \<Rightarrow> cmd_db \<Rightarrow> cmd_db" where
  "finish_command cid status result error now db =
     db\<lparr>commands := upd_where (\<lambda>r. c_id r = cid) (finish_row status result error now) (commands db)\<rparr>"

definition complete :: "int \<Rightarrow> payload \<Rightarrow> int \<Rightarrow> cmd_db \<Rightarrow> cmd_db" where
  "complete cid result now db = finish_command cid Succeeded result [] now db"

definition retry_row :: "string \<Rightarrow> int \<Rightarrow> int \<Rightarrow> cmd_row \<Rightarrow> cmd_row" where
  "retry_row error delay now r =
     r\<lparr>c_status := Pending, c_error := take 4000 error, c_available_at := now + delay * second,
       c_lease := None, c_updated_at := now\<rparr>"

text \<open>
  The partial unique index \<open>idx_strategy_commands_active_action\<close> rejects the update when the
  command becomes active beside another active command of the same strategy and kind.
\<close>

definition action_clash :: "cmd_db \<Rightarrow> int \<Rightarrow> bool" where
  "action_clash db cid =
     (case find (\<lambda>r. c_id r = cid) (commands db) of
        None \<Rightarrow> False
      | Some r \<Rightarrow> list_ex (\<lambda>x. c_id x \<noteq> cid \<and> same_action (c_strategy_id r) (c_type r) x) (commands db))"

definition fail :: "int \<Rightarrow> string \<Rightarrow> int option \<Rightarrow> int \<Rightarrow> cmd_db \<Rightarrow> cmd_error + cmd_db" where
  "fail cid error retry_delay now db =
     (case retry_delay of
        Some delay \<Rightarrow>
          if action_clash db cid then Inl UniqueViolation
          else Inr (db\<lparr>commands := upd_where (\<lambda>r. c_id r = cid) (retry_row error delay now) (commands db)\<rparr>)
      | None \<Rightarrow> Inr (finish_command cid Failed [] error now db))"

definition get_command :: "int \<Rightarrow> cmd_db \<Rightarrow> strategy_command option" where
  "get_command cid db = map_option from_row (find (\<lambda>r. c_id r = cid) (commands db))"

section \<open>Housekeeping\<close>

definition exhausted :: "int \<Rightarrow> int \<Rightarrow> cmd_row \<Rightarrow> bool" where
  "exhausted max_attempts now r =
     (c_status r = Processing \<and> (case c_lease r of None \<Rightarrow> False | Some e \<Rightarrow> e < now)
      \<and> max_attempts \<le> c_attempts r)"

definition exhaust_row :: "int \<Rightarrow> cmd_row \<Rightarrow> cmd_row" where
  "exhaust_row now r =
     r\<lparr>c_status := Failed,
       c_error := str_or (c_error r) ''Command lease expired after maximum attempts.'',
       c_completed_at := Some now, c_lease := None, c_updated_at := now\<rparr>"

definition fail_exhausted_commands :: "int \<Rightarrow> int \<Rightarrow> cmd_db \<Rightarrow> int \<times> cmd_db" where
  "fail_exhausted_commands max_attempts now db =
     (count_where (exhausted max_attempts now) (commands db),
      db\<lparr>commands := upd_where (exhausted max_attempts now) (exhaust_row now) (commands db)\<rparr>)"

definition expired_command :: "int \<Rightarrow> int \<Rightarrow> cmd_row \<Rightarrow> bool" where
  "expired_command days now r =
     (terminal_status (c_status r)
      \<and> (case c_completed_at r of None \<Rightarrow> False | Some t \<Rightarrow> t < now - days * day))"

definition cleanup_runtime_metadata ::
  "int \<Rightarrow> int \<Rightarrow> int \<Rightarrow> cmd_db \<Rightarrow> (int \<times> int \<times> int \<times> int) \<times> cmd_db" where
  "cleanup_runtime_metadata command_days heartbeat_days now db =
     (let pc = expired_command command_days now;
          ph = (\<lambda>h. h_heartbeat_at h < now - heartbeat_days * day);
          pp = (\<lambda>l. p_expires l < now - day);
          pl = (\<lambda>l. l_expires l < now - day) in
      ((count_where pc (commands db), count_where ph (heartbeats db),
        count_where pp (process_leases db), count_where pl (leases db)),
       db\<lparr>commands := delete_where pc (commands db), heartbeats := delete_where ph (heartbeats db),
          process_leases := delete_where pp (process_leases db),
          leases := delete_where pl (leases db)\<rparr>))"

definition record_worker_heartbeat :: "string \<Rightarrow> string \<Rightarrow> payload \<Rightarrow> int \<Rightarrow> cmd_db \<Rightarrow> cmd_db" where
  "record_worker_heartbeat worker role metadata now db =
     (case find (\<lambda>h. h_worker h = worker) (heartbeats db) of
        None \<Rightarrow> db\<lparr>heartbeats := heartbeats db @
          [\<lparr>h_worker = worker, h_role = role, h_status = WRunning, h_metadata = metadata,
            h_started_at = now, h_heartbeat_at = now\<rparr>]\<rparr>
      | Some _ \<Rightarrow> db\<lparr>heartbeats := upd_where (\<lambda>h. h_worker h = worker)
          (\<lambda>h. h\<lparr>h_role := role, h_status := WRunning, h_metadata := metadata,
                  h_heartbeat_at := now\<rparr>) (heartbeats db)\<rparr>)"

definition mark_worker_stopped :: "string \<Rightarrow> int \<Rightarrow> cmd_db \<Rightarrow> cmd_db" where
  "mark_worker_stopped worker now db =
     db\<lparr>heartbeats := upd_where (\<lambda>h. h_worker h = worker)
        (\<lambda>h. h\<lparr>h_status := WStopped, h_heartbeat_at := now\<rparr>) (heartbeats db)\<rparr>"

section \<open>The invariant\<close>

definition one_active :: "cmd_row list \<Rightarrow> bool" where
  "one_active t = (\<forall>r \<in> set t. \<forall>s \<in> set t.
     is_active r \<and> same_action (c_strategy_id r) (c_type r) s \<longrightarrow> c_id r = c_id s)"

definition row_ok :: "int \<Rightarrow> cmd_row \<Rightarrow> bool" where
  "row_ok m r = (0 \<le> c_attempts r \<and> c_attempts r \<le> m
     \<and> (c_status r = Processing \<longleftrightarrow> c_lease r \<noteq> None)
     \<and> (c_status r = Processing \<longrightarrow> 0 < c_attempts r \<and> c_claimed_at r \<noteq> None)
     \<and> (terminal_status (c_status r) \<longrightarrow> c_completed_at r \<noteq> None))"

definition commands_ok :: "int \<Rightarrow> cmd_db \<Rightarrow> bool" where
  "commands_ok m db = (sorted_wrt (<) (map c_id (commands db)) \<and> distinct (map c_key (commands db))
     \<and> (\<forall>r \<in> set (commands db). c_id r < next_command_id db)
     \<and> one_active (commands db) \<and> (\<forall>r \<in> set (commands db). row_ok m r))"

lemma commands_ok_parts:
  assumes "commands_ok m db"
  shows "sorted_wrt (<) (map c_id (commands db))" and "distinct (map c_key (commands db))"
    and "\<forall>r \<in> set (commands db). c_id r < next_command_id db"
    and "one_active (commands db)" and "\<forall>r \<in> set (commands db). row_ok m r"
  using assms by (simp_all add: commands_ok_def)

lemma same_action_self [simp]: "same_action (c_strategy_id r) (c_type r) r \<longleftrightarrow> is_active r"
  by (simp add: same_action_def)

text \<open>An update that keeps the keys, and wakes no terminal command, keeps the invariant.\<close>

definition keeps_identity :: "(cmd_row \<Rightarrow> cmd_row) \<Rightarrow> bool" where
  "keeps_identity f = (\<forall>r. c_id (f r) = c_id r \<and> c_key (f r) = c_key r
     \<and> c_strategy_id (f r) = c_strategy_id r \<and> c_type (f r) = c_type r)"

lemma keeps_identity_rows [simp]:
  "keeps_identity (claim_row owner secs now)" "keeps_identity (finish_row st res e now)"
  "keeps_identity (retry_row e d now)" "keeps_identity (exhaust_row now)"
  by (simp_all add: keeps_identity_def claim_row_def finish_row_def retry_row_def exhaust_row_def)

lemma keeps_identityD:
  "keeps_identity f \<Longrightarrow> c_id (f r) = c_id r" "keeps_identity f \<Longrightarrow> c_key (f r) = c_key r"
  "keeps_identity f \<Longrightarrow> c_strategy_id (f r) = c_strategy_id r"
  "keeps_identity f \<Longrightarrow> c_type (f r) = c_type r"
  by (simp_all add: keeps_identity_def)

lemma one_activeD:
  "one_active t \<Longrightarrow> r \<in> set t \<Longrightarrow> s \<in> set t \<Longrightarrow> is_active r \<Longrightarrow> is_active s
   \<Longrightarrow> c_strategy_id s = c_strategy_id r \<Longrightarrow> c_type s = c_type r \<Longrightarrow> c_id r = c_id s"
  unfolding one_active_def same_action_def by blast

lemma one_active_upd:
  assumes one: "one_active t" and f: "keeps_identity f"
    and wake: "\<And>r s. \<lbrakk>r \<in> set t; p r; is_active (f r); s \<in> set t;
                 same_action (c_strategy_id r) (c_type r) s\<rbrakk> \<Longrightarrow> c_id s = c_id r"
    and same: "\<And>r s. \<lbrakk>r \<in> set t; s \<in> set t; p r; p s; is_active (f r); is_active (f s);
                 c_strategy_id r = c_strategy_id s; c_type r = c_type s\<rbrakk> \<Longrightarrow> c_id r = c_id s"
  shows "one_active (upd_where p f t)"
  unfolding one_active_def
proof (intro ballI impI)
  note id = keeps_identityD [OF f]
  fix r' s' assume r': "r' \<in> set (upd_where p f t)" and s': "s' \<in> set (upd_where p f t)"
    and act: "is_active r' \<and> same_action (c_strategy_id r') (c_type r') s'"
  obtain r s where r: "r \<in> set t" "r' = (if p r then f r else r)"
    and s: "s \<in> set t" "s' = (if p s then f s else s)"
    using r' s' by (auto simp: set_upd_where)
  have "c_id r = c_id s"
  proof (cases "p r"; cases "p s")
    assume "p r" "p s"
    then show ?thesis using act r s same [of r s] by (simp add: same_action_def id)
  next
    assume "p r" "\<not> p s"
    then show ?thesis using act r s wake [of r s] by (simp add: same_action_def id)
  next
    assume "\<not> p r" "p s"
    then show ?thesis using act r s wake [of s r] by (simp add: same_action_def id)
  next
    assume "\<not> p r" "\<not> p s"
    then show ?thesis using act r s by (intro one_activeD [OF one]) (simp_all add: same_action_def)
  qed
  then show "c_id r' = c_id s'" using r s by (auto simp: id)
qed

lemma one_active_upd_quiet:
  assumes one: "one_active t" and f: "keeps_identity f"
    and quiet: "\<And>r. p r \<Longrightarrow> is_active (f r) \<Longrightarrow> is_active r"
  shows "one_active (upd_where p f t)"
proof (rule one_active_upd [OF one f])
  fix r s assume "r \<in> set t" "p r" "is_active (f r)" "s \<in> set t" "same_action (c_strategy_id r) (c_type r) s"
  then show "c_id s = c_id r"
    by (intro one_activeD [OF one, symmetric]) (simp_all add: same_action_def quiet)
next
  fix r s assume "r \<in> set t" "s \<in> set t" "p r" "p s" "is_active (f r)" "is_active (f s)"
    "c_strategy_id r = c_strategy_id s" "c_type r = c_type s"
  then show "c_id r = c_id s" by (intro one_activeD [OF one]) (simp_all add: quiet)
qed

lemma commands_ok_upd:
  assumes ok: "commands_ok m db" and f: "keeps_identity f"
    and one: "one_active (upd_where p f (commands db))"
    and row: "\<And>r. p r \<Longrightarrow> row_ok m r \<Longrightarrow> row_ok m (f r)"
  shows "commands_ok m (db\<lparr>commands := upd_where p f (commands db)\<rparr>)"
proof -
  have "map c_id (upd_where p f (commands db)) = map c_id (commands db)"
    "map c_key (upd_where p f (commands db)) = map c_key (commands db)"
    by (simp_all add: map_upd_where_same keeps_identityD [OF f])
  moreover have "\<forall>r \<in> set (upd_where p f (commands db)). row_ok m r"
    using commands_ok_parts(5) [OF ok] row by (rule upd_where_all)
  moreover have "\<forall>r \<in> set (upd_where p f (commands db)). c_id r < next_command_id db"
    using commands_ok_parts(3) [OF ok] by (intro upd_where_all) (auto simp: keeps_identityD [OF f])
  ultimately show ?thesis using ok one by (simp add: commands_ok_def)
qed

lemma commands_ok_distinct: "commands_ok m db \<Longrightarrow> distinct (map c_id (commands db))"
  using commands_ok_parts(1) strict_sorted_iff by blast

lemma commands_ok_by_id:
  "commands_ok m db \<Longrightarrow> r \<in> set (commands db) \<Longrightarrow> s \<in> set (commands db) \<Longrightarrow> c_id r = c_id s \<Longrightarrow> r = s"
  using distinct_key_eq [OF commands_ok_distinct] by blast

lemma commands_ok_frame [simp]:
  "commands_ok m (db\<lparr>leases := l\<rparr>) = commands_ok m db"
  "commands_ok m (db\<lparr>process_leases := p\<rparr>) = commands_ok m db"
  "commands_ok m (db\<lparr>heartbeats := h\<rparr>) = commands_ok m db"
  by (simp_all add: commands_ok_def)

lemma commands_ok_empty [simp]: "commands_ok m empty_db"
  by (simp add: commands_ok_def empty_db_def one_active_def)

section \<open>Every operation keeps it\<close>

lemma enqueue_cases:
  assumes "enqueue sid ct uid payload key uuid now db = Inr (c, db')"
  obtains (active) row t where "parse_type (py_lower (py_strip ct)) = Some t"
      "find_last (same_action sid t) (commands db) = Some row" "c = from_row row" "db' = db"
  | (known) row t where "parse_type (py_lower (py_strip ct)) = Some t"
      "find_last (same_action sid t) (commands db) = None"
      "find (\<lambda>r. c_key r = str_or (opt_str key) uuid) (commands db) = Some row" "c = from_row row"
      "db' = db\<lparr>next_command_id := next_command_id db + 1\<rparr>"
  | (fresh) row t where "parse_type (py_lower (py_strip ct)) = Some t"
      "find_last (same_action sid t) (commands db) = None"
      "find (\<lambda>r. c_key r = str_or (opt_str key) uuid) (commands db) = None"
      "row = new_command (next_command_id db) sid uid t (str_or (opt_str key) uuid)
               (case payload of None \<Rightarrow> [] | Some p \<Rightarrow> p) now" "c = from_row row"
      "db' = db\<lparr>commands := commands db @ [row], next_command_id := next_command_id db + 1\<rparr>"
proof (cases "parse_type (py_lower (py_strip ct))")
  case None
  then show thesis using assms by (simp add: enqueue_def)
next
  case (Some t)
  note t = Some
  show thesis
  proof (cases "find_last (same_action sid t) (commands db)")
    case (Some row)
    with assms t show thesis by (intro active [OF t Some]) (auto simp: enqueue_def)
  next
    case None
    note n = None
    show thesis
    proof (cases "find (\<lambda>r. c_key r = str_or (opt_str key) uuid) (commands db)")
      case (Some row)
      with assms t n show thesis by (intro known [OF t n Some]) (auto simp: enqueue_def)
    next
      case None
      with assms t n show thesis
        by (intro fresh [OF t n None refl]) (auto simp: enqueue_def Let_def)
    qed
  qed
qed

lemma row_ok_new: "0 \<le> m \<Longrightarrow> row_ok m (new_command i sid uid t k body now)"
  by (simp add: row_ok_def new_command_def terminal_status_def)

lemma enqueue_ok:
  assumes ok: "commands_ok m db" and m: "0 \<le> m"
    and enq: "enqueue sid ct uid payload key uuid now db = Inr (c, db')"
  shows "commands_ok m db'"
  using enq
proof (cases rule: enqueue_cases)
  case active
  with ok show ?thesis by simp
next
  case known
  have "\<forall>r \<in> set (commands db). c_id r < next_command_id db + 1"
    using commands_ok_parts(3) [OF ok] by (simp add: less_imp_le)
  with ok known show ?thesis by (simp add: commands_ok_def)
next
  case (fresh row t)
  let ?t = "commands db"
  have new: "c_id row = next_command_id db" "c_key row = str_or (opt_str key) uuid"
    "c_strategy_id row = sid" "c_type row = t"
    using fresh by (simp_all add: new_command_def)
  have quiet: "\<forall>r \<in> set ?t. \<not> same_action sid t r" using fresh by (simp add: find_last_None)
  have "one_active (?t @ [row])"
    unfolding one_active_def
  proof (intro ballI impI)
    fix r s assume "r \<in> set (?t @ [row])" "s \<in> set (?t @ [row])"
      and a: "is_active r \<and> same_action (c_strategy_id r) (c_type r) s"
    then consider "r \<in> set ?t" "s \<in> set ?t" | "r = row" "s = row" | "r = row" "s \<in> set ?t"
      | "r \<in> set ?t" "s = row" by auto
    then show "c_id r = c_id s"
    proof cases
      case 1
      with a show ?thesis by (intro one_activeD [OF commands_ok_parts(4) [OF ok]]) (simp_all add: same_action_def)
    next
      case 3
      with a quiet new show ?thesis by (auto simp: same_action_def)
    next
      case 4
      with a quiet new show ?thesis by (auto simp: same_action_def)
    qed simp
  qed
  then show ?thesis
    using ok fresh new row_ok_new [OF m]
    by (auto simp: commands_ok_def sorted_wrt_append find_None_iff)
qed

lemma claim_cases:
  assumes "claim_next ow secs m locked now db = (Some c, db')"
  obtains r where "find (\<lambda>r. claimable ow m now db r \<and> \<not> locked (c_id r)) (commands db) = Some r"
    "r \<in> set (commands db)" "claimable ow m now db r" "\<not> locked (c_id r)"
    "c = from_row (claim_row ow secs now r)"
    "db' = db\<lparr>commands := upd_where (\<lambda>x. c_id x = c_id r) (claim_row ow secs now) (commands db)\<rparr>"
proof -
  obtain r where r: "find (\<lambda>r. claimable ow m now db r \<and> \<not> locked (c_id r)) (commands db) = Some r"
    "c = from_row (claim_row ow secs now r)"
    "db' = db\<lparr>commands := upd_where (\<lambda>x. c_id x = c_id r) (claim_row ow secs now) (commands db)\<rparr>"
    using assms by (auto simp: claim_next_def split: option.splits)
  with find_SomeD [OF r(1)] show thesis by (intro that) auto
qed

lemma claimable_active: "claimable ow m now db r \<Longrightarrow> is_active r"
  by (auto simp: claimable_def due_def is_active_def)

lemma upd_where_by_id:
  assumes "commands_ok m db" and "r \<in> set (commands db)"
  shows "upd_where (\<lambda>x. c_id x = c_id r) f (commands db) = upd_where (\<lambda>x. x = r) f (commands db)"
  using commands_ok_by_id [OF assms(1) _ assms(2)] by (auto simp: upd_where_def)

lemma claim_ok:
  assumes ok: "commands_ok m db"
  shows "commands_ok m (snd (claim_next ow secs m locked now db))"
proof (cases "claim_next ow secs m locked now db")
  case (Pair co db')
  show ?thesis
  proof (cases co)
    case None
    with Pair show ?thesis using ok by (auto simp: claim_next_def split: option.splits)
  next
    case (Some c)
    then have "claim_next ow secs m locked now db = (Some c, db')" using Pair by simp
    then obtain r where r: "r \<in> set (commands db)" "claimable ow m now db r"
      "db' = db\<lparr>commands := upd_where (\<lambda>x. c_id x = c_id r) (claim_row ow secs now) (commands db)\<rparr>"
      by (rule claim_cases) blast
    have "commands_ok m (db\<lparr>commands := upd_where (\<lambda>x. x = r) (claim_row ow secs now) (commands db)\<rparr>)"
    proof (rule commands_ok_upd [OF ok])
      show "one_active (upd_where (\<lambda>x. x = r) (claim_row ow secs now) (commands db))"
        using commands_ok_parts(4) [OF ok] claimable_active [OF r(2)]
        by (intro one_active_upd_quiet) auto
      show "\<And>x. x = r \<Longrightarrow> row_ok m x \<Longrightarrow> row_ok m (claim_row ow secs now x)"
        using r(2) by (auto simp: row_ok_def claim_row_def claimable_def terminal_status_def split: option.splits)
    qed simp
    then show ?thesis using Pair r upd_where_by_id [OF ok r(1)] by simp
  qed
qed

lemma finish_ok:
  assumes ok: "commands_ok m db" and st: "terminal_status st"
  shows "commands_ok m (finish_command cid st res e now db)"
  unfolding finish_command_def
proof (rule commands_ok_upd [OF ok])
  show "one_active (upd_where (\<lambda>r. c_id r = cid) (finish_row st res e now) (commands db))"
    using commands_ok_parts(4) [OF ok] st
    by (intro one_active_upd_quiet) (auto simp: not_active_terminal finish_row_def)
  show "\<And>r. c_id r = cid \<Longrightarrow> row_ok m r \<Longrightarrow> row_ok m (finish_row st res e now r)"
    using st by (auto simp: row_ok_def finish_row_def terminal_status_def)
qed simp

lemma fail_ok:
  assumes ok: "commands_ok m db" and f: "fail cid e delay now db = Inr db'"
  shows "commands_ok m db'"
proof (cases delay)
  case None
  with f ok show ?thesis by (auto simp: fail_def intro: finish_ok simp: terminal_status_def)
next
  case (Some d)
  then have nc: "\<not> action_clash db cid"
    and db': "db' = db\<lparr>commands := upd_where (\<lambda>r. c_id r = cid) (retry_row e d now) (commands db)\<rparr>"
    using f by (auto simp: fail_def split: if_splits)
  show ?thesis
    unfolding db'
  proof (rule commands_ok_upd [OF ok])
    show "one_active (upd_where (\<lambda>r. c_id r = cid) (retry_row e d now) (commands db))"
    proof (rule one_active_upd [OF commands_ok_parts(4) [OF ok]])
      fix r s assume "r \<in> set (commands db)" "c_id r = cid" "s \<in> set (commands db)"
        "same_action (c_strategy_id r) (c_type r) s"
      with nc find_key [OF commands_ok_distinct [OF ok]] show "c_id s = c_id r"
        by (force simp: action_clash_def list_ex_iff)
    qed simp_all
    show "\<And>r. c_id r = cid \<Longrightarrow> row_ok m r \<Longrightarrow> row_ok m (retry_row e d now r)"
      by (auto simp: row_ok_def retry_row_def terminal_status_def)
  qed simp
qed

lemma exhaust_ok:
  assumes ok: "commands_ok m db"
  shows "commands_ok m (snd (fail_exhausted_commands m now db))"
proof -
  have "commands_ok m (db\<lparr>commands := upd_where (exhausted m now) (exhaust_row now) (commands db)\<rparr>)"
  proof (rule commands_ok_upd [OF ok])
    show "one_active (upd_where (exhausted m now) (exhaust_row now) (commands db))"
      using commands_ok_parts(4) [OF ok]
      by (intro one_active_upd_quiet) (auto simp: not_active_terminal exhaust_row_def terminal_status_def)
  qed (auto simp: row_ok_def exhaust_row_def terminal_status_def)
  then show ?thesis by (simp add: fail_exhausted_commands_def)
qed

lemma sorted_wrt_filter_map: "sorted_wrt (<) (map key t) \<Longrightarrow> sorted_wrt (<) (map key (filter p t))"
  by (induction t) auto

lemma cleanup_ok:
  assumes ok: "commands_ok m db"
  shows "commands_ok m (snd (cleanup_runtime_metadata d1 d2 now db))"
proof -
  have "one_active (delete_where p (commands db))" for p
    using commands_ok_parts(4) [OF ok] by (simp add: one_active_def)
  then show ?thesis
    using ok by (simp add: cleanup_runtime_metadata_def Let_def commands_ok_def
        distinct_map_filter delete_where_def sorted_wrt_filter_map)
qed

end
