(* ===== verification/Worker.thy ===== *)
theory Worker
  imports Complex_Main Commands
begin

text \<open>
  The trading worker (\<open>workers/trading.py\<close>) on top of the command repository, and the part of the
  executor (\<open>services/trading_executor.py\<close>) that owns the local runtimes: \<open>start_strategy\<close>,
  \<open>wait_strategy_running\<close>, \<open>stop_strategy\<close>, \<open>stop_strategy_with_policy\<close>.

  What the process observes of the outside while it handles a command is the record \<open>env\<close>: the
  outcome of the live preflight, of spawning the thread, of cancelling a grid's resting orders,
  the reason a freshly started runtime exits with (if it does), the outcome of queueing a closing
  order.  \<open>now\<close> is the database clock, \<open>clk\<close> the process's monotonic clock, in microseconds.
\<close>

section \<open>The executor\<close>

record executor =
  running :: "(int \<times> bool) list"
  max_threads :: nat
  last_start_failure :: string
  last_exit_reason :: "int \<Rightarrow> string option"

record env =
  preflight :: "int \<Rightarrow> string option"
  spawn :: "int \<Rightarrow> string option"
  early_exit :: "int \<Rightarrow> string option"
  grid_shutdown :: "int \<Rightarrow> string option"
  queue_close :: "int \<Rightarrow> string \<Rightarrow> string \<Rightarrow> rat \<Rightarrow> rat \<Rightarrow> string + int"

record leg =
  leg_strategy :: int
  leg_symbol :: string
  leg_side :: string
  leg_size :: rat
  leg_entry :: "rat option"
  leg_current :: "rat option"

record world =
  wdb :: cmd_db
  statuses :: "(int \<times> string) list"
  legs :: "leg list"
  latest_run :: "int \<Rightarrow> int"
  ex :: executor

definition local_ids :: "executor \<Rightarrow> int list" where
  "local_ids e = map fst (running e)"

definition discard_dead_threads :: "executor \<Rightarrow> executor" where
  "discard_dead_threads e = e\<lparr>running := filter snd (running e)\<rparr>"

definition drop_thread :: "int \<Rightarrow> executor \<Rightarrow> executor" where
  "drop_thread sid e = e\<lparr>running := filter (\<lambda>x. fst x \<noteq> sid) (running e)\<rparr>"

definition start_strategy :: "env \<Rightarrow> int \<Rightarrow> executor \<Rightarrow> bool \<times> executor" where
  "start_strategy en sid e0 =
     (let e = (discard_dead_threads e0)\<lparr>last_start_failure := []\<rparr> in
      if sid \<in> set (local_ids e) then
        (False, e\<lparr>last_start_failure := ''Strategy is already running.''\<rparr>)
      else if max_threads e \<le> length (running e) then
        (False, e\<lparr>last_start_failure := ''Thread limit reached ('' @ nat_str (max_threads e) @ '').''\<rparr>)
      else case preflight en sid of
        Some err \<Rightarrow> (False, e\<lparr>last_start_failure := str_or err ''strategyV2.livePreflightFailed''\<rparr>)
      | None \<Rightarrow>
          (case spawn en sid of
             Some err \<Rightarrow> (False, e\<lparr>last_start_failure := ''Failed to start strategy thread: '' @ err\<rparr>)
           | None \<Rightarrow> (True, e\<lparr>running := running e @ [(sid, True)]\<rparr>)))"

text \<open>
  A runtime that fails leaves its reason and removes its own thread (the loop's \<open>except\<close> and
  \<open>finally\<close>); \<open>mark_stopped\<close> is the status it writes.
\<close>

definition runtime_exits :: "env \<Rightarrow> int \<Rightarrow> executor \<Rightarrow> executor" where
  "runtime_exits en sid e =
     (case early_exit en sid of
        None \<Rightarrow> e
      | Some reason \<Rightarrow> (drop_thread sid e)\<lparr>last_exit_reason := (last_exit_reason e)(sid \<mapsto> reason)\<rparr>)"

definition wait_strategy_running :: "env \<Rightarrow> int \<Rightarrow> executor \<Rightarrow> (bool \<times> string) \<times> executor" where
  "wait_strategy_running en sid e0 =
     (let e = runtime_exits en sid e0 in
      if (sid, True) \<in> set (running e) then ((True, []), e)
      else ((False, str_or (opt_str (last_exit_reason e sid)) ''Strategy runtime exited during startup.''),
            e\<lparr>last_exit_reason := (last_exit_reason e)(sid := None)\<rparr>))"

definition set_status :: "int \<Rightarrow> string \<Rightarrow> (int \<times> string) list \<Rightarrow> (int \<times> string) list" where
  "set_status sid st = upd_where (\<lambda>x. fst x = sid) (\<lambda>x. (fst x, st))"

definition stop_strategy :: "env \<Rightarrow> int \<Rightarrow> bool \<Rightarrow> world \<Rightarrow> bool \<times> world" where
  "stop_strategy en sid persist_status w =
     (case grid_shutdown en sid of
        Some err \<Rightarrow>
          (False, w\<lparr>ex := (ex w)\<lparr>last_exit_reason := (last_exit_reason (ex w))(sid \<mapsto> err)\<rparr>\<rparr>)
      | None \<Rightarrow>
          (True, w\<lparr>statuses := (if persist_status then set_status sid ''stopped'' (statuses w) else statuses w),
                   ex := drop_thread sid (ex w)\<rparr>))"

definition mark_stopped :: "env \<Rightarrow> int \<Rightarrow> world \<Rightarrow> world" where
  "mark_stopped en sid w =
     (if early_exit en sid = None then w else w\<lparr>statuses := set_status sid ''stopped'' (statuses w)\<rparr>)"

section \<open>Stop and close\<close>

definition rat_or :: "rat option \<Rightarrow> rat option \<Rightarrow> rat" where
  "rat_or a b = (case a of Some x \<Rightarrow> if x \<noteq> 0 then x else (case b of Some y \<Rightarrow> y | None \<Rightarrow> 0)
                 | None \<Rightarrow> (case b of Some y \<Rightarrow> y | None \<Rightarrow> 0))"

text \<open>One owned leg: the closing order is queued, or the reason why not.\<close>

definition close_leg :: "env \<Rightarrow> int \<Rightarrow> leg \<Rightarrow> string + int" where
  "close_leg en sid r =
     (let side = py_lower (py_strip (leg_side r));
          price = rat_or (leg_current r) (leg_entry r);
          quantity = max 0 (leg_size r) in
      if side \<noteq> ''long'' \<and> side \<noteq> ''short'' then Inl ''strategyV2.closePositionSideInvalid''
      else if price \<le> 0 \<or> quantity \<le> 0 then Inl ''strategyV2.closePositionQuoteMissing''
      else case queue_close en sid (leg_symbol r)
                  (if side = ''long'' then ''close_long'' else ''close_short'') quantity price of
             Inl err \<Rightarrow> Inl (str_or err ''strategyV2.closeOrderQueueFailed'')
           | Inr oid \<Rightarrow> if oid = 0 then Inl ''strategyV2.closeOrderQueueFailed'' else Inr oid)"

definition close_result :: "bool \<Rightarrow> bool \<Rightarrow> bool \<Rightarrow> int \<Rightarrow> string list \<Rightarrow> payload" where
  "close_result stopped success requested queued errors =
     [(''success'', JBool success), (''status'', JStr (if stopped then ''stopped'' else ''running'')),
      (''close_requested'', JBool requested), (''close_orders_queued'', JInt queued),
      (''close_errors'', JList (map JStr errors))]"

definition stop_strategy_with_policy :: "env \<Rightarrow> int \<Rightarrow> bool \<Rightarrow> world \<Rightarrow> payload \<times> world" where
  "stop_strategy_with_policy en sid close w =
     (let owned = (if close then filter (\<lambda>r. leg_strategy r = sid \<and> 0 < leg_size r) (legs w) else []);
          run = (if close then latest_run w sid else 0);
          (stopped, w') = stop_strategy en sid True w in
      if \<not> stopped then (close_result False False close 0 [], w')
      else if owned = [] then (close_result True True close 0 [], w')
      else if run \<le> 0 then (close_result True False close 0 [''strategyV2.closeRunIdentityMissing''], w')
      else
        let outcomes = map (close_leg en sid) owned;
            errors = concat (map (\<lambda>x. case x of Inl e \<Rightarrow> [e] | Inr _ \<Rightarrow> []) outcomes);
            queued = count_where (\<lambda>x. case x of Inl _ \<Rightarrow> False | Inr _ \<Rightarrow> True) outcomes in
        (close_result True (errors = []) close queued errors, w'))"

section \<open>The worker's handlers\<close>

record cfg =
  worker_id :: string
  command_secs :: int
  strategy_secs :: int
  max_attempts :: int

text \<open>\<open>_acquire_runtime\<close> and the two forms of giving a lease back.\<close>

definition acquire_runtime :: "cfg \<Rightarrow> int \<Rightarrow> int \<Rightarrow> world \<Rightarrow> bool \<times> world" where
  "acquire_runtime c now sid w =
     (let (ok, db') = acquire_runtime_lease sid (worker_id c) (strategy_secs c) now (wdb w) in
      (ok, w\<lparr>wdb := db'\<rparr>))"

definition release_runtime :: "cfg \<Rightarrow> int \<Rightarrow> world \<Rightarrow> world" where
  "release_runtime c sid w = w\<lparr>wdb := release_strategy_lease sid (worker_id c) (wdb w)\<rparr>"

definition running_result :: "cfg \<Rightarrow> int \<Rightarrow> payload" where
  "running_result c sid = [(''strategy_id'', JInt sid), (''runtime_owner'', JStr (worker_id c)),
     (''status'', JStr ''running'')]"

definition skipped_result :: "int \<Rightarrow> payload" where
  "skipped_result sid = [(''strategy_id'', JInt sid), (''status'', JStr ''skipped''),
     (''reason'', JStr ''desired_state_changed'')]"

text \<open>\<open>_start\<close>\<close>

definition start_runtime :: "cfg \<Rightarrow> env \<Rightarrow> int \<Rightarrow> int \<Rightarrow> world \<Rightarrow> (string + payload) \<times> world" where
  "start_runtime c en now sid w =
     (case map_of (statuses w) sid of
        None \<Rightarrow> (Inr (skipped_result sid), w)
      | Some st \<Rightarrow>
          if py_lower st \<noteq> ''running'' then (Inr (skipped_result sid), w)
          else if sid \<in> set (local_ids (ex w)) then (Inr (running_result c sid), w)
          else
            let (ok, w1) = acquire_runtime c now sid w in
            if \<not> ok then (Inl ''Strategy runtime lease is owned by another trading worker.'', w1)
            else
              let (started, e2) = start_strategy en sid (ex w1); w2 = w1\<lparr>ex := e2\<rparr> in
              if \<not> started then
                (Inl (str_or (last_start_failure e2) ''Executor rejected the strategy.''), release_runtime c sid w2)
              else
                let ((alive, hint), e3) = wait_strategy_running en sid e2;
                    w3 = mark_stopped en sid (w2\<lparr>ex := e3\<rparr>) in
                if \<not> alive then
                  (Inl (str_or hint ''Strategy exited during startup.''),
                   release_runtime c sid (snd (stop_strategy en sid False w3)))
                else (Inr (running_result c sid), w3))"

text \<open>\<open>_stop_strategy\<close>\<close>

definition stop_runtime :: "cfg \<Rightarrow> env \<Rightarrow> int \<Rightarrow> bool \<Rightarrow> world \<Rightarrow> (string + payload) \<times> world" where
  "stop_runtime c en sid close w =
     (if close then
        let (result, w1) = stop_strategy_with_policy en sid True w in
        (Inr result, release_runtime c sid w1)
      else
        let (ok, w1) = stop_strategy en sid False w in
        if \<not> ok then (Inl ''Executor failed to stop the local strategy runtime.'', w1)
        else (Inr [(''strategy_id'', JInt sid), (''status'', JStr ''stopped'')], release_runtime c sid w1))"

definition reconcile :: "cfg \<Rightarrow> int \<Rightarrow> world \<Rightarrow> payload" where
  "reconcile c sid w =
     (let here = sid \<in> set (local_ids (ex w)) in
      [(''strategy_id'', JInt sid), (''runtime_owner'', JStr (if here then worker_id c else [])),
       (''running'', JBool here)])"

definition dispatch :: "cfg \<Rightarrow> env \<Rightarrow> int \<Rightarrow> strategy_command \<Rightarrow> world \<Rightarrow> (string + payload) \<times> world" where
  "dispatch c en now cmd w =
     (case sc_type cmd of
        Start \<Rightarrow> start_runtime c en now (sc_strategy_id cmd) w
      | Stop \<Rightarrow> stop_runtime c en (sc_strategy_id cmd) (truthy_key (sc_payload cmd) ''close_positions'') w
      | Restart \<Rightarrow>
          (case stop_runtime c en (sc_strategy_id cmd) False w of
             (Inl err, w1) \<Rightarrow> (Inl err, w1)
           | (Inr _, w1) \<Rightarrow> start_runtime c en now (sc_strategy_id cmd) w1)
      | Reconcile \<Rightarrow> (Inr (reconcile c (sc_strategy_id cmd) w), w))"

definition retry_delay :: "int \<Rightarrow> int" where
  "retry_delay attempts = min 60 (2 ^ nat (max 0 (attempts - 1)))"

text \<open>
  \<open>_execute\<close>: \<open>now\<close> is the database clock while the command is dispatched, \<open>later\<close> when its outcome
  is reported.  A report the unique index refuses leaves the database as it is and raises out of
  the worker's loop (\<open>Inl\<close>).
\<close>

definition execute :: "cfg \<Rightarrow> env \<Rightarrow> int \<Rightarrow> int \<Rightarrow> strategy_command \<Rightarrow> world \<Rightarrow> cmd_error + world" where
  "execute c en now later cmd w =
     (case dispatch c en now cmd w of
        (Inr result, w1) \<Rightarrow> Inr (w1\<lparr>wdb := complete (sc_id cmd) result later (wdb w1)\<rparr>)
      | (Inl err, w1) \<Rightarrow>
          if sc_attempts cmd < max_attempts c then
            (case fail (sc_id cmd) err (Some (retry_delay (sc_attempts cmd))) later (wdb w1) of
               Inl e \<Rightarrow> Inl e
             | Inr db' \<Rightarrow> Inr (w1\<lparr>wdb := db'\<rparr>))
          else
            (case fail (sc_id cmd) err None later (wdb w1) of
               Inl e \<Rightarrow> Inl e
             | Inr db' \<Rightarrow>
                 Inr (w1\<lparr>wdb := db',
                   statuses := (if sc_type cmd = Start \<or> sc_type cmd = Restart
                                then set_status (sc_strategy_id cmd) ''stopped'' (statuses w1)
                                else statuses w1)\<rparr>)))"

section \<open>The loop\<close>

record process =
  world :: world
  leader :: bool
  stopping :: bool
  last_heartbeat :: int
  last_renewal :: int
  last_global_check :: int

abbreviation global_key :: string where
  "global_key \<equiv> ''trading-global-services''"

definition heartbeat :: "cfg \<Rightarrow> int \<Rightarrow> int \<Rightarrow> process \<Rightarrow> process" where
  "heartbeat c clk now p =
     (if clk - last_heartbeat p < 10 * second then p
      else
        let w = world p;
            db1 = snd (fail_exhausted_commands (max_attempts c) now (wdb w));
            db2 = record_worker_heartbeat (worker_id c) ''trading''
                    [(''running_strategies'', JInt (int (length (running (ex w)))))] now db1 in
        p\<lparr>last_heartbeat := clk, world := w\<lparr>wdb := db2\<rparr>\<rparr>)"

definition renew_one :: "cfg \<Rightarrow> env \<Rightarrow> int \<Rightarrow> int \<Rightarrow> world \<Rightarrow> world" where
  "renew_one c en now sid w =
     (let (ok, db') = renew_strategy_lease sid (worker_id c) (strategy_secs c) now (wdb w);
          w1 = w\<lparr>wdb := db'\<rparr> in
      if ok then w1 else snd (stop_strategy en sid False w1))"

definition renew_all :: "cfg \<Rightarrow> env \<Rightarrow> int \<Rightarrow> world \<Rightarrow> world" where
  "renew_all c en now w = fold (renew_one c en now) (local_ids (ex w)) w"

text \<open>\<open>now - last < max(1.0, lease / 3)\<close>, both sides times three.\<close>

definition renew_runtime_leases :: "cfg \<Rightarrow> env \<Rightarrow> int \<Rightarrow> int \<Rightarrow> process \<Rightarrow> process" where
  "renew_runtime_leases c en clk now p =
     (if 3 * (clk - last_renewal p) < max (3 * second) (strategy_secs c * second) then p
      else p\<lparr>last_renewal := clk, world := renew_all c en now (world p)\<rparr>)"

text \<open>\<open>services_ok\<close>: \<open>_start_trading_support_services\<close> returns; otherwise it raises.\<close>

definition ensure_global_services :: "cfg \<Rightarrow> bool \<Rightarrow> int \<Rightarrow> int \<Rightarrow> process \<Rightarrow> process" where
  "ensure_global_services c services_ok clk now p =
     (if 3 * (clk - last_global_check p) < max (6 * second) (strategy_secs c * second) then p
      else
        let w = world p in
        if leader p then
          let (ok, db') = renew_process_lease global_key (worker_id c) (strategy_secs c) now (wdb w) in
          p\<lparr>last_global_check := clk, world := w\<lparr>wdb := db'\<rparr>, stopping := stopping p \<or> \<not> ok\<rparr>
        else
          let (ok, db') = acquire_process_lease global_key (worker_id c) (strategy_secs c) now (wdb w) in
          p\<lparr>last_global_check := clk, world := w\<lparr>wdb := db'\<rparr>, leader := ok \<and> services_ok\<rparr>)"

definition shutdown_one :: "cfg \<Rightarrow> env \<Rightarrow> int \<Rightarrow> world \<Rightarrow> world" where
  "shutdown_one c en sid w = release_runtime c sid (snd (stop_strategy en sid False w))"

definition shutdown_local_runtimes :: "cfg \<Rightarrow> env \<Rightarrow> world \<Rightarrow> world" where
  "shutdown_local_runtimes c en w = fold (shutdown_one c en) (local_ids (ex w)) w"

definition restore_one :: "cfg \<Rightarrow> env \<Rightarrow> int \<Rightarrow> int \<Rightarrow> world \<Rightarrow> world" where
  "restore_one c en now sid w =
     (let (ok, w1) = acquire_runtime c now sid w in
      if \<not> ok then w1
      else
        let (started, e2) = start_strategy en sid (ex w1); w2 = w1\<lparr>ex := e2\<rparr> in
        if started then w2
        else let w3 = release_runtime c sid w2 in
             w3\<lparr>statuses := set_status sid ''stopped'' (statuses w3)\<rparr>)"

definition restore_desired_strategies :: "cfg \<Rightarrow> env \<Rightarrow> int \<Rightarrow> world \<Rightarrow> world" where
  "restore_desired_strategies c en now w =
     fold (restore_one c en now) (map fst (filter (\<lambda>x. snd x = ''running'') (statuses w))) w"

text \<open>One turn of \<open>run_forever\<close>'s loop, and its \<open>finally\<close>.\<close>

definition worker_turn ::
  "cfg \<Rightarrow> env \<Rightarrow> bool \<Rightarrow> (int \<Rightarrow> bool) \<Rightarrow> int \<Rightarrow> int \<Rightarrow> int \<Rightarrow> process \<Rightarrow> cmd_error + process" where
  "worker_turn c en services_ok locked clk now later p =
     (let p1 = renew_runtime_leases c en clk now
                 (ensure_global_services c services_ok clk now (heartbeat c clk now p));
          w = world p1;
          (cmd, db') = claim_next (worker_id c) (command_secs c) (max_attempts c) locked now (wdb w);
          w1 = w\<lparr>wdb := db'\<rparr> in
      case cmd of
        None \<Rightarrow> Inr (p1\<lparr>world := w1\<rparr>)
      | Some x \<Rightarrow>
          (case execute c en now later x w1 of
             Inl e \<Rightarrow> Inl e | Inr w2 \<Rightarrow> Inr (p1\<lparr>world := w2\<rparr>)))"

definition worker_exit :: "cfg \<Rightarrow> env \<Rightarrow> int \<Rightarrow> process \<Rightarrow> world" where
  "worker_exit c en now p =
     (let w = shutdown_local_runtimes c en (world p);
          db1 = (if leader p then release_process_lease global_key (worker_id c) (wdb w) else wdb w) in
      w\<lparr>wdb := mark_worker_stopped (worker_id c) now db1\<rparr>)"

end
