(* ===== verification/Command_Safety.thy ===== *)
theory Command_Safety
  imports Commands
begin

text \<open>
  The repository as a whole: every method is a \<open>call\<close>, a step of the database, and any number of
  API processes and trading workers interleave their calls.  \<open>reachable m\<close> are the databases that
  arise from the empty one when every worker claims with the bound \<open>m\<close>
  (\<open>STRATEGY_COMMAND_MAX_ATTEMPTS\<close>).  On them: the invariant, mutual exclusion of claims and of
  leases, the bound on executions, and what an unfenced \<open>fail\<close> of a worker whose claim has
  expired does.
\<close>

datatype call =
    Enqueue int string int "payload option" "string option" string int
  | Claim string int "int list" int
  | Complete int payload int
  | Fail int string "int option" int
  | Exhaust int
  | Cleanup int int int
  | Beat string string payload int
  | Stopped string int
  | Runtime "(int, string) lease_op"
  | Process "(string, string) lease_op"

fun run_call :: "int \<Rightarrow> call \<Rightarrow> cmd_db \<Rightarrow> cmd_db" where
  "run_call m (Enqueue sid ct uid payload key uuid now) db =
     (case enqueue sid ct uid payload key uuid now db of Inl _ \<Rightarrow> db | Inr (_, db') \<Rightarrow> db')"
| "run_call m (Claim ow secs locked now) db =
     snd (claim_next ow secs m (\<lambda>i. i \<in> set locked) now db)"
| "run_call m (Complete i res now) db = complete i res now db"
| "run_call m (Fail i e delay now) db = (case fail i e delay now db of Inl _ \<Rightarrow> db | Inr db' \<Rightarrow> db')"
| "run_call m (Exhaust now) db = snd (fail_exhausted_commands m now db)"
| "run_call m (Cleanup d1 d2 now) db = snd (cleanup_runtime_metadata d1 d2 now db)"
| "run_call m (Beat w role meta now) db = record_worker_heartbeat w role meta now db"
| "run_call m (Stopped w now) db = mark_worker_stopped w now db"
| "run_call m (Runtime op) db = runtime.apply_op op db"
| "run_call m (Process op) db = process.apply_op op db"

fun call_time :: "call \<Rightarrow> int" where
  "call_time (Enqueue sid ct uid payload key uuid now) = now"
| "call_time (Claim ow secs locked now) = now"
| "call_time (Complete i res now) = now"
| "call_time (Fail i e delay now) = now"
| "call_time (Exhaust now) = now"
| "call_time (Cleanup d1 d2 now) = now"
| "call_time (Beat w role meta now) = now"
| "call_time (Stopped w now) = now"
| "call_time (Runtime op) = op_time op"
| "call_time (Process op) = op_time op"

fun reports_on :: "int \<Rightarrow> call \<Rightarrow> bool" where
  "reports_on i (Complete j res now) = (j = i)"
| "reports_on i (Fail j e delay now) = (j = i)"
| "reports_on i c = False"

inductive reachable :: "int \<Rightarrow> cmd_db \<Rightarrow> bool" for m :: int where
  start: "reachable m empty_db"
| step: "reachable m db \<Longrightarrow> reachable m (run_call m c db)"

section \<open>The commands of a call\<close>

lemma commands_lease_frame [simp]:
  "commands (snd (acquire_runtime_lease k ow secs now db)) = commands db"
  "commands (snd (renew_strategy_lease k ow secs now db)) = commands db"
  "commands (release_strategy_lease k ow db) = commands db"
  "commands (snd (acquire_process_lease p ow secs now db)) = commands db"
  "commands (snd (renew_process_lease p ow secs now db)) = commands db"
  "commands (release_process_lease p ow db) = commands db"
  "next_command_id (snd (acquire_runtime_lease k ow secs now db)) = next_command_id db"
  "next_command_id (snd (renew_strategy_lease k ow secs now db)) = next_command_id db"
  "next_command_id (release_strategy_lease k ow db) = next_command_id db"
  "next_command_id (snd (acquire_process_lease p ow secs now db)) = next_command_id db"
  "next_command_id (snd (renew_process_lease p ow secs now db)) = next_command_id db"
  "next_command_id (release_process_lease p ow db) = next_command_id db"
  by (simp_all add: acquire_runtime_lease_def acquire_strategy_lease_def renew_strategy_lease_def
      release_strategy_lease_def acquire_process_lease_def renew_process_lease_def
      release_process_lease_def Let_def split: option.splits)

lemma commands_runtime_op [simp]:
  "commands (runtime.apply_op op db) = commands db"
  "next_command_id (runtime.apply_op op db) = next_command_id db"
  by (cases op; simp)+

lemma commands_process_op [simp]:
  "commands (process.apply_op op' db) = commands db"
  "next_command_id (process.apply_op op' db) = next_command_id db"
  by (cases op'; simp)+

lemma commands_worker_frame [simp]:
  "commands (record_worker_heartbeat w role meta now db) = commands db"
  "next_command_id (record_worker_heartbeat w role meta now db) = next_command_id db"
  "commands (mark_worker_stopped w now db) = commands db"
  "next_command_id (mark_worker_stopped w now db) = next_command_id db"
  by (simp_all add: record_worker_heartbeat_def mark_worker_stopped_def split: option.splits)

lemma run_call_ok:
  assumes "commands_ok m db" and "0 \<le> m"
  shows "commands_ok m (run_call m c db)"
proof (cases c)
  case Enqueue
  with assms show ?thesis by (auto split: sum.split prod.split intro: enqueue_ok)
next
  case Fail
  with assms show ?thesis by (auto split: sum.split intro: fail_ok)
next
  case Complete
  with assms show ?thesis by (simp add: complete_def finish_ok terminal_status_def)
next
  case Claim
  with assms show ?thesis by (simp add: claim_ok)
next
  case Exhaust
  with assms show ?thesis by (simp add: exhaust_ok)
next
  case Cleanup
  with assms show ?thesis by (simp add: cleanup_ok)
qed (use assms in \<open>simp_all add: commands_ok_def\<close>)

text \<open>Lease tables only change by lease operations and the cleanup.\<close>

lemma leases_call_frame:
  "leases (finish_command i st res e now db) = leases db"
  "process_leases (finish_command i st res e now db) = process_leases db"
  "leases (snd (claim_next ow secs m locked now db)) = leases db"
  "process_leases (snd (claim_next ow secs m locked now db)) = process_leases db"
  "leases (snd (fail_exhausted_commands m now db)) = leases db"
  "process_leases (snd (fail_exhausted_commands m now db)) = process_leases db"
  "leases (record_worker_heartbeat w role meta now db) = leases db"
  "process_leases (record_worker_heartbeat w role meta now db) = process_leases db"
  "leases (mark_worker_stopped w now db) = leases db"
  "process_leases (mark_worker_stopped w now db) = process_leases db"
  by (simp_all add: finish_command_def claim_next_def fail_exhausted_commands_def
      record_worker_heartbeat_def mark_worker_stopped_def split: option.splits)

lemma leases_enqueue: "enqueue sid ct uid pl key uuid now db = Inr (c, db')
   \<Longrightarrow> leases db' = leases db \<and> process_leases db' = process_leases db"
  by (erule enqueue_cases) simp_all

lemma leases_fail: "fail i e delay now db = Inr db'
   \<Longrightarrow> leases db' = leases db \<and> process_leases db' = process_leases db"
  by (auto simp: fail_def leases_call_frame split: option.splits if_splits)

lemma leases_ok_call:
  assumes "leases_ok db"
  shows "leases_ok (run_call m c db)"
proof (cases c)
  case (Enqueue sid ct uid pl key uuid now)
  with assms show ?thesis
    by (auto split: sum.split prod.split dest!: leases_enqueue simp: leases_ok_def)
next
  case (Fail i e delay now)
  with assms show ?thesis by (auto split: sum.split dest!: leases_fail simp: leases_ok_def)
next
  case (Cleanup d1 d2 now)
  with assms show ?thesis
    by (simp add: cleanup_runtime_metadata_def Let_def leases_ok_def distinct_key_delete_where)
next
  case Runtime
  with assms show ?thesis by (simp add: runtime.invar_apply_op)
next
  case Process
  with assms show ?thesis by (simp add: process.invar_apply_op)
qed (use assms in \<open>simp_all add: complete_def leases_ok_def leases_call_frame\<close>)

text \<open>C4. On every reachable database ids and idempotency keys are unique, a strategy has at most
  one pending or processing command of a kind, exactly the processing commands carry a claim
  lease, no command has been claimed more than \<open>m\<close> times, terminal commands have a completion
  time, and both lease tables have one row per key.\<close>

theorem reachable_ok:
  assumes "reachable m db" and "0 \<le> m"
  shows "commands_ok m db \<and> leases_ok db"
  using assms
proof (induction rule: reachable.induct)
  case start
  then show ?case by (simp add: leases_ok_def) (simp add: empty_db_def)
next
  case (step db c)
  then show ?case by (simp add: run_call_ok leases_ok_call)
qed

lemma reachable_ok_witness:
  "commands_ok 3 (run_call 3 (Claim ''w'' 30 [] 5) (run_call 3 (Enqueue 7 '' Start'' 1 None None ''k'' 1) empty_db))
   \<and> leases_ok (run_call 3 (Claim ''w'' 30 [] 5) (run_call 3 (Enqueue 7 '' Start'' 1 None None ''k'' 1) empty_db))"
  by (rule reachable_ok) (simp_all add: reachable.intros del: run_call.simps)

section \<open>Claiming\<close>

lemma sorted_find_first:
  assumes "sorted_wrt (<) (map key t)" and "find p t = Some r" and "s \<in> set t" and "p s"
  shows "(key r :: int) \<le> key s"
  using assms by (induction t) (auto split: if_splits)

lemma get_command_upd:
  assumes "keeps_identity f"
  shows "find (\<lambda>x. c_id x = i) (upd_where p f t)
       = map_option (\<lambda>r. if p r then f r else r) (find (\<lambda>x. c_id x = i) t)"
  using assms by (intro find_key_upd_where) (simp add: keeps_identityD)

lemma find_id: "commands_ok m db \<Longrightarrow> r \<in> set (commands db) \<Longrightarrow> find (\<lambda>x. c_id x = c_id r) (commands db) = Some r"
  by (intro find_key commands_ok_distinct)

text \<open>\<open>claim_next\<close> hands out the oldest eligible command that no other transaction holds:
  eligible rows are due (pending and available, or processing with an expired claim), below the
  attempt bound and, for stop and restart, not owned by another live runtime.  The returned
  command is processing, counts one attempt more, is what \<open>get\<close> then returns, carries a claim
  lease of \<open>secs\<close> seconds, and every other command is as before.\<close>

theorem claim_next_first:
  assumes ok: "commands_ok m db" and cl: "claim_next ow secs m locked now db = (Some c, db')"
  shows "\<exists>r \<in> set (commands db). claimable ow m now db r \<and> \<not> locked (c_id r) \<and> sc_id c = c_id r
      \<and> (\<forall>s \<in> set (commands db). claimable ow m now db s \<and> \<not> locked (c_id s) \<longrightarrow> c_id r \<le> c_id s)
      \<and> sc_status c = Processing \<and> sc_attempts c = c_attempts r + 1
      \<and> get_command (c_id r) db' = Some c
      \<and> (\<exists>r' \<in> set (commands db'). c_id r' = c_id r \<and> c_lease r' = Some (now + secs * second)
             \<and> c_claimed_by r' = ow)
      \<and> (\<forall>j. j \<noteq> c_id r \<longrightarrow> get_command j db' = get_command j db)"
  using cl
proof (rule claim_cases)
  fix r
  assume f: "find (\<lambda>r. claimable ow m now db r \<and> \<not> locked (c_id r)) (commands db) = Some r"
    and r: "r \<in> set (commands db)" and cr: "claimable ow m now db r" "\<not> locked (c_id r)"
    and c: "c = from_row (claim_row ow secs now r)"
    and db': "db' = db\<lparr>commands := upd_where (\<lambda>x. c_id x = c_id r) (claim_row ow secs now) (commands db)\<rparr>"
  let ?f = "claim_row ow secs now"
  have first: "\<forall>s \<in> set (commands db). claimable ow m now db s \<and> \<not> locked (c_id s) \<longrightarrow> c_id r \<le> c_id s"
    using sorted_find_first [OF commands_ok_parts(1) [OF ok] f] by blast
  have get: "get_command j db' = (if j = c_id r then Some c else get_command j db)" for j
  proof -
    have "find (\<lambda>x. c_id x = j) (commands db') = map_option (\<lambda>x. if c_id x = c_id r then ?f x else x)
        (find (\<lambda>x. c_id x = j) (commands db))"
      by (simp add: db' get_command_upd)
    then show ?thesis
      using find_id [OF ok r] by (cases "find (\<lambda>x. c_id x = j) (commands db)")
        (auto simp: get_command_def c dest: find_SomeD)
  qed
  have "?f r \<in> set (commands db')" using r by (auto simp: db' set_upd_where)
  moreover have "c_id (?f r) = c_id r" "c_lease (?f r) = Some (now + secs * second)"
      "c_claimed_by (?f r) = ow" "sc_id c = c_id r" "sc_status c = Processing"
      "sc_attempts c = c_attempts r + 1"
    by (simp_all add: claim_row_def c from_row_def)
  ultimately show ?thesis using r cr first get by (intro bexI [of _ r]) auto
qed

definition demo_db :: cmd_db where
  "demo_db = run_call 3 (Enqueue 8 ''stop'' 1 None None ''b'' 2)
     (run_call 3 (Enqueue 7 ''start'' 1 None None ''a'' 1) empty_db)"

lemma demo_db_ok: "commands_ok 3 demo_db"
  by (simp add: demo_db_def run_call_ok del: run_call.simps)

lemma claim_next_first_witness:
  "\<exists>c db'. claim_next ''w'' 30 3 (\<lambda>i. False) 5 demo_db = (Some c, db')
     \<and> (\<exists>r \<in> set (commands demo_db). claimable ''w'' 3 5 demo_db r \<and> sc_id c = c_id r \<and> sc_id c = 1
          \<and> get_command (c_id r) db' = Some c)"
proof -
  have "map_option sc_id (fst (claim_next ''w'' 30 3 (\<lambda>i. False) 5 demo_db)) = Some 1" by code_simp
  then obtain c db' where c: "claim_next ''w'' 30 3 (\<lambda>i. False) 5 demo_db = (Some c, db')" and "sc_id c = 1"
    by (cases "claim_next ''w'' 30 3 (\<lambda>i. False) 5 demo_db") auto
  with claim_next_first [OF demo_db_ok c] show ?thesis by (intro exI [of _ c] exI [of _ db']) auto
qed

section \<open>A claim is exclusive until it expires\<close>

definition claimed_until :: "int \<Rightarrow> int \<Rightarrow> cmd_db \<Rightarrow> bool" where
  "claimed_until i e db = (\<exists>r \<in> set (commands db). c_id r = i \<and> c_status r = Processing \<and> c_lease r = Some e)"

lemma claimed_until_cong: "commands db' = commands db \<Longrightarrow> claimed_until i e db' = claimed_until i e db"
  by (simp add: claimed_until_def)

lemma claimed_until_upd:
  assumes "claimed_until i e db"
    and "\<And>r. r \<in> set (commands db) \<Longrightarrow> c_id r = i \<Longrightarrow> c_status r = Processing \<Longrightarrow> c_lease r = Some e \<Longrightarrow> \<not> p r"
  shows "claimed_until i e (db\<lparr>commands := upd_where p f (commands db)\<rparr>)"
  using assms by (fastforce simp: claimed_until_def set_upd_where)

lemma claim_not_claimed:
  assumes ok: "commands_ok m db" and h: "claimed_until i e db" and now: "now \<le> e"
    and cl: "claim_next ow secs m locked now db = (Some c, db')"
  shows "sc_id c \<noteq> i \<and> claimed_until i e db'"
  using cl
proof (rule claim_cases)
  fix r
  assume r: "r \<in> set (commands db)" and cr: "claimable ow m now db r"
    and c: "c = from_row (claim_row ow secs now r)"
    and db': "db' = db\<lparr>commands := upd_where (\<lambda>x. c_id x = c_id r) (claim_row ow secs now) (commands db)\<rparr>"
  obtain s where s: "s \<in> set (commands db)" "c_id s = i" "c_status s = Processing" "c_lease s = Some e"
    using h by (auto simp: claimed_until_def)
  have ne: "c_id r \<noteq> i"
  proof
    assume "c_id r = i"
    then have "r = s" using commands_ok_by_id [OF ok r s(1)] s(2) by simp
    then show False using cr s now by (auto simp: claimable_def due_def)
  qed
  then have "claimed_until i e db'"
    unfolding db' by (intro claimed_until_upd [OF h]) simp
  with ne show ?thesis by (simp add: c from_row_def claim_row_def)
qed

lemma claimed_until_finish:
  "claimed_until i e db \<Longrightarrow> j \<noteq> i \<Longrightarrow> claimed_until i e (finish_command j st res er now db)"
  unfolding finish_command_def by (rule claimed_until_upd) simp_all

lemma claimed_until_call:
  assumes ok: "commands_ok m db" and h: "claimed_until i e db"
    and t: "call_time c \<le> e" and nr: "\<not> reports_on i c"
  shows "claimed_until i e (run_call m c db)"
proof (cases c)
  case (Enqueue sid ct uid pl key uuid now)
  have "claimed_until i e db'" if "enqueue sid ct uid pl key uuid now db = Inr (x, db')" for x db'
    using that by (rule enqueue_cases) (use h in \<open>auto simp: claimed_until_def\<close>)
  with h Enqueue show ?thesis by (auto split: sum.split)
next
  case (Claim ow secs locked now)
  then show ?thesis
  proof (cases "claim_next ow secs m (\<lambda>i. i \<in> set locked) now db")
    case (Pair co db')
    with Claim t h claim_not_claimed [OF ok h, of now ow secs "\<lambda>i. i \<in> set locked" _ db']
    show ?thesis by (cases co) (auto simp: claim_next_def split: option.splits)
  qed
next
  case (Complete j res now)
  with h nr show ?thesis by (simp add: complete_def claimed_until_finish)
next
  case (Fail j er delay now)
  then have "claimed_until i e db'" if "fail j er delay now db = Inr db'" for db'
    using that h nr
    by (auto simp: fail_def claimed_until_finish intro!: claimed_until_upd split: option.splits if_splits)
  with h Fail show ?thesis by (auto split: sum.split)
next
  case (Exhaust now)
  with h t show ?thesis
    by (auto simp: fail_exhausted_commands_def exhausted_def intro!: claimed_until_upd)
next
  case (Cleanup d1 d2 now)
  with h show ?thesis
    by (auto simp: cleanup_runtime_metadata_def Let_def claimed_until_def expired_command_def terminal_status_def)
qed (use h in \<open>simp_all add: claimed_until_def\<close>)

lemma claimed_until_fold:
  assumes "commands_ok m db" and "0 \<le> m" and "claimed_until i e db"
    and "\<forall>c \<in> set calls. call_time c \<le> e \<and> \<not> reports_on i c"
  shows "commands_ok m (fold (run_call m) calls db) \<and> claimed_until i e (fold (run_call m) calls db)"
  using assms
  by (induction calls arbitrary: db) (simp_all add: run_call_ok claimed_until_call del: run_call.simps)

lemma claim_claims:
  assumes ok: "commands_ok m db" and cl: "claim_next ow secs m locked now db = (Some c, db')"
  shows "claimed_until (sc_id c) (now + secs * second) db' \<and> commands_ok m db'"
proof -
  have "commands_ok m db'" using claim_ok [OF ok, of ow secs locked now] cl by simp
  moreover have "claimed_until (sc_id c) (now + secs * second) db'"
    using cl
  proof (rule claim_cases)
    fix r
    assume r: "r \<in> set (commands db)" and c: "c = from_row (claim_row ow secs now r)"
      and db': "db' = db\<lparr>commands := upd_where (\<lambda>x. c_id x = c_id r) (claim_row ow secs now) (commands db)\<rparr>"
    have "claim_row ow secs now r \<in> set (commands db')" using r by (auto simp: db' set_upd_where)
    then show ?thesis
      unfolding claimed_until_def by (intro bexI) (simp_all add: c from_row_def claim_row_def)
  qed
  ultimately show ?thesis by simp
qed

text \<open>C2. No command runs twice at once: after a worker has claimed a command, no worker's
  \<open>claim_next\<close> returns it again before the claim's lease has run out, whatever enqueues, claims,
  lease operations, heartbeats and housekeeping of any process happen in between, unless someone
  reports on it (\<open>complete\<close> or \<open>fail\<close>).\<close>

theorem claim_exclusive:
  assumes "commands_ok m db" and "0 \<le> m"
    and "claim_next a secs m locked now db = (Some c, db1)"
    and "\<forall>x \<in> set calls. call_time x \<le> now + secs * second \<and> \<not> reports_on (sc_id c) x"
    and "t \<le> now + secs * second"
    and "claim_next b secs' m locked' t (fold (run_call m) calls db1) = (Some c', db2)"
  shows "sc_id c' \<noteq> sc_id c"
proof -
  have "commands_ok m (fold (run_call m) calls db1)
      \<and> claimed_until (sc_id c) (now + secs * second) (fold (run_call m) calls db1)"
    using assms claim_claims [OF assms(1,3)] by (intro claimed_until_fold) simp_all
  then show ?thesis using claim_not_claimed assms(5,6) by blast
qed

lemma claim_exclusive_witness:
  "\<exists>c db1 c' db2. claim_next ''w'' 30 3 (\<lambda>i. False) 5 demo_db = (Some c, db1)
     \<and> claim_next ''v'' 30 3 (\<lambda>i. False) 9 (fold (run_call 3) [Exhaust 6, Beat ''v'' ''trading'' [] 7] db1) = (Some c', db2)
     \<and> sc_id c' \<noteq> sc_id c"
proof -
  let ?q = "claim_next ''w'' 30 3 (\<lambda>i. False) 5 demo_db"
  let ?r = "claim_next ''v'' 30 3 (\<lambda>i. False) 9 (fold (run_call 3) [Exhaust 6, Beat ''v'' ''trading'' [] 7] (snd ?q))"
  have "fst ?q \<noteq> None" "fst ?r \<noteq> None" by code_simp+
  then obtain c db1 c' db2 where c: "?q = (Some c, db1)" and c': "?r = (Some c', db2)"
    by (cases "fst ?q"; cases "fst ?r") (auto simp: prod_eq_iff simp del: fold.simps)
  have "sc_id c' \<noteq> sc_id c"
    by (rule claim_exclusive [OF demo_db_ok _ c, where t = 9 and calls = "[Exhaust 6, Beat ''v'' ''trading'' [] 7]"])
       (use c c' in \<open>simp_all add: second_def del: run_call.simps fold.simps\<close>)
  with c c' show ?thesis by auto
qed

section \<open>How often a command runs\<close>

fun claims_of :: "int \<Rightarrow> int \<Rightarrow> call list \<Rightarrow> cmd_db \<Rightarrow> int" where
  "claims_of m i [] db = 0"
| "claims_of m i (c # cs) db =
     (case c of
        Claim ow secs locked now \<Rightarrow>
          (case fst (claim_next ow secs m (\<lambda>j. j \<in> set locked) now db) of
             None \<Rightarrow> 0 | Some x \<Rightarrow> if sc_id x = i then 1 else 0)
      | _ \<Rightarrow> 0) + claims_of m i cs (run_call m c db)"

text \<open>The attempts used up: none before the id is drawn, all of them once the row is deleted.\<close>

definition attempts_used :: "int \<Rightarrow> int \<Rightarrow> cmd_db \<Rightarrow> int" where
  "attempts_used m i db =
     (if next_command_id db \<le> i then 0
      else case find (\<lambda>r. c_id r = i) (commands db) of None \<Rightarrow> m | Some r \<Rightarrow> c_attempts r)"

lemma attempts_used_bounds:
  assumes "commands_ok m db" and "0 \<le> m"
  shows "0 \<le> attempts_used m i db \<and> attempts_used m i db \<le> m"
  using assms
  by (auto simp: attempts_used_def commands_ok_def row_ok_def dest!: find_SomeD split: option.split)

lemma attempts_used_upd:
  assumes f: "keeps_identity f" and "\<And>r. c_attempts (f r) = c_attempts r"
  shows "attempts_used m i (db\<lparr>commands := upd_where p f (commands db)\<rparr>) = attempts_used m i db"
  using assms(2) by (auto simp: attempts_used_def get_command_upd [OF f] split: option.split)

lemma attempts_used_finish [simp]:
  "attempts_used m i (finish_command j st res e now db) = attempts_used m i db"
  unfolding finish_command_def by (rule attempts_used_upd) (simp_all add: finish_row_def)

lemma find_unused: "commands_ok m db \<Longrightarrow> next_command_id db \<le> i \<Longrightarrow> find (\<lambda>r. c_id r = i) (commands db) = None"
  using commands_ok_parts(3) [of m db] by (auto simp: find_None_iff)

lemma attempts_used_enqueue:
  assumes ok: "commands_ok m db" and m: "0 \<le> m"
    and enq: "enqueue sid ct uid pl key uuid now db = Inr (c, db')"
  shows "attempts_used m i db \<le> attempts_used m i db'"
  using enq
proof (cases rule: enqueue_cases)
  case active
  then show ?thesis by simp
next
  case known
  with m find_unused [OF ok] show ?thesis
    by (auto simp: attempts_used_def split: option.split)
next
  case (fresh row t)
  have row: "c_id row = next_command_id db" "c_attempts row = 0" using fresh by (simp_all add: new_command_def)
  show ?thesis
    unfolding attempts_used_def fresh(6)
    using find_unused [OF ok, of i] row m by (auto simp: find_append split: option.split)
qed

lemma attempts_used_claim:
  assumes ok: "commands_ok m db" and cl: "claim_next ow secs m locked now db = (Some c, db')"
  shows "attempts_used m i db' = attempts_used m i db + (if sc_id c = i then 1 else 0)"
  using cl
proof (rule claim_cases)
  fix r
  assume r: "r \<in> set (commands db)" and c: "c = from_row (claim_row ow secs now r)"
    and db': "db' = db\<lparr>commands := upd_where (\<lambda>x. c_id x = c_id r) (claim_row ow secs now) (commands db)\<rparr>"
  have lt: "c_id r < next_command_id db" using r commands_ok_parts(3) [OF ok] by simp
  have id: "sc_id c = c_id r" by (simp add: c from_row_def claim_row_def)
  show ?thesis
  proof (cases "c_id r = i")
    case True
    with find_id [OF ok r] lt show ?thesis
      by (simp add: attempts_used_def db' get_command_upd id) (simp add: claim_row_def)
  next
    case False
    then show ?thesis
      by (auto simp: attempts_used_def db' get_command_upd id dest: find_SomeD split: option.split)
  qed
qed

lemma attempts_used_step:
  assumes ok: "commands_ok m db" and m: "0 \<le> m"
  shows "claims_of m i [c] db + attempts_used m i db \<le> attempts_used m i (run_call m c db)"
proof (cases c)
  case (Enqueue sid ct uid pl key uuid now)
  with attempts_used_enqueue [OF ok m] show ?thesis by (auto split: sum.split)
next
  case (Claim ow secs locked now)
  obtain co db' where p: "claim_next ow secs m (\<lambda>j. j \<in> set locked) now db = (co, db')"
    by (cases "claim_next ow secs m (\<lambda>j. j \<in> set locked) now db")
  show ?thesis
  proof (cases co)
    case None
    with p Claim show ?thesis by (auto simp: claim_next_def split: option.splits)
  next
    case (Some x)
    with p Claim show ?thesis using attempts_used_claim [OF ok, of ow secs _ now x db' i] by simp
  qed
next
  case (Complete j res now)
  then show ?thesis by (simp add: complete_def)
next
  case (Fail j er delay now)
  have "attempts_used m i db' = attempts_used m i db" if "fail j er delay now db = Inr db'" for db'
    using that by (auto simp: fail_def retry_row_def intro!: attempts_used_upd split: option.splits if_splits)
  with Fail show ?thesis by (auto split: sum.split)
next
  case (Exhaust now)
  then show ?thesis
    by (simp add: fail_exhausted_commands_def attempts_used_upd exhaust_row_def)
next
  case (Cleanup d1 d2 now)
  have "attempts_used m i db \<le> m" using attempts_used_bounds [OF ok m] by simp
  then show ?thesis
    using Cleanup find_key_delete_where [OF commands_ok_distinct [OF ok], of i]
    by (auto simp: attempts_used_def cleanup_runtime_metadata_def Let_def split: option.splits)
qed (simp_all add: attempts_used_def)

lemma claims_of_used:
  assumes "commands_ok m db" and "0 \<le> m"
  shows "claims_of m i cs db + attempts_used m i db \<le> m"
  using assms
proof (induction cs arbitrary: db)
  case Nil
  then show ?case using attempts_used_bounds by simp
next
  case (Cons c cs)
  have "claims_of m i cs (run_call m c db) + attempts_used m i (run_call m c db) \<le> m"
    using Cons.prems by (intro Cons.IH run_call_ok)
  moreover have "claims_of m i (c # cs) db = claims_of m i [c] db + claims_of m i cs (run_call m c db)"
    by simp
  ultimately show ?case using attempts_used_step [OF Cons.prems, of i c] by linarith
qed

text \<open>A command is handed to a worker at most \<open>m\<close> times in the whole life of the database:
  whatever calls any processes make in whatever order, starting from the empty database, at most
  \<open>m\<close> of the \<open>claim_next\<close> calls return command \<open>i\<close>.\<close>

theorem claims_bounded:
  assumes "0 \<le> m"
  shows "claims_of m i calls empty_db \<le> m"
  using claims_of_used [of m empty_db i calls] attempts_used_bounds [of m empty_db i] assms by simp

lemma claims_bounded_witness:
  "claims_of 1 1 [Enqueue 7 ''start'' 1 None None ''k'' 1, Claim ''a'' 10 [] 2, Fail 1 ''x'' (Some 1) 3,
      Claim ''b'' 10 [] 3000000] empty_db \<le> 1"
  by (rule claims_bounded) simp

section \<open>A late failure report\<close>

definition wedged :: "int \<Rightarrow> int \<Rightarrow> int \<Rightarrow> cmd_type \<Rightarrow> cmd_db \<Rightarrow> bool" where
  "wedged m i sid t db = (\<exists>r \<in> set (commands db). c_id r = i \<and> c_strategy_id r = sid \<and> c_type r = t
     \<and> c_status r = Pending \<and> m \<le> c_attempts r)"

lemma wedged_upd:
  assumes "wedged m i sid t db"
    and "\<And>r. r \<in> set (commands db) \<Longrightarrow> c_id r = i \<Longrightarrow> c_status r = Pending \<Longrightarrow> m \<le> c_attempts r \<Longrightarrow> \<not> p r"
  shows "wedged m i sid t (db\<lparr>commands := upd_where p f (commands db)\<rparr>)"
  using assms by (fastforce simp: wedged_def set_upd_where)

lemma wedged_claim:
  assumes ok: "commands_ok m db" and h: "wedged m i sid t db"
    and cl: "claim_next ow secs m locked now db = (Some c, db')"
  shows "sc_id c \<noteq> i \<and> wedged m i sid t db'"
  using cl
proof (rule claim_cases)
  fix r
  assume r: "r \<in> set (commands db)" and cr: "claimable ow m now db r"
    and c: "c = from_row (claim_row ow secs now r)"
    and db': "db' = db\<lparr>commands := upd_where (\<lambda>x. c_id x = c_id r) (claim_row ow secs now) (commands db)\<rparr>"
  obtain s where s: "s \<in> set (commands db)" "c_id s = i" "m \<le> c_attempts s"
    using h by (auto simp: wedged_def)
  have ne: "c_id r \<noteq> i"
    using commands_ok_by_id [OF ok r s(1)] s cr by (auto simp: claimable_def)
  then have "wedged m i sid t db'" unfolding db' by (intro wedged_upd [OF h]) simp
  with ne show ?thesis by (simp add: c from_row_def claim_row_def)
qed

lemma wedged_call:
  assumes ok: "commands_ok m db" and h: "wedged m i sid t db" and nr: "\<not> reports_on i c"
  shows "wedged m i sid t (run_call m c db)"
proof (cases c)
  case (Enqueue sid' ct uid pl key uuid now)
  have "wedged m i sid t db'" if "enqueue sid' ct uid pl key uuid now db = Inr (x, db')" for x db'
    using that by (rule enqueue_cases) (use h in \<open>auto simp: wedged_def\<close>)
  with h Enqueue show ?thesis by (auto split: sum.split)
next
  case (Claim ow secs locked now)
  then show ?thesis
  proof (cases "claim_next ow secs m (\<lambda>i. i \<in> set locked) now db")
    case (Pair co db')
    with Claim h wedged_claim [OF ok h, of ow secs "\<lambda>i. i \<in> set locked" now _ db']
    show ?thesis by (cases co) (auto simp: claim_next_def split: option.splits)
  qed
next
  case (Complete j res now)
  with h nr show ?thesis
    by (auto simp: complete_def finish_command_def intro!: wedged_upd)
next
  case (Fail j er delay now)
  then have "wedged m i sid t db'" if "fail j er delay now db = Inr db'" for db'
    using that h nr
    by (auto simp: fail_def finish_command_def intro!: wedged_upd split: option.splits if_splits)
  with h Fail show ?thesis by (auto split: sum.split)
next
  case (Exhaust now)
  with h show ?thesis
    by (auto simp: fail_exhausted_commands_def exhausted_def intro!: wedged_upd)
next
  case (Cleanup d1 d2 now)
  with h show ?thesis
    by (auto simp: cleanup_runtime_metadata_def Let_def wedged_def expired_command_def terminal_status_def)
qed (use h in \<open>simp_all add: wedged_def\<close>)

lemma wedged_fold:
  assumes "commands_ok m db" and "0 \<le> m" and "wedged m i sid t db"
    and "\<forall>c \<in> set calls. \<not> reports_on i c"
  shows "commands_ok m (fold (run_call m) calls db) \<and> wedged m i sid t (fold (run_call m) calls db)"
  using assms
  by (induction calls arbitrary: db) (simp_all add: run_call_ok wedged_call del: run_call.simps)

text \<open>An active command of the kind is what \<open>enqueue\<close> returns, and it writes nothing.\<close>

lemma enqueue_returns_active:
  assumes ok: "commands_ok m db" and r: "r \<in> set (commands db)" "same_action sid t r"
    and t: "parse_type (py_lower (py_strip ct)) = Some t"
  shows "enqueue sid ct uid pl key uuid now db = Inr (from_row r, db)"
proof -
  obtain s where s: "find_last (same_action sid t) (commands db) = Some s"
    using r find_last_None by (metis option.exhaust)
  have "s = r"
    using find_last_SomeD [OF s] r
    by (intro commands_ok_by_id [OF ok] one_activeD [OF commands_ok_parts(4) [OF ok]])
       (simp_all add: same_action_def)
  with s t show ?thesis by (simp add: enqueue_def)
qed

text \<open>A retry report on an active command is never refused by the partial unique index.\<close>

lemma fail_active:
  assumes ok: "commands_ok m db" and r: "r \<in> set (commands db)" "is_active r"
  shows "fail (c_id r) e (Some d) now db
       = Inr (db\<lparr>commands := upd_where (\<lambda>x. c_id x = c_id r) (retry_row e d now) (commands db)\<rparr>)"
proof -
  have "c_id x = c_id r" if "x \<in> set (commands db)" "same_action (c_strategy_id r) (c_type r) x" for x
    using one_activeD [OF commands_ok_parts(4) [OF ok] r(1) that(1) r(2)] that(2)
    by (simp add: same_action_def)
  then have "\<not> action_clash db (c_id r)"
    using find_id [OF ok r(1)] by (auto simp: action_clash_def list_ex_iff)
  then show ?thesis by (simp add: fail_def)
qed

text \<open>C6. \<open>fail\<close> does not check whose claim it reports on.  When a worker whose claim has expired
  reports a retry while another worker runs the command's last attempt, the command is left
  pending with no attempts remaining: whatever else happens short of another report on it, no
  \<open>claim_next\<close> ever returns it, \<open>fail_exhausted_commands\<close> never fails it, and every later
  \<open>enqueue\<close> of that kind for the strategy gets this dead command back.\<close>

theorem late_retry_wedges:
  assumes ok: "commands_ok m db" and m: "0 \<le> m"
    and r: "r \<in> set (commands db)" "c_status r = Processing" "c_attempts r = m"
    and later: "\<forall>c \<in> set calls. \<not> reports_on (c_id r) c"
    and kind: "parse_type (py_lower (py_strip ct)) = Some (c_type r)"
  shows "\<exists>db1. fail (c_id r) e (Some d) now db = Inr db1 \<and>
      (let db2 = fold (run_call m) calls db1 in
         (\<forall>c. fst (claim_next ow secs m locked t db2) = Some c \<longrightarrow> sc_id c \<noteq> c_id r)
       \<and> (\<exists>c. enqueue (c_strategy_id r) ct uid pl key uuid t db2 = Inr (c, db2) \<and> sc_id c = c_id r
              \<and> sc_status c = Pending))"
proof -
  have act: "is_active r" using r by (simp add: is_active_def)
  define db1 where "db1 = db\<lparr>commands := upd_where (\<lambda>x. c_id x = c_id r) (retry_row e d now) (commands db)\<rparr>"
  have fl: "fail (c_id r) e (Some d) now db = Inr db1"
    using fail_active [OF ok r(1) act] by (simp add: db1_def)
  have ok1: "commands_ok m db1" by (rule fail_ok [OF ok fl])
  have "retry_row e d now r \<in> set (commands db1)" using r(1) by (auto simp: db1_def set_upd_where)
  then have "wedged m (c_id r) (c_strategy_id r) (c_type r) db1"
    unfolding wedged_def using r(3) by (intro bexI) (auto simp: retry_row_def)
  then have w: "commands_ok m (fold (run_call m) calls db1)"
      "wedged m (c_id r) (c_strategy_id r) (c_type r) (fold (run_call m) calls db1)"
    using wedged_fold [OF ok1 m _ later] by blast+
  then obtain s where s: "s \<in> set (commands (fold (run_call m) calls db1))" "c_id s = c_id r"
    "same_action (c_strategy_id r) (c_type r) s" "c_status s = Pending"
    by (auto simp: wedged_def same_action_def is_active_def)
  have "fst (claim_next ow secs m locked t (fold (run_call m) calls db1)) = Some c \<Longrightarrow> sc_id c \<noteq> c_id r" for c
    using wedged_claim [OF w, of ow secs locked t c] by (metis prod.collapse)
  then show ?thesis
    using fl enqueue_returns_active [OF w(1) s(1,3) kind, of uid pl key uuid t] s(2,4)
    by (intro exI [of _ db1]) (simp add: Let_def from_row_def)
qed

definition late_db :: cmd_db where
  "late_db = fold (run_call 2) [Enqueue 7 ''start'' 1 None None ''k'' 1, Claim ''a'' 10 [] 2,
     Claim ''b'' 10 [] 10000003] empty_db"

lemma late_retry_wedges_witness:
  "\<exists>db1. fail 1 ''timeout'' (Some 1) 10000004 late_db = Inr db1 \<and>
      (let db2 = fold (run_call 2) [Exhaust 99000000] db1 in
         (\<forall>c. fst (claim_next ''c'' 10 2 (\<lambda>i. False) 99000001 db2) = Some c \<longrightarrow> sc_id c \<noteq> 1)
       \<and> (\<exists>c. enqueue 7 ''start'' 1 None None ''k2'' 99000001 db2 = Inr (c, db2) \<and> sc_id c = 1
              \<and> sc_status c = Pending))"
proof -
  let ?r = "hd (commands late_db)"
  have ok: "commands_ok 2 late_db"
    unfolding late_db_def by (simp add: run_call_ok del: run_call.simps)
  have r: "?r \<in> set (commands late_db)" by code_simp
  have st: "c_status ?r = Processing" "c_attempts ?r = 2" "c_id ?r = 1" "c_strategy_id ?r = 7" "c_type ?r = Start"
    by code_simp+
  have kind: "parse_type (py_lower (py_strip ''start'')) = Some (c_type ?r)" unfolding st by code_simp
  show ?thesis
    using late_retry_wedges [OF ok _ r st(1,2) _ kind, where calls = "[Exhaust 99000000]"
        and e = "''timeout''" and d = 1 and now = 10000004 and ow = "''c''" and secs = 10
        and locked = "\<lambda>i. False" and t = 99000001 and uid = 1 and pl = None and key = None
        and uuid = "''k2''"]
    unfolding st by simp
qed

section \<open>Runtime leases among all the calls\<close>

fun leases_as :: "string \<Rightarrow> call \<Rightarrow> bool" where
  "leases_as ow (Runtime op) = (op_owner op = ow)"
| "leases_as ow c = False"

lemma strategy_holder_cong: "leases db' = leases db \<Longrightarrow> strategy_holder db' sid = strategy_holder db sid"
  by (simp add: strategy_holder_def lease_of_def)

lemma leases_process_op [simp]: "leases (process.apply_op op db) = leases db"
  by (cases op) (simp_all add: acquire_process_lease_def renew_process_lease_def
      release_process_lease_def split: option.splits)

lemma strategy_holder_cleanup:
  assumes ok: "leases_ok db" and h: "strategy_holder db sid = Some (ow, e)" and now: "now \<le> e"
  shows "strategy_holder (snd (cleanup_runtime_metadata d1 d2 now db)) sid = Some (ow, e)"
proof -
  have "\<not> e < now - day" using now day_pos by linarith
  then show ?thesis
    using ok h by (auto simp: strategy_holder_def cleanup_runtime_metadata_def Let_def lease_of_def
        leases_ok_def find_key_delete_where)
qed

lemma strategy_holder_call:
  assumes ok: "leases_ok db" and h: "strategy_holder db sid = Some (ow, e)"
    and t: "call_time c \<le> e" and other: "\<not> leases_as ow c"
  shows "strategy_holder (run_call m c db) sid = Some (ow, e)"
proof (cases c)
  case (Enqueue sid ct uid pl key uuid now)
  with h show ?thesis by (auto split: sum.split dest!: leases_enqueue simp: strategy_holder_def lease_of_def)
next
  case (Fail i er delay now)
  with h show ?thesis by (auto split: sum.split dest!: leases_fail simp: strategy_holder_def lease_of_def)
next
  case (Cleanup d1 d2 now)
  with ok h t show ?thesis by (simp add: strategy_holder_cleanup)
next
  case (Runtime op)
  with ok h t other show ?thesis by (simp add: runtime.apply_op_keeps)
qed (use h in \<open>simp_all add: complete_def strategy_holder_def lease_of_def leases_call_frame\<close>)

lemma strategy_holder_fold:
  assumes "leases_ok db" and "strategy_holder db sid = Some (ow, e)"
    and "\<forall>c \<in> set calls. call_time c \<le> e \<and> \<not> leases_as ow c"
  shows "leases_ok (fold (run_call m) calls db)
       \<and> strategy_holder (fold (run_call m) calls db) sid = Some (ow, e)"
  using assms
  by (induction calls arbitrary: db) (simp_all add: leases_ok_call strategy_holder_call del: run_call.simps)

lemma fst_acquire_runtime: "fst (acquire_runtime_lease sid ow secs now db)
    = (fst (acquire_strategy_lease sid ow secs now db) \<noteq> None)"
  and snd_acquire_runtime: "snd (acquire_runtime_lease sid ow secs now db)
    = snd (acquire_strategy_lease sid ow secs now db)"
  by (simp_all add: acquire_runtime_lease_def split: prod.split)

lemma active_lease_holder:
  assumes "strategy_holder db sid = Some (ow, e)" and "now \<le> e"
  shows "has_active_strategy_lease sid now db"
proof -
  obtain l where "lease_of db sid = Some l" "l_expires l = e"
    using assms(1) by (auto simp: strategy_holder_def)
  with assms(2) show ?thesis
    using find_NoneD [of "\<lambda>l. l_strategy l = sid \<and> now \<le> l_expires l" "leases db" l]
    by (auto simp: has_active_strategy_lease_def dest: lease_of_key)
qed

text \<open>C3. At most one trading worker runs a strategy: while the lease a worker has acquired runs, and
  whatever other calls (of any process, cleanup included) happen in between, no other worker can
  acquire or renew the lease, and \<open>has_active_strategy_lease\<close> reports the strategy as running.\<close>

theorem runtime_lease_exclusive:
  assumes ok: "leases_ok db" and acq: "acquire_strategy_lease sid a secs now db = (Some token, db1)"
    and calls: "\<forall>c \<in> set calls. call_time c \<le> now + secs * second \<and> \<not> leases_as a c"
    and other: "b \<noteq> a" and t: "t \<le> now + secs * second"
  shows "let db2 = fold (run_call m) calls db1 in
      fst (acquire_strategy_lease sid b s t db2) = None
    \<and> \<not> fst (renew_strategy_lease sid b s t db2) \<and> has_active_strategy_lease sid t db2"
proof -
  have "fst (acquire_runtime_lease sid a secs now db)" "snd (acquire_runtime_lease sid a secs now db) = db1"
    using acq by (simp_all add: fst_acquire_runtime snd_acquire_runtime)
  then have "leases_ok db1" "strategy_holder db1 sid = Some (a, now + secs * second)"
    using runtime.invar_acquire [OF ok] runtime.acquire_holder [OF ok] by metis+
  then have "leases_ok (fold (run_call m) calls db1)"
    "strategy_holder (fold (run_call m) calls db1) sid = Some (a, now + secs * second)"
    using strategy_holder_fold [OF _ _ calls] by blast+
  then show ?thesis
    using runtime.acquire_iff [of "fold (run_call m) calls db1" sid b s t]
      runtime.renew_iff [of "fold (run_call m) calls db1" sid b s t] other t
    by (auto simp: Let_def fst_acquire_runtime active_lease_holder)
qed

lemma runtime_lease_exclusive_witness:
  "\<exists>token db1. acquire_strategy_lease 7 ''a'' 30 5 demo_db = (Some token, db1)
     \<and> fst (acquire_strategy_lease 7 ''b'' 30 9 (fold (run_call 3) [Runtime (Acquire 7 ''c'' 30 6), Cleanup 7 7 8] db1)) = None"
proof -
  let ?q = "acquire_strategy_lease 7 ''a'' 30 5 demo_db"
  have q: "?q = (Some (the (fst ?q)), snd ?q)" by (simp add: prod_eq_iff) code_simp
  have "leases_ok demo_db" by code_simp
  from runtime_lease_exclusive [OF this q, where t = 9 and b = "''b''" and s = 30 and m = 3
      and calls = "[Runtime (Acquire 7 ''c'' 30 6), Cleanup 7 7 8]"] q
  show ?thesis by (intro exI [of _ "the (fst ?q)"] exI [of _ "snd ?q"]) (simp add: second_def Let_def del: fold.simps)
qed

text \<open>Fencing tokens: taking an expired lease over raises the token by one and re-acquiring one's
  own lease keeps it, but the token lives in the lease row only: after a release (or a cleanup of
  rows a day old) the next owner gets token 1 again, so tokens do not order the owners of a
  strategy across a release.\<close>

theorem fencing_tokens:
  assumes ok: "leases_ok db" and l: "lease_of db sid = Some l"
  shows "(l_expires l < now \<and> ow \<noteq> l_owner l
            \<longrightarrow> fst (acquire_strategy_lease sid ow secs now db) = Some (l_token l + 1))
    \<and> fst (acquire_strategy_lease sid (l_owner l) secs now db) = Some (l_token l)
    \<and> fst (acquire_strategy_lease sid ow secs now (release_strategy_lease sid (l_owner l) db)) = Some 1
    \<and> (l_expires l < now - day
         \<longrightarrow> fst (acquire_strategy_lease sid ow secs now (snd (cleanup_runtime_metadata d1 d2 now db))) = Some 1)"
proof (intro conjI impI)
  have d: "distinct (map l_strategy (leases db))" using ok by (simp add: leases_ok_def)
  show "fst (acquire_strategy_lease sid ow secs now db) = Some (l_token l + 1)"
    if "l_expires l < now \<and> ow \<noteq> l_owner l"
    using l that by (auto simp: acquire_strategy_lease_def Let_def)
  show "fst (acquire_strategy_lease sid (l_owner l) secs now db) = Some (l_token l)"
    using l by (simp add: acquire_strategy_lease_def Let_def)
  have "lease_of (release_strategy_lease sid (l_owner l) db) sid = None"
    using l lease_of_key [OF l] by (simp add: release_strategy_lease_def lease_of_def find_key_delete_where [OF d])
  then show "fst (acquire_strategy_lease sid ow secs now (release_strategy_lease sid (l_owner l) db)) = Some 1"
    by (simp add: acquire_strategy_lease_def)
  assume "l_expires l < now - day"
  then have "lease_of (snd (cleanup_runtime_metadata d1 d2 now db)) sid = None"
    using l by (simp add: cleanup_runtime_metadata_def Let_def lease_of_def find_key_delete_where [OF d])
  then show "fst (acquire_strategy_lease sid ow secs now (snd (cleanup_runtime_metadata d1 d2 now db))) = Some 1"
    by (simp add: acquire_strategy_lease_def)
qed

lemma fencing_tokens_witness:
  "fst (acquire_strategy_lease 7 ''b'' 30 99000000 (snd (acquire_strategy_lease 7 ''a'' 30 5 demo_db))) = Some 2"
proof -
  let ?db = "snd (acquire_strategy_lease 7 ''a'' 30 5 demo_db)"
  let ?l = "\<lparr>l_strategy = 7, l_owner = ''a'', l_token = 1, l_expires = 30000005, l_heartbeat = 5\<rparr>"
  have "leases_ok ?db" "lease_of ?db 7 = Some ?l" by code_simp+
  from fencing_tokens [OF this, of 99000000 "''b''" 30] show ?thesis by simp
qed

section \<open>Enqueueing\<close>

text \<open>Enqueueing is idempotent while the command is active: with a key no command has, \<open>enqueue\<close>
  succeeds and returns an active command of the strategy and kind, and every further \<open>enqueue\<close> of
  that kind (any caller, payload or key) returns the same command and changes nothing.\<close>

theorem enqueue_idempotent:
  assumes ok: "commands_ok m db" and m: "0 \<le> m"
    and t: "parse_type (py_lower (py_strip ct)) = Some t"
    and new: "\<forall>r \<in> set (commands db). c_key r \<noteq> str_or (opt_str key) uuid"
    and t': "parse_type (py_lower (py_strip ct')) = Some t"
  shows "\<exists>c db1. enqueue sid ct uid pl key uuid now db = Inr (c, db1)
      \<and> sc_strategy_id c = sid \<and> sc_type c = t \<and> \<not> terminal_status (sc_status c)
      \<and> enqueue sid ct' uid' pl' key' uuid' now' db1 = Inr (c, db1)"
proof (cases "find_last (same_action sid t) (commands db)")
  case (Some r)
  with t t' find_last_SomeD [OF Some] show ?thesis
    by (simp add: enqueue_def from_row_def same_action_def flip: not_active_terminal)
next
  case None
  define row where "row = new_command (next_command_id db) sid uid t (str_or (opt_str key) uuid)
     (case pl of None \<Rightarrow> [] | Some p \<Rightarrow> p) now"
  have nk: "find (\<lambda>r. c_key r = str_or (opt_str key) uuid) (commands db) = None"
    using new by (simp add: find_None_iff)
  have e: "enqueue sid ct uid pl key uuid now db
      = Inr (from_row row, db\<lparr>commands := commands db @ [row], next_command_id := next_command_id db + 1\<rparr>)"
    using t None nk by (simp add: enqueue_def row_def Let_def)
  have "same_action sid t row" by (simp add: row_def new_command_def same_action_def is_active_def)
  moreover have "sc_strategy_id (from_row row) = sid" "sc_type (from_row row) = t"
    "\<not> terminal_status (sc_status (from_row row))"
    by (simp_all add: row_def new_command_def from_row_def terminal_status_def)
  ultimately show ?thesis
    using enqueue_returns_active [OF enqueue_ok [OF ok m e] _ _ t', of row sid uid' pl' key' uuid' now'] e
    by (intro exI) auto
qed

lemma enqueue_idempotent_witness:
  "\<exists>c db1. enqueue 9 '' Restart'' 1 None (Some ''z'') ''u'' 3 demo_db = Inr (c, db1)
      \<and> sc_strategy_id c = 9 \<and> sc_type c = Restart \<and> \<not> terminal_status (sc_status c)
      \<and> enqueue 9 ''RESTART '' 2 None None ''v'' 4 db1 = Inr (c, db1)"
  by (rule enqueue_idempotent [OF demo_db_ok]) (simp, code_simp+)

end
