(* ===== verification/Worker_Safety.thy ===== *)
theory Worker_Safety
  imports Worker Command_Safety
begin

text \<open>
  What the worker's handlers guarantee: every claimed command ends succeeded, failed or scheduled
  for a retry; a runtime is started only under a fresh lease and a failed start gives the lease
  back; a renewal pass leaves only leased runtimes running; and the paths on which a runtime
  outlives its lease because cancelling the grid's orders failed.
\<close>

section \<open>Frames\<close>

lemma stop_strategy_wdb [simp]: "wdb (snd (stop_strategy en sid ps w)) = wdb w"
  by (simp add: stop_strategy_def split: option.split)

lemma fst_stop_strategy: "fst (stop_strategy en sid ps w) \<longleftrightarrow> grid_shutdown en sid = None"
  by (simp add: stop_strategy_def split: option.split)

lemma local_ids_stop: "local_ids (ex (snd (stop_strategy en sid ps w)))
    = (if grid_shutdown en sid = None then filter (\<lambda>i. i \<noteq> sid) (local_ids (ex w)) else local_ids (ex w))"
  by (simp add: stop_strategy_def local_ids_def drop_thread_def filter_map o_def split: option.split)

lemma stop_policy_wdb [simp]: "wdb (snd (stop_strategy_with_policy en sid close w)) = wdb w"
  using stop_strategy_wdb [of en sid True w]
  by (cases "stop_strategy en sid True w") (simp add: stop_strategy_with_policy_def Let_def)

lemma stop_policy_local: "local_ids (ex (snd (stop_strategy_with_policy en sid close w)))
    = local_ids (ex (snd (stop_strategy en sid True w)))"
  by (cases "stop_strategy en sid True w") (simp add: stop_strategy_with_policy_def Let_def)

lemma acquire_runtime_simps:
  "fst (acquire_runtime c now sid w) = fst (acquire_runtime_lease sid (worker_id c) (strategy_secs c) now (wdb w))"
  "wdb (snd (acquire_runtime c now sid w)) = snd (acquire_runtime_lease sid (worker_id c) (strategy_secs c) now (wdb w))"
  "ex (snd (acquire_runtime c now sid w)) = ex w" "statuses (snd (acquire_runtime c now sid w)) = statuses w"
  by (simp_all add: acquire_runtime_def split: prod.split)

lemma release_runtime_simps [simp]:
  "wdb (release_runtime c sid w) = release_strategy_lease sid (worker_id c) (wdb w)"
  "ex (release_runtime c sid w) = ex w"
  by (simp_all add: release_runtime_def)

lemma mark_stopped_simps [simp]: "wdb (mark_stopped en sid w) = wdb w" "ex (mark_stopped en sid w) = ex w"
  by (simp_all add: mark_stopped_def)

text \<open>The branches of \<open>_start\<close>.\<close>

lemma start_runtime_cases:
  obtains (skipped) "start_runtime c en now sid w = (Inr (skipped_result sid), w)"
  | (already) "sid \<in> set (local_ids (ex w))" "start_runtime c en now sid w = (Inr (running_result c sid), w)"
  | (owned) "\<not> fst (acquire_runtime c now sid w)"
      "start_runtime c en now sid w
         = (Inl ''Strategy runtime lease is owned by another trading worker.'', snd (acquire_runtime c now sid w))"
  | (rejected) err e where "fst (acquire_runtime c now sid w)" "start_strategy en sid (ex w) = (False, e)"
      "start_runtime c en now sid w = (Inl err, release_runtime c sid ((snd (acquire_runtime c now sid w))\<lparr>ex := e\<rparr>))"
  | (died) err e e' hint where "fst (acquire_runtime c now sid w)" "start_strategy en sid (ex w) = (True, e)"
      "wait_strategy_running en sid e = ((False, hint), e')"
      "start_runtime c en now sid w = (Inl err, release_runtime c sid
         (snd (stop_strategy en sid False (mark_stopped en sid ((snd (acquire_runtime c now sid w))\<lparr>ex := e'\<rparr>)))))"
  | (started) e e' hint where "fst (acquire_runtime c now sid w)" "start_strategy en sid (ex w) = (True, e)"
      "wait_strategy_running en sid e = ((True, hint), e')" "sid \<notin> set (local_ids (ex w))"
      "start_runtime c en now sid w = (Inr (running_result c sid), mark_stopped en sid ((snd (acquire_runtime c now sid w))\<lparr>ex := e'\<rparr>))"
proof (cases "map_of (statuses w) sid")
  case None
  then show thesis by (intro skipped) (simp add: start_runtime_def)
next
  case (Some st)
  note st = Some
  consider "py_lower st \<noteq> ''running''" | "py_lower st = ''running''" "sid \<in> set (local_ids (ex w))"
    | "py_lower st = ''running''" "sid \<notin> set (local_ids (ex w))" by blast
  then show thesis
  proof cases
    case 1
    with st show thesis by (intro skipped) (simp add: start_runtime_def)
  next
    case 2
    with st show thesis by (intro already) (simp_all add: start_runtime_def)
  next
    case 3
    obtain ok w1 where a: "acquire_runtime c now sid w = (ok, w1)" by fastforce
    obtain s e where b: "start_strategy en sid (ex w) = (s, e)" by fastforce
    obtain al h e' where d: "wait_strategy_running en sid e = ((al, h), e')" by (metis prod.collapse)
    have ex1: "ex w1 = ex w" using acquire_runtime_simps(3) [of c now sid w] a by simp
    note def = start_runtime_def [of c en now sid w] st 3 a b d ex1
    show thesis
    proof (cases ok)
      case False
      with def show thesis by (intro owned) simp_all
    next
      case ok: True
      show thesis
      proof (cases s)
        case False
        with ok def show thesis by (intro rejected [of e]) simp_all
      next
        case True
        with ok def show thesis by (cases al) (auto intro: died [of e h e'] started [of e h e'])
      qed
    qed
  qed
qed

lemma start_strategy_local:
  assumes "start_strategy en sid e = (s, e')" and "\<not> s" and "sid \<notin> set (local_ids e)"
  shows "sid \<notin> set (local_ids e')"
proof -
  have "local_ids e' = local_ids (discard_dead_threads e)"
    using assms(1,2) by (auto simp: start_strategy_def local_ids_def Let_def split: if_splits option.splits)
  then show ?thesis using assms(3) by (auto simp: local_ids_def discard_dead_threads_def)
qed

lemma wait_alive: "wait_strategy_running en sid e = ((True, h), e') \<Longrightarrow> (sid, True) \<in> set (running e')"
  by (auto simp: wait_strategy_running_def Let_def split: if_splits)

lemma commands_acquire_runtime [simp]:
  "commands (snd (acquire_runtime_lease sid ow secs now db)) = commands db"
  by simp

lemma held_after_acquire:
  assumes "leases_ok (wdb w)" and "fst (acquire_runtime c now sid w)"
  shows "strategy_holder (wdb (snd (acquire_runtime c now sid w))) sid
           = Some (worker_id c, now + strategy_secs c * second)"
  using assms by (simp add: acquire_runtime_simps runtime.acquire_holder)

lemma free_after_release:
  assumes "leases_ok db" and "strategy_holder db sid = Some (ow, e)"
  shows "strategy_holder (release_strategy_lease sid ow db) sid = None"
  using assms by (simp add: runtime.release_holder)

text \<open>C5. \<open>_start\<close> runs a strategy only under a lease: for a strategy that is not running here, the
  command is skipped (the desired state changed), or the runtime is alive and the worker holds the
  strategy's lease for its full length, or the start fails.  A start refused because another
  worker's lease runs leaves that lease and the local runtimes untouched; every other failed start
  gives the lease back and, when the grid's orders could be cancelled, leaves no local runtime.\<close>

theorem start_runtime_leased:
  assumes ok: "leases_ok (wdb w)" and new: "sid \<notin> set (local_ids (ex w))"
  shows "case start_runtime c en now sid w of
      (Inr res, w') \<Rightarrow>
        (res = skipped_result sid \<and> w' = w)
        \<or> (res = running_result c sid \<and> (sid, True) \<in> set (running (ex w'))
            \<and> strategy_holder (wdb w') sid = Some (worker_id c, now + strategy_secs c * second))
    | (Inl err, w') \<Rightarrow>
        (ex w' = ex w \<and> (\<exists>h e. strategy_holder (wdb w') sid = Some (h, e) \<and> h \<noteq> worker_id c \<and> now \<le> e))
        \<or> (strategy_holder (wdb w') sid = None
            \<and> (grid_shutdown en sid = None \<longrightarrow> sid \<notin> set (local_ids (ex w'))))"
proof (cases rule: start_runtime_cases [of c en now sid w])
  case skipped
  then show ?thesis by simp
next
  case already
  with new show ?thesis by simp
next
  case owned
  let ?db = "snd (acquire_runtime_lease sid (worker_id c) (strategy_secs c) now (wdb w))"
  have "\<not> fst (acquire_runtime_lease sid (worker_id c) (strategy_secs c) now (wdb w))"
    using owned by (simp add: acquire_runtime_simps)
  moreover from this have "strategy_holder ?db sid = strategy_holder (wdb w) sid"
    using ok by (simp add: runtime.acquire_holder)
  ultimately show ?thesis
    using owned runtime.acquire_iff [OF ok] by (force simp: acquire_runtime_simps)
next
  case (rejected err e)
  have "strategy_holder (wdb (release_runtime c sid ((snd (acquire_runtime c now sid w))\<lparr>ex := e\<rparr>))) sid = None"
    using free_after_release [OF _ held_after_acquire [OF ok rejected(1)]] ok
    by (simp add: acquire_runtime_simps runtime.invar_acquire)
  moreover have "sid \<notin> set (local_ids e)" using start_strategy_local [OF rejected(2)] new by simp
  ultimately show ?thesis using rejected(3) by simp
next
  case (died err e e' hint)
  have "strategy_holder (release_strategy_lease sid (worker_id c) (wdb (snd (acquire_runtime c now sid w)))) sid = None"
    using free_after_release [OF _ held_after_acquire [OF ok died(1)]] ok
    by (simp add: acquire_runtime_simps runtime.invar_acquire)
  then show ?thesis using died(4) by (simp add: local_ids_stop)
next
  case (started e e' hint)
  then show ?thesis using held_after_acquire [OF ok started(1)] wait_alive [OF started(3)] by simp
qed

definition demo_cfg :: cfg where
  "demo_cfg = \<lparr>worker_id = ''a'', command_secs = 30, strategy_secs = 30, max_attempts = 3\<rparr>"

definition demo_env :: env where
  "demo_env = \<lparr>preflight = (\<lambda>_. None), spawn = (\<lambda>_. None), early_exit = (\<lambda>_. None),
     grid_shutdown = (\<lambda>i. if i = 9 then Some ''cancel failed'' else None),
     queue_close = (\<lambda>_ _ _ _ _. Inr 1)\<rparr>"

definition demo_world :: world where
  "demo_world = \<lparr>wdb = demo_db, statuses = [(7, ''running''), (9, ''running'')], legs = [],
     latest_run = (\<lambda>_. 1),
     ex = \<lparr>running = [], max_threads = 4, last_start_failure = [], last_exit_reason = (\<lambda>_. None)\<rparr>\<rparr>"

lemma start_runtime_leased_witness:
  "strategy_holder (wdb (snd (start_runtime demo_cfg demo_env 5 7 demo_world))) 7 = Some (''a'', 30000005)"
proof -
  let ?r = "start_runtime demo_cfg demo_env 5 7 demo_world"
  have "leases_ok (wdb demo_world)" "7 \<notin> set (local_ids (ex demo_world))" by code_simp+
  note th = start_runtime_leased [OF this, where c = demo_cfg and en = demo_env and now = 5]
  have r: "fst ?r = Inr (running_result demo_cfg 7)" "running_result demo_cfg 7 \<noteq> skipped_result 7"
    by code_simp+
  have "?r = (Inr (running_result demo_cfg 7), snd ?r)" using r(1) by (simp add: prod_eq_iff)
  with th r(2) show ?thesis by (auto simp: demo_cfg_def second_def split: prod.splits sum.splits)
qed

section \<open>Every command gets an outcome\<close>

definition same_commands :: "world \<Rightarrow> world \<Rightarrow> bool" where
  "same_commands w w' = (commands (wdb w') = commands (wdb w) \<and> next_command_id (wdb w') = next_command_id (wdb w))"

lemma same_commands_trans: "same_commands w w1 \<Longrightarrow> same_commands w1 w2 \<Longrightarrow> same_commands w w2"
  and same_commands_refl [simp]: "same_commands w w"
  and same_commands_ok: "same_commands w w' \<Longrightarrow> commands_ok m (wdb w') = commands_ok m (wdb w)"
  by (simp_all add: same_commands_def commands_ok_def)

lemma same_commands_start: "same_commands w (snd (start_runtime c en now sid w))"
  by (rule start_runtime_cases [of c en now sid w]) (simp_all add: acquire_runtime_simps same_commands_def)

lemma same_commands_stop: "same_commands w (snd (stop_runtime c en sid close w))"
  using stop_policy_wdb [of en sid True w] stop_strategy_wdb [of en sid False w]
  by (cases "stop_strategy_with_policy en sid True w"; cases "stop_strategy en sid False w")
     (simp add: stop_runtime_def same_commands_def)

lemma same_commands_dispatch: "same_commands w (snd (dispatch c en now cmd w))"
proof (cases "sc_type cmd")
  case Restart
  obtain r w1 where s: "stop_runtime c en (sc_strategy_id cmd) False w = (r, w1)" by fastforce
  with same_commands_stop [of w c en "sc_strategy_id cmd" False] have "same_commands w w1" by simp
  with Restart s same_commands_start same_commands_trans show ?thesis by (cases r) (simp_all add: dispatch_def)
qed (simp_all add: dispatch_def same_commands_start same_commands_stop)

lemma find_after_upd:
  assumes ok: "commands_ok m db" and r: "r \<in> set (commands db)" and f: "keeps_identity f"
  shows "find (\<lambda>x. c_id x = c_id r) (upd_where (\<lambda>x. c_id x = c_id r) f (commands db)) = Some (f r)"
  using find_id [OF ok r] by (simp add: get_command_upd [OF f])

lemma map_of_set_status: "map_of (set_status sid st ss) sid = (case map_of ss sid of None \<Rightarrow> None | Some _ \<Rightarrow> Some st)"
  by (induction ss) (auto simp: set_status_def)

text \<open>A claimed command always gets an outcome, and reporting it is never refused: if the
  handler returns, the command is succeeded with the handler's result; if it raises, the command
  is pending again after \<open>min(60, 2 ^ (attempts - 1))\<close> seconds while attempts remain, and failed with
  the error otherwise; a failed start or restart also clears the strategy's desired state.\<close>

theorem execute_outcome:
  assumes ok: "commands_ok m (wdb w)" and r: "r \<in> set (commands (wdb w))" "is_active r"
    and cmd: "cmd = from_row r"
  shows "\<exists>w' x. execute c en now later cmd w = Inr w'
    \<and> find (\<lambda>y. c_id y = c_id r) (commands (wdb w')) = Some x
    \<and> (case fst (dispatch c en now cmd w) of
         Inr res \<Rightarrow> c_status x = Succeeded \<and> c_result x = res
       | Inl err \<Rightarrow> c_error x = take 4000 err \<and>
           (if c_attempts r < max_attempts c
            then c_status x = Pending
               \<and> c_available_at x = later + min 60 (2 ^ nat (max 0 (c_attempts r - 1))) * second
            else c_status x = Failed
               \<and> (c_type r = Start \<or> c_type r = Restart
                  \<longrightarrow> map_of (statuses w') (c_strategy_id r) \<in> {None, Some ''stopped''})))"
proof -
  obtain out w1 where d: "dispatch c en now cmd w = (out, w1)" by fastforce
  have same: "same_commands w w1" using same_commands_dispatch [of w c en now cmd] d by simp
  have ok1: "commands_ok m (wdb w1)" using same ok by (simp add: same_commands_ok)
  have r1: "r \<in> set (commands (wdb w1))" using same r(1) by (simp add: same_commands_def)
  have id: "sc_id cmd = c_id r" "sc_attempts cmd = c_attempts r" "sc_type cmd = c_type r"
    "sc_strategy_id cmd = c_strategy_id r"
    by (simp_all add: cmd from_row_def)
  note at = find_after_upd [OF ok1 r1]
  show ?thesis
  proof (cases out)
    case (Inr res)
    then show ?thesis
      using at [of "finish_row Succeeded res [] later"] d
      by (simp add: execute_def id complete_def finish_command_def) (simp add: finish_row_def)
  next
    case (Inl err)
    show ?thesis
    proof (cases "c_attempts r < max_attempts c")
      case True
      with Inl show ?thesis
        using at [of "retry_row err (retry_delay (c_attempts r)) later"] d
          fail_active [OF ok1 r1 r(2), of err "retry_delay (c_attempts r)" later]
        by (simp add: execute_def id) (simp add: retry_row_def retry_delay_def)
    next
      case False
      with Inl show ?thesis
        using at [of "finish_row Failed [] err later"] d
        by (simp add: execute_def id fail_def finish_command_def)
           (auto simp: finish_row_def map_of_set_status split: option.split)
    qed
  qed
qed

definition claimed_world :: world where
  "claimed_world = demo_world\<lparr>wdb := snd (claim_next ''a'' 30 3 (\<lambda>i. False) 5 demo_db)\<rparr>"

lemma execute_outcome_witness:
  "\<exists>w' x. execute demo_cfg demo_env 6 7 (from_row (hd (commands (wdb claimed_world)))) claimed_world = Inr w'
     \<and> find (\<lambda>y. c_id y = 1) (commands (wdb w')) = Some x \<and> c_status x = Succeeded"
proof -
  let ?r = "hd (commands (wdb claimed_world))"
  have "commands_ok 3 (wdb claimed_world)" by (simp add: claimed_world_def claim_ok demo_db_ok)
  moreover have "?r \<in> set (commands (wdb claimed_world))" "is_active ?r" by code_simp+
  ultimately obtain w' x where o: "execute demo_cfg demo_env 6 7 (from_row ?r) claimed_world = Inr w'"
      "find (\<lambda>y. c_id y = c_id ?r) (commands (wdb w')) = Some x"
      "case fst (dispatch demo_cfg demo_env 6 (from_row ?r) claimed_world) of
         Inr res \<Rightarrow> c_status x = Succeeded \<and> c_result x = res
       | Inl err \<Rightarrow> c_error x = take 4000 err \<and>
           (if c_attempts ?r < max_attempts demo_cfg
            then c_status x = Pending
               \<and> c_available_at x = 7 + min 60 (2 ^ nat (max 0 (c_attempts ?r - 1))) * second
            else c_status x = Failed
               \<and> (c_type ?r = Start \<or> c_type ?r = Restart
                  \<longrightarrow> map_of (statuses w') (c_strategy_id ?r) \<in> {None, Some ''stopped''}))"
    using execute_outcome [OF _ _ _ refl, of 3 claimed_world ?r demo_cfg demo_env 6 7] by blast
  moreover have "fst (dispatch demo_cfg demo_env 6 (from_row ?r) claimed_world) = Inr (running_result demo_cfg 7)"
    "c_id ?r = 1" by code_simp+
  ultimately show ?thesis by auto
qed

section \<open>The renewal pass\<close>

definition held :: "cfg \<Rightarrow> int \<Rightarrow> world \<Rightarrow> int \<Rightarrow> bool" where
  "held c now w sid = (\<exists>e. strategy_holder (wdb w) sid = Some (worker_id c, e) \<and> now \<le> e)"

lemma renew_one_step:
  assumes ok: "leases_ok (wdb w)" and sd: "grid_shutdown en sid = None"
  shows "leases_ok (wdb (renew_one c en now sid w))"
    and "set (local_ids (ex (renew_one c en now sid w)))
       = (if held c now w sid then set (local_ids (ex w)) else set (local_ids (ex w)) - {sid})"
    and "strategy_holder (wdb (renew_one c en now sid w)) j
       = (if j = sid \<and> held c now w sid then Some (worker_id c, now + strategy_secs c * second)
          else strategy_holder (wdb w) j)"
proof -
  obtain b db' where r: "renew_strategy_lease sid (worker_id c) (strategy_secs c) now (wdb w) = (b, db')"
    by fastforce
  have b: "b = held c now w sid"
    using runtime.renew_iff [OF ok, of sid "worker_id c" "strategy_secs c" now] r by (simp add: held_def)
  have db': "leases_ok db'" using runtime.invar_renew [OF ok, of sid "worker_id c" "strategy_secs c" now] r by simp
  have h: "strategy_holder db' j
     = (if j = sid \<and> b then Some (worker_id c, now + strategy_secs c * second) else strategy_holder (wdb w) j)"
    using runtime.renew_holder [OF ok, of sid "worker_id c" "strategy_secs c" now j] r by simp
  show "leases_ok (wdb (renew_one c en now sid w))" using r db' by (simp add: renew_one_def Let_def)
  show "set (local_ids (ex (renew_one c en now sid w)))
      = (if held c now w sid then set (local_ids (ex w)) else set (local_ids (ex w)) - {sid})"
    using r b sd by (auto simp: renew_one_def local_ids_stop Let_def)
  show "strategy_holder (wdb (renew_one c en now sid w)) j
      = (if j = sid \<and> held c now w sid then Some (worker_id c, now + strategy_secs c * second)
         else strategy_holder (wdb w) j)"
    using r b h by (auto simp add: renew_one_def Let_def)
qed

lemma held_renew_one:
  assumes ok: "leases_ok (wdb w)" and sd: "grid_shutdown en sid = None" and secs: "0 \<le> strategy_secs c"
  shows "held c now (renew_one c en now sid w) j = held c now w j"
proof -
  have t: "now \<le> now + strategy_secs c * second"
    using mult_nonneg_nonneg [OF secs less_imp_le [OF second_pos]] by simp
  show ?thesis
  proof (cases "j = sid \<and> held c now w sid")
    case True
    then have "strategy_holder (wdb (renew_one c en now sid w)) j = Some (worker_id c, now + strategy_secs c * second)"
      using renew_one_step(3) [OF ok sd, of c now j] by simp
    with t True show ?thesis by (simp add: held_def)
  next
    case False
    then have "strategy_holder (wdb (renew_one c en now sid w)) j = strategy_holder (wdb w) j"
      using renew_one_step(3) [OF ok sd, of c now j] by auto
    then show ?thesis by (simp add: held_def)
  qed
qed

lemma renew_fold:
  assumes "leases_ok (wdb w)" and "\<forall>sid \<in> set ids. grid_shutdown en sid = None"
    and secs: "0 \<le> strategy_secs c"
  shows "set (local_ids (ex (fold (renew_one c en now) ids w))) = {sid \<in> set (local_ids (ex w)). sid \<in> set ids \<longrightarrow> held c now w sid}"
    and "strategy_holder (wdb (fold (renew_one c en now) ids w)) j = (if j \<in> set ids \<and> held c now w j
           then Some (worker_id c, now + strategy_secs c * second) else strategy_holder (wdb w) j)"
  using assms(1,2)
proof (induction ids arbitrary: w)
  case (Cons sid ids)
  {
    case (1 w)
    let ?w = "renew_one c en now sid w"
    have sd: "grid_shutdown en sid = None" and rest: "\<forall>i \<in> set ids. grid_shutdown en i = None"
      using 1 by simp_all
    note st = renew_one_step [OF 1(1) sd]
    have "held c now ?w j = held c now w j" for j by (rule held_renew_one [OF 1(1) sd secs])
    with Cons.IH(1) [OF st(1) rest] st(2) [of c now] show ?case by auto
  next
    case (2 w)
    let ?w = "renew_one c en now sid w"
    have sd: "grid_shutdown en sid = None" and rest: "\<forall>i \<in> set ids. grid_shutdown en i = None"
      using 2 by simp_all
    note st = renew_one_step [OF 2(1) sd]
    have "held c now ?w j = held c now w j" for j by (rule held_renew_one [OF 2(1) sd secs])
    with Cons.IH(2) [OF st(1) rest] st(3) [of c now j] show ?case by auto
  }
qed auto

text \<open>After a renewal pass whose grid cancellations succeed, a local strategy is running exactly
  when the worker still held an unexpired lease for it, and every one that runs is leased to this
  worker for the full lease length; leases of other strategies are untouched.\<close>

theorem renew_all_leased:
  assumes "leases_ok (wdb w)" and "\<forall>sid \<in> set (local_ids (ex w)). grid_shutdown en sid = None"
    and "0 \<le> strategy_secs c"
  shows "set (local_ids (ex (renew_all c en now w))) = {sid \<in> set (local_ids (ex w)). held c now w sid}
    \<and> (\<forall>sid \<in> set (local_ids (ex (renew_all c en now w))).
         strategy_holder (wdb (renew_all c en now w)) sid = Some (worker_id c, now + strategy_secs c * second))
    \<and> (\<forall>sid. sid \<notin> set (local_ids (ex w))
         \<longrightarrow> strategy_holder (wdb (renew_all c en now w)) sid = strategy_holder (wdb w) sid)"
  unfolding renew_all_def by (auto simp add: renew_fold [OF assms])

definition leased_world :: world where
  "leased_world = demo_world\<lparr>wdb := snd (acquire_strategy_lease 7 ''a'' 30 5
        (snd (acquire_strategy_lease 8 ''b'' 30 5 demo_db))),
     ex := (ex demo_world)\<lparr>running := [(7, True), (8, True)]\<rparr>\<rparr>"

lemma renew_all_leased_witness:
  "set (local_ids (ex (renew_all demo_cfg demo_env 9 leased_world))) = {7}"
proof -
  have "leases_ok (wdb leased_world)" "\<forall>sid \<in> set (local_ids (ex leased_world)). grid_shutdown demo_env sid = None"
    "0 \<le> strategy_secs demo_cfg" by code_simp+
  note th = renew_all_leased [OF this, of 9]
  have "local_ids (ex leased_world) = [7, 8]"
    "strategy_holder (wdb leased_world) 7 = Some (''a'', 30000005)"
    "strategy_holder (wdb leased_world) 8 = Some (''b'', 30000005)" by code_simp+
  with th show ?thesis by (auto simp: held_def demo_cfg_def)
qed

text \<open>A runtime can outlive its lease.  When cancelling a grid's resting orders fails,
  \<open>executor.stop_strategy\<close> leaves the runtime running and returns \<open>False\<close>; a stop-and-close command
  then still releases the lease and reports normally, so another worker can start the strategy a
  second time, and a renewal pass that has lost the lease keeps the runtime running as well.\<close>

theorem failed_cancel_orphans_runtime:
  assumes ok: "leases_ok (wdb w)" and run: "sid \<in> set (local_ids (ex w))"
    and err: "grid_shutdown en sid = Some e"
  shows "(let (out, w1) = stop_runtime c en sid True w in
      (\<exists>res. out = Inr res \<and> \<not> truthy_key res ''success'') \<and> sid \<in> set (local_ids (ex w1))
      \<and> (strategy_holder (wdb w) sid = Some (worker_id c, x)
         \<longrightarrow> fst (acquire_strategy_lease sid other secs now (wdb w1)) = Some 1))
    \<and> (\<not> held c now w sid \<longrightarrow> sid \<in> set (local_ids (ex (renew_one c en now sid w))))"
proof -
  obtain s w1 where s: "stop_strategy en sid True w = (s, w1)" by fastforce
  then have "\<not> s" using fst_stop_strategy [of en sid True w] err by simp
  moreover have "local_ids (ex w1) = local_ids (ex w)" "wdb w1 = wdb w"
    using local_ids_stop [of en sid True w] stop_strategy_wdb [of en sid True w] s err by simp_all
  moreover have "fst (acquire_strategy_lease sid other secs now (release_strategy_lease sid (worker_id c) (wdb w))) = Some 1"
    if "strategy_holder (wdb w) sid = Some (worker_id c, x)"
    using free_after_release [OF ok that]
    by (simp add: acquire_strategy_lease_def strategy_holder_def)
  ultimately have "let (out, w1) = stop_runtime c en sid True w in
      (\<exists>res. out = Inr res \<and> \<not> truthy_key res ''success'') \<and> sid \<in> set (local_ids (ex w1))
      \<and> (strategy_holder (wdb w) sid = Some (worker_id c, x)
         \<longrightarrow> fst (acquire_strategy_lease sid other secs now (wdb w1)) = Some 1)"
    using s run
    by (simp add: stop_runtime_def stop_strategy_with_policy_def Let_def close_result_def truthy_key_def)
  moreover have "sid \<in> set (local_ids (ex (renew_one c en now sid w)))"
    using run err by (auto simp: renew_one_def local_ids_stop Let_def split: prod.split)
  ultimately show ?thesis by blast
qed

lemma failed_cancel_orphans_runtime_witness:
  "let (out, w1) = stop_runtime demo_cfg demo_env 9 True
       (demo_world\<lparr>wdb := snd (acquire_strategy_lease 9 ''a'' 30 5 demo_db),
                   ex := (ex demo_world)\<lparr>running := [(9, True)]\<rparr>\<rparr>) in
     9 \<in> set (local_ids (ex w1)) \<and> fst (acquire_strategy_lease 9 ''b'' 30 6 (wdb w1)) = Some 1"
proof -
  let ?w = "demo_world\<lparr>wdb := snd (acquire_strategy_lease 9 ''a'' 30 5 demo_db),
                   ex := (ex demo_world)\<lparr>running := [(9, True)]\<rparr>\<rparr>"
  have "leases_ok (wdb ?w)" "9 \<in> set (local_ids (ex ?w))" "grid_shutdown demo_env 9 = Some ''cancel failed''"
    by code_simp+
  note th = failed_cancel_orphans_runtime [OF this, where c = demo_cfg and x = 30000005
      and other = "''b''" and secs = 30 and now = 6]
  have "strategy_holder (wdb ?w) 9 = Some (worker_id demo_cfg, 30000005)" by code_simp
  with th show ?thesis by (auto simp: Let_def split: prod.splits)
qed

end
