(* ===== verification/Command_Client.thy ===== *)
theory Command_Client
  imports Commands
begin

text \<open>
  The API process's side, \<open>services/strategy_command_client.py\<close>: lifecycle requests are enqueued as
  durable commands and the caller waits a bounded time for the worker.  \<open>obs t\<close> is the database
  as it is at (monotonic) time \<open>t\<close>, so that workers may do anything while the client sleeps.
\<close>

record client =
  last_commands :: "(int \<times> cmd_type) \<Rightarrow> int option"
  start_failure :: string

fun error_text :: "cmd_error \<Rightarrow> string" where
  "error_text (UnsupportedCommand s) = ''Unsupported strategy command: '' @ s"
| "error_text UniqueViolation = ''duplicate key value violates unique constraint''"

definition remember :: "int \<Rightarrow> cmd_type \<Rightarrow> int \<Rightarrow> client \<Rightarrow> client" where
  "remember sid t cid c = c\<lparr>last_commands := (last_commands c)((sid, t) \<mapsto> cid)\<rparr>"

definition queue_start :: "int \<Rightarrow> string \<Rightarrow> int \<Rightarrow> client \<Rightarrow> cmd_db \<Rightarrow> bool \<times> client \<times> cmd_db" where
  "queue_start sid uuid now c db =
     (case enqueue sid ''start'' 0 None None uuid now db of
        Inr (cmd, db') \<Rightarrow> (True, (remember sid Start (sc_id cmd) c)\<lparr>start_failure := []\<rparr>, db')
      | Inl e \<Rightarrow> (False, c\<lparr>start_failure := error_text e\<rparr>, db))"

section \<open>The bounded wait\<close>

text \<open>\<open>_wait\<close>: poll until the command is gone, terminal, or the deadline has passed.  The interval is
  at least 50 ms, so the loop ends.\<close>

function wait_command ::
  "(int \<Rightarrow> cmd_db) \<Rightarrow> int \<Rightarrow> int \<Rightarrow> int \<Rightarrow> int \<Rightarrow> strategy_command option" where
  "wait_command obs cid interval deadline t =
     (case get_command cid (obs t) of
        None \<Rightarrow> None
      | Some cmd \<Rightarrow>
          if terminal_status (sc_status cmd) \<or> deadline \<le> t then Some cmd
          else wait_command obs cid interval deadline (t + min (max 50000 interval) (deadline - t)))"
  by pat_completeness auto
termination
  by (relation "measure (\<lambda>(obs, cid, interval, deadline, t). nat (deadline - t))") auto

declare wait_command.simps [simp del]

definition wait_for :: "(int \<Rightarrow> cmd_db) \<Rightarrow> int \<Rightarrow> int \<Rightarrow> int \<Rightarrow> int \<Rightarrow> strategy_command option" where
  "wait_for obs cid interval timeout t = wait_command obs cid interval (t + max 0 timeout) t"

lemma wait_command_window:
  "\<exists>s. t \<le> s \<and> s \<le> max t deadline \<and> wait_command obs cid interval deadline t = get_command cid (obs s)
     \<and> (case get_command cid (obs s) of None \<Rightarrow> True
        | Some cmd \<Rightarrow> terminal_status (sc_status cmd) \<or> deadline \<le> s)"
proof (induction obs cid interval deadline t rule: wait_command.induct)
  case (1 obs cid interval deadline t)
  show ?case
  proof (cases "\<exists>cmd. get_command cid (obs t) = Some cmd \<and> \<not> terminal_status (sc_status cmd) \<and> \<not> deadline \<le> t")
    case True
    then obtain cmd where c: "get_command cid (obs t) = Some cmd" "\<not> (terminal_status (sc_status cmd) \<or> deadline \<le> t)"
      by blast
    let ?t = "t + min (max 50000 interval) (deadline - t)"
    have t: "t < ?t" "?t \<le> deadline" using c(2) by auto
    have unfold: "wait_command obs cid interval deadline t = wait_command obs cid interval deadline ?t"
      using c by (simp add: wait_command.simps [of obs cid interval deadline t])
    obtain s where "?t \<le> s" "s \<le> max ?t deadline"
      "wait_command obs cid interval deadline ?t = get_command cid (obs s)"
      "case get_command cid (obs s) of None \<Rightarrow> True | Some cmd \<Rightarrow> terminal_status (sc_status cmd) \<or> deadline \<le> s"
      using 1 [OF c] by blast
    then show ?thesis using t unfold by (intro exI [of _ s]) auto
  next
    case False
    then show ?thesis
      by (intro exI [of _ t])
         (auto simp: wait_command.simps [of obs cid interval deadline t] split: option.split)
  qed
qed

section \<open>Requests\<close>

definition wait_strategy_running ::
  "(int \<Rightarrow> cmd_db) \<Rightarrow> int \<Rightarrow> int \<Rightarrow> int \<Rightarrow> int \<Rightarrow> client \<Rightarrow> bool \<times> string" where
  "wait_strategy_running obs sid interval timeout t c =
     (case last_commands c (sid, Start) of
        None \<Rightarrow> (False, ''No durable start command was created.'')
      | Some cid \<Rightarrow>
          (case wait_for obs cid interval timeout t of
             None \<Rightarrow> (False, ''Strategy start command was not found.'')
           | Some cmd \<Rightarrow>
               if sc_status cmd = Succeeded then (True, [])
               else if sc_status cmd = Failed then
                 (False, str_or (sc_error cmd) ''Trading worker failed to start the strategy.'')
               else (True, ''strategyV2.startQueued'')))"

definition stop_reply :: "bool \<Rightarrow> string \<Rightarrow> bool \<Rightarrow> string list \<Rightarrow> payload" where
  "stop_reply success status close errors =
     [(''success'', JBool success), (''status'', JStr status), (''close_requested'', JBool close),
      (''close_orders_queued'', JInt 0), (''close_errors'', JList (map JStr errors))]"

definition with_defaults :: "bool \<Rightarrow> payload \<Rightarrow> payload" where
  "with_defaults close result =
     set_default ''close_errors'' (JList [])
      (set_default ''close_orders_queued'' (JInt 0)
        (set_default ''close_requested'' (JBool close)
          (set_default ''status'' (JStr ''stopped'') (set_default ''success'' (JBool True) result))))"

text \<open>\<open>stop_strategy_with_policy\<close>; \<open>timeout\<close> is \<open>STRATEGY_COMMAND_STOP_WAIT_SEC\<close>.  The observations
  start from the database the enqueue leaves.\<close>

definition request_stop ::
  "int \<Rightarrow> bool \<Rightarrow> string \<Rightarrow> int \<Rightarrow> (cmd_db \<Rightarrow> int \<Rightarrow> cmd_db) \<Rightarrow> int \<Rightarrow> int \<Rightarrow> int \<Rightarrow> client \<Rightarrow> cmd_db
   \<Rightarrow> payload \<times> client \<times> cmd_db" where
  "request_stop sid close uuid now later interval timeout t c db =
     (case enqueue sid ''stop'' 0 (Some [(''close_positions'', JBool close)]) None uuid now db of
        Inl e \<Rightarrow> (stop_reply False ''running'' close [error_text e], c, db)
      | Inr (cmd, db') \<Rightarrow>
          let c' = remember sid Stop (sc_id cmd) c in
          (if max 0 timeout = 0 then (stop_reply True ''stopping'' close [], c', db')
           else case wait_for (later db') (sc_id cmd) interval (max 0 timeout) t of
             None \<Rightarrow> (stop_reply False ''stopping'' close [], c', db')
           | Some fin \<Rightarrow>
               if \<not> terminal_status (sc_status fin) then (stop_reply False ''stopping'' close [], c', db')
               else if sc_status fin = Succeeded then (with_defaults close (sc_result fin), c', db')
               else (stop_reply False ''running'' close (if sc_error fin = [] then [] else [sc_error fin]), c', db')))"

definition request_plain_stop ::
  "int \<Rightarrow> string \<Rightarrow> int \<Rightarrow> (cmd_db \<Rightarrow> int \<Rightarrow> cmd_db) \<Rightarrow> int \<Rightarrow> int \<Rightarrow> int \<Rightarrow> client \<Rightarrow> cmd_db
   \<Rightarrow> bool \<times> client \<times> cmd_db" where
  "request_plain_stop sid uuid now later interval timeout t c db =
     (let (reply, rest) = request_stop sid False uuid now later interval timeout t c db in
      (truthy_key reply ''success'', rest))"

definition client_is_running :: "int \<Rightarrow> int \<Rightarrow> cmd_db \<Rightarrow> bool" where
  "client_is_running sid now db = has_active_strategy_lease sid now db"

lemma stop_reply_success [simp]: "truthy_key (stop_reply s st cl er) ''success'' = s"
  by (simp add: stop_reply_def truthy_key_def)

lemma with_defaults_success:
  "truthy_key (with_defaults close res) ''success''
     = (case map_of res ''success'' of None \<Rightarrow> True | Some v \<Rightarrow> json_truthy v)"
  by (simp add: with_defaults_def truthy_key_def map_of_set_default split: option.split)

text \<open>C8. The wait is bounded and says what it saw: \<open>_wait\<close> terminates, reads the command at a moment
  between its start and the deadline, and returns it only once it is terminal, gone, or the
  deadline has been reached.\<close>

theorem wait_for_window:
  "\<exists>s. t \<le> s \<and> s \<le> t + max 0 timeout \<and> wait_for obs cid interval timeout t = get_command cid (obs s)
     \<and> (case wait_for obs cid interval timeout t of None \<Rightarrow> True
        | Some cmd \<Rightarrow> terminal_status (sc_status cmd) \<or> s = t + max 0 timeout)"
  using wait_command_window [of t "t + max 0 timeout" obs cid interval]
  by (auto simp: wait_for_def split: option.splits)

text \<open>A stop request with a positive wait reports success only if, at a moment within the wait, the
  very command it enqueued (or joined) had succeeded and its result did not report a failure.\<close>

theorem request_stop_success:
  assumes "0 < timeout"
    and "request_stop sid close uuid now later interval timeout t c db = (reply, c', db')"
    and "truthy_key reply ''success''"
  shows "\<exists>cmd s fin. enqueue sid ''stop'' 0 (Some [(''close_positions'', JBool close)]) None uuid now db = Inr (cmd, db')
      \<and> t \<le> s \<and> s \<le> t + timeout \<and> get_command (sc_id cmd) (later db' s) = Some fin
      \<and> sc_status fin = Succeeded
      \<and> (case map_of (sc_result fin) ''success'' of None \<Rightarrow> True | Some v \<Rightarrow> json_truthy v)"
proof -
  let ?e = "enqueue sid ''stop'' 0 (Some [(''close_positions'', JBool close)]) None uuid now db"
  obtain cmd db1 where e: "?e = Inr (cmd, db1)"
    using assms(2,3) by (cases ?e) (auto simp: request_stop_def)
  obtain fin where w: "wait_for (later db1) (sc_id cmd) interval timeout t = Some fin"
      "sc_status fin = Succeeded" "reply = with_defaults close (sc_result fin)" "db' = db1"
    using assms e by (auto simp: request_stop_def Let_def max_def split: option.splits if_splits)
  obtain s where "t \<le> s" "s \<le> max t (t + timeout)"
      "wait_for (later db1) (sc_id cmd) interval timeout t = get_command (sc_id cmd) (later db1 s)"
    using wait_command_window [of t "t + timeout" "later db1" "sc_id cmd" interval] assms(1)
    by (auto simp: wait_for_def max_def)
  then show ?thesis
    using e w assms(1,3) by (intro exI [of _ cmd] exI [of _ s] exI [of _ fin]) (simp add: with_defaults_success)
qed

lemma request_stop_success_witness:
  "\<exists>reply c' db' fin. request_stop 8 True ''u'' 1 (\<lambda>db' t. complete 1 [(''status'', JStr ''stopped'')] 5 db') 200000 5000000 0
       \<lparr>last_commands = (\<lambda>_. None), start_failure = []\<rparr> empty_db = (reply, c', db')
     \<and> get_command 1 (complete 1 [(''status'', JStr ''stopped'')] 5 db') = Some fin \<and> sc_status fin = Succeeded"
proof -
  let ?later = "\<lambda>db' t. complete 1 [(''status'', JStr ''stopped'')] 5 db'"
  let ?c = "\<lparr>last_commands = (\<lambda>_. None), start_failure = []\<rparr> :: client"
  let ?q = "request_stop 8 True ''u'' 1 ?later 200000 5000000 0 ?c empty_db"
  have t: "truthy_key (fst ?q) ''success''" by code_simp
  have q: "?q = (fst ?q, fst (snd ?q), snd (snd ?q))" by simp
  have e: "map_sum id (sc_id \<circ> fst) (enqueue 8 ''stop'' 0 (Some [(''close_positions'', JBool True)]) None ''u'' 1 empty_db) = Inr 1"
    by code_simp
  obtain fin where "get_command 1 (complete 1 [(''status'', JStr ''stopped'')] 5 (snd (snd ?q))) = Some fin"
      "sc_status fin = Succeeded"
    using request_stop_success [OF _ q t] e by auto
  then show ?thesis
    by (intro exI [of _ "fst ?q"] exI [of _ "fst (snd ?q)"] exI [of _ "snd (snd ?q)"] exI [of _ fin]) simp
qed

end
