(* ===== verification/Py_Float.thy ===== *)
theory Py_Float
  imports Complex_Main Prelude
begin

text \<open>
  Python floats and database decimals.

  A finite Python \<open>float\<close> is a rational number; every arithmetic operation of the code computes
  the exact result and rounds it to binary64 (round to nearest, ties to even, gradual
  underflow), which is \<open>fl\<close>.  Overflow to infinity and NaN are outside the model.
  A \<open>DECIMAL(p, s)\<close> column rounds to \<open>s\<close> decimals, half away from zero (\<open>dec\<close>); the database
  driver sends a float as the shortest decimal that reads back as the same float (\<open>repr\<close>), so
  a float written to such a column becomes \<open>column s\<close> of it, and reading it back is \<open>fl\<close>.

  What the proofs use of these functions is the contract \<open>conversion\<close> (monotone, odd) and its
  extension \<open>rounding\<close> (exact on representable numbers); \<open>fl\<close> and \<open>dec s\<close> are roundings,
  \<open>column s\<close> is a conversion.
\<close>

section \<open>The contract of a conversion\<close>

locale conversion =
  fixes r :: "rat \<Rightarrow> rat"
  assumes mono: "x \<le> y \<Longrightarrow> r x \<le> r y"
    and zero: "r 0 = 0"
    and minus: "r (- x) = - r x"
begin

lemma nonneg: "0 \<le> x \<Longrightarrow> 0 \<le> r x"
  using mono [of 0 x] by (simp add: zero)

lemma nonpos: "x \<le> 0 \<Longrightarrow> r x \<le> 0"
  using mono [of x 0] by (simp add: zero)

lemma pos_D: "0 < r x \<Longrightarrow> 0 < x"
  using nonpos [of x] by (cases "x \<le> 0") auto

lemma neg_D: "r x < 0 \<Longrightarrow> x < 0"
  using nonneg [of x] by (cases "0 \<le> x") auto

lemma abs: "r \<bar>x\<bar> = \<bar>r x\<bar>"
proof (cases "0 \<le> x")
  case True
  then show ?thesis by (simp add: nonneg)
next
  case False
  then have "r x \<le> 0" by (simp add: nonpos)
  with False show ?thesis by (simp add: minus)
qed

lemma max: "r (max x y) = max (r x) (r y)"
  using mono [of x y] mono [of y x] by (auto simp: max_def)

lemma min: "r (min x y) = min (r x) (r y)"
  using mono [of x y] mono [of y x] by (auto simp: min_def)

end

text \<open>A rounding is a conversion that leaves the representable numbers alone.\<close>

locale rounding = conversion +
  assumes idem: "r (r x) = r x"
begin

lemma above: "r a = a \<Longrightarrow> a \<le> x \<Longrightarrow> a \<le> r x"
  using mono [of a x] by simp

lemma below: "r b = b \<Longrightarrow> x \<le> b \<Longrightarrow> r x \<le> b"
  using mono [of x b] by simp

lemma less_D: "r a = a \<Longrightarrow> a < r x \<Longrightarrow> a < x"
  using mono [of x a] by (cases "x \<le> a") auto

lemma greater_D: "r b = b \<Longrightarrow> r x < b \<Longrightarrow> x < b"
  using mono [of b x] by (cases "b \<le> x") auto

end

section \<open>Rounding to an integer\<close>

text \<open>Nearest integer, ties to even (binary64) and ties away from zero (DECIMAL).\<close>

definition rne :: "rat \<Rightarrow> int" where
  "rne y = (let f = \<lfloor>y\<rfloor>; d = y - of_int f in
     if d < 1/2 then f else if 1/2 < d then f + 1 else if even f then f else f + 1)"

definition rha :: "rat \<Rightarrow> int" where
  "rha y = (if 0 \<le> y then \<lfloor>y + 1/2\<rfloor> else - \<lfloor>1/2 - y\<rfloor>)"

lemma rne_of_int [simp]: "rne (of_int k) = k"
  by (simp add: rne_def)

lemma rne_bounds: "\<lfloor>y\<rfloor> \<le> rne y \<and> rne y \<le> \<lfloor>y\<rfloor> + 1"
  by (simp add: rne_def Let_def)

lemma rne_near: "\<bar>of_int (rne y) - y\<bar> \<le> 1/2"
  using floor_correct [of y] by (auto simp: rne_def Let_def abs_le_iff)

lemma rne_mono:
  assumes "x \<le> y"
  shows "rne x \<le> rne y"
proof (cases "\<lfloor>x\<rfloor> = \<lfloor>y\<rfloor>")
  case True
  with assms show ?thesis by (auto simp: rne_def Let_def)
next
  case False
  with assms have "\<lfloor>x\<rfloor> + 1 \<le> \<lfloor>y\<rfloor>" using floor_mono [of x y] by linarith
  with rne_bounds [of x] rne_bounds [of y] show ?thesis by linarith
qed

lemma rne_minus: "rne (- y) = - rne y"
proof (cases "of_int \<lfloor>y\<rfloor> = y")
  case True
  then obtain k where "y = of_int k" by metis
  then show ?thesis by (metis of_int_minus rne_of_int)
next
  case False
  have fl: "\<lfloor>- y\<rfloor> = - \<lfloor>y\<rfloor> - 1"
  proof -
    have "of_int \<lfloor>y\<rfloor> < y" using False floor_correct [of y] by linarith
    then show ?thesis using floor_correct [of y] by (intro floor_unique) auto
  qed
  show ?thesis by (auto simp: rne_def Let_def fl)
qed

lemma rha_of_int [simp]: "rha (of_int k) = k"
proof -
  have a: "\<lfloor>of_int k + 1/2 :: rat\<rfloor> = k" by (intro floor_unique) auto
  have b: "\<lfloor>1/2 - of_int k :: rat\<rfloor> = - k" by (intro floor_unique) auto
  show ?thesis by (simp only: rha_def a b) simp
qed

lemma rha_minus: "rha (- y) = - rha y"
proof -
  have h: "\<lfloor>1/2 :: rat\<rfloor> = 0" by (intro floor_unique) auto
  show ?thesis by (cases "y = 0") (auto simp: rha_def add.commute h)
qed

lemma rha_nonneg: "0 \<le> y \<Longrightarrow> 0 \<le> rha y"
  by (simp add: rha_def)

lemma rha_mono:
  assumes "x \<le> y"
  shows "rha x \<le> rha y"
proof (cases "0 \<le> x \<or> y < 0")
  case True
  with assms show ?thesis by (auto simp: rha_def intro!: floor_mono)
next
  case False
  then have "rha x \<le> 0" and "0 \<le> rha y"
    using rha_nonneg [of "- x"] by (auto simp: rha_minus rha_nonneg)
  then show ?thesis by linarith
qed

section \<open>Binary64\<close>

text \<open>The number of binary digits of an integer.\<close>

function bits :: "int \<Rightarrow> nat" where
  "bits n = (if n \<le> 0 then 0 else Suc (bits (n div 2)))"
  by pat_completeness auto
termination
  by (relation "measure nat") auto

declare bits.simps [simp del]

lemma bits_bounds: "0 < n \<Longrightarrow> 2 ^ (bits n - 1) \<le> n \<and> n < 2 ^ bits n \<and> 0 < bits n"
proof (induction n rule: bits.induct)
  case (1 n)
  have b: "bits n = Suc (bits (n div 2))" using "1.prems" by (simp add: bits.simps [of n])
  show ?case
  proof (cases "n = 1")
    case True
    then show ?thesis by (simp add: bits.simps [of 1] bits.simps [of 0])
  next
    case False
    with "1.prems" have "0 < n div 2" by linarith
    with "1.IH" "1.prems" have
      ih: "2 ^ (bits (n div 2) - 1) \<le> n div 2" "n div 2 < 2 ^ bits (n div 2)" "0 < bits (n div 2)"
      by auto
    obtain m where m: "bits (n div 2) = Suc m" using ih(3) by (cases "bits (n div 2)") auto
    have "2 * (n div 2) \<le> n" and "n < 2 * (n div 2) + 2" by linarith+
    with ih b m show ?thesis by simp
  qed
qed

lemma bits_powi:
  assumes "0 < n"
  shows "(2::rat) powi (int (bits n) - 1) \<le> of_int n" and "of_int n < (2::rat) powi (int (bits n))"
proof -
  note b = bits_bounds [OF assms]
  have "of_int (2 ^ (bits n - 1)) \<le> (of_int n :: rat)"
    using b by (simp only: of_int_le_iff)
  moreover have "int (bits n) - 1 = int (bits n - 1)" using b by auto
  ultimately show "(2::rat) powi (int (bits n) - 1) \<le> of_int n"
    by (simp only: power_int_of_nat) simp
  have "(of_int n :: rat) < of_int (2 ^ bits n)"
    using b by (simp only: of_int_less_iff)
  then show "of_int n < (2::rat) powi (int (bits n))" by simp
qed

text \<open>\<open>ilog2 x\<close> is the exponent of the binade of a positive \<open>x\<close>.\<close>

definition ilog2 :: "rat \<Rightarrow> int" where
  "ilog2 x = (let (n, d) = quotient_of x; l = int (bits n) - int (bits d)
              in if 2 powi l \<le> x then l else l - 1)"

lemma ilog2_bounds:
  assumes "0 < x"
  shows "2 powi ilog2 x \<le> x" and "x < 2 powi (ilog2 x + 1)"
proof -
  obtain n d where q: "quotient_of x = (n, d)" by (cases "quotient_of x") auto
  have d: "0 < d" using quotient_of_denom_pos [OF q] .
  have x: "x = of_int n / of_int d" using quotient_of_div [OF q] .
  have n: "0 < n" using assms d by (simp add: x zero_less_divide_iff)
  define l where "l = int (bits n) - int (bits d)"
  have "of_int n < (2::rat) powi (int (bits n) - int (bits d) + 1) * 2 powi (int (bits d) - 1)"
    using bits_powi(2) [OF n] by (simp add: power_int_add [symmetric])
  also have "\<dots> \<le> 2 powi (l + 1) * of_int d"
    using bits_powi(1) [OF d] by (simp add: l_def)
  finally have up: "x < 2 powi (l + 1)"
    using d by (simp add: x pos_divide_less_eq)
  have "(2::rat) powi (l - 1) * of_int d < 2 powi (l - 1) * 2 powi (int (bits d))"
    using bits_powi(2) [OF d] by simp
  also have "\<dots> = 2 powi (int (bits n) - 1)"
    by (simp add: l_def power_int_add [symmetric] del: power_int_of_nat)
  also have "\<dots> \<le> of_int n" using bits_powi(1) [OF n] .
  finally have lo: "2 powi (l - 1) \<le> x"
    using d by (simp add: x pos_le_divide_eq)
  have i: "ilog2 x = (if 2 powi l \<le> x then l else l - 1)"
    by (simp add: ilog2_def q l_def)
  show "2 powi ilog2 x \<le> x" using lo by (simp add: i)
  show "x < 2 powi (ilog2 x + 1)" using up by (simp add: i not_le)
qed

lemma powi_less_iff [simp]: "(2::rat) powi i < 2 powi j \<longleftrightarrow> i < j"
  using power_int_strict_increasing [of i j "2::rat"] power_int_increasing [of j i "2::rat"]
  by (cases "i < j") (auto simp: not_less)

lemma ilog2_mono:
  assumes "0 < x" and "x \<le> y"
  shows "ilog2 x \<le> ilog2 y"
proof -
  have "(2::rat) powi ilog2 x \<le> x" by (rule ilog2_bounds(1) [OF assms(1)])
  also have "x < 2 powi (ilog2 y + 1)" using assms ilog2_bounds(2) [of y] by linarith
  finally show ?thesis by simp
qed

text \<open>The exponent of the last place: 52 below the binade, at least -1074.\<close>

definition ulp_exp :: "rat \<Rightarrow> int" where
  "ulp_exp x = max (ilog2 \<bar>x\<bar> - 52) (-1074)"

definition fl :: "rat \<Rightarrow> rat" where
  "fl x = (if x = 0 then 0
           else of_int (rne (x / 2 powi (ulp_exp x))) * 2 powi (ulp_exp x))"

lemma fl_zero [simp]: "fl 0 = 0"
  by (simp add: fl_def)

lemma fl_minus: "fl (- x) = - fl x"
  by (simp add: fl_def ulp_exp_def rne_minus)

lemma fl_representable:
  assumes k: "\<bar>k\<bar> < 2 ^ 53" and e: "-1074 \<le> e"
  shows "fl (of_int k * 2 powi e) = of_int k * 2 powi e"
proof (cases "k = 0")
  case True
  then show ?thesis by simp
next
  case False
  define x :: rat where "x = of_int k * 2 powi e"
  have pos: "0 < \<bar>x\<bar>" using False by (simp add: x_def)
  have "\<bar>x\<bar> < 2 ^ 53 * 2 powi e"
  proof -
    have "(of_int \<bar>k\<bar> :: rat) < of_int (2 ^ 53)" using k by (simp only: of_int_less_iff)
    then show ?thesis by (simp add: x_def abs_mult)
  qed
  also have "(2::rat) ^ 53 * 2 powi e = 2 powi (53 + e)"
    by (simp add: power_int_add)
  finally have "2 powi ilog2 \<bar>x\<bar> < (2::rat) powi (53 + e)"
    using ilog2_bounds(1) [OF pos] by linarith
  then have le: "ulp_exp x \<le> e" using e by (simp add: ulp_exp_def)
  have "x / 2 powi (ulp_exp x) = of_int k * (2 powi e / 2 powi (ulp_exp x))"
    by (simp add: x_def)
  also have "\<dots> = of_int k * 2 powi (e - ulp_exp x)"
    by (simp add: power_int_diff)
  also have "\<dots> = of_int (k * 2 ^ nat (e - ulp_exp x))"
    using le by (simp add: power_int_def)
  finally have q: "x / 2 powi (ulp_exp x) = of_int (k * 2 ^ nat (e - ulp_exp x))" .
  have "fl x = of_int (rne (x / 2 powi (ulp_exp x))) * 2 powi (ulp_exp x)"
    using pos by (simp add: fl_def)
  also have "\<dots> = x / 2 powi (ulp_exp x) * 2 powi (ulp_exp x)"
    by (simp only: q rne_of_int)
  also have "\<dots> = x" by simp
  finally show ?thesis by (simp add: x_def)
qed

lemma fl_of_int: "\<bar>k\<bar> < 2 ^ 53 \<Longrightarrow> fl (of_int k) = of_int k"
  using fl_representable [of k 0] by simp

lemma fl_numeral: "numeral n < (2::int) ^ 53 \<Longrightarrow> fl (numeral n) = numeral n"
  using fl_of_int [of "numeral n"] by simp

lemma fl_one [simp]: "fl 1 = 1"
  using fl_of_int [of 1] by simp

lemma ulp_exp_mono: "0 < x \<Longrightarrow> x \<le> y \<Longrightarrow> ulp_exp x \<le> ulp_exp y"
  using ilog2_mono [of x y] by (simp add: ulp_exp_def)

lemma quotient_bound:
  assumes "0 < x"
  shows "x / 2 powi (ulp_exp x) \<le> of_int (2 ^ 53)"
proof -
  have "x < 2 powi (ilog2 x + 1)" by (rule ilog2_bounds(2) [OF assms])
  also have "\<dots> \<le> (2::rat) powi (53 + ulp_exp x)"
    using assms by (intro power_int_increasing) (auto simp: ulp_exp_def)
  also have "\<dots> = 2 ^ 53 * 2 powi (ulp_exp x)" by (simp add: power_int_add)
  finally show ?thesis by (simp add: pos_divide_le_eq)
qed

lemma fl_mono_pos:
  assumes "0 < x" and "x \<le> y"
  shows "fl x \<le> fl y"
proof (cases "ulp_exp x = ulp_exp y")
  case True
  have "x / 2 powi (ulp_exp y) \<le> y / 2 powi (ulp_exp y)"
    using assms by (simp add: divide_right_mono)
  with True assms show ?thesis by (simp add: fl_def rne_mono)
next
  case False
  let ?u = "ulp_exp x" and ?v = "ulp_exp y"
  have uv: "?u + 1 \<le> ?v" using False ulp_exp_mono [OF assms] by linarith
  have v: "?v = ilog2 y - 52" using uv assms by (auto simp: ulp_exp_def)
  have "rne (x / 2 powi ?u) \<le> 2 ^ 53"
    using rne_mono [OF quotient_bound [OF assms(1)]] by (simp only: rne_of_int)
  then have "(of_int (rne (x / 2 powi ?u)) :: rat) \<le> of_int (2 ^ 53)"
    by (simp only: of_int_le_iff)
  then have "fl x \<le> 2 ^ 53 * 2 powi ?u"
    using assms by (simp add: fl_def)
  also have "\<dots> = 2 powi (53 + ?u)" by (simp add: power_int_add)
  also have "\<dots> \<le> (2::rat) powi (52 + ?v)" using uv by (intro power_int_increasing) auto
  also have "\<dots> = 2 ^ 52 * 2 powi ?v" by (simp add: power_int_add)
  also have "\<dots> \<le> fl y"
  proof -
    have "2 powi (52 + ?v) \<le> y" using ilog2_bounds(1) [of y] assms by (simp add: v)
    then have "of_int (2 ^ 52) \<le> y / 2 powi ?v"
      by (simp add: power_int_add pos_le_divide_eq)
    from rne_mono [OF this] have "2 ^ 52 \<le> rne (y / 2 powi ?v)" by (simp only: rne_of_int)
    then have "(of_int (2 ^ 52) :: rat) \<le> of_int (rne (y / 2 powi ?v))"
      by (simp only: of_int_le_iff)
    then show ?thesis using assms by (simp add: fl_def)
  qed
  finally show ?thesis .
qed

lemma fl_nonneg: "0 \<le> x \<Longrightarrow> 0 \<le> fl x"
proof -
  assume "0 \<le> x"
  then have "0 \<le> x / 2 powi (ulp_exp x)" by simp
  from rne_mono [OF this] have "0 \<le> rne (x / 2 powi (ulp_exp x))"
    using rne_of_int [of 0] by simp
  then show ?thesis by (simp add: fl_def)
qed

lemma fl_mono:
  assumes "x \<le> y"
  shows "fl x \<le> fl y"
proof -
  consider "0 < x" | "x \<le> 0" "0 \<le> y" | "0 < - y" by linarith
  then show ?thesis
  proof cases
    case 1
    then show ?thesis using assms by (rule fl_mono_pos)
  next
    case 2
    then have "0 \<le> fl (- x)" and "0 \<le> fl y" by (auto intro: fl_nonneg)
    then show ?thesis by (simp add: fl_minus)
  next
    case 3
    then have "fl (- y) \<le> fl (- x)" using assms by (intro fl_mono_pos) auto
    then show ?thesis by (simp add: fl_minus)
  qed
qed

lemma fl_idem_pos:
  assumes "0 < x"
  shows "fl (fl x) = fl x"
proof -
  let ?u = "ulp_exp x"
  define k where "k = rne (x / 2 powi ?u)"
  have eq: "fl x = of_int k * 2 powi ?u" using assms by (simp add: fl_def k_def)
  have u: "-1074 \<le> ?u" by (simp add: ulp_exp_def)
  have le: "k \<le> 2 ^ 53"
    using rne_mono [OF quotient_bound [OF assms]] by (simp only: rne_of_int k_def)
  have ge: "0 \<le> k"
    using rne_mono [of 0 "x / 2 powi ?u"] rne_of_int [of 0] assms by (simp add: k_def)
  show ?thesis
  proof (cases "k = 2 ^ 53")
    case True
    have "fl x = of_int (2 ^ 52) * 2 powi (?u + 1)"
      by (simp add: eq True power_int_add)
    moreover have "fl (of_int (2 ^ 52) * 2 powi (?u + 1)) = of_int (2 ^ 52) * 2 powi (?u + 1)"
      using u by (intro fl_representable) auto
    ultimately show ?thesis by simp
  next
    case False
    with le ge have "\<bar>k\<bar> < 2 ^ 53" by linarith
    from fl_representable [OF this u] show ?thesis by (simp only: eq)
  qed
qed

lemma fl_idem: "fl (fl x) = fl x"
proof -
  consider "0 < x" | "x = 0" | "0 < - x" by linarith
  then show ?thesis
  proof cases
    case 3
    from fl_idem_pos [OF 3] show ?thesis by (simp add: fl_minus)
  qed (simp_all add: fl_idem_pos)
qed

interpretation fl: rounding fl
  by unfold_locales (auto simp: fl_mono fl_minus fl_idem)

section \<open>Float arithmetic\<close>

definition fadd :: "rat \<Rightarrow> rat \<Rightarrow> rat" where "fadd x y = fl (x + y)"
definition fsub :: "rat \<Rightarrow> rat \<Rightarrow> rat" where "fsub x y = fl (x - y)"
definition fmul :: "rat \<Rightarrow> rat \<Rightarrow> rat" where "fmul x y = fl (x * y)"
definition fdiv :: "rat \<Rightarrow> rat \<Rightarrow> rat" where "fdiv x y = fl (x / y)"

lemmas float_ops = fadd_def fsub_def fmul_def fdiv_def

definition is_float :: "rat \<Rightarrow> bool" where
  "is_float x = (fl x = x)"

lemma is_float_fl [simp, intro]: "is_float (fl x)"
  by (simp add: is_float_def fl_idem)

lemma is_float_ops [simp, intro]:
  "is_float (fadd x y)" "is_float (fsub x y)" "is_float (fmul x y)" "is_float (fdiv x y)"
  by (simp_all add: float_ops)

lemma is_float_0 [simp]: "is_float 0" and is_float_1 [simp]: "is_float 1"
  by (simp_all add: is_float_def)

lemma is_float_max: "is_float x \<Longrightarrow> is_float y \<Longrightarrow> is_float (max x y)"
  and is_float_min: "is_float x \<Longrightarrow> is_float y \<Longrightarrow> is_float (min x y)"
  and is_float_minus: "is_float x \<Longrightarrow> is_float (- x)"
  and is_float_abs: "is_float x \<Longrightarrow> is_float \<bar>x\<bar>"
  by (simp_all add: is_float_def max_def min_def fl_minus fl.abs)

lemma is_float_numeral: "numeral n < (2::int) ^ 53 \<Longrightarrow> is_float (numeral n)"
  by (simp add: is_float_def fl_numeral)

lemma fl_float: "is_float x \<Longrightarrow> fl x = x"
  by (simp add: is_float_def)

text \<open>\<open>x or d\<close> on numbers.\<close>

definition num_or :: "rat \<Rightarrow> rat \<Rightarrow> rat" where
  "num_or x d = (if x = 0 then d else x)"

text \<open>Python's \<open>sum\<close> of floats carries a compensation term (from version 3.12 on).\<close>

fun compensated_sum :: "rat \<Rightarrow> rat \<Rightarrow> rat list \<Rightarrow> rat" where
  "compensated_sum s c [] = (if c = 0 then s else fadd s c)"
| "compensated_sum s c (x # xs) =
     (let t = fadd s x;
          lost = (if \<bar>x\<bar> \<le> \<bar>s\<bar> then fadd (fsub s t) x else fadd (fsub x t) s) in
      compensated_sum t (fadd c lost) xs)"

definition py_sum :: "rat list \<Rightarrow> rat" where
  "py_sum xs = (case xs of [] \<Rightarrow> 0 | x # rest \<Rightarrow> compensated_sum (fadd 0 x) 0 rest)"

lemma fadd_nonneg: "0 \<le> x \<Longrightarrow> 0 \<le> y \<Longrightarrow> 0 \<le> fadd x y"
  by (simp add: fadd_def fl_nonneg)

lemma fmul_nonneg: "0 \<le> x \<Longrightarrow> 0 \<le> y \<Longrightarrow> 0 \<le> fmul x y"
  by (simp add: fmul_def fl_nonneg)

lemma fdiv_nonneg: "0 \<le> x \<Longrightarrow> 0 \<le> y \<Longrightarrow> 0 \<le> fdiv x y"
  by (simp add: fdiv_def fl_nonneg)

lemma fadd_mono: "x \<le> x' \<Longrightarrow> y \<le> y' \<Longrightarrow> fadd x y \<le> fadd x' y'"
  by (simp add: fadd_def fl_mono)

lemma fsub_mono: "x \<le> x' \<Longrightarrow> y' \<le> y \<Longrightarrow> fsub x y \<le> fsub x' y'"
  by (simp add: fsub_def fl_mono)

lemma fadd_ge: "is_float x \<Longrightarrow> 0 \<le> y \<Longrightarrow> x \<le> fadd x y"
  using fl_mono [of x "x + y"] by (simp add: fadd_def is_float_def)

lemma fsub_le: "is_float x \<Longrightarrow> 0 \<le> y \<Longrightarrow> fsub x y \<le> x"
  using fl_mono [of "x - y" x] by (simp add: fsub_def is_float_def)

lemma fsub_self [simp]: "fsub x x = 0"
  by (simp add: fsub_def)

lemma fadd_0 [simp]: "is_float x \<Longrightarrow> fadd x 0 = x" "is_float x \<Longrightarrow> fadd 0 x = x"
  and fsub_0 [simp]: "is_float x \<Longrightarrow> fsub x 0 = x"
  and fmul_1 [simp]: "is_float x \<Longrightarrow> fmul x 1 = x" "is_float x \<Longrightarrow> fmul 1 x = x"
  and fmul_0 [simp]: "fmul x 0 = 0" "fmul 0 x = 0"
  by (simp_all add: float_ops is_float_def)

lemma fsub_nonneg: "y \<le> x \<Longrightarrow> 0 \<le> fsub x y"
  by (simp add: fsub_def fl_nonneg)

lemma fsub_nonpos: "x \<le> y \<Longrightarrow> fsub x y \<le> 0"
  by (simp add: fsub_def fl.nonpos)

lemma fdiv_le_1:
  assumes "0 \<le> x" and "x \<le> y"
  shows "fdiv x y \<le> 1"
proof -
  have "x / y \<le> 1" using assms by (cases "y = 0") (auto simp: divide_le_eq)
  then show ?thesis using fl_mono [of "x / y" 1] by (simp add: fdiv_def)
qed

lemma fmul_le:
  assumes "is_float x" and "0 \<le> x" and "y \<le> 1"
  shows "fmul x y \<le> x"
  using assms mult_left_le [of y x] fl_mono [of "x * y" x] by (simp add: fmul_def is_float_def)

section \<open>DECIMAL columns\<close>

definition dec :: "nat \<Rightarrow> rat \<Rightarrow> rat" where
  "dec s x = of_int (rha (x * 10 ^ s)) / 10 ^ s"

interpretation dec: rounding "dec s" for s
proof unfold_locales
  fix x y :: rat
  assume "x \<le> y"
  then show "dec s x \<le> dec s y"
    by (auto simp: dec_def intro!: divide_right_mono rha_mono)
next
  show "dec s 0 = 0" using rha_of_int [of 0] by (simp add: dec_def)
next
  fix x
  show "dec s (- x) = - dec s x" by (simp add: dec_def rha_minus)
next
  fix x
  show "dec s (dec s x) = dec s x" by (simp add: dec_def)
qed

text \<open>
  \<open>repr\<close> of a float: the decimal with the fewest significant digits that rounds to it, and of
  those the nearest.  \<open>ilog10\<close> locates the leading digit.
\<close>

definition ilog10 :: "rat \<Rightarrow> int" where
  "ilog10 x = (let k = (ilog2 x * 30103) div 100000 in
     case find (\<lambda>j. 10 powi j \<le> x \<and> x < 10 powi (j + 1)) [k - 1, k, k + 1, k + 2] of
       None \<Rightarrow> k | Some j \<Rightarrow> j)"

definition repr_digits :: "nat \<Rightarrow> rat \<Rightarrow> rat option" where
  "repr_digits n x =
     (let u = 10 powi (ilog10 x - int n + 1);
          near = of_int (rne (x / u)) * u;
          lo = of_int \<lfloor>x / u\<rfloor> * u; hi = of_int \<lceil>x / u\<rceil> * u in
      if fl near = x then Some near
      else if fl lo = x then Some lo
      else if fl hi = x then Some hi else None)"

fun repr_search :: "nat \<Rightarrow> nat \<Rightarrow> rat \<Rightarrow> rat" where
  "repr_search 0 n x = x"
| "repr_search (Suc fuel) n x =
     (case repr_digits n x of Some d \<Rightarrow> d | None \<Rightarrow> repr_search fuel (Suc n) x)"

definition repr :: "rat \<Rightarrow> rat" where
  "repr x = (if x = 0 then 0 else if 0 < x then repr_search 17 1 x else - repr_search 17 1 (- x))"

lemma repr_digits_fl: "repr_digits n x = Some d \<Longrightarrow> fl d = x"
  by (auto simp: repr_digits_def Let_def split: if_splits)

lemma repr_search_fl: "is_float x \<Longrightarrow> fl (repr_search fuel n x) = x"
  by (induction fuel n x rule: repr_search.induct)
     (auto simp: is_float_def repr_digits_fl split: option.splits)

text \<open>A float survives being written as its \<open>repr\<close> and read back.\<close>

lemma fl_repr: "is_float x \<Longrightarrow> fl (repr x) = x"
  using is_float_minus [of x] by (auto simp: repr_def repr_search_fl fl_minus)

lemma repr_mono:
  assumes "is_float x" and "is_float y" and "x \<le> y"
  shows "repr x \<le> repr y"
proof (rule ccontr)
  assume "\<not> repr x \<le> repr y"
  then have less: "repr y < repr x" by simp
  then have "fl (repr y) \<le> fl (repr x)" by (intro fl_mono) simp
  then have "y \<le> x" using assms by (simp add: fl_repr)
  with assms less show False by auto
qed

lemma repr_0 [simp]: "repr 0 = 0"
  by (simp add: repr_def)

lemma repr_minus: "repr (- x) = - repr x"
  by (auto simp: repr_def)

text \<open>\<open>column s x\<close>: what a \<open>DECIMAL(p, s)\<close> column holds after a float \<open>x\<close> is written to it.\<close>

definition column :: "nat \<Rightarrow> rat \<Rightarrow> rat" where
  "column s x = dec s (repr (fl x))"

interpretation column: conversion "column s" for s
  by unfold_locales
     (auto simp: column_def dec.zero dec.minus fl_minus repr_minus intro!: dec.mono repr_mono fl_mono)

text \<open>\<open>reload s x\<close>: the float read back from that column.\<close>

definition reload :: "nat \<Rightarrow> rat \<Rightarrow> rat" where
  "reload s x = fl (column s x)"

interpretation reload: conversion "reload s" for s
  by unfold_locales
     (auto simp: reload_def column.zero column.minus fl_minus intro!: fl_mono column.mono)

lemma is_float_reload [simp]: "is_float (reload s x)"
  by (simp add: reload_def)

section \<open>Decimals a column keeps exactly\<close>

lemma fl_error:
  assumes "\<bar>x\<bar> < 2 powi n" and "-1021 \<le> n"
  shows "\<bar>fl x - x\<bar> \<le> 2 powi (n - 54)"
proof (cases "x = 0")
  case False
  let ?u = "ulp_exp x"
  have "(2::rat) powi ilog2 \<bar>x\<bar> < 2 powi n"
    using ilog2_bounds(1) [of "\<bar>x\<bar>"] False assms(1) by linarith
  then have u: "?u \<le> n - 53" using assms(2) by (simp add: ulp_exp_def)
  have "fl x - x = (of_int (rne (x / 2 powi ?u)) - x / 2 powi ?u) * 2 powi ?u"
    using False by (simp add: fl_def left_diff_distrib)
  then have "\<bar>fl x - x\<bar> = \<bar>of_int (rne (x / 2 powi ?u)) - x / 2 powi ?u\<bar> * 2 powi ?u"
    by (simp add: abs_mult)
  also have "\<dots> \<le> 1 / 2 * 2 powi ?u" by (intro mult_right_mono rne_near) simp
  also have "\<dots> = 2 powi (?u - 1)" by (simp add: power_int_diff)
  also have "\<dots> \<le> (2::rat) powi (n - 54)" using u by (intro power_int_increasing) auto
  finally show ?thesis .
qed simp

text \<open>The relative error of a rounding above the subnormal numbers.\<close>

lemma fl_relative:
  assumes "x = 0 \<or> 1 / 2 ^ 1000 \<le> \<bar>x\<bar>"
  shows "\<bar>fl x - x\<bar> \<le> \<bar>x\<bar> / 2 ^ 53"
proof (cases "x = 0")
  case False
  let ?n = "ilog2 \<bar>x\<bar> + 1"
  note b = ilog2_bounds [of "\<bar>x\<bar>"]
  have "(2::rat) powi - 1000 \<le> \<bar>x\<bar>" using assms False by (simp add: power_int_def power_one_over)
  also have "\<bar>x\<bar> < 2 powi ?n" using b False by simp
  finally have "- 1000 < ?n" by (simp only: powi_less_iff)
  then have n: "-1021 \<le> ?n" by simp
  have "\<bar>fl x - x\<bar> \<le> 2 powi (?n - 54)" using b False n by (intro fl_error) auto
  also have "\<dots> = 2 powi ilog2 \<bar>x\<bar> / 2 ^ 53" by (simp add: power_int_diff)
  also have "\<dots> \<le> \<bar>x\<bar> / 2 ^ 53" using b False by (intro divide_right_mono) simp_all
  finally show ?thesis .
qed simp

lemma fl_less_powi:
  assumes "\<bar>fl x\<bar> < 2 powi n" and "-1074 \<le> n"
  shows "\<bar>x\<bar> < 2 powi n"
proof (rule ccontr)
  assume "\<not> \<bar>x\<bar> < 2 powi n"
  then have "fl (2 powi n) \<le> fl \<bar>x\<bar>" by (intro fl_mono) simp
  moreover have "fl (2 powi n) = 2 powi n" using fl_representable [of 1 n] assms(2) by simp
  ultimately show False using assms(1) by (simp add: fl.abs)
qed

lemma rha_near: "\<bar>y - of_int k\<bar> < 1/2 \<Longrightarrow> rha y = k"
proof -
  assume d: "\<bar>y - of_int k\<bar> < 1/2"
  show "rha y = k"
  proof (cases "0 \<le> y")
    case True
    have "\<lfloor>y + 1/2\<rfloor> = k" using d by (intro floor_unique) linarith+
    with True show ?thesis by (simp add: rha_def)
  next
    case False
    have "\<lfloor>1/2 - y\<rfloor> = - k"
      by (intro floor_unique; unfold of_int_minus; use d in linarith)
    with False show ?thesis by (simp add: rha_def)
  qed
qed

text \<open>
  A decimal with \<open>s\<close> places survives the way through a float and back into the column as long as
  it is small against the 53 bits of the float: below \<open>2 ^ 24\<close> for 8 places, \<open>2 ^ 44\<close> for 2.
\<close>

lemma column_exact:
  assumes d: "dec s d = d" and b: "\<bar>d\<bar> < 2 powi n" and n: "-1021 \<le> n"
    and small: "2 * 10 ^ s * 2 powi (n - 52) \<le> (1::rat)"
  shows "column s d = d"
proof -
  let ?r = "repr (fl d)"
  have r: "fl ?r = fl d" by (rule fl_repr) simp
  have "fl \<bar>d\<bar> \<le> fl (2 powi n)" using b by (intro fl_mono) simp
  also have "fl (2 powi n) = 2 powi n" using fl_representable [of 1 n] n by simp
  also have "\<dots> < (2::rat) powi (n + 1)" by simp
  finally have "\<bar>fl ?r\<bar> < 2 powi (n + 1)" by (simp add: r fl.abs)
  then have "\<bar>?r\<bar> < 2 powi (n + 1)" by (rule fl_less_powi) (use n in linarith)
  from fl_error [OF this] have e1: "\<bar>fl d - ?r\<bar> \<le> 2 powi (n - 53)" using n by (simp add: r)
  have e2: "\<bar>fl d - d\<bar> \<le> 2 powi (n - 54)" by (rule fl_error [OF b n])
  have "(2::rat) powi (n - 53) = 2 * 2 powi (n - 54)"
    using power_int_add [of "2::rat" 1 "n - 54"] by simp
  moreover have "(2::rat) powi (n - 52) = 4 * 2 powi (n - 54)"
    using power_int_add [of "2::rat" 2 "n - 54"] by simp
  moreover have "0 < (2::rat) powi (n - 54)" by simp
  ultimately have "\<bar>?r - d\<bar> < 2 powi (n - 52)" using e1 e2 by linarith
  then have "\<bar>?r - d\<bar> * 10 ^ s < 2 powi (n - 52) * 10 ^ s" by simp
  also have "\<dots> \<le> 1 / 2" using small by (simp add: mult_ac)
  finally have near: "\<bar>?r * 10 ^ s - d * 10 ^ s\<bar> < 1 / 2"
    by (simp add: left_diff_distrib [symmetric] abs_mult)
  have "d * 10 ^ s = of_int (rha (d * 10 ^ s))" using d by (simp add: dec_def field_simps)
  with near have "rha (?r * 10 ^ s) = rha (d * 10 ^ s)" by (intro rha_near) simp
  then show ?thesis using d by (simp add: column_def dec_def)
qed

lemma column_8_exact: "dec 8 d = d \<Longrightarrow> \<bar>d\<bar> < 2 ^ 24 \<Longrightarrow> column 8 d = d"
  using column_exact [of 8 d 24] by (simp add: power_int_def power_one_over)

lemma column_2_exact: "dec 2 d = d \<Longrightarrow> \<bar>d\<bar> < 2 ^ 44 \<Longrightarrow> column 2 d = d"
  using column_exact [of 2 d 44] by (simp add: power_int_def power_one_over)

lemma dec_of_int [simp]: "dec s (of_int k) = of_int k"
proof -
  have "of_int k * 10 ^ s = (of_int (k * 10 ^ s) :: rat)" by simp
  then have "rha (of_int k * 10 ^ s :: rat) = k * 10 ^ s" by (simp only: rha_of_int)
  then show ?thesis by (simp add: dec_def)
qed

lemma dec_add: "dec s x = x \<Longrightarrow> dec s y = y \<Longrightarrow> dec s (x + y) = x + y"
proof -
  assume "dec s x = x" "dec s y = y"
  then have "x * 10 ^ s = of_int (rha (x * 10 ^ s))" "y * 10 ^ s = of_int (rha (y * 10 ^ s))"
    by (simp_all add: dec_def field_simps)
  then have "(x + y) * 10 ^ s = of_int (rha (x * 10 ^ s) + rha (y * 10 ^ s))"
    by (simp add: distrib_right)
  then have "rha ((x + y) * 10 ^ s) = rha (x * 10 ^ s) + rha (y * 10 ^ s)" by (simp only: rha_of_int)
  then show ?thesis
    using \<open>(x + y) * 10 ^ s = of_int (rha (x * 10 ^ s) + rha (y * 10 ^ s))\<close>
    by (simp add: dec_def field_simps)
qed

lemma dec_diff: "dec s x = x \<Longrightarrow> dec s y = y \<Longrightarrow> dec s (x - y) = x - y"
  using dec_add [of s x "- y"] by (simp add: dec.minus)

end
