(* ===== verification/Billing.thy ===== *)
theory Billing
  imports Py_Float
begin

text \<open>
  Credits and membership, \<open>services/billing_service.py\<close> with the plans of
  \<open>services/billing_config.py\<close>, over the tables \<open>qd_users\<close> and \<open>qd_credits_log\<close>.  Balances are
  \<open>DECIMAL(20,2)\<close>; the code adds exact decimals and writes the float of the sum.  Every change of a
  balance writes a log row with its amount, so the log is an account of the balance: the
  invariant \<open>books_ok\<close>.
\<close>

section \<open>Tables\<close>

record user =
  u_id :: int
  u_credits :: rat
  u_vip_expires :: "int option"
  u_vip_plan :: string
  u_lifetime :: bool
  u_last_grant :: "int option"

record log_row =
  lg_id :: int
  lg_user :: int
  lg_action :: string
  lg_amount :: rat
  lg_balance :: rat
  lg_feature :: string
  lg_ref :: string
  lg_remark :: string
  lg_operator :: "int option"

record membership_order =
  mo_id :: int
  mo_user :: int
  mo_plan :: string
  mo_price :: rat

record bank =
  users :: "user list"
  credit_log :: "log_row list"
  next_log :: int
  orders :: "membership_order list"
  next_order :: int

record plan =
  pl_price :: rat
  pl_credits_once :: int
  pl_credits_monthly :: int
  pl_days :: int

type_synonym plans = "string \<Rightarrow> plan option"

record billing_config =
  enabled :: bool
  cost :: "string \<Rightarrow> int"

datatype reply = Free string | Balance rat | Refused string | Insufficient rat int

definition user_row :: "bank \<Rightarrow> int \<Rightarrow> user option" where
  "user_row b uid = find (\<lambda>u. u_id u = uid) (users b)"

definition upd_user :: "int \<Rightarrow> (user \<Rightarrow> user) \<Rightarrow> bank \<Rightarrow> bank" where
  "upd_user uid f b = b\<lparr>users := upd_where (\<lambda>u. u_id u = uid) f (users b)\<rparr>"

definition write_log ::
  "int \<Rightarrow> string \<Rightarrow> rat \<Rightarrow> rat \<Rightarrow> string \<Rightarrow> string \<Rightarrow> string \<Rightarrow> int option \<Rightarrow> bank \<Rightarrow> bank" where
  "write_log uid action amount balance feature ref remark operator b =
     b\<lparr>credit_log := credit_log b @ [\<lparr>lg_id = next_log b, lg_user = uid, lg_action = action,
          lg_amount = amount, lg_balance = balance, lg_feature = feature, lg_ref = ref,
          lg_remark = remark, lg_operator = operator\<rparr>],
       next_log := next_log b + 1\<rparr>"

section \<open>Reading\<close>

definition get_user_credits :: "int \<Rightarrow> bank \<Rightarrow> rat" where
  "get_user_credits uid b = (case user_row b uid of None \<Rightarrow> 0 | Some u \<Rightarrow> u_credits u)"

definition load_membership_plans :: "rat \<Rightarrow> int \<Rightarrow> rat \<Rightarrow> int \<Rightarrow> rat \<Rightarrow> int \<Rightarrow> plans" where
  "load_membership_plans monthly_price monthly_credits yearly_price yearly_credits lifetime_price lifetime_monthly p =
     (if p = ''monthly'' then Some \<lparr>pl_price = monthly_price, pl_credits_once = monthly_credits, pl_credits_monthly = 0, pl_days = 30\<rparr>
      else if p = ''yearly'' then Some \<lparr>pl_price = yearly_price, pl_credits_once = yearly_credits, pl_credits_monthly = 0, pl_days = 365\<rparr>
      else if p = ''lifetime'' then Some \<lparr>pl_price = lifetime_price, pl_credits_once = 0, pl_credits_monthly = lifetime_monthly, pl_days = 0\<rparr>
      else None)"

section \<open>Consuming and adding\<close>

text \<open>\<open>UPDATE .. SET credits = credits - cost WHERE id = .. AND credits >= cost RETURNING credits\<close>\<close>

definition check_and_consume :: "billing_config \<Rightarrow> int \<Rightarrow> string \<Rightarrow> string \<Rightarrow> bank \<Rightarrow> (bool \<times> reply) \<times> bank" where
  "check_and_consume cfg uid feature ref b =
     (if \<not> enabled cfg then ((True, Free ''billing_disabled''), b)
      else
        let c = cost cfg feature in
        if c \<le> 0 then ((True, Free ''free_feature''), b)
        else case user_row b uid of
          None \<Rightarrow> ((False, Insufficient 0 c), b)
        | Some u \<Rightarrow>
            if u_credits u < of_int c then ((False, Insufficient (u_credits u) c), b)
            else
              let balance = u_credits u - of_int c in
              ((True, Balance balance),
               write_log uid ''consume'' (of_int (- c)) (column 2 balance) feature ref (''Consume: '' @ feature) None
                 (upd_user uid (\<lambda>u. u\<lparr>u_credits := balance\<rparr>) b)))"

text \<open>A log row of a user that does not exist violates the foreign key; the transaction rolls back.\<close>

definition add_credits ::
  "int \<Rightarrow> int \<Rightarrow> string \<Rightarrow> string \<Rightarrow> int option \<Rightarrow> string \<Rightarrow> bank \<Rightarrow> (bool \<times> reply) \<times> bank" where
  "add_credits uid amount action remark operator ref b =
     (if amount \<le> 0 then ((False, Refused ''amount_must_be_positive''), b)
      else
        case (if ref = [] then None
              else find_last (\<lambda>r. lg_user r = uid \<and> lg_action r = action \<and> lg_ref r = ref) (credit_log b)) of
          Some r \<Rightarrow> ((True, Balance (lg_balance r)), b)
        | None \<Rightarrow>
            (case user_row b uid of
               None \<Rightarrow> ((False, Refused ''foreign key violation''), b)
             | Some u \<Rightarrow>
                 let balance = u_credits u + of_int amount in
                 ((True, Balance balance),
                  write_log uid action (of_int amount) (column 2 balance) [] ref remark operator
                    (upd_user uid (\<lambda>u. u\<lparr>u_credits := column 2 balance\<rparr>) b))))"

text \<open>
  \<open>set_credits\<close> reads the old balance in a transaction of its own, before the one that writes; a failure of
  the read counts as a balance of 0.  \<open>set_credits_from old\<close> is the second transaction; the operation is
  their composition, with nothing in between.
\<close>

definition set_credits_from :: "rat \<Rightarrow> int \<Rightarrow> int \<Rightarrow> string \<Rightarrow> int option \<Rightarrow> bank \<Rightarrow> (bool \<times> reply) \<times> bank" where
  "set_credits_from old uid amount remark operator b =
     (let diff = of_int amount - old in
      case user_row b uid of
        None \<Rightarrow> ((False, Refused ''foreign key violation''), b)
      | Some _ \<Rightarrow>
          ((True, Balance (of_int amount)),
           write_log uid ''admin_adjust'' (column 2 diff) (of_int amount) [] []
             (str_or remark ''Admin adjust'') operator
             (upd_user uid (\<lambda>u. u\<lparr>u_credits := of_int amount\<rparr>) b)))"

definition set_credits :: "int \<Rightarrow> int \<Rightarrow> string \<Rightarrow> int option \<Rightarrow> bank \<Rightarrow> (bool \<times> reply) \<times> bank" where
  "set_credits uid amount remark operator b =
     (if amount < 0 then ((False, Refused ''amount_cannot_be_negative''), b)
      else set_credits_from (get_user_credits uid b) uid amount remark operator b)"

definition set_vip :: "int \<Rightarrow> int option \<Rightarrow> string \<Rightarrow> int option \<Rightarrow> bank \<Rightarrow> (bool \<times> reply) \<times> bank" where
  "set_vip uid expires remark operator b =
     (case user_row b uid of
        None \<Rightarrow> ((False, Refused ''foreign key violation''), b)
      | Some u \<Rightarrow>
          ((True, Free ''success''),
           write_log uid (if expires = None then ''vip_revoke'' else ''vip_grant'') 0 (u_credits u) [] []
             (str_or remark (if expires = None then ''VIP revoked'' else ''VIP granted'')) operator
             (upd_user uid (\<lambda>u. u\<lparr>u_vip_expires := expires\<rparr>) b)))"

section \<open>Membership\<close>

text \<open>
  \<open>_add_credits_in_tx\<close> reads the balance and then writes the sum, without locking the row: the two
  halves are given separately, as other transactions may run in between.
\<close>

definition write_balance :: "int \<Rightarrow> rat \<Rightarrow> int \<Rightarrow> string \<Rightarrow> string \<Rightarrow> string \<Rightarrow> bank \<Rightarrow> bank" where
  "write_balance uid credits amount action remark ref b =
     (case user_row b uid of
        None \<Rightarrow> b
      | Some _ \<Rightarrow>
          let balance = credits + of_int amount in
          write_log uid action (of_int amount) (column 2 balance) [] ref remark None
            (upd_user uid (\<lambda>u. u\<lparr>u_credits := column 2 balance\<rparr>) b))"

definition add_credits_in_tx :: "int \<Rightarrow> int \<Rightarrow> string \<Rightarrow> string \<Rightarrow> string \<Rightarrow> bank \<Rightarrow> bank" where
  "add_credits_in_tx uid amount action remark ref b =
     write_balance uid (get_user_credits uid b) amount action remark ref b"

text \<open>\<open>_grant_lifetime_monthly_credits_best_effort\<close>; \<open>now\<close> in microseconds.\<close>

definition grant_periods :: "int \<Rightarrow> int \<Rightarrow> int" where
  "grant_periods now last_grant = min 6 (((now - last_grant) div day) div 30)"

definition grant_lifetime_monthly_credits :: "plans \<Rightarrow> int \<Rightarrow> int \<Rightarrow> bank \<Rightarrow> bank" where
  "grant_lifetime_monthly_credits ps uid now b =
     (let monthly = (case ps ''lifetime'' of None \<Rightarrow> 0 | Some p \<Rightarrow> pl_credits_monthly p) in
      if monthly \<le> 0 then b
      else case user_row b uid of
        None \<Rightarrow> b
      | Some u \<Rightarrow>
          if \<not> u_lifetime u then b
          else if (case u_vip_expires u of None \<Rightarrow> False | Some e \<Rightarrow> e \<le> now) then b
          else case u_last_grant u of
            None \<Rightarrow> upd_user uid (\<lambda>u. u\<lparr>u_last_grant := Some now\<rparr>) b
          | Some t \<Rightarrow>
              if grant_periods now t \<le> 0 then b
              else upd_user uid (\<lambda>u. u\<lparr>u_last_grant := Some now\<rparr>)
                     (add_credits_in_tx uid (monthly * grant_periods now t) ''membership_monthly''
                        (''Lifetime membership monthly credits x'' @ int_str (grant_periods now t)) [] b))"

definition get_user_vip_status :: "plans \<Rightarrow> int \<Rightarrow> int \<Rightarrow> bank \<Rightarrow> (bool \<times> int option) \<times> bank" where
  "get_user_vip_status ps uid now b =
     (let b' = grant_lifetime_monthly_credits ps uid now b in
      (case user_row b' uid of
         None \<Rightarrow> (False, None)
       | Some u \<Rightarrow> (case u_vip_expires u of None \<Rightarrow> (False, None) | Some e \<Rightarrow> (now < e, Some e)), b'))"

definition vip_expiry :: "plan \<Rightarrow> string \<Rightarrow> user \<Rightarrow> int \<Rightarrow> int option" where
  "vip_expiry p name u now =
     (let base = (case u_vip_expires u of Some e \<Rightarrow> if now < e then e else now | None \<Rightarrow> now);
          days = (if pl_days p = 0 then (if name = ''monthly'' then 30 else 365) else pl_days p) in
      if name = ''monthly'' \<or> name = ''yearly'' then
        (if u_lifetime u then u_vip_expires u else Some (base + days * day))
      else Some (now + 365 * 100 * day))"

text \<open>
  \<open>purchase_membership\<close>; \<open>record_order\<close> is the keyword \<open>record_membership_order\<close>.  For a user that
  does not exist the log row of the grant violates the foreign key: the transaction is aborted
  and its commit rolls back, although the method reports success.
\<close>

definition purchase_membership ::
  "plans \<Rightarrow> bool \<Rightarrow> int \<Rightarrow> string \<Rightarrow> string \<Rightarrow> int \<Rightarrow> bank \<Rightarrow> (bool \<times> reply) \<times> bank" where
  "purchase_membership ps record_order uid plan_name fulfillment now b =
     (let name = py_lower (py_strip plan_name) in
      case ps name of
        None \<Rightarrow> ((False, Refused ''invalid_plan''), b)
      | Some p \<Rightarrow>
          let none = \<lparr>u_id = uid, u_credits = 0, u_vip_expires = None, u_vip_plan = [], u_lifetime = False,
                      u_last_grant = None\<rparr>;
              u = (case user_row b uid of None \<Rightarrow> none | Some u \<Rightarrow> u);
              fixed = (name = ''monthly'' \<or> name = ''yearly'');
              keep = (u_lifetime u \<and> fixed);
              ref = (if record_order then int_str (next_order b)
                     else str_or (py_strip fulfillment) (''usdt:'' @ int_str uid @ '':'' @ int_str (now div second)));
              b1 = (if record_order
                    then b\<lparr>orders := orders b @ [\<lparr>mo_id = next_order b, mo_user = uid, mo_plan = name, mo_price = pl_price p\<rparr>],
                           next_order := next_order b + 1\<rparr>
                    else b);
              b2 = (if keep then b1
                    else upd_user uid (\<lambda>r. r\<lparr>u_vip_expires := vip_expiry p name u now, u_vip_plan := name,
                                              u_lifetime := \<not> fixed\<rparr>) b1);
              b3 = (if fixed then
                      (if 0 < pl_credits_once p
                       then add_credits_in_tx uid (pl_credits_once p) ''membership_bonus''
                              (if keep then ''Lifetime top-up via '' @ name else ''Membership bonus ('' @ name @ '')'') ref b2
                       else b2)
                    else
                      upd_user uid (\<lambda>u. u\<lparr>u_last_grant := Some now\<rparr>)
                        (if 0 < pl_credits_monthly p
                         then add_credits_in_tx uid (pl_credits_monthly p) ''membership_monthly''
                                ''Lifetime membership monthly credits'' ref b2
                         else b2));
              grants = (0 < (if fixed then pl_credits_once p else pl_credits_monthly p)) in
          ((True, Free ''success''), if user_row b uid = None \<and> grants then b else b3))"

section \<open>The books\<close>

definition log_total :: "int \<Rightarrow> log_row list \<Rightarrow> rat" where
  "log_total uid rows = sum_list (map lg_amount (filter (\<lambda>r. lg_user r = uid) rows))"

definition books_ok :: "bank \<Rightarrow> bool" where
  "books_ok b = (distinct (map u_id (users b)) \<and> (\<forall>u \<in> set (users b).
     0 \<le> u_credits u \<and> dec 2 (u_credits u) = u_credits u \<and> u_credits u = log_total (u_id u) (credit_log b)))"

definition credits_below :: "rat \<Rightarrow> bank \<Rightarrow> bool" where
  "credits_below limit b = (\<forall>u \<in> set (users b). u_credits u < limit)"

lemma user_row_Some: "user_row b uid = Some u \<Longrightarrow> u \<in> set (users b) \<and> u_id u = uid"
  unfolding user_row_def by (rule find_SomeD)

lemma books_ok_user:
  assumes "books_ok b" and "user_row b uid = Some u"
  shows "0 \<le> u_credits u" and "dec 2 (u_credits u) = u_credits u"
    and "u_credits u = log_total uid (credit_log b)"
  using assms user_row_Some [OF assms(2)] by (auto simp: books_ok_def)

lemma books_ok_post:
  assumes ok: "books_ok b" and u: "user_row b uid = Some u"
    and new: "0 \<le> new" "dec 2 new = new" and amount: "amount = new - u_credits u"
  shows "books_ok (write_log uid action amount balance feature ref remark operator
           (upd_user uid (\<lambda>u. u\<lparr>u_credits := new\<rparr>) b))"
proof -
  have tot: "log_total uid (credit_log b) + amount = new"
    using books_ok_user(3) [OF ok u] amount by simp
  have "distinct (map u_id (upd_where (\<lambda>u. u_id u = uid) (\<lambda>u. u\<lparr>u_credits := new\<rparr>) (users b)))"
    using ok by (simp add: books_ok_def map_upd_where_same)
  then show ?thesis
    using ok new tot
    by (auto simp: books_ok_def write_log_def upd_user_def set_upd_where log_total_def)
qed

lemma books_ok_frame:
  assumes "books_ok b" and "\<And>u. u_id (f u) = u_id u \<and> u_credits (f u) = u_credits u"
  shows "books_ok (upd_user uid f b)"
  using assms by (auto simp: books_ok_def upd_user_def set_upd_where map_upd_where_same)

lemma books_ok_orders [simp]: "books_ok (b\<lparr>orders := x, next_order := n\<rparr>) = books_ok b"
  by (simp add: books_ok_def)

lemma column_2_sum:
  assumes "dec 2 x = x" and "\<bar>x + of_int k\<bar> < 2 ^ 44"
  shows "column 2 (x + of_int k) = x + of_int k"
  using assms by (intro column_2_exact dec_add) simp_all

lemma books_ok_write_balance:
  assumes ok: "books_ok b" and lim: "credits_below (2 ^ 43) b" and k: "0 < k" "k < 2 ^ 43"
  shows "books_ok (add_credits_in_tx uid k action remark ref b)"
proof (cases "user_row b uid")
  case None
  with ok show ?thesis by (simp add: add_credits_in_tx_def write_balance_def)
next
  case (Some u)
  note bu = books_ok_user [OF ok Some]
  have "u_credits u < 2 ^ 43" using lim user_row_Some [OF Some] by (simp add: credits_below_def)
  moreover have "(of_int k :: rat) < of_int (2 ^ 43)" using k(2) by (simp only: of_int_less_iff)
  ultimately have "column 2 (u_credits u + of_int k) = u_credits u + of_int k"
    using bu k(1) by (intro column_2_sum) auto
  moreover have "dec 2 (u_credits u + of_int k) = u_credits u + of_int k"
    using bu(2) by (intro dec_add) simp_all
  ultimately show ?thesis
    using Some k(1) bu
    by (simp add: add_credits_in_tx_def write_balance_def get_user_credits_def Let_def)
       (intro books_ok_post [OF ok Some], simp_all)
qed

section \<open>One account operation\<close>

datatype bank_op =
    Consume billing_config int string string
  | AddCredits int int string string "int option" string
  | SetCredits int int string "int option"
  | SetVip int "int option" string "int option"
  | VipStatus plans int int
  | Purchase plans bool int string string int

fun run_op :: "bank_op \<Rightarrow> bank \<Rightarrow> bank" where
  "run_op (Consume cfg uid feature ref) b = snd (check_and_consume cfg uid feature ref b)"
| "run_op (AddCredits uid amount action remark operator ref) b = snd (add_credits uid amount action remark operator ref b)"
| "run_op (SetCredits uid amount remark operator) b = snd (set_credits uid amount remark operator b)"
| "run_op (SetVip uid expires remark operator) b = snd (set_vip uid expires remark operator b)"
| "run_op (VipStatus ps uid now) b = snd (get_user_vip_status ps uid now b)"
| "run_op (Purchase ps record_order uid name ref now) b = snd (purchase_membership ps record_order uid name ref now b)"

text \<open>The amounts an operation may post are below \<open>2 ^ 40\<close>.\<close>

definition plans_small :: "plans \<Rightarrow> bool" where
  "plans_small ps =
     (\<forall>n p. ps n = Some p \<longrightarrow> pl_credits_once p < 2 ^ 40 \<and> pl_credits_monthly p < 2 ^ 40)"

fun small_op :: "bank_op \<Rightarrow> bool" where
  "small_op (AddCredits uid amount action remark operator ref) = (amount < 2 ^ 40)"
| "small_op (SetCredits uid amount remark operator) = (amount < 2 ^ 40)"
| "small_op (VipStatus ps uid now) = plans_small ps"
| "small_op (Purchase ps record_order uid name ref now) = plans_small ps"
| "small_op op = True"

lemma credits_below_orders [simp]: "credits_below l (b\<lparr>orders := x, next_order := n\<rparr>) = credits_below l b"
  by (simp add: credits_below_def)

lemma credits_below_frame:
  assumes "credits_below l b" and "\<And>u. u_credits (f u) = u_credits u"
  shows "credits_below l (upd_user uid f b)"
  using assms by (auto simp: credits_below_def upd_user_def set_upd_where)

lemma books_ok_log_nothing:
  assumes "books_ok c"
  shows "books_ok (write_log uid action 0 balance feature ref remark operator c)"
proof -
  have lt: "log_total j (credit_log (write_log uid action 0 balance feature ref remark operator c))
      = log_total j (credit_log c)" for j
    by (simp add: log_total_def write_log_def)
  have us: "users (write_log uid action 0 balance feature ref remark operator c) = users c"
    by (simp add: write_log_def)
  show ?thesis using assms unfolding books_ok_def lt us .
qed

lemma books_ok_set_vip: "books_ok b \<Longrightarrow> books_ok (snd (set_vip uid expires remark operator b))"
  by (auto simp: set_vip_def intro!: books_ok_log_nothing books_ok_frame split: option.split)

lemma books_ok_grant:
  assumes ok: "books_ok b" and lim: "credits_below (2 ^ 43) b" and ps: "plans_small ps"
  shows "books_ok (grant_lifetime_monthly_credits ps uid now b)"
proof (cases "ps ''lifetime''")
  case None
  with ok show ?thesis by (simp add: grant_lifetime_monthly_credits_def Let_def)
next
  case (Some p)
  have m: "pl_credits_monthly p < 2 ^ 40" using ps Some by (simp add: plans_small_def)
  have "books_ok (add_credits_in_tx uid (pl_credits_monthly p * grant_periods now t) a r x b)"
    if "0 < pl_credits_monthly p" "0 < grant_periods now t" for t a r x
  proof (rule books_ok_write_balance [OF ok lim])
    have "grant_periods now t \<le> 6" by (simp add: grant_periods_def)
    then have "pl_credits_monthly p * grant_periods now t \<le> pl_credits_monthly p * 6"
      using that by (intro mult_left_mono) simp_all
    then show "pl_credits_monthly p * grant_periods now t < 2 ^ 43" using m by simp
    show "0 < pl_credits_monthly p * grant_periods now t" using that by simp
  qed
  then show ?thesis
    using ok Some
    by (auto simp: grant_lifetime_monthly_credits_def Let_def not_le intro!: books_ok_frame split: option.split)
qed

lemma books_ok_purchase:
  assumes ok: "books_ok b" and lim: "credits_below (2 ^ 43) b" and ps: "plans_small ps"
  shows "books_ok (snd (purchase_membership ps record_order uid name ref now b))"
proof (cases "ps (py_lower (py_strip name))")
  case None
  with ok show ?thesis by (simp add: purchase_membership_def Let_def)
next
  case (Some p)
  have sm: "pl_credits_once p < 2 ^ 43" "pl_credits_monthly p < 2 ^ 43"
    using ps Some by (fastforce simp: plans_small_def)+
  have vip: "books_ok (upd_user uid (\<lambda>u. u\<lparr>u_vip_expires := e, u_vip_plan := n, u_lifetime := l\<rparr>) c)"
    if "books_ok c" for c e n l
    using that by (rule books_ok_frame) simp
  have below: "credits_below (2 ^ 43) (upd_user uid (\<lambda>u. u\<lparr>u_vip_expires := e, u_vip_plan := n, u_lifetime := l\<rparr>) c)"
    if "credits_below (2 ^ 43) c" for c e n l
    using that by (rule credits_below_frame) simp
  have last: "books_ok (upd_user uid (\<lambda>u. u\<lparr>u_last_grant := Some now\<rparr>) c)" if "books_ok c" for c
    using that by (rule books_ok_frame) simp
  have bonus: "books_ok (if 0 < k then add_credits_in_tx uid k action remark ref c else c)"
    if "books_ok c" "credits_below (2 ^ 43) c" "k < 2 ^ 43" for k action remark ref c
    using that by (simp add: books_ok_write_balance)
  define b1 where "b1 = (if record_order
      then b\<lparr>orders := orders b @ [\<lparr>mo_id = next_order b, mo_user = uid, mo_plan = py_lower (py_strip name), mo_price = pl_price p\<rparr>],
             next_order := next_order b + 1\<rparr> else b)"
  have b1: "books_ok b1" "credits_below (2 ^ 43) b1" using ok lim by (simp_all add: b1_def)
  show ?thesis
    unfolding purchase_membership_def Let_def
    using ok sm Some b1
    by (simp add: b1_def [symmetric] vip below last bonus del: power_numeral)
qed

text \<open>C9. The books balance: every user's credits are the sum of the amounts logged for him, never
  negative and a whole number of hundredths, and every operation keeps it so (consuming, adding,
  admin adjustments, VIP changes, the monthly grant, purchases), although balances are written
  through floats, as long as balances stay below \<open>2 ^ 43\<close> and posted amounts below \<open>2 ^ 40\<close>.  The operations run
  one after the other; an adjustment whose balance was read before another one's write does not keep
  the books (\<open>stale_adjustment_unbalances\<close>).\<close>

theorem run_op_books:
  assumes ok: "books_ok b" and lim: "credits_below (2 ^ 43) b" and small: "small_op op"
  shows "books_ok (run_op op b)"
proof (cases op)
  case (Consume cfg uid feature ref)
  show ?thesis
  proof (cases "user_row b uid")
    case None
    with Consume ok show ?thesis by (simp add: check_and_consume_def Let_def)
  next
    case (Some u)
    have "dec 2 (u_credits u - of_int (cost cfg feature)) = u_credits u - of_int (cost cfg feature)"
      using books_ok_user(2) [OF ok Some] by (intro dec_diff) simp_all
    then show ?thesis
      using Consume Some ok
      by (auto simp: check_and_consume_def Let_def not_less intro!: books_ok_post [OF ok Some])
  qed
next
  case (AddCredits uid amount action remark operator ref)
  have "books_ok (write_log uid action (of_int amount) x [] ref remark operator
      (upd_user uid (\<lambda>u. u\<lparr>u_credits := column 2 (u_credits v + of_int amount)\<rparr>) b))"
    if v: "user_row b uid = Some v" and pos: "0 < amount" for v x
  proof -
    have "u_credits v < 2 ^ 43" using lim user_row_Some [OF v] by (simp add: credits_below_def)
    moreover have "(of_int amount :: rat) < of_int (2 ^ 40)"
      using small AddCredits by (simp only: of_int_less_iff small_op.simps)
    ultimately have c: "column 2 (u_credits v + of_int amount) = u_credits v + of_int amount"
      using books_ok_user [OF ok v] pos by (intro column_2_sum) auto
    have "dec 2 (u_credits v + of_int amount) = u_credits v + of_int amount"
      using books_ok_user(2) [OF ok v] by (intro dec_add) simp_all
    then show ?thesis
      unfolding c using books_ok_user(1) [OF ok v] pos by (intro books_ok_post [OF ok v]) simp_all
  qed
  then show ?thesis
    using AddCredits ok by (auto simp: add_credits_def Let_def not_le split: option.split)
next
  case (SetCredits uid amount remark operator)
  have "books_ok (write_log uid a (column 2 (of_int amount - u_credits v)) x [] [] r operator
      (upd_user uid (\<lambda>u. u\<lparr>u_credits := of_int amount\<rparr>) b))"
    if v: "user_row b uid = Some v" and pos: "0 \<le> amount" for v a x r
  proof -
    have "u_credits v < 2 ^ 43" using lim user_row_Some [OF v] by (simp add: credits_below_def)
    moreover have "(of_int amount :: rat) < of_int (2 ^ 40)"
      using small SetCredits by (simp only: of_int_less_iff small_op.simps)
    ultimately have "\<bar>of_int amount - u_credits v\<bar> < 2 ^ 44"
      using books_ok_user(1) [OF ok v] pos by (simp add: abs_less_iff)
    then have c: "column 2 (of_int amount - u_credits v) = of_int amount - u_credits v"
      using books_ok_user(2) [OF ok v] by (intro column_2_exact dec_diff) simp_all
    show ?thesis using pos by (intro books_ok_post [OF ok v]) (simp_all add: c)
  qed
  then show ?thesis
    using SetCredits ok by (auto simp: set_credits_def set_credits_from_def get_user_credits_def Let_def not_less split: option.split)
next
  case (VipStatus ps uid now)
  with ok lim small show ?thesis by (simp add: get_user_vip_status_def Let_def books_ok_grant)
next
  case SetVip
  with ok show ?thesis by (simp add: books_ok_set_vip)
next
  case Purchase
  with ok lim small show ?thesis by (simp add: books_ok_purchase)
qed

lemma stale_adjustment_unbalances:
  assumes ok: "books_ok b" and v: "user_row b uid = Some v"
    and stale: "column 2 (of_int amount - old) \<noteq> of_int amount - u_credits v"
  shows "\<not> books_ok (snd (set_credits_from old uid amount remark operator b))"
proof
  assume new: "books_ok (snd (set_credits_from old uid amount remark operator b))"
  have mem: "v \<in> set (users b)" "u_id v = uid" using v by (auto simp: user_row_def dest: find_SomeD)
  then have "v\<lparr>u_credits := of_int amount\<rparr> \<in> set (users (snd (set_credits_from old uid amount remark operator b)))"
    by (auto simp: set_credits_from_def v write_log_def upd_user_def set_upd_where)
  with new have "of_int amount = log_total uid (credit_log (snd (set_credits_from old uid amount remark operator b)))"
    using mem(2) by (auto simp: books_ok_def)
  also have "\<dots> = log_total uid (credit_log b) + column 2 (of_int amount - old)"
    by (simp add: set_credits_from_def v write_log_def upd_user_def log_total_def)
  finally show False using ok mem stale by (auto simp: books_ok_def)
qed

definition demo_user :: user where
  "demo_user = \<lparr>u_id = 1, u_credits = 0, u_vip_expires = None, u_vip_plan = [], u_lifetime = False, u_last_grant = None\<rparr>"

definition demo_bank :: bank where
  "demo_bank = \<lparr>users = [demo_user], credit_log = [], next_log = 1, orders = [], next_order = 1\<rparr>"

lemma demo_bank_ok: "books_ok demo_bank" "credits_below (2 ^ 43) demo_bank"
  by (simp_all add: demo_bank_def demo_user_def books_ok_def credits_below_def log_total_def dec.zero)

lemma run_op_books_witness: "books_ok (run_op (AddCredits 1 500 ''recharge'' [] None ''r1'') demo_bank)"
  by (rule run_op_books [OF demo_bank_ok]) simp

text \<open>Consuming is all or nothing: with billing on and a positive cost, it succeeds exactly when
  the balance covers the cost, then takes exactly the cost and logs it, touches no other user, and
  otherwise changes nothing; a refund or recharge with a reference is posted at most once.\<close>

theorem consume_and_recharge:
  assumes ok: "books_ok b" and on: "enabled cfg" "0 < cost cfg feature" and u: "user_row b uid = Some u"
  shows "(fst (fst (check_and_consume cfg uid feature ref b)) \<longleftrightarrow> of_int (cost cfg feature) \<le> u_credits u)
    \<and> (of_int (cost cfg feature) \<le> u_credits u \<longrightarrow>
         get_user_credits uid (snd (check_and_consume cfg uid feature ref b)) = u_credits u - of_int (cost cfg feature)
         \<and> log_total uid (credit_log (snd (check_and_consume cfg uid feature ref b)))
             = log_total uid (credit_log b) - of_int (cost cfg feature))
    \<and> (u_credits u < of_int (cost cfg feature) \<longrightarrow> snd (check_and_consume cfg uid feature ref b) = b)
    \<and> (\<forall>j. j \<noteq> uid \<longrightarrow> user_row (snd (check_and_consume cfg uid feature ref b)) j = user_row b j)
    \<and> (0 < amount \<and> r \<noteq> [] \<longrightarrow>
         (let b1 = snd (add_credits uid amount action remark operator r b) in
          snd (add_credits uid amount' action remark' operator' r b1) = b1))"
proof -
  have row: "user_row (upd_user uid f b) j = map_option (\<lambda>u. if u_id u = uid then f u else u) (user_row b j)"
    if "\<And>u. u_id (f u) = u_id u" for f j
    using that by (simp add: user_row_def upd_user_def find_key_upd_where)
  have wl: "user_row (write_log uid a am ba fe re rm op c) j = user_row c j" for a am ba fe re rm op c j
    by (simp add: user_row_def write_log_def)
  have id: "u_id u = uid" using user_row_Some [OF u] by simp
  have idj: "user_row b j = Some v \<Longrightarrow> u_id v = j" for j v using user_row_Some [of b j v] by simp
  have other: "user_row (upd_user uid f b) j = user_row b j" if "\<And>u. u_id (f u) = u_id u" "j \<noteq> uid" for f j
    using row [OF that(1), of j] idj [of j] that(2) by (cases "user_row b j") auto
  have again: "let b1 = snd (add_credits uid amount action remark operator r b) in
          snd (add_credits uid amount' action remark' operator' r b1) = b1"
    if "0 < amount" "r \<noteq> []"
  proof (cases "find_last (\<lambda>x. lg_user x = uid \<and> lg_action x = action \<and> lg_ref x = r) (credit_log b)")
    case None
    with that u show ?thesis by (simp add: add_credits_def Let_def write_log_def)
  qed (use that u in \<open>simp add: add_credits_def Let_def\<close>)
  show ?thesis
    using on u again
    by (auto simp: check_and_consume_def Let_def wl other row id get_user_credits_def)
       (simp add: write_log_def upd_user_def log_total_def)
qed

lemma consume_and_recharge_witness:
  "snd (add_credits 1 7 ''refund'' [] None ''x'' (snd (add_credits 1 5 ''refund'' [] None ''x'' demo_bank)))
     = snd (add_credits 1 5 ''refund'' [] None ''x'' demo_bank)"
proof -
  have "user_row demo_bank 1 = Some demo_user" by (simp add: user_row_def demo_bank_def demo_user_def)
  from consume_and_recharge [OF demo_bank_ok(1) _ _ this, of "\<lparr>enabled = True, cost = (\<lambda>_. 5)\<rparr>" "''ai''" "[]"
      5 "''x''" "''refund''" "[]" None 7 "[]" None]
  show ?thesis by (simp add: Let_def)
qed

section \<open>Rows after an update\<close>

lemma user_row_upd:
  assumes "\<And>u. u_id (f u) = u_id u"
  shows "user_row (upd_user uid f b) j
       = (case user_row b j of None \<Rightarrow> None | Some u \<Rightarrow> Some (if j = uid then f u else u))"
proof -
  have "user_row (upd_user uid f b) j = map_option (\<lambda>u. if u_id u = uid then f u else u) (user_row b j)"
    using assms by (simp add: user_row_def upd_user_def find_key_upd_where)
  then show ?thesis using user_row_Some [of b j] by (cases "user_row b j") auto
qed

lemma user_row_write_log [simp]: "user_row (write_log uid a am ba fe re rm op c) j = user_row c j"
  by (simp add: user_row_def write_log_def)

lemma user_row_orders [simp]: "user_row (b\<lparr>orders := x, next_order := n\<rparr>) j = user_row b j"
  by (simp add: user_row_def)

lemma credit_log_upd [simp]: "credit_log (upd_user uid f b) = credit_log b"
  by (simp add: upd_user_def)

lemma user_row_add_in_tx:
  assumes "user_row b uid = Some u"
  shows "user_row (add_credits_in_tx uid k a rm re b) j
    = (if j = uid then Some (u\<lparr>u_credits := column 2 (u_credits u + of_int k)\<rparr>) else user_row b j)"
  using assms
  by (auto simp: add_credits_in_tx_def write_balance_def get_user_credits_def Let_def user_row_upd split: option.split)

text \<open>What a monthly or yearly plan makes of the buyer's row.\<close>

definition bought :: "plan \<Rightarrow> string \<Rightarrow> int \<Rightarrow> user \<Rightarrow> user" where
  "bought p name now u =
     (let u2 = (if u_lifetime u then u
                else u\<lparr>u_vip_expires := vip_expiry p name u now, u_vip_plan := name, u_lifetime := False\<rparr>) in
      if 0 < pl_credits_once p then u2\<lparr>u_credits := column 2 (u_credits u + of_int (pl_credits_once p))\<rparr> else u2)"

lemma purchase_row:
  assumes u: "user_row b uid = Some u" and p: "ps name = Some p"
    and name: "name = ''monthly'' \<or> name = ''yearly''" "py_lower (py_strip name) = name"
  shows "user_row (snd (purchase_membership ps record_order uid name ref now b)) j
     = (if j = uid then Some (bought p name now u) else user_row b j)"
proof -
  define b1 where "b1 = (if record_order
      then b\<lparr>orders := orders b @ [\<lparr>mo_id = next_order b, mo_user = uid, mo_plan = name, mo_price = pl_price p\<rparr>],
             next_order := next_order b + 1\<rparr> else b)"
  have b1: "user_row b1 j = user_row b j" for j by (simp add: b1_def)
  let ?e = "vip_expiry p name u now"
  define b2 where "b2 = (if u_lifetime u then b1
      else upd_user uid (\<lambda>r. r\<lparr>u_vip_expires := ?e, u_vip_plan := name, u_lifetime := False\<rparr>) b1)"
  define u2 where "u2 = (if u_lifetime u then u else u\<lparr>u_vip_expires := ?e, u_vip_plan := name, u_lifetime := False\<rparr>)"
  have b2: "user_row b2 j = (if j = uid then Some u2 else user_row b j)" for j
    using u by (auto simp: b2_def u2_def b1 user_row_upd split: option.split)
  define rm where "rm = (if u_lifetime u then ''Lifetime top-up via '' @ name else ''Membership bonus ('' @ name @ '')'')"
  define re where "re = (if record_order then int_str (next_order b)
      else str_or (py_strip ref) (''usdt:'' @ int_str uid @ '':'' @ int_str (now div second)))"
  have "snd (purchase_membership ps record_order uid name ref now b)
      = (if 0 < pl_credits_once p then add_credits_in_tx uid (pl_credits_once p) ''membership_bonus'' rm re b2 else b2)"
    using u p name unfolding purchase_membership_def Let_def
    by (simp add: b1_def b2_def rm_def re_def)
  then show ?thesis by (simp add: b2 user_row_add_in_tx u2_def bought_def Let_def)
qed

text \<open>Buying a monthly or yearly plan never shortens a membership: a lifetime member keeps his status
  and expiry, anyone else gets the plan's days on top of the later of now and the old expiry; the
  bonus credits are added, and no other user is touched.\<close>

theorem purchase_extends:
  assumes u: "user_row b uid = Some u" and p: "ps name = Some p"
    and name: "name = ''monthly'' \<or> name = ''yearly''" "py_lower (py_strip name) = name" and days: "0 < pl_days p"
  shows "(let b' = snd (purchase_membership ps record_order uid name ref now b) in
     \<exists>u'. user_row b' uid = Some u'
      \<and> (u_lifetime u \<longrightarrow> u_lifetime u' \<and> u_vip_expires u' = u_vip_expires u)
      \<and> (\<not> u_lifetime u \<longrightarrow> \<not> u_lifetime u' \<and> (\<exists>e. u_vip_expires u' = Some e \<and> now + pl_days p * day \<le> e
             \<and> (\<forall>old. u_vip_expires u = Some old \<longrightarrow> old \<le> e)))
      \<and> u_credits u' = (if 0 < pl_credits_once p then column 2 (u_credits u + of_int (pl_credits_once p)) else u_credits u)
      \<and> (\<forall>j. j \<noteq> uid \<longrightarrow> user_row b' j = user_row b j))"
proof -
  have "\<exists>e. vip_expiry p name u now = Some e \<and> now + pl_days p * day \<le> e \<and> (\<forall>old. u_vip_expires u = Some old \<longrightarrow> old \<le> e)"
    if "\<not> u_lifetime u"
  proof -
    have "0 \<le> pl_days p * day" using days by (simp add: less_imp_le)
    with name that days show ?thesis by (auto simp: vip_expiry_def Let_def split: option.split)
  qed
  then show ?thesis
    unfolding purchase_row [where ps = ps, OF u p name] Let_def by (auto simp: bought_def Let_def)
qed

definition demo_plans :: plans where
  "demo_plans = load_membership_plans 20 500 199 8000 499 800"

lemma purchase_extends_witness:
  "\<exists>u'. user_row (snd (purchase_membership demo_plans False 1 ''monthly'' ''r'' 7 demo_bank)) 1 = Some u'
     \<and> \<not> u_lifetime u' \<and> u_credits u' = column 2 500"
proof -
  let ?p = "\<lparr>pl_price = 20, pl_credits_once = 500, pl_credits_monthly = 0, pl_days = 30\<rparr>"
  have "user_row demo_bank 1 = Some demo_user" by (simp add: user_row_def demo_bank_def demo_user_def)
  moreover have "demo_plans ''monthly'' = Some ?p" by (simp add: demo_plans_def load_membership_plans_def)
  moreover have "py_lower (py_strip ''monthly'') = ''monthly''" by code_simp
  ultimately show ?thesis
    using purchase_extends [of demo_bank 1 demo_user demo_plans "''monthly''" ?p False "''r''" 7]
    by (auto simp: Let_def demo_user_def)
qed

text \<open>The monthly grant of a lifetime member: at most six 30-day periods at a time, and nothing
  more for the next 30 days.  The clock restarts at the moment of the grant, so the part of a
  period that had already passed is lost: grants come every 30 days only if somebody asks at
  exactly those moments.\<close>

theorem monthly_grant:
  assumes u: "user_row b uid = Some u" "u_lifetime u" "u_vip_expires u = Some e" "now < e" "u_last_grant u = Some t"
    and p: "ps ''lifetime'' = Some p" "0 < pl_credits_monthly p" and t: "t \<le> now"
  shows "(let b' = grant_lifetime_monthly_credits ps uid now b; k = min 6 ((now - t) div (30 * day)) in
      get_user_credits uid b' = (if 0 < k then column 2 (u_credits u + of_int (pl_credits_monthly p * k)) else u_credits u)
      \<and> (0 < k \<longrightarrow> now \<le> later \<and> later < now + 30 * day \<and> later < e
           \<longrightarrow> grant_lifetime_monthly_credits ps uid later b' = b'))"
proof -
  have k: "grant_periods now' t' = min 6 ((now' - t') div (30 * day))" for now' t'
    using zdiv_zmult2_eq [of 30 "now' - t'" day] by (simp add: grant_periods_def mult.commute)
  show ?thesis
  proof (cases "0 < grant_periods now t")
    case False
    then show ?thesis using u p by (simp add: grant_lifetime_monthly_credits_def Let_def get_user_credits_def k)
  next
    case True
    define b' where "b' = grant_lifetime_monthly_credits ps uid now b"
    have row: "user_row b' uid = Some (u\<lparr>u_credits := column 2 (u_credits u + of_int (pl_credits_monthly p * grant_periods now t)),
        u_last_grant := Some now\<rparr>)"
      using u p True
      by (simp add: b'_def grant_lifetime_monthly_credits_def Let_def user_row_upd user_row_add_in_tx)
    have "grant_lifetime_monthly_credits ps uid later b' = b'"
      if "now \<le> later" "later < now + 30 * day" "later < e"
    proof -
      have "(later - now) div (30 * day) = 0" using that by (intro div_pos_pos_trivial) auto
      then have "\<not> 0 < grant_periods later now" by (simp add: k)
      then show ?thesis using row u p that by (simp add: grant_lifetime_monthly_credits_def Let_def)
    qed
    then show ?thesis
      using True row unfolding b'_def [symmetric] Let_def k [symmetric] by (simp add: get_user_credits_def)
  qed
qed

definition lifetime_bank :: bank where
  "lifetime_bank = demo_bank\<lparr>users := [demo_user\<lparr>u_lifetime := True, u_vip_expires := Some (1000 * day), u_last_grant := Some 0\<rparr>]\<rparr>"

text \<open>Asked on day 59 and on day 60, a member gets one month's credits, not two.\<close>

lemma monthly_grant_witness:
  "grant_lifetime_monthly_credits demo_plans 1 (60 * day) (grant_lifetime_monthly_credits demo_plans 1 (59 * day) lifetime_bank)
     = grant_lifetime_monthly_credits demo_plans 1 (59 * day) lifetime_bank"
proof -
  let ?u = "demo_user\<lparr>u_lifetime := True, u_vip_expires := Some (1000 * day), u_last_grant := Some 0\<rparr>"
  let ?p = "\<lparr>pl_price = 499, pl_credits_once = 0, pl_credits_monthly = 800, pl_days = 0\<rparr>"
  have "user_row lifetime_bank 1 = Some ?u" by (simp add: user_row_def lifetime_bank_def demo_user_def)
  moreover have "demo_plans ''lifetime'' = Some ?p" by (simp add: demo_plans_def load_membership_plans_def)
  ultimately show ?thesis
    using monthly_grant [of lifetime_bank 1 ?u "1000 * day" "59 * day" 0 demo_plans ?p "60 * day"]
    by (simp add: Let_def day_def)
qed

text \<open>The bonus of a purchase can undo a payment: \<open>_add_credits_in_tx\<close> writes the balance it read
  before, without a lock.  If a feature is paid for between its read and its write, the user ends
  with his old balance plus the bonus, although the log holds the payment too: he has used the
  feature for free and the books no longer balance.\<close>

theorem bonus_undoes_payment:
  assumes ok: "books_ok b" and lim: "credits_below (2 ^ 43) b" and u: "user_row b uid = Some u"
    and k: "0 < k" "k < 2 ^ 40"
    and pay: "enabled cfg" "0 < cost cfg feature" "of_int (cost cfg feature) \<le> u_credits u"
  shows "let c0 = get_user_credits uid b; b1 = snd (check_and_consume cfg uid feature ref b);
             b2 = write_balance uid c0 k action remark ref' b1 in
      fst (fst (check_and_consume cfg uid feature ref b))
      \<and> get_user_credits uid b2 = u_credits u + of_int k
      \<and> log_total uid (credit_log b2) = u_credits u + of_int k - of_int (cost cfg feature)
      \<and> \<not> books_ok b2"
proof -
  define b1 where "b1 = snd (check_and_consume cfg uid feature ref b)"
  define b2 where "b2 = write_balance uid (get_user_credits uid b) k action remark ref' b1"
  note bu = books_ok_user [OF ok u]
  have "u_credits u < 2 ^ 43" using lim user_row_Some [OF u] by (simp add: credits_below_def)
  moreover have "(of_int k :: rat) < of_int (2 ^ 40)" using k(2) by (simp only: of_int_less_iff)
  ultimately have col: "column 2 (u_credits u + of_int k) = u_credits u + of_int k"
    using bu k(1) by (intro column_2_sum) auto
  let ?r = "u_credits u - of_int (cost cfg feature)"
  have b1: "b1 = write_log uid ''consume'' (of_int (- cost cfg feature)) (column 2 ?r) feature ref
      (''Consume: '' @ feature) None (upd_user uid (\<lambda>u. u\<lparr>u_credits := ?r\<rparr>) b)"
    using pay u by (simp add: b1_def check_and_consume_def Let_def)
  have r1: "user_row b1 uid = Some (u\<lparr>u_credits := ?r\<rparr>)" using u by (simp add: b1 user_row_upd)
  have l1: "log_total uid (credit_log b1) = ?r" using bu(3) by (simp add: b1 write_log_def log_total_def)
  have r2: "user_row b2 uid = Some (u\<lparr>u_credits := u_credits u + of_int k\<rparr>)"
    using r1 u by (simp add: b2_def write_balance_def Let_def user_row_upd get_user_credits_def col)
  have l2: "log_total uid (credit_log b2) = ?r + of_int k"
    using r1 l1 by (simp add: b2_def write_balance_def Let_def write_log_def log_total_def)
  have "\<not> books_ok b2"
    using books_ok_user(3) [OF _ r2] l2 pay(2) by auto
  then show ?thesis
    using pay u r2 l2 unfolding b1_def [symmetric] Let_def b2_def [symmetric]
    by (simp add: check_and_consume_def Let_def get_user_credits_def)
qed

lemma bonus_undoes_payment_witness:
  "\<exists>b2. \<not> books_ok b2 \<and> get_user_credits 1 b2 = 507 \<and> log_total 1 (credit_log b2) = 502"
proof -
  let ?u = "demo_user\<lparr>u_credits := 7\<rparr>"
  let ?b = "demo_bank\<lparr>users := [?u], credit_log := [\<lparr>lg_id = 1, lg_user = 1, lg_action = ''recharge'', lg_amount = 7,
     lg_balance = 7, lg_feature = [], lg_ref = [], lg_remark = [], lg_operator = None\<rparr>]\<rparr>"
  have "dec 2 7 = 7" using dec_of_int [of 2 7] by simp
  then have "books_ok ?b" "credits_below (2 ^ 43) ?b" "user_row ?b 1 = Some ?u"
    by (simp_all add: books_ok_def credits_below_def log_total_def user_row_def demo_bank_def demo_user_def)
  from bonus_undoes_payment [OF this, of 500 "\<lparr>enabled = True, cost = (\<lambda>_. 5)\<rparr>" "''ai''" "[]"
      "''membership_bonus''" "[]" "''r''"]
  show ?thesis by (auto simp: Let_def)
qed

end
