(* ===== verification/Usdt_Orders.thy ===== *)
theory Usdt_Orders
  imports Billing
begin

text \<open>
  USDT checkout, \<open>services/usdt_payment\<close>: all orders of a chain share one receiving address and are
  told apart by a small suffix of the amount (\<open>chains.py\<close>), a watcher looks for the transfer
  (\<open>watchers/tron.py\<close>), the service moves orders from pending to paid to confirmed and activates
  the membership (\<open>service.py\<close>).  Amounts are \<open>DECIMAL(20,8)\<close> and stay exact decimals in Python.
  The 16 random bytes and their SHA-256 are the argument \<open>digest\<close>; the chain's transfers are the
  argument \<open>chain_items\<close>.
\<close>

section \<open>Chains\<close>

record chain_spec =
  cs_code :: string
  cs_kind :: string
  cs_decimals :: nat
  cs_chain_id :: nat

definition chain_specs :: "chain_spec list" where
  "chain_specs =
     [\<lparr>cs_code = ''TRC20'', cs_kind = ''tron'', cs_decimals = 6, cs_chain_id = 0\<rparr>,
      \<lparr>cs_code = ''BEP20'', cs_kind = ''evm'', cs_decimals = 18, cs_chain_id = 56\<rparr>,
      \<lparr>cs_code = ''ERC20'', cs_kind = ''evm'', cs_decimals = 6, cs_chain_id = 1\<rparr>,
      \<lparr>cs_code = ''SOL'', cs_kind = ''solana'', cs_decimals = 6, cs_chain_id = 0\<rparr>]"

definition spec_of :: "string \<Rightarrow> chain_spec option" where
  "spec_of code = find (\<lambda>s. cs_code s = code) chain_specs"

text \<open>The environment: \<open>USDT_PAY_ENABLED_CHAINS\<close> and the receiving address of each chain.\<close>

definition enabled_codes :: "string \<Rightarrow> string list" where
  "enabled_codes raw =
     foldl (\<lambda>out t. if spec_of t \<noteq> None \<and> t \<notin> set out then out @ [t] else out) []
       (map py_strip (split_on (CHR '','') (py_upper raw)))"

definition chain_metadata :: "string \<Rightarrow> (string \<Rightarrow> string) \<Rightarrow> string \<Rightarrow> (chain_spec \<times> string) option" where
  "chain_metadata raw address code0 =
     (let code = py_upper (py_strip code0) in
      case spec_of code of
        None \<Rightarrow> None
      | Some s \<Rightarrow>
          if code \<notin> set (enabled_codes raw) then None
          else let a = py_strip (address code) in if a = [] then None else Some (s, a))"

definition list_enabled_chains :: "string \<Rightarrow> (string \<Rightarrow> string) \<Rightarrow> (chain_spec \<times> string) list" where
  "list_enabled_chains raw address =
     concat (map (\<lambda>c. case chain_metadata raw address c of None \<Rightarrow> [] | Some m \<Rightarrow> [m]) (enabled_codes raw))"

text \<open>\<open>env\<close> is the variable's value, None when it is unset, empty or not a number.\<close>

definition suffix_decimals :: "int option \<Rightarrow> nat" where
  "suffix_decimals env = nat (max 4 (min 8 (case env of None \<Rightarrow> 6 | Some n \<Rightarrow> n)))"

text \<open>\<open>build_amount_with_suffix\<close>: the slot comes from the digest, the suffix from the slot.\<close>

definition slot_space :: "nat \<Rightarrow> int" where
  "slot_space decimals = max 100 (10 ^ (decimals - 2))"

definition build_amount_with_suffix :: "nat \<Rightarrow> rat \<Rightarrow> int \<Rightarrow> rat \<times> rat" where
  "build_amount_with_suffix decimals base digest =
     (let suffix_int = digest mod slot_space decimals + 1;
          suffix = dec decimals (of_int suffix_int / 10 ^ decimals) in
      (dec decimals (base + suffix), suffix))"

section \<open>The TRC20 watcher\<close>

record transfer =
  tf_hash :: string
  tf_time_ms :: int
  tf_to :: string
  tf_value :: int

text \<open>\<open>find_incoming\<close>: the first transfer to the address, not before the order, whose value is within
  one micro-unit of the amount; \<open>scan\<close> is the number of items the pages hold.\<close>

definition matches_transfer :: "string \<Rightarrow> rat \<Rightarrow> int option \<Rightarrow> transfer \<Rightarrow> bool" where
  "matches_transfer address amount created it =
     (let target = rne (amount * 10 ^ 6);
          min_ts = (case created of None \<Rightarrow> 0 | Some t \<Rightarrow> t div 1000 - 60000) in
      py_strip (tf_to it) = address
      \<and> \<not> (created \<noteq> None \<and> min_ts \<noteq> 0 \<and> tf_time_ms it < min_ts)
      \<and> target - 1 \<le> tf_value it \<and> tf_value it \<le> target + 1)"

definition find_incoming :: "nat \<Rightarrow> transfer list \<Rightarrow> string \<Rightarrow> rat \<Rightarrow> int option \<Rightarrow> transfer option" where
  "find_incoming scan chain_items address0 amount created =
     (let address = py_strip address0 in
      if address = [] \<or> amount \<le> 0 then None
      else find (matches_transfer address amount created) (take scan chain_items))"

section \<open>Orders\<close>

datatype order_status = OPending | OPaid | OConfirmed | OExpired | OCancelled | OFailed

record usdt_order =
  o_id :: int
  o_user :: int
  o_plan :: string
  o_chain :: string
  o_amount :: rat
  o_suffix :: rat
  o_address :: string
  o_status :: order_status
  o_tx :: string
  o_paid_at :: "int option"
  o_confirmed_at :: "int option"
  o_expires :: "int option"
  o_created :: int

record checkout =
  usdt_orders :: "usdt_order list"
  next_usdt :: int
  bank :: bank

record pay_cfg =
  pay_enabled :: bool
  confirm_seconds :: int
  expire_minutes :: int
  chains_raw :: string
  address_of :: "string \<Rightarrow> string"
  decimals :: nat
  plans_of :: plans

text \<open>The partial unique index \<open>(chain, amount_usdt) WHERE status IN ('pending','paid')\<close>.\<close>

definition live :: "usdt_order \<Rightarrow> bool" where
  "live r = (o_status r = OPending \<or> o_status r = OPaid)"

definition amount_taken :: "string \<Rightarrow> rat \<Rightarrow> usdt_order list \<Rightarrow> bool" where
  "amount_taken chain amount t = list_ex (\<lambda>r. live r \<and> o_chain r = chain \<and> o_amount r = amount) t"

definition find_active_order :: "int \<Rightarrow> string \<Rightarrow> string \<Rightarrow> int \<Rightarrow> checkout \<Rightarrow> usdt_order option" where
  "find_active_order uid plan chain now c =
     find_last (\<lambda>r. o_user r = uid \<and> o_plan r = plan \<and> o_chain r = chain \<and> o_status r = OPending
        \<and> (case o_expires r of None \<Rightarrow> True | Some e \<Rightarrow> now < e)) (usdt_orders c)"

datatype order_reply = Reused usdt_order | Created usdt_order | Rejected string

fun try_amounts :: "nat \<Rightarrow> rat \<Rightarrow> int list \<Rightarrow> string \<Rightarrow> usdt_order list \<Rightarrow> (rat \<times> rat) option" where
  "try_amounts dp base [] chain t = None"
| "try_amounts dp base (digest # ds) chain t =
     (let (final, suffix) = build_amount_with_suffix dp base digest in
      if amount_taken chain final t then try_amounts dp base ds chain t else Some (final, suffix))"

text \<open>\<open>digests\<close> are the digests of the attempts, of which at most ten are made.\<close>

definition reuse_or_insert ::
  "pay_cfg \<Rightarrow> int list \<Rightarrow> int \<Rightarrow> string \<Rightarrow> string \<Rightarrow> string \<Rightarrow> rat \<Rightarrow> int \<Rightarrow> checkout \<Rightarrow> order_reply \<times> checkout" where
  "reuse_or_insert cfg digests uid plan chain address base now c =
     (case find_active_order uid plan chain now c of
        Some r \<Rightarrow> (Reused r, c)
      | None \<Rightarrow>
          (case try_amounts (decimals cfg) base (take 10 digests) chain (usdt_orders c) of
             None \<Rightarrow> (Rejected ''amount_collision'', c)
           | Some (final, suffix) \<Rightarrow>
               let r = \<lparr>o_id = next_usdt c, o_user = uid, o_plan = plan, o_chain = chain, o_amount = dec 8 final,
                        o_suffix = dec 8 suffix, o_address = address, o_status = OPending, o_tx = [],
                        o_paid_at = None, o_confirmed_at = None,
                        o_expires = Some (now + expire_minutes cfg * 60 * second), o_created = now\<rparr> in
               (Created r, c\<lparr>usdt_orders := usdt_orders c @ [r], next_usdt := next_usdt c + 1\<rparr>)))"

definition create_order ::
  "pay_cfg \<Rightarrow> int list \<Rightarrow> int \<Rightarrow> string \<Rightarrow> string \<Rightarrow> int \<Rightarrow> checkout \<Rightarrow> order_reply \<times> checkout" where
  "create_order cfg digests uid plan0 chain0 now c =
     (let plan = py_lower (py_strip plan0);
          enabled = list_enabled_chains (chains_raw cfg) (address_of cfg);
          chain = py_upper (py_strip (str_or chain0 (case enabled of [] \<Rightarrow> [] | m # _ \<Rightarrow> cs_code (fst m)))) in
      if \<not> pay_enabled cfg then (Rejected ''usdt_pay_disabled'', c)
      else if plan \<notin> {''monthly'', ''yearly'', ''lifetime''} then (Rejected ''invalid_plan'', c)
      else if enabled = [] then (Rejected ''no_chain_configured'', c)
      else case chain_metadata (chains_raw cfg) (address_of cfg) chain of
        None \<Rightarrow> (Rejected ''chain_not_available'', c)
      | Some (spec, address) \<Rightarrow>
          let base = (case plans_of cfg plan of None \<Rightarrow> 0 | Some p \<Rightarrow> pl_price p) in
          if base \<le> 0 then (Rejected ''invalid_amount'', c)
          else reuse_or_insert cfg digests uid plan chain address base now c)"

section \<open>Confirmation\<close>

definition order_row :: "checkout \<Rightarrow> int \<Rightarrow> usdt_order option" where
  "order_row c oid = find (\<lambda>r. o_id r = oid) (usdt_orders c)"

definition upd_orders :: "(usdt_order \<Rightarrow> bool) \<Rightarrow> (usdt_order \<Rightarrow> usdt_order) \<Rightarrow> checkout \<Rightarrow> checkout" where
  "upd_orders p f c = c\<lparr>usdt_orders := upd_where p f (usdt_orders c)\<rparr>"

text \<open>
  \<open>_confirm_and_activate\<close> is three statements of the database: read the status, mark confirmed,
  activate the membership.  The second does not look at how many rows it changed.
\<close>

definition confirm_read :: "int \<Rightarrow> checkout \<Rightarrow> bool" where
  "confirm_read oid c = (case order_row c oid of None \<Rightarrow> True | Some r \<Rightarrow> o_status r \<noteq> OConfirmed)"

definition confirm_mark :: "int \<Rightarrow> int \<Rightarrow> checkout \<Rightarrow> checkout" where
  "confirm_mark oid now = upd_orders (\<lambda>r. o_id r = oid \<and> live r)
     (\<lambda>r. r\<lparr>o_status := OConfirmed, o_confirmed_at := Some now\<rparr>)"

definition activate :: "pay_cfg \<Rightarrow> int \<Rightarrow> int \<Rightarrow> string \<Rightarrow> int \<Rightarrow> checkout \<Rightarrow> checkout" where
  "activate cfg oid uid plan now c =
     c\<lparr>bank := snd (purchase_membership (plans_of cfg) False uid plan (''usdt_order:'' @ int_str oid) now (bank c))\<rparr>"

definition confirm_and_activate :: "pay_cfg \<Rightarrow> int \<Rightarrow> int \<Rightarrow> string \<Rightarrow> int \<Rightarrow> checkout \<Rightarrow> checkout" where
  "confirm_and_activate cfg oid uid plan now c =
     (if confirm_read oid c then activate cfg oid uid plan now (confirm_mark oid now c) else c)"

section \<open>The reconciler\<close>

definition confirm_delay :: "pay_cfg \<Rightarrow> int" where
  "confirm_delay cfg = (if confirm_seconds cfg = 0 then 30 else confirm_seconds cfg)"

text \<open>The update to \<open>paid\<close> fails when it makes a second live order of that amount.\<close>

definition mark_paid :: "int \<Rightarrow> string \<Rightarrow> int \<Rightarrow> checkout \<Rightarrow> checkout option" where
  "mark_paid oid tx now c =
     (case order_row c oid of
        None \<Rightarrow> Some c
      | Some r \<Rightarrow>
          if o_status r = OExpired \<and> amount_taken (o_chain r) (o_amount r) (usdt_orders c) then None
          else Some (upd_orders (\<lambda>x. o_id x = oid \<and> (o_status x = OPending \<or> o_status x = OExpired))
                 (\<lambda>x. x\<lparr>o_status := OPaid, o_tx := tx, o_paid_at := Some now\<rparr>) c))"

text \<open>\<open>_refresh_one_order\<close> on the row \<open>r\<close> as it was loaded; \<open>watch\<close> is the chain's watcher.\<close>

definition refresh_one_order ::
  "pay_cfg \<Rightarrow> (string \<Rightarrow> rat \<Rightarrow> int option \<Rightarrow> transfer option) \<Rightarrow> usdt_order \<Rightarrow> int \<Rightarrow> checkout \<Rightarrow> checkout" where
  "refresh_one_order cfg watch r now c =
     (if spec_of (o_chain r) = None then c
      else if o_status r \<notin> {OPending, OPaid, OExpired} then c
      else if py_strip (o_address r) = [] \<or> o_amount r \<le> 0 then c
      else if o_status r = OPaid then
        (if (case o_paid_at r of Some t \<Rightarrow> confirm_delay cfg * second \<le> now - t | None \<Rightarrow> confirm_delay cfg \<le> 0)
         then confirm_and_activate cfg (o_id r) (o_user r) (o_plan r) now c else c)
      else case watch (py_strip (o_address r)) (o_amount r) (Some (o_created r)) of
        Some tx \<Rightarrow>
          (case mark_paid (o_id r) (tf_hash tx) now c of
             None \<Rightarrow> c
           | Some c1 \<Rightarrow>
               if (if tf_time_ms tx \<noteq> 0 then confirm_delay cfg * second \<le> now - tf_time_ms tx * 1000
                   else confirm_delay cfg \<le> 0)
               then confirm_and_activate cfg (o_id r) (o_user r) (o_plan r) now c1 else c1)
      | None \<Rightarrow>
          if o_status r = OPending \<and> (case o_expires r of None \<Rightarrow> False | Some e \<Rightarrow> e \<le> now)
          then upd_orders (\<lambda>x. o_id x = o_id r \<and> o_status x = OPending) (\<lambda>x. x\<lparr>o_status := OExpired\<rparr>) c
          else c)"

definition refresh_all_active_orders ::
  "pay_cfg \<Rightarrow> (string \<Rightarrow> string \<Rightarrow> rat \<Rightarrow> int option \<Rightarrow> transfer option) \<Rightarrow> int \<Rightarrow> checkout \<Rightarrow> checkout" where
  "refresh_all_active_orders cfg watcher now c =
     (if \<not> pay_enabled cfg then c
      else fold (\<lambda>r. refresh_one_order cfg (watcher (o_chain r)) r now) (take 100 (filter live (usdt_orders c))) c)"

definition get_order ::
  "pay_cfg \<Rightarrow> (string \<Rightarrow> string \<Rightarrow> rat \<Rightarrow> int option \<Rightarrow> transfer option) \<Rightarrow> int \<Rightarrow> int \<Rightarrow> bool \<Rightarrow> int \<Rightarrow> checkout
   \<Rightarrow> usdt_order option \<times> checkout" where
  "get_order cfg watcher uid oid refresh now c =
     (case find (\<lambda>r. o_id r = oid \<and> o_user r = uid) (usdt_orders c) of
        None \<Rightarrow> (None, c)
      | Some r \<Rightarrow>
          let c' = (if refresh then refresh_one_order cfg (watcher (o_chain r)) r now c else c) in
          (find (\<lambda>r. o_id r = oid \<and> o_user r = uid) (usdt_orders c'), c'))"

section \<open>Amounts\<close>

lemma dec_int_scaled: "x * 10 ^ s = of_int k \<Longrightarrow> dec s x = x"
  by (simp add: dec_def field_simps)

lemma dec_finer:
  assumes "d \<le> s"
  shows "dec s (dec d x) = dec d x"
proof (rule dec_int_scaled)
  have "(10::rat) ^ s = 10 ^ d * 10 ^ (s - d)" using assms by (simp flip: power_add)
  then show "dec d x * 10 ^ s = of_int (rha (x * 10 ^ d) * 10 ^ (s - d))" by (simp add: dec_def)
qed

lemma slot_space_eq: "4 \<le> d \<Longrightarrow> slot_space d = 10 ^ (d - 2)"
proof -
  assume "4 \<le> d"
  then have "(10::int) ^ 2 \<le> 10 ^ (d - 2)" by (intro power_increasing) simp_all
  then show ?thesis by (simp add: slot_space_def)
qed

text \<open>The amount of an order is the plan's price plus a suffix of at least one unit of the last
  place and at most one cent, so it is never the bare price and never more than a cent above it;
  the column holds it exactly.\<close>

theorem amount_with_suffix:
  assumes d: "4 \<le> d" "d \<le> 8" and base: "dec d base = base"
  shows "let (final, suffix) = build_amount_with_suffix d base digest in
      final = base + suffix \<and> 1 / 10 ^ d \<le> suffix \<and> suffix \<le> 1 / 100 \<and> dec 8 final = final"
proof -
  let ?k = "digest mod slot_space d + 1"
  have sp: "slot_space d = 10 ^ (d - 2)" by (rule slot_space_eq [OF d(1)])
  have k: "1 \<le> ?k" "?k \<le> 10 ^ (d - 2)" unfolding sp
  proof -
    have "digest mod 10 ^ (d - 2) < (10::int) ^ (d - 2)" "0 \<le> digest mod (10::int) ^ (d - 2)" by simp_all
    then show "1 \<le> digest mod 10 ^ (d - 2) + 1" "digest mod 10 ^ (d - 2) + 1 \<le> (10::int) ^ (d - 2)" by linarith+
  qed
  define x :: rat where "x = of_int ?k / 10 ^ d"
  have s: "dec d x = x" by (rule dec_int_scaled [of _ _ ?k]) (simp add: x_def)
  have f: "dec d (base + x) = base + x" by (rule dec_add [OF base s])
  have "(1::rat) \<le> of_int ?k" using k(1) by (simp only: of_int_1_le_iff)
  then have lo: "1 / 10 ^ d \<le> x" unfolding x_def by (intro divide_right_mono) simp_all
  have "d - 2 + 2 = d" using d(1) by simp
  then have "(10::rat) ^ d = 10 ^ (d - 2 + 2)" by simp
  also have "\<dots> = 10 ^ (d - 2) * 100" by (simp only: power_add) simp
  finally have p: "(10::rat) ^ d = 10 ^ (d - 2) * 100" .
  have "(of_int ?k :: rat) \<le> of_int (10 ^ (d - 2))" using k(2) by (simp only: of_int_le_iff)
  then have hi: "x \<le> 1 / 100" unfolding x_def p by (simp add: divide_le_eq)
  have "build_amount_with_suffix d base digest = (base + x, x)"
    unfolding build_amount_with_suffix_def Let_def x_def [symmetric] by (simp only: s f)
  then show ?thesis using lo hi f dec_finer [OF d(2), of "base + x"] by simp
qed

lemma amount_with_suffix_witness:
  "let (final, suffix) = build_amount_with_suffix 6 20 1233 in final = 20 + suffix \<and> suffix \<le> 1 / 100"
  using amount_with_suffix [of 6 20 1233] dec_of_int [of 6 20] by (auto simp: Let_def split: prod.splits)

section \<open>The order table\<close>

definition amounts_distinct :: "usdt_order list \<Rightarrow> bool" where
  "amounts_distinct t = (\<forall>r \<in> set t. \<forall>s \<in> set t.
     live r \<and> live s \<and> o_chain r = o_chain s \<and> o_amount r = o_amount s \<longrightarrow> o_id r = o_id s)"

definition orders_ok :: "checkout \<Rightarrow> bool" where
  "orders_ok c = (distinct (map o_id (usdt_orders c)) \<and> (\<forall>r \<in> set (usdt_orders c). o_id r < next_usdt c)
     \<and> amounts_distinct (usdt_orders c))"

lemma orders_okD:
  "orders_ok c \<Longrightarrow> r \<in> set (usdt_orders c) \<Longrightarrow> s \<in> set (usdt_orders c) \<Longrightarrow> live r \<Longrightarrow> live s
   \<Longrightarrow> o_chain r = o_chain s \<Longrightarrow> o_amount r = o_amount s \<Longrightarrow> o_id r = o_id s"
  unfolding orders_ok_def amounts_distinct_def by blast

lemma orders_ok_bank [simp]: "orders_ok (c\<lparr>bank := b\<rparr>) = orders_ok c"
  by (simp add: orders_ok_def)

definition quiet_update :: "(usdt_order \<Rightarrow> usdt_order) \<Rightarrow> bool" where
  "quiet_update f = (\<forall>r. o_id (f r) = o_id r \<and> o_chain (f r) = o_chain r \<and> o_amount (f r) = o_amount r)"

lemma orders_ok_upd:
  assumes ok: "orders_ok c" and f: "quiet_update f"
    and live: "\<And>r s. r \<in> set (usdt_orders c) \<Longrightarrow> p r \<Longrightarrow> live (f r) \<Longrightarrow> s \<in> set (usdt_orders c) \<Longrightarrow> live s \<or> p s
        \<Longrightarrow> o_chain r = o_chain s \<Longrightarrow> o_amount r = o_amount s \<Longrightarrow> o_id r = o_id s"
  shows "orders_ok (upd_orders p f c)"
proof -
  have q: "o_id (f r) = o_id r" "o_chain (f r) = o_chain r" "o_amount (f r) = o_amount r" for r
    using f by (simp_all add: quiet_update_def)
  have dist: "o_id r' = o_id s'"
    if r': "r' \<in> set (upd_where p f (usdt_orders c))" and s': "s' \<in> set (upd_where p f (usdt_orders c))"
      and l: "live r'" "live s'" "o_chain r' = o_chain s'" "o_amount r' = o_amount s'" for r' s'
  proof -
    obtain r s where r: "r \<in> set (usdt_orders c)" "r' = (if p r then f r else r)"
      and s: "s \<in> set (usdt_orders c)" "s' = (if p s then f s else s)"
      using r' s' by (auto simp: set_upd_where)
    have eq: "o_chain r = o_chain s" "o_amount r = o_amount s" using l r s q by (auto split: if_splits)
    have "o_id r = o_id s"
    proof (cases "p r \<or> p s")
      case False
      with l r s eq show ?thesis by (intro orders_okD [OF ok]) simp_all
    next
      case True
      then show ?thesis
      proof
        assume "p r"
        with l r s eq show ?thesis by (intro live) (auto split: if_splits)
      next
        assume "p s"
        with l r s eq have "o_id s = o_id r" by (intro live) (auto split: if_splits)
        then show ?thesis by simp
      qed
    qed
    with r s q show ?thesis by auto
  qed
  have "\<forall>r \<in> set (upd_where p f (usdt_orders c)). o_id r < next_usdt c"
    using ok q by (intro upd_where_all) (auto simp: orders_ok_def)
  moreover have "distinct (map o_id (upd_where p f (usdt_orders c)))"
    using ok q by (simp add: orders_ok_def map_upd_where_same)
  moreover have "amounts_distinct (upd_where p f (usdt_orders c))"
    unfolding amounts_distinct_def using dist by blast
  ultimately show ?thesis unfolding orders_ok_def upd_orders_def by simp
qed

lemma orders_ok_confirm: "orders_ok c \<Longrightarrow> orders_ok (confirm_and_activate cfg oid uid plan now c)"
  by (auto simp: confirm_and_activate_def activate_def confirm_mark_def quiet_update_def live_def
      intro!: orders_ok_upd)

lemma order_row_id: "orders_ok c \<Longrightarrow> r \<in> set (usdt_orders c) \<Longrightarrow> order_row c (o_id r) = Some r"
  unfolding order_row_def by (rule find_key) (simp_all add: orders_ok_def)

lemma orders_ok_mark_paid:
  assumes ok: "orders_ok c" and m: "mark_paid oid tx now c = Some c'"
  shows "orders_ok c'"
proof (cases "order_row c oid")
  case None
  with m ok show ?thesis by (simp add: mark_paid_def)
next
  case (Some r)
  then have r: "r \<in> set (usdt_orders c)" "o_id r = oid"
    using find_SomeD [of "\<lambda>r. o_id r = oid" "usdt_orders c" r] by (simp_all add: order_row_def)
  have only: "x = r" if "x \<in> set (usdt_orders c)" "o_id x = oid" for x
    using order_row_id [OF ok that(1)] order_row_id [OF ok r(1)] that(2) r(2) by simp
  have c': "c' = upd_orders (\<lambda>x. o_id x = oid \<and> (o_status x = OPending \<or> o_status x = OExpired))
                 (\<lambda>x. x\<lparr>o_status := OPaid, o_tx := tx, o_paid_at := Some now\<rparr>) c"
    and free: "\<not> (o_status r = OExpired \<and> amount_taken (o_chain r) (o_amount r) (usdt_orders c))"
    using m Some by (auto simp: mark_paid_def split: if_splits)
  show ?thesis
    unfolding c'
  proof (rule orders_ok_upd [OF ok])
    fix x s
    assume x: "x \<in> set (usdt_orders c)" "o_id x = oid \<and> (o_status x = OPending \<or> o_status x = OExpired)"
      and s: "s \<in> set (usdt_orders c)" "live s \<or> o_id s = oid \<and> (o_status s = OPending \<or> o_status s = OExpired)"
      and eq: "o_chain x = o_chain s" "o_amount x = o_amount s"
    have "x = r" using only x by simp
    show "o_id x = o_id s"
    proof (cases "o_id s = oid")
      case False
      then have "live s" using s by simp
      have "o_status r \<noteq> OExpired"
        using free \<open>x = r\<close> eq s(1) \<open>live s\<close> by (auto simp: amount_taken_def list_ex_iff)
      then have "live x" using x \<open>x = r\<close> by (simp add: live_def)
      then show ?thesis using orders_okD [OF ok x(1) s(1)] \<open>live s\<close> eq by simp
    qed (use x in simp)
  qed (simp add: quiet_update_def)
qed

lemma orders_ok_refresh_one: "orders_ok c \<Longrightarrow> orders_ok (refresh_one_order cfg watch r now c)"
  by (auto simp: refresh_one_order_def quiet_update_def live_def
      intro!: orders_ok_confirm orders_ok_upd intro: orders_ok_mark_paid split: option.split)

lemma try_amounts_Some:
  assumes "try_amounts dp base ds chain t = Some (final, suffix)"
  shows "\<not> amount_taken chain final t \<and> (\<exists>digest. build_amount_with_suffix dp base digest = (final, suffix))"
  using assms by (induction dp base ds chain t rule: try_amounts.induct) (auto split: prod.splits if_splits)

lemma create_order_snd:
  "snd (create_order cfg digests uid plan chain now c) = c
   \<or> (\<exists>plan' chain' address base. create_order cfg digests uid plan chain now c
        = reuse_or_insert cfg digests uid plan' chain' address base now c)"
  unfolding create_order_def Let_def by (simp only: split: if_split option.split prod.split) auto

lemma reuse_or_insert_cases:
  obtains (same) "snd (reuse_or_insert cfg digests uid plan chain address base now c) = c"
  | (created) r final suffix where
      "reuse_or_insert cfg digests uid plan chain address base now c
         = (Created r, c\<lparr>usdt_orders := usdt_orders c @ [r], next_usdt := next_usdt c + 1\<rparr>)"
      "o_id r = next_usdt c" "o_chain r = chain" "o_amount r = dec 8 final"
      "try_amounts (decimals cfg) base (take 10 digests) chain (usdt_orders c) = Some (final, suffix)"
proof (cases "find_active_order uid plan chain now c")
  case None
  show thesis
  proof (cases "try_amounts (decimals cfg) base (take 10 digests) chain (usdt_orders c)")
    case None
    show thesis by (rule same) (simp add: reuse_or_insert_def None \<open>find_active_order _ _ _ _ _ = None\<close>)
  next
    case (Some p)
    obtain final suffix where p: "p = (final, suffix)" by (cases p)
    show thesis
      by (rule created [OF _ _ _ _ Some [unfolded p]],
          simp add: reuse_or_insert_def Let_def \<open>find_active_order _ _ _ _ _ = None\<close> Some p, simp_all)
  qed
next
  case (Some r)
  show thesis by (rule same) (simp add: reuse_or_insert_def Some)
qed

lemma created_amount:
  assumes "try_amounts dp base ds chain t = Some (final, suffix)" "dp \<le> 8"
  shows "dec 8 final = final \<and> \<not> amount_taken chain final t"
proof -
  obtain digest where "build_amount_with_suffix dp base digest = (final, suffix)" "\<not> amount_taken chain final t"
    using try_amounts_Some [OF assms(1)] by blast
  moreover from this have "\<exists>x. final = dec dp x" by (auto simp: build_amount_with_suffix_def Let_def)
  ultimately show ?thesis using dec_finer [OF assms(2)] by auto
qed

text \<open>C10. No two live orders of a chain share an amount, the basis of telling payments apart: every
  operation on orders keeps it (creating, the reconciler's pass over all orders, reading with
  refresh), for any watcher and any digests.\<close>

theorem orders_stay_distinct:
  assumes ok: "orders_ok c" and dp: "decimals cfg \<le> 8"
  shows "orders_ok (snd (create_order cfg digests uid plan chain now c))
    \<and> orders_ok (refresh_all_active_orders cfg watcher now c)
    \<and> orders_ok (snd (get_order cfg watcher uid oid refresh now c))"
proof -
  have new: "orders_ok (c\<lparr>usdt_orders := usdt_orders c @ [r], next_usdt := next_usdt c + 1\<rparr>)"
    if "o_id r = next_usdt c" "\<not> amount_taken (o_chain r) (o_amount r) (usdt_orders c)" for r
  proof -
    have free: "\<not> (live x \<and> o_chain x = o_chain r \<and> o_amount x = o_amount r)" if "x \<in> set (usdt_orders c)" for x
      using \<open>\<not> amount_taken _ _ _\<close> that by (auto simp: amount_taken_def list_ex_iff)
    have "amounts_distinct (usdt_orders c @ [r])"
      unfolding amounts_distinct_def
    proof (intro ballI impI)
      fix x y assume x: "x \<in> set (usdt_orders c @ [r])" and y: "y \<in> set (usdt_orders c @ [r])"
        and l: "live x \<and> live y \<and> o_chain x = o_chain y \<and> o_amount x = o_amount y"
      consider "x = r" "y = r" | "x \<in> set (usdt_orders c)" "y \<in> set (usdt_orders c)"
        | "x = r" "y \<in> set (usdt_orders c)" | "x \<in> set (usdt_orders c)" "y = r" using x y by auto
      then show "o_id x = o_id y"
      proof cases
        case 2
        with l show ?thesis by (intro orders_okD [OF ok]) simp_all
      qed (use l free in auto)
    qed
    with that ok show ?thesis by (auto simp: orders_ok_def)
  qed
  have "orders_ok (snd (create_order cfg digests uid plan chain now c))"
  proof -
    have "orders_ok (snd (reuse_or_insert cfg digests uid pl ch ad base now c))" for pl ch ad base
    proof (cases rule: reuse_or_insert_cases [of cfg digests uid pl ch ad base now c])
      case (created r final suffix)
      then show ?thesis using created_amount [OF created(5) dp] new [of r] by simp
    qed (use ok in simp)
    then show ?thesis using create_order_snd [of cfg digests uid plan chain now c] ok by metis
  qed
  moreover have "orders_ok (fold (\<lambda>r. refresh_one_order cfg (watcher (o_chain r)) r now) rs c)" for rs
    using ok by (induction rs arbitrary: c) (simp_all add: orders_ok_refresh_one)
  ultimately show ?thesis
    using ok by (simp add: refresh_all_active_orders_def get_order_def Let_def orders_ok_refresh_one split: option.split)
qed

section \<open>Confirming an order\<close>

lemma order_row_mark:
  "order_row c oid = Some r \<Longrightarrow> live r
   \<Longrightarrow> order_row (confirm_mark oid now c) oid = Some (r\<lparr>o_status := OConfirmed, o_confirmed_at := Some now\<rparr>)"
  unfolding order_row_def confirm_mark_def upd_orders_def by (auto simp: find_key_upd_where dest: find_SomeD)

lemma order_row_activate [simp]: "order_row (activate cfg oid uid pl now c) j = order_row c j"
  by (simp add: order_row_def activate_def)

lemma bank_confirm_mark [simp]: "bank (confirm_mark oid now c) = bank c"
  by (simp add: confirm_mark_def upd_orders_def)

text \<open>Confirming an order grants the plan's days once when the calls come one after the other: the
  second changes nothing.  But reading the status and marking the order are separate, and the mark
  does not check that it changed a row: a second caller (the watcher's thread and a user's refresh)
  that read the order before the first one marked it activates again, and the membership is
  extended twice for one payment.\<close>

theorem confirm_once_unless_raced:
  assumes r: "order_row c oid = Some r" "live r" and u: "user_row (bank c) uid = Some u" "\<not> u_lifetime u"
    and p: "plans_of cfg pl = Some p" "0 < pl_days p" and pl: "pl = ''monthly'' \<or> pl = ''yearly''"
      "py_lower (py_strip pl) = pl"
  shows "let c1 = confirm_and_activate cfg oid uid pl now c;
             c2 = activate cfg oid uid pl now (confirm_mark oid now c1) in
      confirm_read oid c \<and> confirm_and_activate cfg oid uid pl later c1 = c1
      \<and> (\<exists>e u1 u2. user_row (bank c1) uid = Some u1 \<and> u_vip_expires u1 = Some e
           \<and> user_row (bank c2) uid = Some u2 \<and> u_vip_expires u2 = Some (e + pl_days p * day))"
proof -
  have read: "confirm_read oid c" using r by (auto simp: confirm_read_def live_def)
  define c1 where "c1 = confirm_and_activate cfg oid uid pl now c"
  have c1: "c1 = activate cfg oid uid pl now (confirm_mark oid now c)"
    using read by (simp add: c1_def confirm_and_activate_def)
  have again: "confirm_and_activate cfg oid uid pl later c1 = c1"
    by (simp add: confirm_and_activate_def confirm_read_def c1 order_row_mark [OF r])
  have row: "user_row (bank (activate cfg oid uid pl now d)) uid = Some (bought p pl now v)"
    if "user_row (bank d) uid = Some v" for d v
    using purchase_row [where j = uid and ps = "plans_of cfg", OF that p(1) pl] by (simp add: activate_def)
  define e where "e = (case u_vip_expires u of Some e \<Rightarrow> if now < e then e else now | None \<Rightarrow> now) + pl_days p * day"
  have ex: "u_vip_expires (bought p pl now v) = vip_expiry p pl v now" if "\<not> u_lifetime v" for v
    using that by (simp add: bought_def Let_def)
  have ve: "vip_expiry p pl v now
      = Some ((case u_vip_expires v of Some e \<Rightarrow> if now < e then e else now | None \<Rightarrow> now) + pl_days p * day)"
    if "\<not> u_lifetime v" for v
    using that p(2) pl(1) by (simp add: vip_expiry_def Let_def)
  let ?u1 = "bought p pl now u"
  have u1: "\<not> u_lifetime ?u1" "u_vip_expires ?u1 = Some e"
    using u(2) ex ve by (simp_all add: bought_def Let_def e_def)
  have "0 < pl_days p * day" using p(2) by (simp add: day_def)
  then have "now < e" by (simp add: e_def split: option.split)
  then have "u_vip_expires (bought p pl now ?u1) = Some (e + pl_days p * day)"
    using ex [OF u1(1)] ve [OF u1(1)] u1(2) by simp
  moreover have "user_row (bank c1) uid = Some ?u1" using row u by (simp add: c1)
  moreover from this have "user_row (bank (activate cfg oid uid pl now (confirm_mark oid now c1))) uid
      = Some (bought p pl now ?u1)" using row by simp
  ultimately show ?thesis
    using read again u1(2) unfolding c1_def [symmetric] Let_def by blast
qed

definition demo_order :: usdt_order where
  "demo_order = \<lparr>o_id = 1, o_user = 1, o_plan = ''monthly'', o_chain = ''TRC20'', o_amount = 20 + 1234 / 10 ^ 6,
     o_suffix = 1234 / 10 ^ 6, o_address = ''T'', o_status = OPaid, o_tx = ''h'', o_paid_at = Some 0,
     o_confirmed_at = None, o_expires = None, o_created = 0\<rparr>"

definition demo_pay :: pay_cfg where
  "demo_pay = \<lparr>pay_enabled = True, confirm_seconds = 30, expire_minutes = 30, chains_raw = ''TRC20'',
     address_of = (\<lambda>_. ''T''), decimals = 6, plans_of = demo_plans\<rparr>"

lemma orders_stay_distinct_witness:
  "orders_ok (snd (create_order demo_pay [1233, 7] 1 ''monthly'' ''TRC20'' 5
     \<lparr>usdt_orders = [demo_order], next_usdt = 2, bank = demo_bank\<rparr>))"
proof -
  have "orders_ok \<lparr>usdt_orders = [demo_order], next_usdt = 2, bank = demo_bank\<rparr>"
    by (simp add: orders_ok_def amounts_distinct_def demo_order_def)
  moreover have "decimals demo_pay \<le> 8" by (simp add: demo_pay_def)
  ultimately show ?thesis using orders_stay_distinct by blast
qed

text \<open>A monthly order, confirmed by two racing callers, is worth sixty days.\<close>

lemma confirm_once_unless_raced_witness:
  "\<exists>c e u1 u2. user_row (bank (confirm_and_activate demo_pay 1 1 ''monthly'' 0 c)) 1 = Some u1 \<and> u_vip_expires u1 = Some e
     \<and> user_row (bank (activate demo_pay 1 1 ''monthly'' 0
           (confirm_mark 1 0 (confirm_and_activate demo_pay 1 1 ''monthly'' 0 c)))) 1 = Some u2
     \<and> u_vip_expires u2 = Some (e + 30 * day)"
proof -
  let ?c = "\<lparr>usdt_orders = [demo_order], next_usdt = 2, bank = demo_bank\<rparr>"
  let ?p = "\<lparr>pl_price = 20, pl_credits_once = 500, pl_credits_monthly = 0, pl_days = 30\<rparr>"
  have "order_row ?c 1 = Some demo_order" "live demo_order"
    by (simp_all add: order_row_def demo_order_def live_def)
  moreover have "user_row (bank ?c) 1 = Some demo_user" "\<not> u_lifetime demo_user"
    by (simp_all add: user_row_def demo_bank_def demo_user_def)
  moreover have "plans_of demo_pay ''monthly'' = Some ?p" "0 < pl_days ?p"
    by (simp_all add: demo_pay_def demo_plans_def load_membership_plans_def)
  moreover have "py_lower (py_strip ''monthly'') = ''monthly''" by code_simp
  ultimately show ?thesis
    using confirm_once_unless_raced [of ?c 1 demo_order 1 demo_user demo_pay "''monthly''" ?p 0 0]
    unfolding Let_def by (intro exI [of _ ?c]) simp
qed

section \<open>One transfer, two orders\<close>

text \<open>Which orders a TRC20 transfer can be told from: the watcher accepts a value within one
  micro-unit of the amount (its documentation says the amount must match exactly), so one transfer
  can be taken as the payment of two orders exactly when their amounts differ by at most two
  micro-units.  Nothing later checks that a transaction hash is used once.\<close>

theorem transfer_pays_two_orders:
  assumes "py_strip address = address"
  shows "(\<exists>it. matches_transfer address (of_int a / 10 ^ 6) created it
             \<and> matches_transfer address (of_int b / 10 ^ 6) created' it) \<longleftrightarrow> \<bar>a - b\<bar> \<le> 2"
proof
  assume "\<bar>a - b\<bar> \<le> 2"
  define t where "t = max (case created of None \<Rightarrow> 0 | Some t \<Rightarrow> t div 1000) (case created' of None \<Rightarrow> 0 | Some t \<Rightarrow> t div 1000)"
  let ?it = "\<lparr>tf_hash = [], tf_time_ms = t, tf_to = address, tf_value = (a + b) div 2\<rparr>"
  have "a - 1 \<le> (a + b) div 2" "(a + b) div 2 \<le> a + 1" "b - 1 \<le> (a + b) div 2" "(a + b) div 2 \<le> b + 1"
    using \<open>\<bar>a - b\<bar> \<le> 2\<close> by linarith+
  then have "matches_transfer address (of_int a / 10 ^ 6) created ?it
      \<and> matches_transfer address (of_int b / 10 ^ 6) created' ?it"
    using assms by (auto simp: matches_transfer_def t_def split: option.split)
  then show "\<exists>it. matches_transfer address (of_int a / 10 ^ 6) created it
             \<and> matches_transfer address (of_int b / 10 ^ 6) created' it" by blast
qed (auto simp: matches_transfer_def Let_def)

lemma transfer_pays_two_orders_witness:
  "\<exists>it. matches_transfer ''T'' (of_int 20001234 / 10 ^ 6) None it
      \<and> matches_transfer ''T'' (of_int 20001235 / 10 ^ 6) None it"
proof -
  have "py_strip ''T'' = ''T''" by code_simp
  from transfer_pays_two_orders [OF this, of 20001234 None 20001235 None] show ?thesis by simp
qed

end
