(* ===== verification/Symbols.thy ===== *)
theory Symbols
  imports Prelude
begin

text \<open>
  Symbols of instruments: \<open>normalize_strategy_symbol\<close> and \<open>_position_symbol_candidates\<close> of
  \<open>services/live_trading/records.py\<close>, market types and the instrument ids of
  \<open>services/live_trading/leg_context.py\<close>.  The canonical form (\<open>BTC/USDT\<close>) is the key of the
  position ledger, so two spellings of one instrument must normalise to one symbol.
\<close>

section \<open>Normalisation\<close>

definition quotes :: "string list" where
  "quotes = [''USDT'', ''USDC'', ''USD'', ''BUSD'', ''EUR'']"

definition split_quote :: "string \<Rightarrow> string" where
  "split_quote s =
     (case find (\<lambda>q. py_endswith s q \<and> length q < length s) quotes of
        None \<Rightarrow> s
      | Some q \<Rightarrow> take (length s - length q) s @ ''/'' @ q)"

definition normalize_strategy_symbol :: "string \<Rightarrow> string" where
  "normalize_strategy_symbol symbol =
     (let s = remove_char (CHR ''-'') (py_upper (py_strip symbol)) in
      if s = [] then [] else if CHR ''/'' \<in> set s then s else split_quote s)"

definition add_new :: "string list \<Rightarrow> string \<Rightarrow> string list" where
  "add_new out x = (if x \<noteq> [] \<and> x \<notin> set out then out @ [x] else out)"

definition position_symbol_candidates :: "string \<Rightarrow> string list" where
  "position_symbol_candidates symbol =
     (let raw = py_strip symbol in
      if raw = [] then []
      else
        let norm = normalize_strategy_symbol raw;
            compact = remove_char (CHR ''/'') norm;
            raw_compact = remove_char (CHR ''-'') (remove_char (CHR ''/'') (py_upper raw)) in
        foldl add_new [] [raw, py_upper raw, norm, compact, raw_compact])"

text \<open>\<open>normalize_strategy_symbol(s) or str(s).strip()\<close>\<close>

definition canonical :: "string \<Rightarrow> string" where
  "canonical s = str_or (normalize_strategy_symbol s) (py_strip s)"

section \<open>Market types and instrument ids\<close>

definition swap_alias :: "string \<Rightarrow> string" where
  "swap_alias mt = (if mt \<in> {''futures'', ''future'', ''perp'', ''perpetual''} then ''swap'' else mt)"

definition normalized_market_type :: "string \<Rightarrow> string" where
  "normalized_market_type mt = str_or (swap_alias (py_lower (py_strip (str_or mt ''swap'')))) ''swap''"

definition credential_id_from_exchange_config :: "int option \<Rightarrow> int option \<Rightarrow> int" where
  "credential_id_from_exchange_config credential_id credentials_id =
     (case find (\<lambda>v. 0 < v) (map (\<lambda>v. case v of None \<Rightarrow> 0 | Some i \<Rightarrow> i) [credential_id, credentials_id]) of
        None \<Rightarrow> 0 | Some v \<Rightarrow> v)"

definition inst_id_for_symbol :: "string \<Rightarrow> string \<Rightarrow> string \<Rightarrow> string" where
  "inst_id_for_symbol symbol market_type exchange_id =
     (let canon = canonical symbol in
      if canon = [] \<or> CHR ''/'' \<notin> set canon then []
      else
        let base = takeWhile (\<lambda>c. c \<noteq> CHR ''/'') canon;
            quote = tl (dropWhile (\<lambda>c. c \<noteq> CHR ''/'') canon);
            mt = py_lower (py_strip (str_or market_type ''swap''));
            ex = py_lower (py_strip exchange_id) in
        if mt = ''spot'' then
          (if ex = ''okx'' \<or> ex = ''okex'' then base @ ''-'' @ quote else remove_char (CHR ''/'') canon)
        else if ex = ''okx'' \<or> ex = ''okex'' then base @ ''-'' @ quote @ ''-SWAP''
        else if ex \<in> {''binance'', ''binanceusdm'', ''binancefutures''} then base @ quote
        else base @ ''-'' @ quote @ ''-SWAP'')"

section \<open>Facts\<close>

text \<open>Plain symbols: upper case, without blanks, dashes and slashes.\<close>

definition plain :: "string \<Rightarrow> bool" where
  "plain s = (\<forall>c \<in> set s. upper_char c = c \<and> \<not> is_space c \<and> c \<noteq> CHR ''-'' \<and> c \<noteq> CHR ''/'')"

lemma plain_append [simp]: "plain (s @ t) \<longleftrightarrow> plain s \<and> plain t"
  by (auto simp: plain_def)

lemma dropWhile_id: "(\<And>c. c \<in> set s \<Longrightarrow> \<not> P c) \<Longrightarrow> dropWhile P s = s"
  by (cases s) auto

lemma py_strip_id: "(\<And>c. c \<in> set s \<Longrightarrow> \<not> is_space c) \<Longrightarrow> py_strip s = s"
  using dropWhile_id [of s is_space] dropWhile_id [of "rev s" is_space] by (simp add: py_strip_def)

lemma remove_char_id: "c \<notin> set s \<Longrightarrow> remove_char c s = s"
  by (auto simp: remove_char_def filter_id_conv)

lemma remove_char_append [simp]: "remove_char c (s @ t) = remove_char c s @ remove_char c t"
  by (simp add: remove_char_def)

lemma set_remove_char [simp]: "set (remove_char c s) = set s - {c}"
  by (auto simp: remove_char_def)

lemma py_upper_id: "(\<And>c. c \<in> set s \<Longrightarrow> upper_char c = c) \<Longrightarrow> py_upper s = s"
  by (simp add: py_upper_def map_idI)

lemma py_upper_append [simp]: "py_upper (s @ t) = py_upper s @ py_upper t"
  by (simp add: py_upper_def)

lemma py_endswith_append: "py_endswith (s @ t) t"
  by (simp add: py_endswith_def)

lemma py_endswith_same_length:
  "length q = length t \<Longrightarrow> py_endswith (s @ t) q \<longleftrightarrow> q = t"
  by (auto simp: py_endswith_def)

lemma py_endswithD: "py_endswith s q \<Longrightarrow> take (length s - length q) s @ q = s"
  unfolding py_endswith_def by (metis append_take_drop_id)

text \<open>A string \<open>strip\<close> and \<open>upper\<close> leave alone.\<close>

definition clean :: "string \<Rightarrow> bool" where
  "clean s = (\<forall>c \<in> set s. upper_char c = c \<and> \<not> is_space c)"

lemma clean_strip: "clean s \<Longrightarrow> py_strip s = s"
  by (rule py_strip_id) (simp add: clean_def)

lemma clean_upper: "clean s \<Longrightarrow> py_upper s = s"
  by (rule py_upper_id) (simp add: clean_def)

lemma clean_append [simp]: "clean (s @ t) \<longleftrightarrow> clean s \<and> clean t"
  by (auto simp: clean_def)

lemma clean_chars: "clean ''/''" "clean ''-''"
  by code_simp+

lemma plain_clean: "plain s \<Longrightarrow> clean s"
  and plain_dash: "plain s \<Longrightarrow> CHR ''-'' \<notin> set s"
  and plain_slash: "plain s \<Longrightarrow> CHR ''/'' \<notin> set s"
  by (auto simp: plain_def clean_def)

lemma normalize_clean: "clean s \<Longrightarrow> normalize_strategy_symbol s
    = (let s = remove_char (CHR ''-'') s in
       if s = [] then [] else if CHR ''/'' \<in> set s then s else split_quote s)"
  by (simp add: normalize_strategy_symbol_def clean_strip clean_upper)

lemma normalize_plain: "plain s \<Longrightarrow> s \<noteq> [] \<Longrightarrow> normalize_strategy_symbol s = split_quote s"
  by (simp add: normalize_clean plain_clean remove_char_id plain_dash plain_slash)

lemma normalize_slash:
  assumes "plain b" and "plain q"
  shows "normalize_strategy_symbol (b @ ''/'' @ q) = b @ ''/'' @ q"
proof -
  have "remove_char (CHR ''-'') (b @ ''/'' @ q) = b @ ''/'' @ q"
    using plain_dash [OF assms(1)] plain_dash [OF assms(2)] by (intro remove_char_id) simp
  moreover have "clean (b @ ''/'' @ q)"
    using assms clean_chars plain_clean by (simp only: clean_append)
  ultimately show ?thesis by (simp add: normalize_clean Let_def)
qed

text \<open>The dashed form loses its dash.\<close>

lemma normalize_dash:
  assumes "plain b" and "plain q"
  shows "normalize_strategy_symbol (b @ ''-'' @ q) = normalize_strategy_symbol (b @ q)"
proof -
  have "clean (b @ ''-'' @ q)" "clean (b @ q)"
    using assms clean_chars plain_clean by (simp_all only: clean_append)
  moreover have "remove_char (CHR ''-'') (b @ ''-'' @ q) = remove_char (CHR ''-'') (b @ q)"
    by (simp add: remove_char_def)
  ultimately show ?thesis by (simp only: normalize_clean)
qed

lemma ends_in: "py_endswith (b @ t) q \<longleftrightarrow> (if length q \<le> length t then drop (length t - length q) t = q
    else length q \<le> length b + length t \<and> drop (length b + length t - length q) b @ t = q)"
  by (auto simp: py_endswith_def)

lemma split_quote_known:
  assumes "b \<noteq> []" and "q \<in> {''USDT'', ''USDC'', ''USD'', ''EUR''}"
  shows "split_quote (b @ q) = b @ ''/'' @ q"
proof -
  have last: "\<not> py_endswith (b @ q) q'" if "q' \<noteq> []" "q \<noteq> []" "last q \<noteq> last q'" for q' q b
  proof
    assume "py_endswith (b @ q) q'"
    then have "last (b @ q) = last q'" using that(1) py_endswithD [of "b @ q" q'] by (metis last_append)
    then show False using that by simp
  qed
  from assms(2) consider "q = ''USDT''" | "q = ''USDC''" | "q = ''USD''" | "q = ''EUR''" by auto
  then show ?thesis
    using assms(1)
    by cases (simp_all add: split_quote_def quotes_def py_endswith_append last)
qed

lemma split_quote_busd: "split_quote (b @ ''BUSD'') = b @ ''B/USD''"
proof -
  have "py_endswith (b @ ''BUSD'') ''USD''" "\<not> py_endswith (b @ ''BUSD'') ''USDT''"
    "\<not> py_endswith (b @ ''BUSD'') ''USDC''"
    by (simp_all add: ends_in)
  then show ?thesis by (simp add: split_quote_def quotes_def)
qed

text \<open>All spellings of an instrument meet in one ledger key: for a base and one of the quotes
  USDT, USDC, USD and EUR the compact, the dashed and the slashed form normalise to \<open>base/quote\<close>,
  and the canonical form is a fixed point.\<close>

theorem normalize_aliases:
  assumes "plain b" and "b \<noteq> []" and "q \<in> {''USDT'', ''USDC'', ''USD'', ''EUR''}"
  shows "normalize_strategy_symbol (b @ q) = b @ ''/'' @ q
    \<and> normalize_strategy_symbol (b @ ''-'' @ q) = b @ ''/'' @ q
    \<and> normalize_strategy_symbol (b @ ''/'' @ q) = b @ ''/'' @ q"
proof -
  have "\<forall>q \<in> {''USDT'', ''USDC'', ''USD'', ''EUR''}. plain q" by code_simp
  then have q: "plain q" using assms(3) by blast
  have c: "normalize_strategy_symbol (b @ q) = b @ ''/'' @ q"
    using assms(1,2) q normalize_plain [of "b @ q"] split_quote_known [OF assms(2,3)] by simp
  with normalize_dash [OF assms(1) q] normalize_slash [OF assms(1) q] show ?thesis by simp
qed

lemma normalize_aliases_witness:
  "normalize_strategy_symbol (''BTC'' @ ''USDT'') = normalize_strategy_symbol (''BTC'' @ ''-'' @ ''USDT'')"
  using normalize_aliases [of "''BTC''" "''USDT''"] by (simp add: plain_def) code_simp

text \<open>BUSD pairs do not meet: the quote USD is tried before BUSD, so \<open><base>BUSD\<close> becomes
  \<open><base>B/USD\<close> while \<open><base>/BUSD\<close> stays as it is.  The compact spelling of a BUSD pair and the
  slashed one are two different ledger keys, and the compact spelling is the key of another
  instrument, \<open><base>B/USD\<close>.\<close>

theorem normalize_busd:
  assumes "plain b"
  shows "normalize_strategy_symbol (b @ ''BUSD'') = b @ ''B/USD''
    \<and> normalize_strategy_symbol (b @ ''/BUSD'') = b @ ''/BUSD''
    \<and> normalize_strategy_symbol ((b @ ''B'') @ ''/USD'') = normalize_strategy_symbol (b @ ''BUSD'')"
proof -
  have p: "plain ''BUSD''" "plain ''B''" "plain ''USD''" by code_simp+
  have "normalize_strategy_symbol (b @ ''BUSD'') = b @ ''B/USD''"
    using assms p normalize_plain [of "b @ ''BUSD''"] split_quote_busd [of b] by simp
  moreover have "normalize_strategy_symbol ((b @ ''B'') @ ''/'' @ ''USD'') = (b @ ''B'') @ ''/'' @ ''USD''"
    using assms p by (intro normalize_slash) simp_all
  ultimately show ?thesis using normalize_slash [OF assms p(1)] by simp
qed

lemma normalize_busd_witness: "normalize_strategy_symbol (''BTC'' @ ''BUSD'') = ''BTCB/USD''"
  using normalize_busd [of "''BTC''"] by (simp add: plain_def) code_simp

end
