(* ===== verification/Positions.thy ===== *)
theory Positions
  imports Py_Float Symbols
begin

text \<open>
  The local position ledger, \<open>services/live_trading/records.py\<close> over the tables
  \<open>qd_strategy_positions\<close> and \<open>qd_strategy_trades\<close>: lookup by symbol aliases, the upsert with its
  purge of legacy aliases, marker patches, and \<open>apply_fill_to_local_position\<close>, which turns an
  exchange fill into the new size, average entry, realised profit.

  Sizes and prices are \<open>DECIMAL(20,8)\<close>; the code computes in binary64.  A value read is
  \<open>fl\<close> of the column, a value written is \<open>column 8\<close> of the float (\<open>Py_Float\<close>).
\<close>

section \<open>Tables\<close>

record position =
  ps_id :: int
  ps_user :: int
  ps_strategy :: int
  ps_symbol :: string
  ps_canonical :: string
  ps_side :: string
  ps_size :: rat
  ps_entry :: rat
  ps_current :: rat
  ps_high :: rat
  ps_low :: rat
  ps_market :: string
  ps_credential :: int
  ps_inst :: string

record leg_context =
  lc_market :: string
  lc_credential :: int
  lc_inst :: string
  lc_source :: string
  lc_pending :: int

record trade =
  tr_id :: int
  tr_user :: int
  tr_strategy :: int
  tr_symbol :: string
  tr_type :: string
  tr_price :: rat
  tr_amount :: rat
  tr_value :: rat
  tr_commission :: rat
  tr_profit :: "rat option"
  tr_reason :: string
  tr_matched_entry :: rat
  tr_market :: string
  tr_credential :: int
  tr_inst :: string
  tr_source :: string
  tr_pending :: int
  tr_event :: int
  tr_fill :: string

record ledger =
  positions :: "position list"
  next_position :: int
  trades :: "trade list"
  next_trade :: int
  strategy_users :: "(int \<times> int) list"

section \<open>Lookups\<close>

definition at_key :: "int \<Rightarrow> string \<Rightarrow> string \<Rightarrow> position \<Rightarrow> bool" where
  "at_key sid symbol side r = (ps_strategy r = sid \<and> ps_symbol r = symbol \<and> ps_side r = side)"

definition fetch_position :: "int \<Rightarrow> string \<Rightarrow> string \<Rightarrow> ledger \<Rightarrow> position option" where
  "fetch_position sid symbol side l = find (at_key sid symbol side) (positions l)"

fun first_open :: "int \<Rightarrow> string \<Rightarrow> string list \<Rightarrow> ledger \<Rightarrow> position option" where
  "first_open sid side [] l = None"
| "first_open sid side (s # syms) l =
     (case fetch_position sid s side l of
        Some r \<Rightarrow> if 0 < fl (ps_size r) then Some r else first_open sid side syms l
      | None \<Rightarrow> first_open sid side syms l)"

definition norm_side :: "string \<Rightarrow> string" where
  "norm_side s = py_lower (py_strip s)"

definition fetch_position_fuzzy :: "int \<Rightarrow> string \<Rightarrow> string \<Rightarrow> ledger \<Rightarrow> position option" where
  "fetch_position_fuzzy sid symbol side l =
     first_open sid (norm_side side) (position_symbol_candidates symbol) l"

definition fetch_position_size_for_side :: "int \<Rightarrow> string \<Rightarrow> string \<Rightarrow> ledger \<Rightarrow> rat" where
  "fetch_position_size_for_side sid symbol side l =
     (case fetch_position_fuzzy sid symbol side l of None \<Rightarrow> 0 | Some r \<Rightarrow> max 0 (fl (ps_size r)))"

definition fetch_allocated_position_size ::
  "int \<Rightarrow> int \<Rightarrow> string \<Rightarrow> string \<Rightarrow> string \<Rightarrow> ledger \<Rightarrow> rat" where
  "fetch_allocated_position_size sid cred market_type symbol side l =
     (let sd = norm_side side;
          mt = swap_alias (py_lower (py_strip (str_or market_type ''swap'')));
          mine = (\<lambda>r. if 0 < cred \<and> 0 < sid then ps_credential r = cred \<or> ps_strategy r = sid
                      else if 0 < cred then ps_credential r = cred else ps_strategy r = sid) in
      if sd \<noteq> ''long'' \<and> sd \<noteq> ''short'' then 0
      else if cred \<le> 0 \<and> sid \<le> 0 then 0
      else
        foldl (\<lambda>total r.
            if normalize_strategy_symbol (str_or (ps_canonical r) (ps_symbol r)) \<noteq> normalize_strategy_symbol symbol
            then total else fadd total (max 0 (fl (ps_size r))))
          0 (filter (\<lambda>r. ps_side r = sd \<and> ps_market r = mt \<and> 0 < ps_size r \<and> mine r) (positions l)))"

definition strategy_has_trades_for_symbol :: "int \<Rightarrow> string \<Rightarrow> ledger \<Rightarrow> bool" where
  "strategy_has_trades_for_symbol sid symbol l =
     (0 < sid \<and> list_ex (\<lambda>t. tr_strategy t = sid \<and> tr_symbol t \<in> set (position_symbol_candidates symbol)) (trades l))"

text \<open>\<open>strategy_allowed_symbols\<close> over the two configured symbols and the manifest's instruments.\<close>

definition strategy_allowed_symbols :: "string \<Rightarrow> string \<Rightarrow> string list \<Rightarrow> string set" where
  "strategy_allowed_symbols symbol config_symbol instruments =
     (let named = filter (\<lambda>t. \<not> py_startswith (py_lower t) ''basket:'' \<and> \<not> py_startswith (py_lower t) ''universe:'')
                    (map py_strip [symbol, config_symbol]) in
      set (filter (\<lambda>n. n \<noteq> [])
        (map (\<lambda>t. py_upper (normalize_strategy_symbol t)) (named @ map py_strip instruments))))"

text \<open>
  Exchange snapshots are dictionaries from symbol to the quantities (or entry prices) of the two
  legs.  Both lookups index them by normalised symbol; of several aliases the larger quantity,
  the last positive price counts.
\<close>

type_synonym sides = "rat \<times> rat"

definition leg_value :: "string \<Rightarrow> sides \<Rightarrow> rat" where
  "leg_value side v = (if side = ''long'' then fst v else snd v)"

definition index_symbols :: "(sides \<Rightarrow> sides \<Rightarrow> sides) \<Rightarrow> (string \<times> sides) list \<Rightarrow> string \<Rightarrow> sides option" where
  "index_symbols merge snapshot =
     foldl (\<lambda>index (k, v).
        let norm = py_upper (normalize_strategy_symbol (py_strip k)) in
        if norm = [] then index
        else index(norm \<mapsto> merge (case index norm of None \<Rightarrow> (0, 0) | Some b \<Rightarrow> b) v))
      Map.empty snapshot"

definition lookup_index :: "(string \<Rightarrow> sides option) \<Rightarrow> string \<Rightarrow> string \<Rightarrow> rat" where
  "lookup_index index symbol side =
     (if norm_side side \<noteq> ''long'' \<and> norm_side side \<noteq> ''short'' then 0
      else case find (\<lambda>k. index k \<noteq> None)
             (map (\<lambda>s. py_upper (normalize_strategy_symbol s)) (position_symbol_candidates symbol)) of
        None \<Rightarrow> 0
      | Some k \<Rightarrow> (case index k of None \<Rightarrow> 0 | Some v \<Rightarrow> leg_value (norm_side side) v))"

definition lookup_exchange_side_qty :: "(string \<times> sides) list \<Rightarrow> string \<Rightarrow> string \<Rightarrow> rat" where
  "lookup_exchange_side_qty snapshot symbol side =
     lookup_index (index_symbols (\<lambda>b v. (max (fst b) (fst v), max (snd b) (snd v))) snapshot) symbol side"

definition lookup_exchange_entry_price :: "(string \<times> sides) list \<Rightarrow> string \<Rightarrow> string \<Rightarrow> rat" where
  "lookup_exchange_entry_price snapshot symbol side =
     lookup_index (index_symbols (\<lambda>b v. (if 0 < fst v then fst v else fst b, if 0 < snd v then snd v else snd b)) snapshot)
       symbol side"

section \<open>Writes\<close>

definition user_of :: "ledger \<Rightarrow> int option \<Rightarrow> int \<Rightarrow> int" where
  "user_of l user sid =
     (case user of Some u \<Rightarrow> u
      | None \<Rightarrow> (case map_of (strategy_users l) sid of None \<Rightarrow> 1 | Some u \<Rightarrow> if u = 0 then 1 else u))"

definition leg_alias :: "int \<Rightarrow> string \<Rightarrow> string \<Rightarrow> position \<Rightarrow> bool" where
  "leg_alias sid side canon r =
     (let s = py_strip (ps_symbol r) in
      ps_strategy r = sid \<and> ps_side r = side \<and> s \<noteq> [] \<and> s \<noteq> canon
      \<and> normalize_strategy_symbol s = canon)"

definition purge_position_symbol_duplicates :: "int \<Rightarrow> string \<Rightarrow> string \<Rightarrow> ledger \<Rightarrow> ledger" where
  "purge_position_symbol_duplicates sid side symbol l =
     (if canonical symbol = [] then l
      else l\<lparr>positions := delete_where (leg_alias sid (norm_side side) (canonical symbol)) (positions l)\<rparr>)"

definition delete_position :: "int \<Rightarrow> string \<Rightarrow> string \<Rightarrow> ledger \<Rightarrow> ledger" where
  "delete_position sid symbol side l =
     l\<lparr>positions := delete_where (\<lambda>r. ps_strategy r = sid \<and> ps_side r = norm_side side
          \<and> ps_symbol r \<in> set (position_symbol_candidates symbol)) (positions l)\<rparr>"

definition leg_market :: "leg_context option \<Rightarrow> string" where
  "leg_market leg = (case leg of None \<Rightarrow> ''swap'' | Some c \<Rightarrow> normalized_market_type (lc_market c))"

definition leg_credential :: "leg_context option \<Rightarrow> int" where
  "leg_credential leg = (case leg of None \<Rightarrow> 0 | Some c \<Rightarrow> lc_credential c)"

definition leg_inst :: "leg_context option \<Rightarrow> string" where
  "leg_inst leg = (case leg of None \<Rightarrow> [] | Some c \<Rightarrow> lc_inst c)"

text \<open>\<open>upsert_position\<close> as its callers use it: the market type, credential and instrument come from
  the leg context.\<close>

definition upsert_position ::
  "int \<Rightarrow> string \<Rightarrow> string \<Rightarrow> rat \<Rightarrow> rat \<Rightarrow> rat \<Rightarrow> rat \<Rightarrow> rat \<Rightarrow> int option \<Rightarrow> leg_context option
   \<Rightarrow> ledger \<Rightarrow> ledger" where
  "upsert_position sid symbol side sz entry current high low user leg l =
     (let k = canonical symbol;
          new = \<lparr>ps_id = next_position l, ps_user = user_of l user sid, ps_strategy = sid,
                 ps_symbol = k, ps_canonical = k, ps_side = side, ps_size = column 8 sz,
                 ps_entry = column 8 entry, ps_current = column 8 current,
                 ps_high = column 8 high, ps_low = column 8 low,
                 ps_market = leg_market leg, ps_credential = leg_credential leg, ps_inst = leg_inst leg\<rparr>;
          merge = (\<lambda>r. r\<lparr>ps_canonical := k, ps_size := ps_size new, ps_entry := ps_entry new,
                 ps_current := ps_current new,
                 ps_high := (if 0 < ps_high new then ps_high new else ps_high r),
                 ps_low := (if 0 < ps_low new then ps_low new else ps_low r),
                 ps_market := ps_market new,
                 ps_credential := (if 0 < ps_credential new then ps_credential new else ps_credential r),
                 ps_inst := (if ps_inst new \<noteq> [] then ps_inst new else ps_inst r)\<rparr>) in
      purge_position_symbol_duplicates sid side k
        (case fetch_position sid k side l of
           None \<Rightarrow> l\<lparr>positions := positions l @ [new], next_position := next_position l + 1\<rparr>
         | Some _ \<Rightarrow> l\<lparr>positions := upd_where (at_key sid k side) merge (positions l),
                       next_position := next_position l + 1\<rparr>))"

definition patch_position_markers ::
  "int \<Rightarrow> string \<Rightarrow> string \<Rightarrow> rat \<Rightarrow> rat \<Rightarrow> rat \<Rightarrow> ledger \<Rightarrow> bool \<times> ledger" where
  "patch_position_markers sid symbol side px high low l =
     (let sd = norm_side side; k = canonical symbol;
          hit = (\<lambda>r. at_key sid k sd r \<and> 0 < ps_size r) in
      if sd \<noteq> ''long'' \<and> sd \<noteq> ''short'' then (False, l)
      else if px \<le> 0 then (False, l)
      else if fetch_position_fuzzy sid symbol sd l = None then (False, l)
      else (0 < count_where hit (positions l),
            l\<lparr>positions := upd_where hit
               (\<lambda>r. r\<lparr>ps_current := column 8 px,
                       ps_high := (if 0 < high then column 8 high else ps_high r),
                       ps_low := (if 0 < low then column 8 low else ps_low r)\<rparr>) (positions l)\<rparr>))"

section \<open>Fills\<close>

text \<open>The state of the leg a fill meets: \<open>current.get(..) or 0.0\<close> of the row found.\<close>

definition float_of :: "(position \<Rightarrow> rat) \<Rightarrow> position option \<Rightarrow> rat" where
  "float_of f r = (case r of None \<Rightarrow> 0 | Some p \<Rightarrow> fl (f p))"

definition fill_side :: "string \<Rightarrow> string option" where
  "fill_side sig = (if py_contains ''long'' sig then Some ''long''
     else if py_contains ''short'' sig then Some ''short'' else None)"

definition is_open_signal :: "string \<Rightarrow> bool" where
  "is_open_signal sig = (py_startswith sig ''open_'' \<or> py_startswith sig ''add_'')"

definition is_close_signal :: "string \<Rightarrow> bool" where
  "is_close_signal sig = (py_startswith sig ''close_'' \<or> py_startswith sig ''reduce_'')"

definition average_entry :: "rat \<Rightarrow> rat \<Rightarrow> rat \<Rightarrow> rat \<Rightarrow> rat" where
  "average_entry sz entry qty px =
     (if 0 < sz \<and> 0 < entry then fdiv (fadd (fmul sz entry) (fmul qty px)) (fadd sz qty) else px)"

definition close_profit :: "string \<Rightarrow> rat \<Rightarrow> rat \<Rightarrow> rat \<Rightarrow> rat \<Rightarrow> rat option" where
  "close_profit side sz entry qty px =
     (if 0 < sz \<and> 0 < entry
      then Some (fmul (if side = ''long'' then fsub px entry else fsub entry px) (min sz qty))
      else None)"

type_synonym fill_result = "rat option \<times> position option \<times> rat option"

text \<open>\<open>apply_fill_to_local_position\<close>.  (Its branch \<open>new_size <= 0\<close> of an opening fill cannot be
  taken, as the quantity is positive and the stored size not negative; it would return a pair.)\<close>

definition apply_fill ::
  "int \<Rightarrow> string \<Rightarrow> string \<Rightarrow> rat \<Rightarrow> rat \<Rightarrow> int option \<Rightarrow> leg_context option \<Rightarrow> ledger \<Rightarrow> fill_result \<times> ledger" where
  "apply_fill sid symbol signal qty px user leg l =
     (let sig = py_lower (py_strip signal) in
      if qty \<le> 0 \<or> px \<le> 0 then ((None, None, None), l)
      else case fill_side sig of
        None \<Rightarrow> ((None, None, None), l)
      | Some side \<Rightarrow>
          let row = fetch_position_fuzzy sid symbol side l;
              sz = float_of ps_size row; entry = float_of ps_entry row;
              high = max (num_or (float_of ps_high row) px) px;
              low = min (num_or (float_of ps_low row) px) px;
              k = canonical symbol in
          if is_open_signal sig then
            if fadd sz qty \<le> 0 then ((None, None, None), l)
            else
              let l' = upsert_position sid k side (fadd sz qty) (average_entry sz entry qty px) px high low user leg l in
              ((None, fetch_position sid k side l', None), l')
          else if is_close_signal sig then
            let profit = close_profit side sz entry qty px;
                matched = (if 0 < sz \<and> 0 < entry then Some entry else None) in
            if fsub sz qty \<le> 0 then ((profit, None, matched), delete_position sid k side l)
            else
              let l' = upsert_position sid k side (fsub sz qty) (if 0 < entry then entry else px) px high low user leg l in
              ((profit, fetch_position sid k side l', matched), l')
          else ((None, None, None), l))"

section \<open>Trades\<close>

record new_trade =
  nt_strategy :: int
  nt_symbol :: string
  nt_type :: string
  nt_price :: rat
  nt_amount :: rat
  nt_commission :: rat
  nt_profit :: "rat option"
  nt_reason :: string
  nt_user :: "int option"
  nt_matched :: "rat option"
  nt_leg :: "leg_context option"
  nt_event :: int
  nt_fill :: string

text \<open>\<open>record_trade\<close>: an execution event that has already been recorded inserts nothing and returns 0.\<close>

definition record_trade :: "new_trade \<Rightarrow> ledger \<Rightarrow> int \<times> ledger" where
  "record_trade n l =
     (let dup = (0 < nt_event n \<and> list_ex (\<lambda>t. tr_event t = nt_event n) (trades l));
          row = \<lparr>tr_id = next_trade l, tr_user = user_of l (nt_user n) (nt_strategy n),
            tr_strategy = nt_strategy n, tr_symbol = canonical (nt_symbol n), tr_type = nt_type n,
            tr_price = column 8 (nt_price n), tr_amount = column 8 (nt_amount n),
            tr_value = column 8 (fmul (nt_amount n) (nt_price n)),
            tr_commission = column 8 (nt_commission n),
            tr_profit = map_option (column 8) (nt_profit n), tr_reason = py_strip (nt_reason n),
            tr_matched_entry = column 8 (case nt_matched n of None \<Rightarrow> 0 | Some m \<Rightarrow> m),
            tr_market = leg_market (nt_leg n), tr_credential = leg_credential (nt_leg n),
            tr_inst = leg_inst (nt_leg n),
            tr_source = (case nt_leg n of None \<Rightarrow> [] | Some c \<Rightarrow> lc_source c),
            tr_pending = (case nt_leg n of None \<Rightarrow> 0 | Some c \<Rightarrow> lc_pending c),
            tr_event = nt_event n, tr_fill = nt_fill n\<rparr> in
      if dup then (0, l\<lparr>next_trade := next_trade l + 1\<rparr>)
      else (next_trade l, l\<lparr>trades := trades l @ [row], next_trade := next_trade l + 1\<rparr>))"

definition replay_trade :: "int \<Rightarrow> trade \<Rightarrow> ledger \<Rightarrow> ledger" where
  "replay_trade sid t l =
     snd (apply_fill sid (str_or (normalize_strategy_symbol (tr_symbol t)) (tr_symbol t)) (tr_type t)
            (fl (tr_amount t)) (fl (tr_price t)) None
            (Some \<lparr>lc_market = normalized_market_type (tr_market t), lc_credential = tr_credential t,
                   lc_inst = tr_inst t, lc_source = str_or (tr_source t) ''replay'', lc_pending = 0\<rparr>) l)"

definition rebuild_positions_from_trades :: "int \<Rightarrow> ledger \<Rightarrow> bool \<times> ledger" where
  "rebuild_positions_from_trades sid l =
     (let mine = filter (\<lambda>t. tr_strategy t = sid) (trades l) in
      if sid \<le> 0 \<or> 0 < count_where (\<lambda>r. ps_strategy r = sid) (positions l) \<or> mine = [] then (False, l)
      else (True, fold (replay_trade sid) mine l))"

section \<open>The ledger invariant\<close>

definition leg_key :: "position \<Rightarrow> int \<times> string \<times> string" where
  "leg_key r = (ps_strategy r, ps_symbol r, ps_side r)"

text \<open>The unique key \<open>(strategy_id, symbol, side)\<close>, and sizes and entries that are not negative.\<close>

definition ledger_ok :: "ledger \<Rightarrow> bool" where
  "ledger_ok l = (distinct (map leg_key (positions l))
     \<and> (\<forall>r \<in> set (positions l). 0 \<le> ps_size r \<and> 0 \<le> ps_entry r))"

lemma at_key_leg: "at_key sid s side r \<longleftrightarrow> leg_key r = (sid, s, side)"
  by (auto simp: at_key_def leg_key_def)

lemma fetch_position_Some:
  "fetch_position sid s side l = Some r \<Longrightarrow> r \<in> set (positions l) \<and> at_key sid s side r"
  unfolding fetch_position_def by (rule find_SomeD)

lemma ledger_ok_purge: "ledger_ok l \<Longrightarrow> ledger_ok (purge_position_symbol_duplicates sid side s l)"
  by (simp add: purge_position_symbol_duplicates_def ledger_ok_def distinct_key_delete_where)

lemma ledger_ok_delete: "ledger_ok l \<Longrightarrow> ledger_ok (delete_position sid s side l)"
  by (simp add: delete_position_def ledger_ok_def distinct_key_delete_where)

lemma ledger_ok_upsert:
  assumes ok: "ledger_ok l" and "0 \<le> sz" and "0 \<le> entry"
  shows "ledger_ok (upsert_position sid s side sz entry cur high low user leg l)"
proof (cases "fetch_position sid (canonical s) side l")
  case None
  then have "(sid, canonical s, side) \<notin> leg_key ` set (positions l)"
    by (auto simp: fetch_position_def find_None_iff at_key_leg)
  then show ?thesis
    using assms None unfolding upsert_position_def Let_def
    by (intro ledger_ok_purge) (simp add: ledger_ok_def leg_key_def column.nonneg)
next
  case (Some r)
  then show ?thesis
    using assms unfolding upsert_position_def Let_def
    by (intro ledger_ok_purge)
       (auto simp: ledger_ok_def set_upd_where column.nonneg map_upd_where_same leg_key_def)
qed

lemma average_entry_nonneg: "0 \<le> qty \<Longrightarrow> 0 \<le> px \<Longrightarrow> 0 \<le> average_entry sz entry qty px"
  by (simp add: average_entry_def fdiv_nonneg fadd_nonneg fmul_nonneg)

text \<open>C7. A fill keeps the ledger well formed: one row per strategy, symbol and side, no negative size
  and no negative entry price, whatever the signal, quantity and price are; so does replaying all
  trades of a strategy.\<close>

theorem fills_keep_ledger:
  assumes "ledger_ok l"
  shows "ledger_ok (snd (apply_fill sid symbol signal qty px user leg l))
    \<and> ledger_ok (snd (rebuild_positions_from_trades sid l))"
proof -
  have fill: "ledger_ok (snd (apply_fill sid symbol signal qty px user leg l))"
    if "ledger_ok l" for sid symbol signal qty px user leg l
    using that
    by (auto simp: apply_fill_def Let_def average_entry_nonneg intro!: ledger_ok_upsert ledger_ok_delete
        split: option.split)
  have "ledger_ok (fold (replay_trade sid) ts l)" for ts
    using assms by (induction ts arbitrary: l) (simp_all add: replay_trade_def fill)
  with fill [OF assms] assms show ?thesis by (simp add: rebuild_positions_from_trades_def Let_def)
qed

definition empty_ledger :: ledger where
  "empty_ledger = \<lparr>positions = [], next_position = 1, trades = [], next_trade = 1, strategy_users = []\<rparr>"

lemma fills_keep_ledger_witness:
  "ledger_ok (snd (apply_fill 1 ''BTCUSDT'' ''open_long'' 2 10 None None empty_ledger))"
  using fills_keep_ledger [of empty_ledger] by (simp add: ledger_ok_def empty_ledger_def)

section \<open>What a fill does to its leg\<close>

text \<open>A symbol whose canonical form is stable, and a ledger that holds a leg only under it.\<close>

definition good_symbol :: "string \<Rightarrow> bool" where
  "good_symbol s = (let k = canonical s in k \<noteq> [] \<and> canonical k = k \<and> py_strip k = k
     \<and> k \<in> set (position_symbol_candidates s) \<and> k \<in> set (position_symbol_candidates k))"

definition only_canonical :: "int \<Rightarrow> string \<Rightarrow> string \<Rightarrow> ledger \<Rightarrow> bool" where
  "only_canonical sid symbol side l = (\<forall>r \<in> set (positions l).
     ps_strategy r = sid \<and> ps_side r = side \<and> ps_symbol r \<in> set (position_symbol_candidates symbol)
     \<longrightarrow> ps_symbol r = canonical symbol)"

lemma first_open_None:
  "(\<And>s. s \<in> set syms \<Longrightarrow> fetch_position sid s side l = None) \<Longrightarrow> first_open sid side syms l = None"
  by (induction syms) auto

lemma first_open_only:
  assumes "\<And>s r. s \<in> set syms \<Longrightarrow> fetch_position sid s side l = Some r \<Longrightarrow> s = k"
    and "k \<in> set syms" and "fetch_position sid k side l = Some r" and "0 < fl (ps_size r)"
  shows "first_open sid side syms l = Some r"
  using assms
proof (induction syms)
  case (Cons s syms)
  show ?case
  proof (cases "s = k")
    case False
    then have "fetch_position sid s side l = None" using Cons.prems(1) [of s] by (cases "fetch_position sid s side l") auto
    then show ?thesis using Cons False by simp
  qed (use Cons.prems in simp)
qed simp

lemma fuzzy_canonical:
  assumes good: "good_symbol symbol" and only: "only_canonical sid symbol side l" and sd: "norm_side side = side"
    and r: "fetch_position sid (canonical symbol) side l = Some r" "0 < fl (ps_size r)"
  shows "fetch_position_fuzzy sid symbol side l = Some r"
  unfolding fetch_position_fuzzy_def sd
proof (rule first_open_only [OF _ _ r])
  show "canonical symbol \<in> set (position_symbol_candidates symbol)"
    using good by (simp add: good_symbol_def Let_def)
  show "\<And>s r. s \<in> set (position_symbol_candidates symbol) \<Longrightarrow> fetch_position sid s side l = Some r \<Longrightarrow> s = canonical symbol"
    using only by (auto simp: only_canonical_def at_key_def dest!: fetch_position_Some)
qed

lemma fetch_upsert:
  assumes "good_symbol symbol"
  shows "\<exists>r. fetch_position sid (canonical symbol) side
            (upsert_position sid (canonical symbol) side sz entry cur high low user leg l) = Some r
      \<and> ps_size r = column 8 sz \<and> ps_entry r = column 8 entry \<and> ps_current r = column 8 cur"
proof -
  let ?k = "canonical symbol"
  have k: "canonical ?k = ?k" "py_strip ?k = ?k" using assms by (simp_all add: good_symbol_def Let_def)
  have keep: "find (at_key sid ?k side) (delete_where (leg_alias sid (norm_side side) ?k) t)
      = find (at_key sid ?k side) t" for t
    by (induction t) (auto simp: leg_alias_def at_key_def Let_def k)
  have fetch: "fetch_position sid ?k side (purge_position_symbol_duplicates sid side ?k l')
      = fetch_position sid ?k side l'" for l'
    by (simp add: purge_position_symbol_duplicates_def fetch_position_def keep k)
  show ?thesis
  proof (cases "fetch_position sid ?k side l")
    case None
    then have "find (at_key sid ?k side) (positions l) = None" by (simp add: fetch_position_def)
    then show ?thesis
      by (simp add: upsert_position_def fetch k None Let_def) (simp add: fetch_position_def find_append at_key_def)
  next
    case (Some r)
    have "find (at_key sid ?k side) (upd_where (at_key sid ?k side) f t)
        = map_option f (find (at_key sid ?k side) t)"
      if "\<And>x. at_key sid ?k side (f x) = at_key sid ?k side x" for f t
      using that by (induction t) auto
    with Some show ?thesis
      by (simp add: upsert_position_def fetch k Let_def) (simp add: fetch_position_def at_key_def)
  qed
qed

lemma fetch_deleted:
  assumes "s \<in> set (position_symbol_candidates symbol)" and "norm_side side = side"
  shows "fetch_position sid s side (delete_position sid symbol side l) = None"
  using assms by (auto simp: fetch_position_def delete_position_def find_None_iff at_key_def)

lemma close_fill_effect:
  assumes good: "good_symbol symbol" and only: "only_canonical sid symbol side l"
    and side: "fill_side (py_lower (py_strip signal)) = Some side" "norm_side side = side"
    and close: "is_close_signal (py_lower (py_strip signal))" "\<not> is_open_signal (py_lower (py_strip signal))"
    and pos: "0 < qty" "0 < px"
    and r: "fetch_position sid (canonical symbol) side l = Some r" "0 < fl (ps_size r)" "0 < fl (ps_entry r)"
  shows "\<exists>profit row l'. apply_fill sid symbol signal qty px user leg l
          = ((Some profit, row, Some (fl (ps_entry r))), l')
      \<and> profit = fmul (if side = ''long'' then fsub px (fl (ps_entry r)) else fsub (fl (ps_entry r)) px)
                      (min (fl (ps_size r)) qty)
      \<and> (side = ''long'' \<and> fl (ps_entry r) \<le> px \<longrightarrow> 0 \<le> profit)
      \<and> (side = ''long'' \<and> px \<le> fl (ps_entry r) \<longrightarrow> profit \<le> 0)
      \<and> row = fetch_position sid (canonical symbol) side l'
      \<and> (fl (ps_size r) \<le> qty \<longrightarrow> row = None)
      \<and> (0 < fsub (fl (ps_size r)) qty \<longrightarrow>
           (\<exists>r'. row = Some r' \<and> ps_size r' = column 8 (fsub (fl (ps_size r)) qty)
               \<and> ps_entry r' = column 8 (fl (ps_entry r)) \<and> ps_size r' \<le> column 8 (fl (ps_size r))))"
proof -
  let ?s = "fl (ps_size r)" and ?e = "fl (ps_entry r)" and ?k = "canonical symbol"
  define p where "p = fmul (if side = ''long'' then fsub px ?e else fsub ?e px) (min ?s qty)"
  have fz: "fetch_position_fuzzy sid symbol side l = Some r"
    by (rule fuzzy_canonical [OF good only side(2) r(1,2)])
  have k: "?k \<in> set (position_symbol_candidates ?k)" using good by (simp add: good_symbol_def Let_def)
  have m: "0 \<le> min ?s qty" using r(2) pos(1) by simp
  have sign: "side = ''long'' \<and> ?e \<le> px \<longrightarrow> 0 \<le> p" "side = ''long'' \<and> px \<le> ?e \<longrightarrow> p \<le> 0"
    using m fsub_nonneg [of ?e px] fsub_nonpos [of px ?e]
    by (auto simp: p_def fmul_def intro!: fl_nonneg fl.nonpos mult_nonneg_nonneg mult_nonpos_nonneg)
  have gone: "?s \<le> qty \<longrightarrow> fsub ?s qty \<le> 0" using fsub_nonpos by blast
  show ?thesis
  proof (cases "fsub ?s qty \<le> 0")
    case True
    then have "apply_fill sid symbol signal qty px user leg l
        = ((Some p, None, Some ?e), delete_position sid ?k side l)"
      using side close pos r fz by (simp add: apply_fill_def Let_def float_of_def close_profit_def p_def)
    then show ?thesis
      using sign fetch_deleted [OF k side(2)] True unfolding p_def [symmetric]
      by (intro exI [of _ p] exI [of _ None] exI [of _ "delete_position sid ?k side l"]) simp
  next
    case False
    define high where "high = max (num_or (fl (ps_high r)) px) px"
    define low where "low = min (num_or (fl (ps_low r)) px) px"
    have a: "apply_fill sid symbol signal qty px user leg l
        = (let l' = upsert_position sid ?k side (fsub ?s qty) ?e px high low user leg l in
           ((Some p, fetch_position sid ?k side l', Some ?e), l'))"
      using side close pos r fz False
      by (simp add: apply_fill_def Let_def float_of_def close_profit_def p_def high_def low_def)
    obtain r' where r': "fetch_position sid ?k side (upsert_position sid ?k side (fsub ?s qty) ?e px high low user leg l) = Some r'"
        "ps_size r' = column 8 (fsub ?s qty)" "ps_entry r' = column 8 ?e"
      using fetch_upsert [OF good] by blast
    have "column 8 (fsub ?s qty) \<le> column 8 ?s"
      using pos(1) by (intro column.mono fsub_le) simp_all
    then show ?thesis
      using sign a r' gone False unfolding p_def [symmetric]
      by (intro exI [of _ p] exI [of _ "Some r'"]
            exI [of _ "upsert_position sid ?k side (fsub ?s qty) ?e px high low user leg l"]) (simp add: Let_def)
  qed
qed

text \<open>C1. A closing fill on an open leg realises \<open>(px - entry) * min(size, qty)\<close> (mirrored for a
  short) against the leg's entry, whose sign follows the price: no loss at or above the entry of a
  long, no gain at or below it.  A fill of at least the size removes the leg; a smaller one leaves
  the entry and the difference as size, never more than before.\<close>

theorem close_fill:
  assumes good: "good_symbol symbol" and only: "only_canonical sid symbol side l"
    and side: "fill_side (py_lower (py_strip signal)) = Some side" "norm_side side = side"
    and close: "is_close_signal (py_lower (py_strip signal))" "\<not> is_open_signal (py_lower (py_strip signal))"
    and pos: "0 < qty" "0 < px"
    and r: "fetch_position sid (canonical symbol) side l = Some r" "0 < fl (ps_size r)" "0 < fl (ps_entry r)"
  shows "\<exists>profit row l'. apply_fill sid symbol signal qty px user leg l
          = ((Some profit, row, Some (fl (ps_entry r))), l')
      \<and> profit = fmul (if side = ''long'' then fsub px (fl (ps_entry r)) else fsub (fl (ps_entry r)) px)
                      (min (fl (ps_size r)) qty)
      \<and> (side = ''long'' \<and> fl (ps_entry r) \<le> px \<longrightarrow> 0 \<le> profit)
      \<and> (side = ''long'' \<and> px \<le> fl (ps_entry r) \<longrightarrow> profit \<le> 0)
      \<and> row = fetch_position sid (canonical symbol) side l'
      \<and> (fl (ps_size r) \<le> qty \<longrightarrow> row = None)
      \<and> (0 < fsub (fl (ps_size r)) qty \<longrightarrow>
           (\<exists>r'. row = Some r' \<and> ps_size r' = column 8 (fsub (fl (ps_size r)) qty)
               \<and> ps_entry r' = column 8 (fl (ps_entry r)) \<and> ps_size r' \<le> column 8 (fl (ps_size r))))"
  by (rule close_fill_effect [OF assms])

definition long_leg :: ledger where
  "long_leg = empty_ledger\<lparr>positions := [\<lparr>ps_id = 1, ps_user = 1, ps_strategy = 1, ps_symbol = ''BTC/USDT'',
     ps_canonical = ''BTC/USDT'', ps_side = ''long'', ps_size = 2, ps_entry = 10, ps_current = 10,
     ps_high = 10, ps_low = 10, ps_market = ''swap'', ps_credential = 0, ps_inst = []\<rparr>]\<rparr>"

lemma close_fill_witness:
  "\<exists>row l'. apply_fill 1 ''BTCUSDT'' ''close_long'' 3 12 None None long_leg
     = ((Some (fmul (fsub 12 10) 2), row, Some 10), l') \<and> row = None"
proof -
  let ?r = "hd (positions long_leg)"
  have r: "fetch_position 1 (canonical ''BTCUSDT'') ''long'' long_leg = Some ?r" by code_simp
  have f: "fl (ps_size ?r) = 2" "fl (ps_entry ?r) = 10"
    by (simp_all add: long_leg_def fl_numeral)
  have c: "good_symbol ''BTCUSDT''" "only_canonical 1 ''BTCUSDT'' ''long'' long_leg"
    "fill_side (py_lower (py_strip ''close_long'')) = Some ''long''" "norm_side ''long'' = ''long''"
    "is_close_signal (py_lower (py_strip ''close_long''))" "\<not> is_open_signal (py_lower (py_strip ''close_long''))"
    by code_simp+
  from close_fill [OF c _ _ r, of 3 12 None None] show ?thesis by (auto simp add: f)
qed

section \<open>Opening, and back to flat\<close>

lemma only_canonical_upsert:
  assumes good: "good_symbol symbol" and only: "only_canonical sid symbol side l"
  shows "only_canonical sid symbol side
    (upsert_position sid (canonical symbol) side sz entry cur high low user leg l)"
proof -
  have k: "canonical (canonical symbol) = canonical symbol" using good by (simp add: good_symbol_def Let_def)
  have purge: "only_canonical sid symbol side (purge_position_symbol_duplicates sid side s l')"
    if "only_canonical sid symbol side l'" for s l'
    using that by (auto simp: only_canonical_def purge_position_symbol_duplicates_def)
  have upd: "only_canonical sid symbol side
      (l\<lparr>positions := upd_where (at_key sid (canonical symbol) side) f (positions l), next_position := n\<rparr>)"
    if "\<And>r. ps_symbol (f r) = ps_symbol r" for f n
    using only that by (auto simp: only_canonical_def set_upd_where at_key_def)
  have new: "only_canonical sid symbol side (l\<lparr>positions := positions l @ [x], next_position := n\<rparr>)"
    if "ps_symbol x = canonical symbol" for x n
    using only that by (auto simp: only_canonical_def)
  show ?thesis
    unfolding upsert_position_def Let_def k
    by (intro purge) (auto intro!: upd new split: option.split)
qed

lemma fuzzy_flat:
  assumes "only_canonical sid symbol side l" and "norm_side side = side"
    and "fetch_position sid (canonical symbol) side l = None"
  shows "fetch_position_fuzzy sid symbol side l = None"
  unfolding fetch_position_fuzzy_def assms(2)
proof (rule first_open_None)
  fix s assume s: "s \<in> set (position_symbol_candidates symbol)"
  show "fetch_position sid s side l = None"
  proof (cases "fetch_position sid s side l")
    case (Some r)
    then have "ps_symbol r = canonical symbol" "ps_symbol r = s"
      using s assms(1) by (auto simp: only_canonical_def at_key_def dest!: fetch_position_Some)
    with Some assms(3) show ?thesis by simp
  qed
qed

text \<open>Opening a flat leg and closing it with the same quantity leaves it flat again, although the
  quantity goes through a decimal column in between, provided the quantity is one the column holds
  exactly (\<open>reload 8 qty = qty\<close>): the opening fill stores quantity and price, the closing fill
  removes the row and realises the price difference on the whole quantity.\<close>

theorem open_close_flat:
  assumes good: "good_symbol symbol" and only: "only_canonical sid symbol side l"
    and flat: "fetch_position sid (canonical symbol) side l = None"
    and side: "norm_side side = side"
    and opens: "fill_side (py_lower (py_strip s1)) = Some side" "is_open_signal (py_lower (py_strip s1))"
    and closes: "fill_side (py_lower (py_strip s2)) = Some side" "is_close_signal (py_lower (py_strip s2))"
      "\<not> is_open_signal (py_lower (py_strip s2))"
    and pos: "0 < qty" "0 < px" "0 < px'" "0 < reload 8 px" and lot: "reload 8 qty = qty"
  shows "let (out1, l1) = apply_fill sid symbol s1 qty px user leg l;
             (out2, l2) = apply_fill sid symbol s2 qty px' user leg l1 in
      out1 = (None, fetch_position sid (canonical symbol) side l1, None)
      \<and> map_option ps_size (fetch_position sid (canonical symbol) side l1) = Some (column 8 qty)
      \<and> map_option ps_entry (fetch_position sid (canonical symbol) side l1) = Some (column 8 px)
      \<and> out2 = (Some (fmul (if side = ''long'' then fsub px' (reload 8 px) else fsub (reload 8 px) px') qty),
                 None, Some (reload 8 px))
      \<and> fetch_position sid (canonical symbol) side l2 = None"
proof -
  let ?k = "canonical symbol"
  have float: "is_float qty" using lot is_float_reload [of 8 qty] by simp
  have fz: "fetch_position_fuzzy sid symbol side l = None" by (rule fuzzy_flat [OF only side flat])
  define l1 where "l1 = upsert_position sid ?k side qty px px (max (num_or 0 px) px) (min (num_or 0 px) px) user leg l"
  have a1: "apply_fill sid symbol s1 qty px user leg l = ((None, fetch_position sid ?k side l1, None), l1)"
    using opens pos fz float by (simp add: apply_fill_def Let_def float_of_def average_entry_def l1_def)
  obtain r where r: "fetch_position sid ?k side l1 = Some r" "ps_size r = column 8 qty" "ps_entry r = column 8 px"
    using fetch_upsert [OF good] unfolding l1_def by blast
  have f: "fl (ps_size r) = qty" "fl (ps_entry r) = reload 8 px"
    using lot by (simp_all add: r reload_def)
  have only1: "only_canonical sid symbol side l1" unfolding l1_def by (rule only_canonical_upsert [OF good only])
  have "0 < fl (ps_size r)" "0 < fl (ps_entry r)" using f pos by simp_all
  from close_fill_effect [OF good only1 closes(1) side closes(2,3) pos(1,3) r(1) this, of user leg]
  obtain profit row l2 where c: "apply_fill sid symbol s2 qty px' user leg l1 = ((Some profit, row, Some (fl (ps_entry r))), l2)"
      "profit = fmul (if side = ''long'' then fsub px' (fl (ps_entry r)) else fsub (fl (ps_entry r)) px') (min (fl (ps_size r)) qty)"
      "row = fetch_position sid ?k side l2" "fl (ps_size r) \<le> qty \<longrightarrow> row = None"
    by blast
  show ?thesis using a1 c r f by simp
qed

lemma open_close_flat_witness:
  "let (out1, l1) = apply_fill 1 ''eth-usdt'' ''open_short'' 3 8 None None long_leg;
       (out2, l2) = apply_fill 1 ''eth-usdt'' ''close_short'' 3 6 None None l1 in
     fst out2 = Some (fmul (fsub 8 6) 3) \<and> fetch_position 1 (canonical ''eth-usdt'') ''short'' l2 = None"
proof -
  have c: "good_symbol ''eth-usdt''" "only_canonical 1 ''eth-usdt'' ''short'' long_leg"
    "fetch_position 1 (canonical ''eth-usdt'') ''short'' long_leg = None" "norm_side ''short'' = ''short''"
    "fill_side (py_lower (py_strip ''open_short'')) = Some ''short''"
    "is_open_signal (py_lower (py_strip ''open_short''))"
    "fill_side (py_lower (py_strip ''close_short'')) = Some ''short''"
    "is_close_signal (py_lower (py_strip ''close_short''))" "\<not> is_open_signal (py_lower (py_strip ''close_short''))"
    by code_simp+
  have r: "reload 8 3 = 3" "reload 8 8 = 8" by code_simp+
  from open_close_flat [OF c, of 3 8 6 None None] show ?thesis
    by (auto simp add: r split: prod.splits)
qed

lemma trades_upsert [simp]: "trades (upsert_position sid s side sz en cu hi lo u leg l) = trades l"
  by (simp add: upsert_position_def purge_position_symbol_duplicates_def Let_def split: option.split)

lemma trades_apply_fill [simp]: "trades (snd (apply_fill sid s sig q px u leg l)) = trades l"
  by (simp add: apply_fill_def delete_position_def Let_def split: option.split)

end
