(* ===== verification/Order_Flow.thy ===== *)
theory Order_Flow
  imports Positions
begin

text \<open>
  From a strategy's intent to a queued order: the sizing and planning of
  \<open>services/trading_executor.py\<close> (\<open>_execute_strategy_v2_intent\<close>, \<open>_execute_signal\<close>), the direction
  modes of \<open>services/strategy_direction.py\<close>, the budget guard of \<open>pending_orders/order_budget.py\<close>,
  the signal model of \<open>strategy_runtime/signals.py\<close>, the intent table of
  \<open>strategy_runtime/order_intents.py\<close> and the queue of \<open>strategy_v2/live_execution.py\<close>, with the
  columns of \<open>pending_orders\<close> that the worker uses (\<open>Dispatch\<close>).
  Amounts and prices are Python floats.  The drift check of a leg and the strategy row are read
  through the record \<open>desk\<close>.
\<close>

section \<open>Directions\<close>

definition direction_aliases :: "(string \<times> string) list" where
  "direction_aliases =
     [(''long'', ''long_only''), (''buy'', ''long_only''), (''1'', ''long_only''), (''1.0'', ''long_only''),
      (''+1'', ''long_only''), (''longonly'', ''long_only''), (''short'', ''short_only''), (''sell'', ''short_only''),
      (''_1'', ''short_only''), (''_1.0'', ''short_only''), (''-1'', ''short_only''), (''shortonly'', ''short_only''),
      (''dual'', ''both''), (''hedged'', ''both''), (''bidirectional'', ''both''), (''two_way'', ''both'')]"

definition normalize_direction_mode :: "string \<Rightarrow> string" where
  "normalize_direction_mode value =
     (let normalized = replace_char (CHR ''-'') (CHR ''_'') (py_lower (py_strip value));
          result = (case map_of direction_aliases normalized of None \<Rightarrow> normalized | Some m \<Rightarrow> m) in
      if result \<in> {''long_only'', ''short_only'', ''both'', ''neutral''} then result else [])"

definition direction_mode_owned_legs :: "string \<Rightarrow> string set" where
  "direction_mode_owned_legs value =
     (let mode = normalize_direction_mode value in
      if mode = ''long_only'' then {''long''} else if mode = ''short_only'' then {''short''} else {''long'', ''short''})"

definition direction_mode_allows :: "string \<Rightarrow> string \<Rightarrow> bool" where
  "direction_mode_allows value position_side =
     (let mode = normalize_direction_mode value; side = py_lower (py_strip position_side) in
      if side \<noteq> ''long'' \<and> side \<noteq> ''short'' then True
      else if mode = ''both'' \<or> mode = ''neutral'' then True
      else mode = ''long_only'' \<and> side = ''long'' \<or> mode = ''short_only'' \<and> side = ''short'')"

text \<open>\<open>validate_strategy_signal_direction\<close>, with the resolved mode of the strategy.\<close>

definition signal_direction_ok :: "string \<Rightarrow> string \<Rightarrow> bool" where
  "signal_direction_ok mode signal_type =
     (let signal = py_lower (py_strip signal_type);
          side = (if py_contains ''short'' signal then ''short'' else if py_contains ''long'' signal then ''long'' else []) in
      is_close_signal signal \<or> mode = [] \<or> side = [] \<or> direction_mode_allows mode side)"

section \<open>Targets and plans\<close>

datatype intent_kind = Quantity | Amount_Value | Target_Quantity | Target_Value | Target_Percent | Unsupported_Kind string

record strategy_intent =
  it_symbol :: string
  it_kind :: intent_kind
  it_value :: rat
  it_reason :: string
  it_order_type :: string
  it_algo :: string
  it_limit :: rat
  it_side :: string
  it_client :: string

datatype order_error = Runtime_Error string | Value_Error string

definition target_amount :: "strategy_intent \<Rightarrow> rat \<Rightarrow> rat \<Rightarrow> rat \<Rightarrow> rat \<Rightarrow> string \<Rightarrow> order_error + rat" where
  "target_amount intent current capital price leverage market_type =
     (let multiplier = (if py_lower market_type \<noteq> ''spot'' then max 1 (num_or leverage 1) else 1);
          v = it_value intent in
      case it_kind intent of
        Quantity \<Rightarrow> Inr (fadd current v)
      | Amount_Value \<Rightarrow> Inr (fadd current (fdiv (fmul v multiplier) price))
      | Target_Quantity \<Rightarrow> Inr v
      | Target_Value \<Rightarrow> Inr (fdiv (fmul v multiplier) price)
      | Target_Percent \<Rightarrow> Inr (fdiv (fmul (fmul capital v) multiplier) price)
      | Unsupported_Kind k \<Rightarrow> Inl (Runtime_Error (''strategyV2.orderKindUnsupported:'' @ k)))"

definition direction_constrained_target :: "rat \<Rightarrow> string \<Rightarrow> rat" where
  "direction_constrained_target target direction_mode =
     (let mode = normalize_direction_mode direction_mode in
      if mode = ''long_only'' \<and> target < 0 then 0
      else if mode = ''short_only'' \<and> 0 < target then 0
      else target)"

definition epsilon :: rat where
  "epsilon = fl (1 / 10 ^ 12)"

text \<open>The value is given to the evaluator, which would otherwise round anew at every use.\<close>

lemma epsilon_code [code]: "epsilon = 4951760157141521 / 2 ^ 92"
  by code_simp

definition order_plan :: "rat \<Rightarrow> rat \<Rightarrow> (string \<times> rat) list" where
  "order_plan current target =
     (let delta = fsub target current in
      if \<bar>delta\<bar> \<le> epsilon then []
      else if epsilon < current \<and> target < - epsilon then [(''close_long'', current), (''open_short'', \<bar>target\<bar>)]
      else if current < - epsilon \<and> epsilon < target then [(''close_short'', \<bar>current\<bar>), (''open_long'', target)]
      else if epsilon < current then
        (if target \<le> epsilon then [(''close_long'', current)]
         else [(if 0 < delta then ''add_long'' else ''reduce_long'', \<bar>delta\<bar>)])
      else if current < - epsilon then
        (if - epsilon \<le> target then [(''close_short'', \<bar>current\<bar>)]
         else [(if delta < 0 then ''add_short'' else ''reduce_short'', \<bar>delta\<bar>)])
      else [(if 0 < target then ''open_long'' else ''open_short'', \<bar>target\<bar>)])"

definition signed_size :: "position \<Rightarrow> rat" where
  "signed_size p = fmul (if py_lower (ps_side p) = ''short'' then -1 else 1) (fl (ps_size p))"

text \<open>\<open>_get_current_positions\<close>: \<open>split_part(symbol, ':', 1)\<close> is compared.\<close>

definition split_part_1 :: "string \<Rightarrow> string" where
  "split_part_1 s = takeWhile (\<lambda>c. c \<noteq> CHR '':'') s"

definition current_positions :: "int \<Rightarrow> string \<Rightarrow> ledger \<Rightarrow> position list" where
  "current_positions sid symbol l =
     filter (\<lambda>p. ps_strategy p = sid \<and> split_part_1 (ps_symbol p) = split_part_1 symbol) (positions l)"

section \<open>The budget guard\<close>

definition entry_actions :: "string set" where
  "entry_actions = {''open_long'', ''add_long'', ''open_short'', ''add_short''}"

record budget =
  bg_allowed :: bool
  bg_order :: rat
  bg_projected :: rat
  bg_capacity :: rat
  bg_limit :: rat
  bg_reason :: string

definition budget_slack :: rat where
  "budget_slack = fl (1 / 10 ^ 8)"

definition max_buffer :: rat where
  "max_buffer = fl (1 / 10)"

definition default_buffer :: rat where
  "default_buffer = fl (2 / 100)"

lemma budget_slack_code [code]: "budget_slack = 3022314549036573 / 2 ^ 78"
  by code_simp

lemma max_buffer_code [code]: "max_buffer = 3602879701896397 / 2 ^ 55"
  by code_simp

lemma default_buffer_code [code]: "default_buffer = 5764607523034235 / 2 ^ 58"
  by code_simp

definition held_on_side :: "string \<Rightarrow> position list \<Rightarrow> rat" where
  "held_on_side side ps =
     foldl (\<lambda>q p. if py_lower (py_strip (str_or (ps_side p) ''long'')) = side then fadd q \<bar>fl (ps_size p)\<bar> else q) 0 ps"

definition strategy_order_budget_snapshot ::
  "string \<Rightarrow> rat \<Rightarrow> rat \<Rightarrow> rat \<Rightarrow> rat \<Rightarrow> string \<Rightarrow> position list \<Rightarrow> rat \<Rightarrow> budget" where
  "strategy_order_budget_snapshot action quantity price initial_capital leverage market_type ps buffer_ratio =
     (let act = py_lower (py_strip action);
          qty = max 0 quantity; mark = max 0 price; capital = max 0 initial_capital;
          market = py_lower (py_strip (str_or market_type ''spot''));
          lev = (if market \<noteq> ''spot'' then max 1 (num_or leverage 1) else 1);
          capacity = fmul capital lev;
          buffer = min max_buffer (max 0 buffer_ratio);
          limit = fmul capacity (fadd 1 buffer);
          side = (if py_endswith act ''_long'' then ''long'' else ''short'');
          order = fmul qty mark;
          projected = fmul (fadd (held_on_side side ps) qty) mark;
          verifiable = (0 < capacity \<and> 0 < mark);
          allowed = (act \<notin> entry_actions
             \<or> verifiable \<and> order \<le> fadd limit budget_slack \<and> projected \<le> fadd limit budget_slack) in
      \<lparr>bg_allowed = allowed, bg_order = order, bg_projected = projected, bg_capacity = capacity, bg_limit = limit,
       bg_reason = (if allowed then [] else if \<not> verifiable then ''budget_unverifiable'' else ''strategy_budget_exceeded'')\<rparr>)"

section \<open>Signals\<close>

definition canonical_signal_actions :: "string list" where
  "canonical_signal_actions =
     [''open_long'', ''close_long'', ''open_short'', ''close_short'', ''add_long'', ''add_short'', ''reduce_long'',
      ''reduce_short'']"

definition signal_side :: "string \<Rightarrow> string" where
  "signal_side action =
     (if action \<in> {''open_long'', ''add_long'', ''close_short'', ''reduce_short''} then ''buy'' else ''sell'')"

definition signal_position_side :: "string \<Rightarrow> string" where
  "signal_position_side action =
     (if py_contains ''long'' action then ''long'' else if py_contains ''short'' action then ''short'' else [])"

definition signal_reduce_only :: "string \<Rightarrow> bool" where
  "signal_reduce_only action = (py_startswith action ''close_'' \<or> py_startswith action ''reduce_'')"

definition signal_market_type :: "string \<Rightarrow> string" where
  "signal_market_type value =
     (let mt = py_lower (py_strip (str_or value ''swap'')) in
      if mt \<in> {''future'', ''futures'', ''perp'', ''perpetual''} then ''swap''
      else if mt = ''spot'' then ''spot'' else ''swap'')"

section \<open>The queue\<close>

record order_request =
  rq_strategy :: int
  rq_run :: int
  rq_user :: int
  rq_symbol :: string
  rq_action :: string
  rq_quantity :: rat
  rq_price :: rat
  rq_ts :: int
  rq_market :: string
  rq_mode :: string
  rq_leverage :: rat
  rq_reason :: string
  rq_order_type :: string
  rq_algo :: string
  rq_limit :: rat
  rq_client :: string

record intent_row =
  in_id :: int
  in_run :: int
  in_strategy :: int
  in_key :: string
  in_symbol :: string
  in_market :: string
  in_side :: string
  in_position_side :: string
  in_reduce_only :: bool
  in_order_type :: string
  in_quantity :: rat
  in_notional :: rat
  in_limit :: rat
  in_status :: string
  in_client :: string

text \<open>
  \<open>exchange_response_json\<close>, as far as the code reads it back: the phases of the execution with the
  summary of its market leg (exchange order, quantity, price), the state of the fill sync, an error.
\<close>

datatype response = No_Response | Phases "(string \<times> rat \<times> rat) option" | Fill_Sync rat rat | Sync_Error

record pending_row =
  pd_id :: int
  pd_user :: int
  pd_strategy :: int
  pd_run :: int
  pd_symbol :: string
  pd_action :: string
  pd_amount :: rat
  pd_price :: rat
  pd_status :: string
  pd_intent :: int
  pd_key :: string
  pd_payload :: order_request
  pd_priority :: int
  pd_attempts :: int
  pd_max :: int
  pd_updated :: int
  pd_sent :: "int option"
  pd_note :: string
  pd_exchange :: string
  pd_oid :: string
  pd_filled :: rat
  pd_avg :: rat
  pd_response :: response

text \<open>\<open>clock\<close> is the database's \<open>NOW()\<close>.\<close>

record queue =
  intents :: "intent_row list"
  next_intent :: int
  pending :: "pending_row list"
  next_pending :: int
  clock :: int

definition signal_notional :: "order_request \<Rightarrow> rat" where
  "signal_notional r =
     (let n = (if 0 < rq_quantity r \<and> 0 < rq_price r then fmul (rq_quantity r) (rq_price r) else 0) in
      if signal_market_type (rq_market r) \<noteq> ''spot'' \<and> 0 < n then fmul n (max 1 (rq_leverage r)) else n)"

definition build_signal_idempotency_key :: "int \<Rightarrow> int \<Rightarrow> string \<Rightarrow> string \<Rightarrow> int \<Rightarrow> string" where
  "build_signal_idempotency_key run sid symbol signal_type ts =
     take 180 (''run:'' @ int_str run @ '':strategy:'' @ int_str sid @ '':'' @ symbol @ '':'' @ signal_type @ '':'' @ int_str ts)"

definition client_id :: "order_request \<Rightarrow> string" where
  "client_id r = take 100 (py_strip (rq_client r))"

definition request_key :: "order_request \<Rightarrow> string" where
  "request_key r =
     take 180 (if client_id r \<noteq> []
       then ''run:'' @ int_str (rq_run r) @ '':strategy:'' @ int_str (rq_strategy r) @ '':client:'' @ client_id r
       else build_signal_idempotency_key (rq_run r) (rq_strategy r) (rq_symbol r) (rq_action r) (rq_ts r))"

definition validate_request :: "order_request \<Rightarrow> order_error option" where
  "validate_request r =
     (let close_all = ((rq_action r = ''close_long'' \<or> rq_action r = ''close_short'') \<and> rq_quantity r = 0) in
      if rq_strategy r \<le> 0 \<or> rq_user r \<le> 0 then Some (Value_Error ''strategyV2.invalidRuntimeIdentity'')
      else if rq_run r \<le> 0 then Some (Value_Error ''strategyV2.invalidRunIdentity'')
      else if rq_symbol r = [] then Some (Value_Error ''strategyV2.orderSymbolRequired'')
      else if rq_action r \<notin> set canonical_signal_actions then Some (Value_Error ''strategyV2.orderActionUnsupported'')
      else if rq_quantity r \<le> 0 \<and> \<not> close_all \<or> rq_price r \<le> 0 then Some (Value_Error ''strategyV2.invalidOrderSize'')
      else if rq_mode r \<notin> {''signal'', ''live''} then Some (Value_Error ''strategyV2.invalidExecutionMode'')
      else if rq_market r = ''spot'' \<and> py_contains ''short'' (rq_action r) then Some (Value_Error ''strategyV2.spotShortUnsupported'')
      else if rq_order_type r \<notin> {''market'', ''limit''} then Some (Value_Error ''strategyV2.orderTypeUnsupported'')
      else if rq_algo r \<notin> {''market'', ''limit'', ''maker_then_market''} then Some (Value_Error ''strategyV2.executionAlgoUnsupported'')
      else if rq_algo r = ''limit'' \<and> rq_limit r \<le> 0 then Some (Value_Error ''strategyV2.limitPriceRequired'')
      else None)"

text \<open>\<open>has_inflight\<close>: live work of the same run on the same leg of the symbol.\<close>

definition position_lane :: "string \<Rightarrow> string" where
  "position_lane action =
     (let signal = py_lower (py_strip action) in
      if py_endswith signal ''_long'' then ''long'' else if py_endswith signal ''_short'' then ''short'' else [])"

definition lane_actions :: "string \<Rightarrow> string set" where
  "lane_actions lane =
     (if lane = ''long'' then {''open_long'', ''add_long'', ''reduce_long'', ''close_long''}
      else {''open_short'', ''add_short'', ''reduce_short'', ''close_short''})"

definition active_pending_statuses :: "string set" where
  "active_pending_statuses = {''pending'', ''processing'', ''sent'', ''syncing''}"

definition in_lane :: "order_request \<Rightarrow> pending_row \<Rightarrow> bool" where
  "in_lane r p =
     (pd_strategy p = rq_strategy r \<and> pd_run p = rq_run r \<and> pd_symbol p = rq_symbol r
      \<and> pd_action p \<in> lane_actions (position_lane (rq_action r)) \<and> pd_status p \<in> active_pending_statuses)"

definition has_inflight :: "order_request \<Rightarrow> queue \<Rightarrow> bool" where
  "has_inflight r q = (position_lane (rq_action r) \<noteq> [] \<and> list_ex (in_lane r) (pending q))"

text \<open>\<open>get_by_key\<close> and \<open>create_intent\<close>: the row, and whether it existed.\<close>

definition get_by_key :: "int \<Rightarrow> string \<Rightarrow> queue \<Rightarrow> intent_row option" where
  "get_by_key run key q = find (\<lambda>i. in_run i = run \<and> in_key i = key) (intents q)"

definition new_intent_row :: "order_request \<Rightarrow> string \<Rightarrow> int \<Rightarrow> intent_row" where
  "new_intent_row r key n =
     \<lparr>in_id = n, in_run = rq_run r, in_strategy = rq_strategy r, in_key = key,
      in_symbol = py_strip (rq_symbol r), in_market = signal_market_type (rq_market r),
      in_side = signal_side (rq_action r), in_position_side = signal_position_side (rq_action r),
      in_reduce_only = signal_reduce_only (rq_action r),
      in_order_type = (if 0 < rq_price r then ''limit'' else ''market''),
      in_quantity = column 12 \<bar>rq_quantity r\<bar>, in_notional = column 12 \<bar>signal_notional r\<bar>,
      in_limit = column 12 (if 0 < rq_price r then rq_price r else 0),
      in_status = ''intent_created'', in_client = client_id r\<rparr>"

definition create_intent :: "order_request \<Rightarrow> string \<Rightarrow> queue \<Rightarrow> (order_error + intent_row \<times> bool) \<times> queue" where
  "create_intent r key0 q =
     (let key = take 180 (py_strip key0) in
      if key = [] then (Inl (Value_Error ''idempotency_key is required''), q)
      else case get_by_key (rq_run r) key q of
        Some i \<Rightarrow> (Inr (i, True), q)
      | None \<Rightarrow>
          let i = new_intent_row r key (next_intent q) in
          (Inr (i, False), q\<lparr>intents := intents q @ [i], next_intent := next_intent q + 1\<rparr>))"

definition pending_id :: "string \<Rightarrow> queue \<Rightarrow> int option" where
  "pending_id key q = map_option pd_id (find (\<lambda>p. pd_key p = key) (pending q))"

text \<open>\<open>INSERT .. ON CONFLICT (idempotency_key) DO NOTHING\<close>, which uses a number of the sequence either way.\<close>

definition new_pending_row :: "order_request \<Rightarrow> string \<Rightarrow> int \<Rightarrow> int \<Rightarrow> int \<Rightarrow> pending_row" where
  "new_pending_row r key intent n now =
     \<lparr>pd_id = n, pd_user = rq_user r, pd_strategy = rq_strategy r, pd_run = rq_run r,
      pd_symbol = rq_symbol r, pd_action = rq_action r, pd_amount = column 8 (rq_quantity r),
      pd_price = column 8 (num_or (rq_limit r) (rq_price r)), pd_status = ''pending'',
      pd_intent = intent, pd_key = key, pd_payload = r, pd_priority = 0, pd_attempts = 0, pd_max = 10,
      pd_updated = now, pd_sent = None, pd_note = [], pd_exchange = [], pd_oid = [], pd_filled = 0, pd_avg = 0,
      pd_response = No_Response\<rparr>"

definition insert_pending :: "order_request \<Rightarrow> string \<Rightarrow> int \<Rightarrow> queue \<Rightarrow> int option \<times> queue" where
  "insert_pending r key intent q =
     (let n = next_pending q in
      if pending_id key q \<noteq> None then (None, q\<lparr>next_pending := n + 1\<rparr>)
      else (Some n, q\<lparr>pending := pending q @ [new_pending_row r key intent n (clock q)], next_pending := n + 1\<rparr>))"

definition submit :: "order_request \<Rightarrow> queue \<Rightarrow> (order_error + int option) \<times> queue" where
  "submit r q =
     (case validate_request r of
        Some e \<Rightarrow> (Inl e, q)
      | None \<Rightarrow>
          let key = request_key r in
          case create_intent r key q of
            (Inl e, q1) \<Rightarrow> (Inl e, q1)
          | (Inr (i, existing), q1) \<Rightarrow>
              if existing \<and> in_status i \<notin> {''failed'', ''cancelled'', ''rejected''} \<and> pending_id key q1 \<noteq> None
              then (Inr (pending_id key q1), q1)
              else if in_id i \<le> 0 then (Inl (Runtime_Error ''strategyV2.orderIntentPersistenceFailed''), q1)
              else
                let (inserted, q2) = insert_pending r key (in_id i) q1 in
                (Inr (case inserted of Some n \<Rightarrow> Some n | None \<Rightarrow> pending_id key q2), q2))"

section \<open>Executing an intent\<close>

record desk =
  dk_user :: int
  dk_mode :: string
  dk_blocked :: "string \<Rightarrow> string \<Rightarrow> bool"
  dk_buffer :: rat

text \<open>\<open>_execute_signal\<close>; the result says whether an order is queued.\<close>

definition execute_signal ::
  "desk \<Rightarrow> order_request \<Rightarrow> rat \<Rightarrow> position list \<Rightarrow> queue \<Rightarrow> (order_error + bool) \<times> queue" where
  "execute_signal dk r capital ps q =
     (let live = (py_lower (py_strip (str_or (rq_mode r) ''signal'')) = ''live'');
          act = py_lower (py_strip (rq_action r)) in
      if live \<and> \<not> signal_direction_ok (dk_mode dk) (rq_action r) then (Inr False, q)
      else if live \<and> act \<in> entry_actions
           \<and> dk_blocked dk (rq_symbol r) (if py_endswith act ''_long'' then ''long'' else ''short'') then (Inr False, q)
      else if \<not> bg_allowed (strategy_order_budget_snapshot (rq_action r) (rq_quantity r) (rq_price r) capital
             (num_or (rq_leverage r) 1) (str_or (rq_market r) ''spot'') ps (num_or (dk_buffer dk) default_buffer))
        then (Inr False, q)
      else if rq_mode r = ''live'' \<and> has_inflight r q then (Inr False, q)
      else case submit r q of
        (Inl e, q1) \<Rightarrow> (Inl e, q1)
      | (Inr n, q1) \<Rightarrow> (Inr (case n of None \<Rightarrow> False | Some k \<Rightarrow> k \<noteq> 0), q1))"

record candidate =
  cd_key :: string
  cd_symbol :: string
  cd_market_type :: string

record run_context =
  rc_strategy :: int
  rc_run :: int
  rc_capital :: rat
  rc_leverage :: rat
  rc_mode :: string
  rc_direction :: string

definition request_of :: "desk \<Rightarrow> run_context \<Rightarrow> strategy_intent \<Rightarrow> candidate \<Rightarrow> rat \<Rightarrow> int \<Rightarrow> string \<times> rat \<Rightarrow> order_request" where
  "request_of dk rc intent m price ts step =
     \<lparr>rq_strategy = rc_strategy rc, rq_run = rc_run rc, rq_user = dk_user dk, rq_symbol = cd_symbol m,
      rq_action = fst step, rq_quantity = snd step, rq_price = price, rq_ts = ts,
      rq_market = py_lower (str_or (cd_market_type m) ''spot''), rq_mode = rc_mode rc,
      rq_leverage = num_or (rc_leverage rc) 1, rq_reason = str_or (it_reason intent) ''strategy'',
      rq_order_type = str_or (it_order_type intent) ''market'', rq_algo = str_or (it_algo intent) ''market'',
      rq_limit = it_limit intent, rq_client = it_client intent\<rparr>"

fun execute_steps ::
  "desk \<Rightarrow> (string \<times> rat \<Rightarrow> order_request) \<Rightarrow> rat \<Rightarrow> position list \<Rightarrow> (string \<times> rat) list \<Rightarrow> bool \<Rightarrow> queue
   \<Rightarrow> (order_error + bool) \<times> queue" where
  "execute_steps dk mk capital ps [] submitted q = (Inr submitted, q)"
| "execute_steps dk mk capital ps (step # steps) submitted q =
     (case execute_signal dk (mk step) capital ps q of
        (Inl e, q1) \<Rightarrow> (Inl e, q1)
      | (Inr b, q1) \<Rightarrow> execute_steps dk mk capital ps steps (b \<or> submitted) q1)"

definition min_live_order_notional :: rat where
  "min_live_order_notional = 1"

text \<open>\<open>frame_close\<close> is the last close of the symbol's frame, if it has one.\<close>

definition intent_price :: "rat \<Rightarrow> rat option \<Rightarrow> rat" where
  "intent_price override frame_close =
     (if override \<le> 0 then (case frame_close of None \<Rightarrow> override | Some c \<Rightarrow> c) else override)"

definition live_steps :: "string \<Rightarrow> (string \<times> rat) list \<Rightarrow> (string \<times> rat) list" where
  "live_steps mode steps =
     (if mode = ''live'' \<and> 1 < length steps \<and> fst (hd steps) \<in> {''close_long'', ''close_short''} then take 1 steps else steps)"

definition execute_intent ::
  "desk \<Rightarrow> run_context \<Rightarrow> strategy_intent \<Rightarrow> candidate list \<Rightarrow> rat \<Rightarrow> rat option \<Rightarrow> int \<Rightarrow> ledger \<Rightarrow> queue
   \<Rightarrow> (order_error + bool) \<times> queue" where
  "execute_intent dk rc intent members override frame_close ts l q =
     (case find (\<lambda>m. cd_key m = it_symbol intent) members of
        None \<Rightarrow> (Inl (Runtime_Error (''strategyV2.instrumentNotFound:'' @ it_symbol intent)), q)
      | Some m \<Rightarrow>
          let price = intent_price override frame_close in
          if price \<le> 0 then (Inl (Runtime_Error (''strategyV2.priceUnavailable:'' @ it_symbol intent)), q)
          else
            let own = current_positions (rc_strategy rc) (cd_symbol m) l;
                side = py_lower (py_strip (it_side intent));
                ps = (if side = ''long'' \<or> side = ''short''
                      then filter (\<lambda>p. py_lower (py_strip (ps_side p)) = side) own else own);
                current = py_sum (map signed_size ps);
                market = py_lower (str_or (cd_market_type m) ''spot'') in
            case target_amount intent current (rc_capital rc) price (rc_leverage rc) market of
              Inl e \<Rightarrow> (Inl e, q)
            | Inr t \<Rightarrow>
                let target = (if rc_mode rc = ''live'' then direction_constrained_target t (rc_direction rc) else t) in
                if market = ''spot'' \<and> target < - epsilon then (Inl (Runtime_Error ''strategyV2.spotShortUnsupported''), q)
                else if fmul \<bar>fsub target current\<bar> price < min_live_order_notional
                     \<and> \<not> (\<bar>target\<bar> \<le> epsilon \<and> epsilon < \<bar>current\<bar>) then (Inr False, q)
                else execute_steps dk (request_of dk rc intent m price ts) (rc_capital rc) ps
                       (live_steps (rc_mode rc) (order_plan current target)) False q)"

end
