(* ===== verification/Order_Safety.thy ===== *)
theory Order_Safety
  imports Order_Flow
begin

text \<open>
  What the order flow guarantees: the plan moves the position to its target without ever crossing
  zero in one step, a live intent queues at most one guarded order, submitting a request twice
  queues it once, and different orders have different idempotency keys.
\<close>

section \<open>Plans\<close>

lemma epsilon_pos: "0 < epsilon"
proof -
  have "(2::rat) powi (-40) \<le> 1 / 10 ^ 12" by (simp add: power_int_minus field_simps)
  then have "fl (2 powi (-40)) \<le> epsilon" unfolding epsilon_def by (rule fl_mono)
  moreover have "fl (2 powi (-40)) = 2 powi (-40)" using fl_representable [of 1 "-40"] by simp
  ultimately show ?thesis using zero_less_power_int [of "2::rat" "-40"] by linarith
qed

text \<open>The position a filled step leads to.\<close>

fun after_step :: "rat \<Rightarrow> string \<times> rat \<Rightarrow> rat" where
  "after_step x (act, q) =
     (if act \<in> {''open_long'', ''add_long'', ''close_short'', ''reduce_short''} then x + q else x - q)"

definition exits_within :: "rat \<Rightarrow> string \<times> rat \<Rightarrow> bool" where
  "exits_within x step =
     ((fst step \<in> {''close_long'', ''reduce_long''} \<longrightarrow> snd step \<le> x)
      \<and> (fst step \<in> {''close_short'', ''reduce_short''} \<longrightarrow> snd step \<le> - x))"

lemma each_step:
  "(\<forall>i < length [a, b]. exits_within (foldl after_step c (take i [a, b])) ([a, b] ! i))
   \<longleftrightarrow> exits_within c a \<and> exits_within (after_step c a) b"
  by (auto simp: less_Suc_eq)

lemma fsub_float_bounds:
  assumes "is_float current" and "is_float target"
  shows "0 \<le> target \<Longrightarrow> - current \<le> fsub target current" and "target \<le> 0 \<Longrightarrow> fsub target current \<le> - current"
proof -
  have f: "fl (- current) = - current" using assms(1) by (simp add: is_float_def fl_minus)
  show "0 \<le> target \<Longrightarrow> - current \<le> fsub target current"
    using fl_mono [of "- current" "target - current"] f by (simp add: fsub_def)
  show "target \<le> 0 \<Longrightarrow> fsub target current \<le> - current"
    using fl_mono [of "target - current" "- current"] f by (simp add: fsub_def)
qed

text \<open>C11. The plan for a target: when all its steps are filled the position is at the target, up to the
  tolerance or the rounding of one subtraction; every quantity is positive, and no closing or
  reducing step is larger than the position it meets, so the position never crosses zero inside
  a step.\<close>

theorem order_plan_reaches_target:
  assumes f: "is_float current" "is_float target"
  shows "let plan = order_plan current target; final = foldl after_step current plan in
      (\<bar>fsub target final\<bar> \<le> epsilon \<or> final - target = fsub target current - (target - current))
      \<and> (\<forall>step \<in> set plan. 0 < snd step)
      \<and> (\<forall>i < length plan. exits_within (foldl after_step current (take i plan)) (plan ! i))"
proof -
  note e = epsilon_pos
  define d where "d = fsub target current"
  have self: "fsub target target = 0" "fsub target 0 = target" using f(2) by simp_all
  consider (none) "\<bar>d\<bar> \<le> epsilon"
    | (flip_down) "\<not> \<bar>d\<bar> \<le> epsilon" "epsilon < current" "target < - epsilon"
    | (flip_up) "\<not> \<bar>d\<bar> \<le> epsilon" "current < - epsilon" "epsilon < target"
    | (close_long) "\<not> \<bar>d\<bar> \<le> epsilon" "epsilon < current" "\<not> epsilon < target" "\<not> target < - epsilon"
    | (long) "\<not> \<bar>d\<bar> \<le> epsilon" "epsilon < current" "epsilon < target"
    | (close_short) "\<not> \<bar>d\<bar> \<le> epsilon" "current < - epsilon" "\<not> epsilon < target" "\<not> target < - epsilon"
    | (short) "\<not> \<bar>d\<bar> \<le> epsilon" "current < - epsilon" "target < - epsilon"
    | (flat) "\<not> \<bar>d\<bar> \<le> epsilon" "\<not> epsilon < current" "\<not> current < - epsilon" by blast
  then show ?thesis
  proof cases
    case none
    then have "order_plan current target = []" by (simp add: order_plan_def d_def Let_def)
    then show ?thesis using none by (simp add: d_def)
  next
    case flip_down
    have plan: "order_plan current target = [(''close_long'', current), (''open_short'', \<bar>target\<bar>)]"
      using flip_down by (simp add: order_plan_def d_def Let_def)
    moreover have "after_step current (''close_long'', current) = 0" "after_step 0 (''open_short'', \<bar>target\<bar>) = target"
      using flip_down e by simp_all
    moreover have "exits_within current (''close_long'', current)" "exits_within 0 (''open_short'', \<bar>target\<bar>)"
      using flip_down e by (simp_all add: exits_within_def)
    ultimately show ?thesis using flip_down e self(1) unfolding plan Let_def each_step by simp
  next
    case flip_up
    have plan: "order_plan current target = [(''close_short'', \<bar>current\<bar>), (''open_long'', target)]"
      using flip_up e by (simp add: order_plan_def d_def Let_def)
    moreover have "after_step current (''close_short'', \<bar>current\<bar>) = 0" "after_step 0 (''open_long'', target) = target"
      using flip_up e by simp_all
    moreover have "exits_within current (''close_short'', \<bar>current\<bar>)" "exits_within 0 (''open_long'', target)"
      using flip_up e by (simp_all add: exits_within_def)
    ultimately show ?thesis using flip_up e self(1) unfolding plan Let_def each_step by simp
  next
    case close_long
    have "order_plan current target = [(''close_long'', current)]"
      using close_long by (simp add: order_plan_def d_def Let_def)
    moreover have "\<bar>target\<bar> \<le> epsilon" using close_long by (simp add: abs_le_iff not_less)
    ultimately show ?thesis using close_long e self by (simp add: Let_def exits_within_def)
  next
    case long
    have "- d \<le> current" using fsub_float_bounds(1) [OF f] long e by (simp add: d_def)
    moreover have "order_plan current target = [(if 0 < d then ''add_long'' else ''reduce_long'', \<bar>d\<bar>)]"
      using long e by (simp add: order_plan_def d_def Let_def)
    ultimately show ?thesis using long e by (auto simp: Let_def exits_within_def d_def)
  next
    case close_short
    have "order_plan current target = [(''close_short'', \<bar>current\<bar>)]"
      using close_short e by (simp add: order_plan_def d_def Let_def)
    moreover have "\<bar>target\<bar> \<le> epsilon" using close_short by (simp add: abs_le_iff not_less)
    ultimately show ?thesis using close_short e self by (simp add: Let_def exits_within_def)
  next
    case short
    have "d \<le> - current" using fsub_float_bounds(2) [OF f] short e by (simp add: d_def)
    moreover have "order_plan current target = [(if d < 0 then ''add_short'' else ''reduce_short'', \<bar>d\<bar>)]"
      using short e by (simp add: order_plan_def d_def Let_def)
    ultimately show ?thesis using short e by (auto simp: Let_def exits_within_def d_def)
  next
    case flat
    have "target \<noteq> 0"
    proof
      assume "target = 0"
      then have "d = - current" using f(1) by (simp add: d_def fsub_def is_float_def fl_minus)
      with flat show False by (simp add: not_less abs_le_iff)
    qed
    moreover have "order_plan current target = [(if 0 < target then ''open_long'' else ''open_short'', \<bar>target\<bar>)]"
      using flat by (simp add: order_plan_def d_def Let_def)
    moreover have "fsub target (current + target) = - current"
      using f(1) by (simp add: fsub_def is_float_def fl_minus)
    moreover have "\<bar>current\<bar> \<le> epsilon" using flat by (simp add: not_less abs_le_iff)
    ultimately show ?thesis using e by (auto simp: Let_def exits_within_def)
  qed
qed

lemma order_plan_reaches_target_witness:
  "order_plan 2 (-3) = [(''close_long'', 2), (''open_short'', 3)]
   \<and> foldl after_step 2 (order_plan 2 (-3)) = (-3 :: rat)"
proof -
  have "is_float 2" "is_float (-3)"
    using is_float_numeral [of "Num.Bit0 Num.One"] is_float_numeral [of "Num.Bit1 Num.One"] is_float_minus [of 3] by simp_all
  note * = order_plan_reaches_target [OF this]
  have "order_plan 2 (-3) = [(''close_long'', 2), (''open_short'', 3)]" by code_simp
  with * show ?thesis by (simp add: Let_def)
qed

section \<open>Submitting\<close>

definition queue_ok :: "queue \<Rightarrow> bool" where
  "queue_ok q = (distinct (map pd_key (pending q)) \<and> distinct (map pd_id (pending q))
     \<and> (\<forall>p \<in> set (pending q). 0 < pd_id p \<and> pd_id p < next_pending q) \<and> 0 < next_pending q
     \<and> (\<forall>i \<in> set (intents q). 0 < in_id i \<and> in_id i < next_intent q) \<and> 0 < next_intent q)"

text \<open>A submit in three parts: the request is refused, the intent row is found or added, the pending row
  is found or added.\<close>

lemma create_intent_pending:
  assumes "create_intent r key q = (res, q1)"
  shows "pending q1 = pending q \<and> next_pending q1 = next_pending q"
  using assms by (auto simp: create_intent_def Let_def split: if_splits option.splits)

lemma create_intent_ok:
  assumes "queue_ok q" and "create_intent r key q = (res, q1)"
  shows "queue_ok q1 \<and> (\<forall>i e. res = Inr (i, e) \<longrightarrow> 0 < in_id i)"
proof (cases "get_by_key (rq_run r) (take 180 (py_strip key)) q")
  case None
  with assms show ?thesis
    by (auto simp: create_intent_def Let_def queue_ok_def new_intent_row_def less_imp_le split: if_splits)
next
  case (Some i)
  then have "i \<in> set (intents q)" unfolding get_by_key_def using find_SomeD by fast
  with assms Some show ?thesis by (auto simp: create_intent_def Let_def queue_ok_def split: if_splits)
qed

lemma pending_id_next [simp]: "pending_id key (q\<lparr>next_pending := n\<rparr>) = pending_id key q"
  by (simp add: pending_id_def)

lemma pending_id_None: "pending_id key q = None \<longleftrightarrow> key \<notin> pd_key ` set (pending q)"
  by (auto simp: pending_id_def find_None_iff)

lemma insert_pending_cases:
  assumes ok: "queue_ok q" and i: "insert_pending r key intent q = (res, q1)"
  obtains (old) k where "res = None" "pending_id key q = Some k" "q1 = q\<lparr>next_pending := next_pending q + 1\<rparr>" "queue_ok q1"
  | (new) "res = Some (next_pending q)" "pending_id key q = None" "intents q1 = intents q"
      "pending q1 = pending q @ [new_pending_row r key intent (next_pending q) (clock q)]"
      "pending_id key q1 = Some (next_pending q)" "queue_ok q1"
proof (cases "pending_id key q")
  case (Some k)
  show thesis
    by (rule old [OF _ Some]) (use i ok Some in \<open>auto simp: insert_pending_def Let_def queue_ok_def less_imp_le\<close>)
next
  case None
  let ?p = "new_pending_row r key intent (next_pending q) (clock q)"
  have q1: "res = Some (next_pending q)" "q1 = q\<lparr>pending := pending q @ [?p], next_pending := next_pending q + 1\<rparr>"
    using i None by (simp_all add: insert_pending_def Let_def)
  have "pd_key ?p = key" "pd_id ?p = next_pending q" by (simp_all add: new_pending_row_def)
  moreover have "key \<notin> pd_key ` set (pending q)" using None by (simp add: pending_id_None)
  ultimately have "queue_ok q1" "pending_id key q1 = Some (next_pending q)"
    using ok None by (auto simp: q1(2) queue_ok_def pending_id_def find_append less_imp_le)
  then show thesis using q1 None by (intro new) simp_all
qed

lemma py_strip_nonempty:
  assumes "c \<in> set s" and "\<not> is_space c"
  shows "py_strip s \<noteq> []"
proof -
  have "c \<in> set (dropWhile is_space s)"
    using assms by (induction s) auto
  with assms(2) show ?thesis by (auto simp: py_strip_def)
qed

lemma request_key_nonblank: "take 180 (py_strip (request_key r)) \<noteq> []"
proof -
  have "\<exists>s. request_key r = CHR ''r'' # s"
    by (simp add: request_key_def build_signal_idempotency_key_def take_Cons')
  then have "CHR ''r'' \<in> set (request_key r)" by auto
  moreover have "\<not> is_space (CHR ''r'')" by code_simp
  ultimately show ?thesis using py_strip_nonempty by fastforce
qed

lemma create_intent_found: "fst (create_intent r (request_key r) q) \<noteq> Inl e"
  using request_key_nonblank [of r] by (auto simp: create_intent_def Let_def split: option.split)

lemma create_intent_clock: "create_intent r key q = (c, q') \<Longrightarrow> clock q' = clock q"
  by (auto simp: create_intent_def Let_def split: if_splits option.splits)

lemma submit_cases:
  assumes ok: "queue_ok q" and s: "submit r q = (res, q1)"
  obtains (refused) e where "res = Inl e" "validate_request r = Some e" "q1 = q"
  | (known) k where "res = Inr (Some k)" "pending_id (request_key r) q = Some k" "pending q1 = pending q"
      "validate_request r = None" "queue_ok q1"
  | (queued) i where "res = Inr (Some (next_pending q))" "pending_id (request_key r) q = None"
      "pending q1 = pending q @ [new_pending_row r (request_key r) i (next_pending q) (clock q)]"
      "validate_request r = None" "queue_ok q1"
proof -
  define key where "key = request_key r"
  obtain c q' where c: "create_intent r key q = (c, q')" by fastforce
  note q' = create_intent_pending [OF c] create_intent_ok [OF ok c] create_intent_clock [OF c]
  have pid: "pending_id k q' = pending_id k q" for k using q'(1) by (simp add: pending_id_def)
  note def = s [unfolded submit_def, folded key_def, unfolded Let_def c]
  show thesis
  proof (cases "validate_request r")
    case (Some e)
    show thesis by (rule refused [of e]) (use def Some ok in simp_all)
  next
    case None
    show thesis
    proof (cases c)
      case (Inl e)
      with c create_intent_found [of r q e] show thesis by (simp add: key_def)
    next
      case (Inr ie)
      obtain i existing where ie: "ie = (i, existing)" by (cases ie)
      have pos: "0 < in_id i" using q'(2) Inr ie by blast
      show thesis
      proof (cases "existing \<and> in_status i \<notin> {''failed'', ''cancelled'', ''rejected''} \<and> pending_id key q' \<noteq> None")
        case True
        then obtain k where "pending_id key q = Some k" using pid by auto
        then show thesis
          by (intro known [of k]) (use def None Inr ie True q' pid key_def in auto)
      next
        case False
        obtain ins q2 where ins: "insert_pending r key (in_id i) q' = (ins, q2)" by fastforce
        have r: "res = Inr (case ins of Some n \<Rightarrow> Some n | None \<Rightarrow> pending_id key q2)" "q1 = q2"
          using def None Inr ie pos False ins by auto
        have "queue_ok q'" using q'(2) by simp
        then show thesis using ins
        proof (cases rule: insert_pending_cases)
          case (old k)
          then show thesis using r q' pid None key_def by (intro known [of k]) auto
        next
          case new
          then show thesis using r q' pid None key_def by (intro queued [of "in_id i"]) auto
        qed
      qed
    qed
  qed
qed

text \<open>Submitting is idempotent: the order a request is queued as is the one any later request with the
  same key gets, and only the first adds a row; ids and keys stay unique.\<close>

theorem submit_idempotent:
  assumes ok: "queue_ok q" and s: "submit r q = (Inr (Some k), q1)"
    and later: "submit r' q1 = (res, q2)" "request_key r' = request_key r"
  shows "queue_ok q1 \<and> queue_ok q2 \<and> length (pending q1) \<le> length (pending q) + 1 \<and> pending q2 = pending q1
    \<and> (\<exists>p \<in> set (pending q1). pd_id p = k \<and> pd_key p = request_key r)
    \<and> (validate_request r' = None \<longrightarrow> res = Inr (Some k))"
proof -
  have first: "queue_ok q1 \<and> pending_id (request_key r) q1 = Some k \<and> length (pending q1) \<le> length (pending q) + 1"
    using ok s
  proof (cases rule: submit_cases)
    case (queued i)
    have "pd_id (new_pending_row r (request_key r) i n now) = n" "pd_key (new_pending_row r (request_key r) i n now) = request_key r"
      for n now by (simp_all add: new_pending_row_def)
    with queued show ?thesis by (simp add: pending_id_def find_append)
  qed (auto simp: pending_id_def)
  then have q1: "queue_ok q1" by simp
  have "queue_ok q2 \<and> pending q2 = pending q1 \<and> (validate_request r' = None \<longrightarrow> res = Inr (Some k))"
    using q1 later(1)
  proof (cases rule: submit_cases)
    case (refused e)
    then show ?thesis using q1 by simp
  qed (use first later(2) in auto)
  moreover have "\<exists>p \<in> set (pending q1). pd_id p = k \<and> pd_key p = request_key r"
    using first find_SomeD by (fastforce simp: pending_id_def)
  ultimately show ?thesis using first by simp
qed

definition demo_request :: order_request where
  "demo_request = \<lparr>rq_strategy = 1, rq_run = 1, rq_user = 1, rq_symbol = ''BTC/USDT'', rq_action = ''open_long'',
     rq_quantity = 2, rq_price = 10, rq_ts = 5, rq_market = ''swap'', rq_mode = ''live'', rq_leverage = 1,
     rq_reason = [], rq_order_type = ''market'', rq_algo = ''market'', rq_limit = 0, rq_client = []\<rparr>"

definition empty_queue :: queue where
  "empty_queue = \<lparr>intents = [], next_intent = 1, pending = [], next_pending = 1, clock = 0\<rparr>"

lemma empty_queue_ok: "queue_ok empty_queue"
  by (simp add: queue_ok_def empty_queue_def)

lemma demo_submit: "fst (submit demo_request empty_queue) = Inr (Some 1)"
  by code_simp

lemma demo_valid: "validate_request demo_request = None"
  by code_simp

lemma submit_idempotent_witness:
  "let q1 = snd (submit demo_request empty_queue) in
     fst (submit demo_request q1) = Inr (Some 1) \<and> pending (snd (submit demo_request q1)) = pending q1"
proof -
  have "submit demo_request empty_queue = (Inr (Some 1), snd (submit demo_request empty_queue))"
    using demo_submit by (simp add: prod_eq_iff)
  from submit_idempotent [OF empty_queue_ok this prod.collapse [symmetric] refl] demo_valid
  show ?thesis by (simp add: Let_def)
qed

section \<open>Guards\<close>

lemma execute_signal_cases:
  assumes ok: "queue_ok q" and e: "execute_signal dk r capital ps q = (res, q1)"
  obtains (idle) "pending q1 = pending q" "queue_ok q1"
  | (queued) i where
      "pending q1 = pending q @ [new_pending_row r (request_key r) i (next_pending q) (clock q)]" "queue_ok q1"
      "validate_request r = None" "rq_mode r = ''live'' \<longrightarrow> \<not> has_inflight r q"
      "py_lower (py_strip (str_or (rq_mode r) ''signal'')) = ''live'' \<longrightarrow> signal_direction_ok (dk_mode dk) (rq_action r)
         \<and> (py_lower (py_strip (rq_action r)) \<in> entry_actions \<longrightarrow> \<not> dk_blocked dk (rq_symbol r)
              (if py_endswith (py_lower (py_strip (rq_action r))) ''_long'' then ''long'' else ''short''))"
      "bg_allowed (strategy_order_budget_snapshot (rq_action r) (rq_quantity r) (rq_price r) capital
             (num_or (rq_leverage r) 1) (str_or (rq_market r) ''spot'') ps (num_or (dk_buffer dk) default_buffer))"
proof (cases "q1 = q")
  case True
  then show thesis using ok by (intro idle) simp_all
next
  case False
  obtain s q2 where s: "submit r q = (s, q2)" by fastforce
  have g: "q1 = q2" "rq_mode r = ''live'' \<longrightarrow> \<not> has_inflight r q"
      "py_lower (py_strip (str_or (rq_mode r) ''signal'')) = ''live'' \<longrightarrow> signal_direction_ok (dk_mode dk) (rq_action r)
         \<and> (py_lower (py_strip (rq_action r)) \<in> entry_actions \<longrightarrow> \<not> dk_blocked dk (rq_symbol r)
              (if py_endswith (py_lower (py_strip (rq_action r))) ''_long'' then ''long'' else ''short''))"
      "bg_allowed (strategy_order_budget_snapshot (rq_action r) (rq_quantity r) (rq_price r) capital
             (num_or (rq_leverage r) 1) (str_or (rq_market r) ''spot'') ps (num_or (dk_buffer dk) default_buffer))"
    using e False unfolding execute_signal_def Let_def s by (auto split: if_splits sum.splits)
  from ok s show thesis
  proof (cases rule: submit_cases)
    case (queued i)
    then show thesis using g by (intro that(2)) simp_all
  qed (use g ok in \<open>auto intro: idle\<close>)
qed

lemma order_plan_live: "length (live_steps ''live'' (order_plan c t)) \<le> 1"
  by (simp add: live_steps_def order_plan_def Let_def)

lemma execute_intent_cases:
  assumes ok: "queue_ok q" and live: "rc_mode rc = ''live''"
    and e: "execute_intent dk rc intent members override close ts l q = (res, q')"
  obtains (idle) "q' = q"
  | (step) m price ps step res' where
      "execute_signal dk (request_of dk rc intent m price ts step) (rc_capital rc) ps q = (res', q')"
proof (cases "q' = q")
  case True
  then show thesis by (rule idle)
next
  case False
  then obtain m price ps c t where steps:
    "execute_steps dk (request_of dk rc intent m price ts) (rc_capital rc) ps (live_steps ''live'' (order_plan c t)) False q
       = (res, q')"
    using e live unfolding execute_intent_def Let_def
    by (simp split: option.splits if_splits sum.splits)
  have "length (live_steps ''live'' (order_plan c t)) \<le> 1" by (rule order_plan_live)
  then consider "live_steps ''live'' (order_plan c t) = []" | st where "live_steps ''live'' (order_plan c t) = [st]"
    by (cases "live_steps ''live'' (order_plan c t)") auto
  then show thesis
  proof cases
    case 1
    with steps False show thesis by simp
  next
    case (2 st)
    with steps show thesis
      by (cases "execute_signal dk (request_of dk rc intent m price ts st) (rc_capital rc) ps q")
        (auto intro!: step split: sum.splits)
  qed
qed

lemma action_normal: "a \<in> set canonical_signal_actions \<Longrightarrow> py_lower (py_strip a) = a"
proof -
  have "\<forall>a \<in> set canonical_signal_actions. py_lower (py_strip a) = a" by code_simp
  then show "a \<in> set canonical_signal_actions \<Longrightarrow> py_lower (py_strip a) = a" by blast
qed

lemma validD:
  assumes "validate_request r = None"
  shows "rq_action r \<in> set canonical_signal_actions" and "0 \<le> rq_quantity r" and "0 < rq_price r"
  using assms by (auto simp: validate_request_def Let_def not_le split: if_splits)

definition entry_limit :: "rat \<Rightarrow> rat \<Rightarrow> rat" where
  "entry_limit capital leverage =
     fadd (fmul (fmul (max 0 capital) (max 1 (num_or leverage 1))) (fadd 1 max_buffer)) budget_slack"

lemma fmul_mono: "0 \<le> a \<Longrightarrow> a \<le> b \<Longrightarrow> 0 \<le> c \<Longrightarrow> c \<le> d \<Longrightarrow> fmul a c \<le> fmul b d"
  by (simp add: fmul_def fl_mono mult_mono)

lemma budget_bound:
  assumes "bg_allowed (strategy_order_budget_snapshot act qty px capital lev market ps buffer)"
    and "py_lower (py_strip act) \<in> entry_actions" and "0 \<le> qty" and "0 < px"
  shows "fmul qty px \<le> entry_limit capital lev"
proof -
  define l where "l = (if py_lower (py_strip (str_or market ''spot'')) \<noteq> ''spot'' then max 1 (num_or lev 1) else 1)"
  define b where "b = min max_buffer (max 0 buffer)"
  have "fmul qty px \<le> fadd (fmul (fmul (max 0 capital) l) (fadd 1 b)) budget_slack"
    using assms by (simp add: strategy_order_budget_snapshot_def Let_def l_def b_def)
  also have "\<dots> \<le> entry_limit capital lev"
    unfolding entry_limit_def
  proof (intro fadd_mono fmul_mono order_refl)
    show "0 \<le> fmul (max 0 capital) l" by (intro fmul_nonneg) (simp_all add: l_def le_max_iff_disj)
    have "0 \<le> b" by (simp add: b_def max_buffer_def fl_nonneg)
    then show "0 \<le> fadd 1 b" by (intro fadd_nonneg) simp_all
  qed (auto simp: l_def b_def le_max_iff_disj)
  finally show ?thesis .
qed

lemma pending_new_row [simp]: "pd_payload (new_pending_row r key i n now) = r"
  by (simp add: new_pending_row_def)

text \<open>C12. What a live intent can do to the queue: it adds at most one order; that order is valid, its
  direction is allowed by the strategy's mode, no other order of the run works on the leg, and an
  entry is not on a blocked leg and costs at most the strategy's capital times the leverage plus
  ten percent, whatever the strategy asked for.\<close>

theorem execute_intent_guarded:
  assumes ok: "queue_ok q" and live: "rc_mode rc = ''live''"
    and e: "execute_intent dk rc intent members override close ts l q = (res, q')"
  shows "queue_ok q' \<and> (pending q' = pending q \<or> (\<exists>p r. pending q' = pending q @ [p] \<and> pd_payload p = r
      \<and> validate_request r = None \<and> signal_direction_ok (dk_mode dk) (rq_action r) \<and> \<not> has_inflight r q
      \<and> (rq_action r \<in> entry_actions \<longrightarrow> \<not> dk_blocked dk (rq_symbol r) (signal_position_side (rq_action r))
           \<and> fmul (rq_quantity r) (rq_price r) \<le> entry_limit (rc_capital rc) (rc_leverage rc))))"
  using ok live e
proof (cases rule: execute_intent_cases)
  case idle
  with ok show ?thesis by simp
next
  case (step m price ps st res')
  define r where "r = request_of dk rc intent m price ts st"
  have r: "rq_mode r = ''live''" "rq_leverage r = num_or (rc_leverage rc) 1" by (simp_all add: r_def request_of_def live)
  have lower: "py_lower (py_strip (str_or ''live'' ''signal'')) = ''live''" by code_simp
  have side: "(if py_endswith a ''_long'' then ''long'' else ''short'') = signal_position_side a" if "a \<in> entry_actions" for a
  proof -
    have "\<forall>a \<in> entry_actions. (if py_endswith a ''_long'' then ''long'' else ''short'') = signal_position_side a" by code_simp
    with that show ?thesis by blast
  qed
  have idem: "num_or (num_or x 1) 1 = num_or x 1" for x :: rat by (simp add: num_or_def)
  from ok step [folded r_def] show ?thesis
  proof (cases rule: execute_signal_cases)
    case (queued i)
    note v = validD [OF queued(3)]
    have a: "py_lower (py_strip (rq_action r)) = rq_action r" by (rule action_normal [OF v(1)])
    have "fmul (rq_quantity r) (rq_price r) \<le> entry_limit (rc_capital rc) (rc_leverage rc)"
      if "rq_action r \<in> entry_actions"
      using budget_bound [OF queued(6) _ v(2,3)] that a by (simp add: entry_limit_def r idem)
    then show ?thesis
      using queued r a side lower
      by (intro conjI disjI2 exI [of _ "new_pending_row r (request_key r) i (next_pending q)"] exI [of _ r]) auto
  qed simp
qed

definition demo_desk :: desk where
  "demo_desk = \<lparr>dk_user = 1, dk_mode = ''long_only'', dk_blocked = (\<lambda>_ _. False), dk_buffer = 0\<rparr>"

definition demo_run :: run_context where
  "demo_run = \<lparr>rc_strategy = 1, rc_run = 1, rc_capital = 100, rc_leverage = 2, rc_mode = ''live'', rc_direction = ''long_only''\<rparr>"

definition demo_intent :: "rat \<Rightarrow> strategy_intent" where
  "demo_intent v = \<lparr>it_symbol = ''BTC'', it_kind = Target_Quantity, it_value = v, it_reason = [], it_order_type = [],
     it_algo = [], it_limit = 0, it_side = [], it_client = []\<rparr>"

text \<open>An order of twelve times the capital is not queued.\<close>

lemma execute_intent_guarded_witness:
  "let run = (\<lambda>v. execute_intent demo_desk demo_run (demo_intent v)
        [\<lparr>cd_key = ''BTC'', cd_symbol = ''BTC/USDT'', cd_market_type = ''swap''\<rparr>] 10 None 5 empty_ledger empty_queue) in
     queue_ok (snd (run 2)) \<and> pending (snd (run 120)) = []"
proof -
  let ?run = "\<lambda>v. execute_intent demo_desk demo_run (demo_intent v)
        [\<lparr>cd_key = ''BTC'', cd_symbol = ''BTC/USDT'', cd_market_type = ''swap''\<rparr>] 10 None 5 empty_ledger empty_queue"
  have "rc_mode demo_run = ''live''" by (simp add: demo_run_def)
  from execute_intent_guarded [OF empty_queue_ok this prod.collapse [symmetric]]
  have "queue_ok (snd (?run 2))" by blast
  moreover have "pending (snd (?run 120)) = []" by code_simp
  ultimately show ?thesis unfolding Let_def by (intro conjI)
qed

text \<open>A failed order is never queued again under its key: the code looks for an intent that failed, was
  cancelled or rejected in order to queue the order anew, but the pending row with the key is
  still there, the insert does nothing, and the old row's id is returned.  The strategy is told
  that its order is queued although nothing was added and the old row keeps its status.\<close>

theorem failed_order_not_requeued:
  assumes ok: "queue_ok q" and p: "p \<in> set (pending q)" "pd_key p = request_key r" "pd_status p = ''failed''"
    and valid: "validate_request r = None" and allowed: "signal_direction_ok (dk_mode dk) (rq_action r)"
      "dk_blocked dk = (\<lambda>_ _. False)" "\<not> has_inflight r q"
      "bg_allowed (strategy_order_budget_snapshot (rq_action r) (rq_quantity r) (rq_price r) capital
         (num_or (rq_leverage r) 1) (str_or (rq_market r) ''spot'') ps (num_or (dk_buffer dk) default_buffer))"
  shows "let (res, q') = execute_signal dk r capital ps q in
      res = Inr True \<and> pending q' = pending q \<and> (\<forall>x \<in> set (pending q'). pd_key x = request_key r \<longrightarrow> pd_status x = ''failed'')"
proof -
  obtain s q1 where s: "submit r q = (s, q1)" by fastforce
  have "pending_id (request_key r) q \<noteq> None" using p pending_id_None by force
  from ok s have known: "\<exists>k. s = Inr (Some k) \<and> pending_id (request_key r) q = Some k \<and> pending q1 = pending q"
    by (cases rule: submit_cases) (use valid \<open>pending_id _ _ \<noteq> None\<close> in auto)
  then obtain k where k: "s = Inr (Some k)" "pending_id (request_key r) q = Some k" "pending q1 = pending q" by blast
  then obtain x where "x \<in> set (pending q)" "pd_id x = k" by (auto simp: pending_id_def dest: find_SomeD)
  then have "k \<noteq> 0" using ok by (auto simp: queue_ok_def)
  then have "execute_signal dk r capital ps q = (Inr True, q1)"
    using allowed k(1) s by (simp add: execute_signal_def Let_def)
  moreover have "x = p" if "x \<in> set (pending q)" "pd_key x = request_key r" for x
    using ok that p by (intro distinct_key_eq [of pd_key "pending q"]) (simp_all add: queue_ok_def)
  ultimately show ?thesis using k(3) p(3) by auto
qed

definition failed_row :: pending_row where
  "failed_row = (new_pending_row demo_request (request_key demo_request) 1 1 0)\<lparr>pd_status := ''failed''\<rparr>"

definition failed_queue :: queue where
  "failed_queue = \<lparr>
     intents = [(new_intent_row demo_request (request_key demo_request) 1)\<lparr>in_status := ''rejected''\<rparr>], next_intent = 2,
     pending = [failed_row], next_pending = 2, clock = 0\<rparr>"

lemma failed_order_not_requeued_witness:
  "fst (execute_signal demo_desk demo_request 100 [] failed_queue) = Inr True
   \<and> pending (snd (execute_signal demo_desk demo_request 100 [] failed_queue)) = [failed_row]"
proof -
  have p: "pending failed_queue = [failed_row]" by (simp add: failed_queue_def)
  moreover have "queue_ok failed_queue"
    by (simp add: queue_ok_def failed_queue_def failed_row_def new_intent_row_def new_pending_row_def)
  moreover have "pd_key failed_row = request_key demo_request" "pd_status failed_row = ''failed''"
    by (simp_all add: failed_row_def new_pending_row_def)
  moreover from this have "\<not> has_inflight demo_request failed_queue"
    by (simp add: has_inflight_def in_lane_def p active_pending_statuses_def)
  moreover have "signal_direction_ok (dk_mode demo_desk) (rq_action demo_request)" by code_simp
  moreover have "bg_allowed (strategy_order_budget_snapshot (rq_action demo_request) (rq_quantity demo_request)
      (rq_price demo_request) 100 (num_or (rq_leverage demo_request) 1) (str_or (rq_market demo_request) ''spot'') []
      (num_or (dk_buffer demo_desk) default_buffer))" by code_simp
  moreover have "dk_blocked demo_desk = (\<lambda>_ _. False)" by (simp add: demo_desk_def)
  ultimately show ?thesis
    using failed_order_not_requeued [of failed_queue failed_row demo_request demo_desk 100 "[]"] demo_valid
    by (auto split: prod.splits)
qed

end
