(* ===== verification/Protection.thy ===== *)
theory Protection
  imports Py_Float
begin

text \<open>
  Position protection, \<open>services/strategy_v2/protection.py\<close>: stop loss, take profit, trailing stop
  and time limit, evaluated on bars in backtests and on single prices in live sessions.  Prices
  are floats, times are microseconds.  A value that may be missing is an option; a mapping of
  numbers is a function to \<open>rat option option\<close>, where \<open>Some None\<close> is a key whose value is null.
\<close>

section \<open>Specifications\<close>

record pspec =
  sp_stop :: rat
  sp_take :: rat
  sp_trail :: rat
  sp_activation :: rat
  sp_limit :: int
  sp_rebase :: bool

type_synonym fields = "string \<Rightarrow> rat option option"

definition get_num :: "fields \<Rightarrow> string \<Rightarrow> rat option" where
  "get_num f k = (case f k of None \<Rightarrow> None | Some v \<Rightarrow> v)"

definition number :: "rat option \<Rightarrow> rat \<Rightarrow> rat" where
  "number v d = (case v of None \<Rightarrow> d | Some x \<Rightarrow> x)"

definition ratio_of :: "rat option \<Rightarrow> rat \<Rightarrow> rat" where
  "ratio_of v maximum = min maximum (max 0 (number v 0))"

definition boolean_of :: "json option \<Rightarrow> bool \<Rightarrow> bool" where
  "boolean_of v d =
     (case v of
        None \<Rightarrow> d
      | Some JNull \<Rightarrow> d
      | Some (JStr s) \<Rightarrow>
          let n = py_lower (py_strip s) in
          if n \<in> {''1'', ''true'', ''yes'', ''on''} then True
          else if n \<in> {''0'', ''false'', ''no'', ''off'', ''''} then False
          else s \<noteq> []
      | Some j \<Rightarrow> json_truthy j)"

text \<open>\<open>__post_init__\<close>\<close>

definition make_spec :: "rat option \<Rightarrow> rat option \<Rightarrow> rat option \<Rightarrow> rat option \<Rightarrow> rat option \<Rightarrow> json option \<Rightarrow> pspec" where
  "make_spec stop profit trail activation limit rebase =
     \<lparr>sp_stop = ratio_of stop 1, sp_take = ratio_of profit 5, sp_trail = ratio_of trail 1,
      sp_activation = ratio_of activation 5, sp_limit = max 0 (let l = number limit 0 in if 0 \<le> l then \<lfloor>l\<rfloor> else \<lceil>l\<rceil>),
      sp_rebase = boolean_of rebase True\<rparr>"

definition spec_enabled :: "pspec \<Rightarrow> bool" where
  "spec_enabled s = (0 < sp_stop s \<or> 0 < sp_take s \<or> 0 < sp_trail s \<or> 0 < sp_limit s)"

definition spec_metadata :: "pspec \<Rightarrow> fields" where
  "spec_metadata s =
     [''stop_loss_pct'' \<mapsto> Some (sp_stop s), ''take_profit_pct'' \<mapsto> Some (sp_take s),
      ''trailing_stop_pct'' \<mapsto> Some (sp_trail s), ''trailing_activation_pct'' \<mapsto> Some (sp_activation s),
      ''time_limit_seconds'' \<mapsto> Some (of_int (sp_limit s))]"

text \<open>\<open>from_value\<close>: \<open>overrides\<close> that are null are dropped, and a nested \<open>trailing\<close> mapping fills in
  the keys that are absent.\<close>

definition set_default_field :: "string \<Rightarrow> rat option \<Rightarrow> fields \<Rightarrow> fields" where
  "set_default_field k v f = (case f k of None \<Rightarrow> f(k \<mapsto> v) | Some _ \<Rightarrow> f)"

definition spec_from_value :: "fields \<Rightarrow> fields \<Rightarrow> fields option \<Rightarrow> json option \<Rightarrow> pspec option" where
  "spec_from_value value overrides trailing rebase =
     (let source = (\<lambda>k. case overrides k of Some (Some v) \<Rightarrow> Some (Some v) | _ \<Rightarrow> value k);
          source2 = (case trailing of
             None \<Rightarrow> source
           | Some t \<Rightarrow> set_default_field ''trailing_activation_pct'' (get_num t ''activation_pct'')
                 (set_default_field ''trailing_stop_pct'' (get_num t ''pct'') source));
          spec = make_spec (get_num source2 ''stop_loss_pct'') (get_num source2 ''take_profit_pct'')
             (get_num source2 ''trailing_stop_pct'') (get_num source2 ''trailing_activation_pct'')
             (get_num source2 ''time_limit_seconds'') rebase in
      if spec_enabled spec then Some spec else None)"

section \<open>States\<close>

record pstate =
  pt_symbol :: string
  pt_side :: string
  pt_entry :: rat
  pt_spec :: pspec
  pt_opened :: int
  pt_high :: rat
  pt_low :: rat
  pt_active :: bool

definition open_state :: "string \<Rightarrow> string \<Rightarrow> rat \<Rightarrow> pspec \<Rightarrow> int \<Rightarrow> pstate" where
  "open_state symbol side entry spec opened =
     \<lparr>pt_symbol = symbol, pt_side = py_lower side, pt_entry = entry, pt_spec = spec, pt_opened = opened,
      pt_high = entry, pt_low = entry, pt_active = False\<rparr>"

definition apply_scale_in :: "rat \<Rightarrow> rat \<Rightarrow> pspec option \<Rightarrow> int option \<Rightarrow> pstate \<Rightarrow> pstate" where
  "apply_scale_in entry fill spec scaled_at s =
     (let e = (if entry = 0 then pt_entry s else entry);
          sp = (case spec of None \<Rightarrow> pt_spec s | Some x \<Rightarrow> x);
          r0 = (if fill = 0 then e else fill);
          r = (if r0 \<le> 0 then e else r0);
          s1 = s\<lparr>pt_entry := e, pt_spec := sp\<rparr> in
      if sp_rebase sp then
        s1\<lparr>pt_active := False, pt_high := max e r, pt_low := min e r,
           pt_opened := (case scaled_at of None \<Rightarrow> pt_opened s | Some t \<Rightarrow> t)\<rparr>
      else if pt_active s then s1
      else s1\<lparr>pt_high := max e r, pt_low := min e r\<rparr>)"

record pmeta =
  pm_symbol :: "string option"
  pm_side :: "string option"
  pm_entry :: "rat option"
  pm_spec :: fields
  pm_rebase :: "json option"
  pm_opened :: "int option"
  pm_high :: "rat option"
  pm_low :: "rat option"
  pm_active :: bool

definition state_metadata :: "pstate \<Rightarrow> pmeta" where
  "state_metadata s =
     \<lparr>pm_symbol = Some (pt_symbol s), pm_side = Some (pt_side s), pm_entry = Some (pt_entry s),
      pm_spec = spec_metadata (pt_spec s), pm_rebase = Some (JBool (sp_rebase (pt_spec s))),
      pm_opened = Some (pt_opened s), pm_high = Some (pt_high s), pm_low = Some (pt_low s), pm_active = pt_active s\<rparr>"

definition state_from_metadata :: "pmeta \<Rightarrow> int \<Rightarrow> pstate option" where
  "state_from_metadata m now =
     (let entry = number (pm_entry m) 0 in
      case spec_from_value (pm_spec m) (\<lambda>_. None) None (pm_rebase m) of
        None \<Rightarrow> None
      | Some spec \<Rightarrow>
          if entry \<le> 0 then None
          else
            let lowest = number (pm_low m) entry;
                side = (case pm_side m of None \<Rightarrow> ''long'' | Some x \<Rightarrow> str_or x ''long'') in
            Some ((open_state (opt_str (pm_symbol m)) side entry spec (case pm_opened m of None \<Rightarrow> now | Some t \<Rightarrow> t))
              \<lparr>pt_high := max entry (number (pm_high m) entry),
               pt_low := min entry (if 0 < lowest then lowest else entry), pt_active := pm_active m\<rparr>))"

section \<open>Decisions\<close>

datatype exit_reason = Stop_Loss | Trailing_Stop | Take_Profit | Time_Limit

record pdecision =
  dc_symbol :: string
  dc_side :: string
  dc_reason :: exit_reason
  dc_price :: rat
  dc_trigger :: rat
  dc_time :: int

datatype intrabar_mode = Conservative | Balanced | Aggressive

definition intrabar_mode_of :: "string \<Rightarrow> intrabar_mode" where
  "intrabar_mode_of s =
     (let m = py_lower (py_strip (str_or s ''conservative'')) in
      if m = ''balanced'' then Balanced else if m = ''aggressive'' then Aggressive else Conservative)"

definition decision :: "pstate \<Rightarrow> exit_reason \<Rightarrow> rat \<Rightarrow> rat \<Rightarrow> int \<Rightarrow> pdecision" where
  "decision s reason price trigger ts =
     \<lparr>dc_symbol = pt_symbol s, dc_side = pt_side s, dc_reason = reason, dc_price = price, dc_trigger = trigger, dc_time = ts\<rparr>"

definition is_long :: "pstate \<Rightarrow> bool" where
  "is_long s = (pt_side s = ''long'')"

definition stop_trigger :: "pstate \<Rightarrow> rat" where
  "stop_trigger s = fmul (pt_entry s) (if is_long s then fsub 1 (sp_stop (pt_spec s)) else fadd 1 (sp_stop (pt_spec s)))"

definition take_trigger :: "pstate \<Rightarrow> rat" where
  "take_trigger s = fmul (pt_entry s) (if is_long s then fadd 1 (sp_take (pt_spec s)) else fsub 1 (sp_take (pt_spec s)))"

text \<open>\<open>_trailing_trigger\<close> also arms the stop.\<close>

definition reaches_activation :: "pstate \<Rightarrow> bool" where
  "reaches_activation s =
     (if is_long s then fmul (pt_entry s) (fadd 1 (sp_activation (pt_spec s))) \<le> pt_high s
      else pt_low s \<le> fmul (pt_entry s) (fsub 1 (sp_activation (pt_spec s))))"

definition trailing_trigger :: "pstate \<Rightarrow> rat option \<times> pstate" where
  "trailing_trigger s =
     (if sp_trail (pt_spec s) \<le> 0 then (None, s)
      else
        let active = (pt_active s \<or> reaches_activation s); s1 = s\<lparr>pt_active := active\<rparr> in
        if \<not> active then (None, s1)
        else (Some (if is_long s then fmul (pt_high s) (fsub 1 (sp_trail (pt_spec s)))
                    else fmul (pt_low s) (fadd 1 (sp_trail (pt_spec s)))), s1))"

definition time_limit_reached :: "pstate \<Rightarrow> int \<Rightarrow> bool" where
  "time_limit_reached s ts =
     (0 < sp_limit (pt_spec s) \<and> sp_limit (pt_spec s) * second \<le> ts - pt_opened s)"

definition price_candidates :: "pstate \<Rightarrow> int \<Rightarrow> rat \<Rightarrow> pdecision list \<times> pstate" where
  "price_candidates s ts price =
     (let (trailing, s1) = trailing_trigger s;
          hit_below = (\<lambda>t. if is_long s then price \<le> t else t \<le> price);
          hit_above = (\<lambda>t. if is_long s then t \<le> price else price \<le> t) in
      ((if 0 < sp_stop (pt_spec s) \<and> hit_below (stop_trigger s)
        then [decision s Stop_Loss price (stop_trigger s) ts] else [])
       @ (case trailing of None \<Rightarrow> [] | Some t \<Rightarrow> if hit_below t then [decision s Trailing_Stop price t ts] else [])
       @ (if 0 < sp_take (pt_spec s) \<and> hit_above (take_trigger s)
          then [decision s Take_Profit price (take_trigger s) ts] else [])
       @ (if time_limit_reached s ts then [decision s Time_Limit price price ts] else []), s1))"

definition bar_candidates :: "pstate \<Rightarrow> int \<Rightarrow> rat \<Rightarrow> rat \<Rightarrow> rat \<Rightarrow> pdecision list \<times> pstate" where
  "bar_candidates s ts opn high low =
     (let (trailing, s1) = trailing_trigger s;
          below = (\<lambda>r t. if (if is_long s then low \<le> t else t \<le> high)
             then [decision s r (if (if is_long s then opn \<le> t else t \<le> opn) then opn else t) t ts] else []);
          above = (\<lambda>r t. if (if is_long s then t \<le> high else low \<le> t)
             then [decision s r (if (if is_long s then t \<le> opn else opn \<le> t) then opn else t) t ts] else []) in
      ((if 0 < sp_stop (pt_spec s) then below Stop_Loss (stop_trigger s) else [])
       @ (case trailing of None \<Rightarrow> [] | Some t \<Rightarrow> below Trailing_Stop t)
       @ (if 0 < sp_take (pt_spec s) then above Take_Profit (take_trigger s) else [])
       @ (if time_limit_reached s ts then [decision s Time_Limit opn opn ts] else []), s1))"

text \<open>Python's \<open>min\<close> with a key returns the first minimal element.\<close>

fun first_min :: "('a \<Rightarrow> 'b::linorder) \<Rightarrow> 'a \<Rightarrow> 'a list \<Rightarrow> 'a" where
  "first_min f x [] = x"
| "first_min f x (y # ys) = first_min f (if f y < f x then y else x) ys"

fun aggressive_priority :: "exit_reason \<Rightarrow> nat" where
  "aggressive_priority Take_Profit = 0"
| "aggressive_priority Trailing_Stop = 1"
| "aggressive_priority Time_Limit = 2"
| "aggressive_priority Stop_Loss = 3"

fun conservative_priority :: "exit_reason \<Rightarrow> nat" where
  "conservative_priority Stop_Loss = 0"
| "conservative_priority Trailing_Stop = 1"
| "conservative_priority Time_Limit = 2"
| "conservative_priority Take_Profit = 3"

definition trigger_distance :: "rat \<Rightarrow> pdecision \<Rightarrow> rat" where
  "trigger_distance reference d = \<bar>fsub (dc_trigger d) reference\<bar>"

definition pick :: "intrabar_mode \<Rightarrow> rat \<Rightarrow> pdecision \<Rightarrow> pdecision list \<Rightarrow> pdecision" where
  "pick m reference d ds =
     (case m of
        Aggressive \<Rightarrow> first_min (aggressive_priority \<circ> dc_reason) d ds
      | Balanced \<Rightarrow> first_min (trigger_distance reference) d ds
      | Conservative \<Rightarrow> first_min (conservative_priority \<circ> dc_reason) d ds)"

definition choose_exit :: "intrabar_mode \<Rightarrow> pdecision list \<Rightarrow> rat \<Rightarrow> pdecision option" where
  "choose_exit m candidates reference =
     (case candidates of [] \<Rightarrow> None | d # ds \<Rightarrow> Some (pick m reference d ds))"

definition evaluate_bar ::
  "intrabar_mode \<Rightarrow> pstate \<Rightarrow> int \<Rightarrow> rat \<Rightarrow> rat \<Rightarrow> rat \<Rightarrow> pdecision option \<times> pstate" where
  "evaluate_bar mode s ts opn high_price low_price =
     (let high = max opn high_price; low = min opn low_price;
          (candidates, s1) = bar_candidates s ts opn high low in
      case choose_exit mode candidates opn of
        Some d \<Rightarrow> (Some d, s1)
      | None \<Rightarrow> (None, s1\<lparr>pt_high := max (pt_high s1) high, pt_low := min (pt_low s1) low\<rparr>))"

definition evaluate_price :: "intrabar_mode \<Rightarrow> pstate \<Rightarrow> int \<Rightarrow> rat \<Rightarrow> pdecision option \<times> pstate" where
  "evaluate_price mode s ts price =
     (if price \<le> 0 then (None, s)
      else
        let (candidates, s1) =
          price_candidates (s\<lparr>pt_high := max (pt_high s) price, pt_low := min (pt_low s) price\<rparr>) ts price in
        (choose_exit mode candidates price, s1))"

section \<open>Ticks and bars\<close>

text \<open>A live session evaluates a sequence of prices, a backtest a sequence of bars, until one decides.\<close>

fun run_ticks :: "intrabar_mode \<Rightarrow> (int \<times> rat) list \<Rightarrow> pstate \<Rightarrow> pdecision option" where
  "run_ticks mode [] s = None"
| "run_ticks mode ((ts, p) # ticks) s =
     (case evaluate_price mode s ts p of
        (Some d, s1) \<Rightarrow> Some d
      | (None, s1) \<Rightarrow> run_ticks mode ticks s1)"

fun run_bars :: "intrabar_mode \<Rightarrow> (int \<times> rat \<times> rat \<times> rat) list \<Rightarrow> pstate \<Rightarrow> pdecision option" where
  "run_bars mode [] s = None"
| "run_bars mode ((ts, opn, h, l) # bars) s =
     (case evaluate_bar mode s ts opn h l of
        (Some d, s1) \<Rightarrow> Some d
      | (None, s1) \<Rightarrow> run_bars mode bars s1)"

text \<open>Prices a column can hold, and percentages a float can tell from zero at any such price.\<close>

definition good_price :: "rat \<Rightarrow> bool" where
  "good_price p = (is_float p \<and> 1 / 10 ^ 8 \<le> p)"

definition good_state :: "pstate \<Rightarrow> bool" where
  "good_state s = (good_price (pt_high s) \<and> good_price (pt_low s)
     \<and> (sp_trail (pt_spec s) \<le> 0 \<or> 2 powi (-50) \<le> sp_trail (pt_spec s)) \<and> sp_trail (pt_spec s) \<le> 1)"

lemma price_scale:
  fixes p :: rat
  assumes "1 / 10 ^ 8 \<le> p"
  obtains k where "2 powi k \<le> p" "p < 2 powi (k + 1)" "-1020 \<le> k"
proof -
  have "(0::rat) < 1 / 10 ^ 8" by simp
  with assms have pos: "0 < p" by linarith
  note b = ilog2_bounds [OF pos]
  have "(2::rat) powi (-27) \<le> 1 / 10 ^ 8" by (simp add: power_int_minus field_simps)
  then have "2 powi (-27) < (2::rat) powi (ilog2 p + 1)" using b assms by linarith
  then have "-27 < ilog2 p + 1" by (simp only: powi_less_iff)
  then show thesis using b by (intro that [of "ilog2 p"]) simp_all
qed

lemma half_powi: "(2::rat) powi (k + 1) = 2 * 2 powi k"
  by (simp add: power_int_add)

lemma powi_shift: "(2::rat) powi (k - n) = 2 powi k * 2 powi (- n)"
  by (simp flip: power_int_add)

text \<open>A factor visibly below or above one moves a price, also after rounding.\<close>

lemma fmul_strict_less:
  assumes p: "1 / 10 ^ 8 \<le> p" and c: "c \<le> 1 - 2 powi (-50)"
  shows "fmul p c < p"
proof -
  obtain k where k: "2 powi k \<le> p" "p < 2 powi (k + 1)" "-1020 \<le> k" using price_scale [OF p] .
  have pos: "0 < p" using k(1) zero_less_power_int [of "2::rat" k] by linarith
  let ?x = "p * (1 - 2 powi (-50))"
  have x: "0 \<le> ?x" "?x \<le> p" using pos by (simp_all add: power_int_minus field_simps)
  then have "\<bar>?x\<bar> < 2 powi (k + 1)" using k(2) by linarith
  then have err: "\<bar>fl ?x - ?x\<bar> \<le> 2 powi (k + 1 - 54)" using k(3) by (intro fl_error) simp_all
  have "(2::rat) powi (k + 1 - 54) = 2 powi k * 2 powi (-53)" using powi_shift [of k 53] by (simp add: algebra_simps)
  also have "\<dots> < 2 powi k * 2 powi (-50)" by (intro mult_strict_left_mono) simp_all
  also have "\<dots> \<le> p * 2 powi (-50)" using k(1) by (intro mult_right_mono) simp_all
  finally have "fl ?x < p" using err by (simp add: right_diff_distrib abs_le_iff)
  moreover have "fmul p c \<le> fl ?x"
    unfolding fmul_def using pos c by (intro fl_mono mult_left_mono) simp_all
  ultimately show ?thesis by linarith
qed

lemma fmul_strict_greater:
  assumes p: "1 / 10 ^ 8 \<le> p" and c: "1 + 2 powi (-50) \<le> c"
  shows "p < fmul p c"
proof -
  obtain k where k: "2 powi k \<le> p" "p < 2 powi (k + 1)" "-1020 \<le> k" using price_scale [OF p] .
  have pos: "0 < p" using k(1) zero_less_power_int [of "2::rat" k] by linarith
  let ?x = "p * (1 + 2 powi (-50))"
  have "?x \<le> p * 2" using pos by (intro mult_left_mono) (simp_all add: power_int_minus)
  also have "\<dots> < 2 powi (k + 1 + 1)" using k(2) half_powi [of "k + 1"] by simp
  finally have "\<bar>?x\<bar> < 2 powi (k + 2)" using pos by (simp add: abs_mult power_int_minus add.commute)
  then have err: "\<bar>fl ?x - ?x\<bar> \<le> 2 powi (k + 2 - 54)" using k(3) by (intro fl_error) simp_all
  have "(2::rat) powi (k + 2 - 54) = 2 powi k * 2 powi (-52)" using powi_shift [of k 52] by (simp add: algebra_simps)
  also have "\<dots> < 2 powi k * 2 powi (-50)" by (intro mult_strict_left_mono) simp_all
  also have "\<dots> \<le> p * 2 powi (-50)" using k(1) by (intro mult_right_mono) simp_all
  finally have "p < fl ?x" using err by (simp add: distrib_left abs_le_iff)
  moreover have "fl ?x \<le> fmul p c"
    unfolding fmul_def using pos c by (intro fl_mono mult_left_mono) simp_all
  ultimately show ?thesis by linarith
qed

section \<open>Live prices and degenerate bars\<close>

text \<open>
  The live evaluator raises the extremes before it looks at the trailing stop, the bar evaluator
  after.  The states of the two runs differ in the flag only: \<open>armed\<close> is what both agree on.
\<close>

definition armed :: "pstate \<Rightarrow> bool" where
  "armed s = (pt_active s \<or> reaches_activation s)"

definition with_price :: "rat \<Rightarrow> pstate \<Rightarrow> pstate" where
  "with_price p s = s\<lparr>pt_high := max (pt_high s) p, pt_low := min (pt_low s) p\<rparr>"

definition same_protection :: "pstate \<Rightarrow> pstate \<Rightarrow> bool" where
  "same_protection s b = (b = s\<lparr>pt_active := pt_active b\<rparr> \<and> armed s = armed b)"

definition trail_level :: "pstate \<Rightarrow> rat" where
  "trail_level s = (if is_long s then fmul (pt_high s) (fsub 1 (sp_trail (pt_spec s)))
                    else fmul (pt_low s) (fadd 1 (sp_trail (pt_spec s))))"

definition trails :: "pstate \<Rightarrow> bool" where
  "trails s = (0 < sp_trail (pt_spec s) \<and> armed s)"

lemma trailing_trigger_eq:
  "trailing_trigger s = (if trails s then Some (trail_level s) else None,
     if sp_trail (pt_spec s) \<le> 0 then s else s\<lparr>pt_active := armed s\<rparr>)"
  by (simp add: trailing_trigger_def trails_def armed_def trail_level_def Let_def)

text \<open>The stop is hit at \<open>p\<close>.\<close>

definition trail_hit :: "pstate \<Rightarrow> rat \<Rightarrow> bool" where
  "trail_hit s p = (trails s \<and> (if is_long s then p \<le> trail_level s else trail_level s \<le> p))"

definition candidates_at :: "pstate \<Rightarrow> int \<Rightarrow> rat \<Rightarrow> bool \<Rightarrow> rat \<Rightarrow> pdecision list" where
  "candidates_at s ts p hit level =
     (if 0 < sp_stop (pt_spec s) \<and> (if is_long s then p \<le> stop_trigger s else stop_trigger s \<le> p)
      then [decision s Stop_Loss p (stop_trigger s) ts] else [])
     @ (if hit then [decision s Trailing_Stop p level ts] else [])
     @ (if 0 < sp_take (pt_spec s) \<and> (if is_long s then take_trigger s \<le> p else p \<le> take_trigger s)
        then [decision s Take_Profit p (take_trigger s) ts] else [])
     @ (if time_limit_reached s ts then [decision s Time_Limit p p ts] else [])"

lemma price_candidates_eq:
  "price_candidates s ts p = (candidates_at s ts p (trail_hit s p) (trail_level s), snd (trailing_trigger s))"
  by (simp add: price_candidates_def trailing_trigger_eq candidates_at_def trail_hit_def Let_def)

lemma bar_candidates_eq:
  "bar_candidates s ts p p p = (candidates_at s ts p (trail_hit s p) (trail_level s), snd (trailing_trigger s))"
  by (simp add: bar_candidates_def trailing_trigger_eq candidates_at_def trail_hit_def Let_def)

lemma with_price_simps [simp]:
  "is_long (with_price p s) = is_long s" "pt_spec (with_price p s) = pt_spec s" "pt_entry (with_price p s) = pt_entry s"
  "stop_trigger (with_price p s) = stop_trigger s" "take_trigger (with_price p s) = take_trigger s"
  "time_limit_reached (with_price p s) ts = time_limit_reached s ts"
  "decision (with_price p s) r x t ts = decision s r x t ts" "pt_active (with_price p s) = pt_active s"
  "pt_high (with_price p s) = max (pt_high s) p" "pt_low (with_price p s) = min (pt_low s) p"
  by (simp_all add: with_price_def is_long_def stop_trigger_def take_trigger_def time_limit_reached_def decision_def)

lemma active_simps [simp]:
  "is_long (s\<lparr>pt_active := a\<rparr>) = is_long s" "stop_trigger (s\<lparr>pt_active := a\<rparr>) = stop_trigger s"
  "take_trigger (s\<lparr>pt_active := a\<rparr>) = take_trigger s" "trail_level (s\<lparr>pt_active := a\<rparr>) = trail_level s"
  "time_limit_reached (s\<lparr>pt_active := a\<rparr>) ts = time_limit_reached s ts"
  "decision (s\<lparr>pt_active := a\<rparr>) r x t ts = decision s r x t ts"
  "reaches_activation (s\<lparr>pt_active := a\<rparr>) = reaches_activation s"
  by (simp_all add: is_long_def stop_trigger_def take_trigger_def time_limit_reached_def decision_def
      reaches_activation_def trail_level_def)

text \<open>A price that is a new extreme in the position's favour never hits the stop, before or after the
  extreme is raised; otherwise the level stays.\<close>

lemma trail_hit_with_price:
  assumes g: "good_state s" and p: "good_price p"
  shows "trail_hit (with_price p s) p = trail_hit s p
    \<and> (trail_hit s p \<longrightarrow> trail_level (with_price p s) = trail_level s)"
proof (cases "sp_trail (pt_spec s) \<le> 0")
  case True
  then show ?thesis by (simp add: trail_hit_def trails_def)
next
  case False
  let ?q = "sp_trail (pt_spec s)"
  have q: "2 powi (-50) \<le> ?q" "?q \<le> 1" using g False by (simp_all add: good_state_def)
  have b: "fsub 1 ?q \<le> 1 - 2 powi (-50)"
  proof -
    have "fl (1 - ?q) \<le> fl (1 - 2 powi (-50))" using q by (intro fl_mono) simp
    also have "fl (1 - 2 powi (-50)) = (1 - 2 powi (-50) :: rat)"
      using fl_representable [of "2 ^ 50 - 1" "-50"] by (simp add: power_int_minus field_simps)
    finally show ?thesis by (simp add: fsub_def)
  qed
  have a: "1 + 2 powi (-50) \<le> fadd 1 ?q"
  proof -
    have "fl (1 + 2 powi (-50)) \<le> fl (1 + ?q)" using q by (intro fl_mono) simp
    moreover have "fl (1 + 2 powi (-50)) = (1 + 2 powi (-50) :: rat)"
      using fl_representable [of "2 ^ 50 + 1" "-50"] by (simp add: power_int_minus field_simps)
    ultimately show ?thesis by (simp add: fadd_def)
  qed
  have h: "is_float (pt_high s)" "1 / 10 ^ 8 \<le> pt_high s" "is_float (pt_low s)" "1 / 10 ^ 8 \<le> pt_low s"
    "1 / 10 ^ 8 \<le> p" using g p by (simp_all add: good_state_def good_price_def)
  show ?thesis
  proof (cases "is_long s")
    case True
    show ?thesis
    proof (cases "pt_high s < p")
      case new: True
      have "fmul (pt_high s) (fsub 1 ?q) < p" using fmul_strict_less [OF h(2) b] new by linarith
      moreover have "fmul p (fsub 1 ?q) < p" by (rule fmul_strict_less [OF h(5) b])
      ultimately show ?thesis using True new by (simp add: trail_hit_def trail_level_def)
    next
      case old: False
      then show ?thesis
        using True by (simp add: trail_hit_def trail_level_def trails_def armed_def reaches_activation_def max_def)
    qed
  next
    case short: False
    show ?thesis
    proof (cases "p < pt_low s")
      case new: True
      have "p < fmul (pt_low s) (fadd 1 ?q)" using fmul_strict_greater [OF h(4) a] new by linarith
      moreover have "p < fmul p (fadd 1 ?q)" by (rule fmul_strict_greater [OF h(5) a])
      ultimately show ?thesis using short new by (simp add: trail_hit_def trail_level_def)
    next
      case old: False
      then show ?thesis
        using short by (simp add: trail_hit_def trail_level_def trails_def armed_def reaches_activation_def min_def)
    qed
  qed
qed

lemma reaches_activation_with_price: "reaches_activation s \<Longrightarrow> reaches_activation (with_price p s)"
  by (auto simp: reaches_activation_def le_max_iff_disj min_le_iff_disj)

lemma good_with_price: "good_state s \<Longrightarrow> good_price p \<Longrightarrow> good_state (with_price p s)"
  by (auto simp: good_state_def good_price_def max_def min_def)

lemma candidates_same:
  assumes g: "good_state s" and p: "good_price p" and same: "same_protection s b"
  shows "fst (price_candidates (with_price p s) ts p) = fst (bar_candidates b ts p p p)"
proof -
  obtain a where b: "b = s\<lparr>pt_active := a\<rparr>" and arm: "armed s = armed b"
    using same by (auto simp: same_protection_def)
  have hit: "trail_hit s p = trail_hit b p" using arm by (simp add: trail_hit_def trails_def b)
  note w = trail_hit_with_price [OF g p]
  have "candidates_at (with_price p s) ts p (trail_hit (with_price p s) p) (trail_level (with_price p s))
      = candidates_at s ts p (trail_hit s p) (trail_level s)"
    using w by (auto simp: candidates_at_def)
  also have "\<dots> = candidates_at b ts p (trail_hit b p) (trail_level b)"
    unfolding hit by (simp add: candidates_at_def b)
  finally show ?thesis by (simp add: price_candidates_eq bar_candidates_eq)
qed

lemma states_same:
  assumes same: "same_protection s b"
  shows "same_protection (snd (trailing_trigger (with_price p s))) (with_price p (snd (trailing_trigger b)))"
proof -
  obtain a where b: "b = s\<lparr>pt_active := a\<rparr>" and arm: "armed s = armed b"
    using same by (auto simp: same_protection_def)
  have wb: "with_price p (s\<lparr>pt_active := x\<rparr>) = (with_price p s)\<lparr>pt_active := x\<rparr>" for x
    by (simp add: with_price_def)
  show ?thesis
    using arm reaches_activation_with_price [of s p]
    by (auto simp: same_protection_def trailing_trigger_eq b wb armed_def)
qed

lemma good_trailing: "good_state (snd (trailing_trigger s)) = good_state s"
  by (simp add: trailing_trigger_eq good_state_def)

lemma choose_exit_None: "choose_exit m ds r = None \<longleftrightarrow> ds = []"
  by (simp add: choose_exit_def split: list.split)

text \<open>C13. Live sessions protect as backtests do: on any sequence of prices the live evaluator takes the
  same decision, at the same price, trigger and time, as the bar evaluator on the bars that hold
  just that price, although the two update their extremes and arm the trailing stop at different
  moments.\<close>

theorem live_refines_backtest:
  assumes "good_state s" and "\<forall>(ts, p) \<in> set ticks. good_price p"
  shows "run_ticks m ticks s = run_bars m (map (\<lambda>(ts, p). (ts, p, p, p)) ticks) s"
proof -
  have "run_ticks m ticks s = run_bars m (map (\<lambda>(ts, p). (ts, p, p, p)) ticks) b"
    if "good_state s" "same_protection s b" "\<forall>(ts, p) \<in> set ticks. good_price p" for s b
    using that
  proof (induction ticks arbitrary: s b)
    case (Cons tick ticks)
    obtain ts p where tick: "tick = (ts, p)" by (cases tick)
    have p: "good_price p" using Cons.prems(3) tick by simp
    have "(0::rat) < 1 / 10 ^ 8" by simp
    then have pos: "\<not> p \<le> 0" using p by (simp only: good_price_def) linarith
    define cs where "cs = fst (bar_candidates b ts p p p)"
    have cs: "cs = fst (price_candidates (with_price p s) ts p)"
      using candidates_same [OF Cons.prems(1) p Cons.prems(2)] by (simp add: cs_def)
    have live: "evaluate_price m s ts p = (choose_exit m cs p, snd (trailing_trigger (with_price p s)))"
      using pos unfolding cs by (simp add: evaluate_price_def price_candidates_eq with_price_def [symmetric])
    have bar: "evaluate_bar m b ts p p p
        = (choose_exit m cs p, if cs = [] then with_price p (snd (trailing_trigger b)) else snd (trailing_trigger b))"
      unfolding cs_def
      by (simp add: evaluate_bar_def bar_candidates_eq with_price_def choose_exit_def split: list.split option.split)
    show ?case
    proof (cases "cs = []")
      case True
      have "good_state (snd (trailing_trigger (with_price p s)))"
        using good_with_price [OF Cons.prems(1) p] by (simp add: good_trailing)
      moreover have "same_protection (snd (trailing_trigger (with_price p s))) (with_price p (snd (trailing_trigger b)))"
        by (rule states_same [OF Cons.prems(2)])
      ultimately show ?thesis
        using Cons.IH Cons.prems(3) True by (simp add: tick live bar choose_exit_def)
    next
      case False
      then obtain d where "choose_exit m cs p = Some d" using choose_exit_None [of m cs p] by auto
      then show ?thesis by (simp add: tick live bar)
    qed
  qed simp
  with assms show ?thesis by (simp add: same_protection_def)
qed

definition demo_spec :: pspec where
  "demo_spec = \<lparr>sp_stop = 1 / 2, sp_take = 0, sp_trail = 1 / 4, sp_activation = 1 / 4, sp_limit = 0, sp_rebase = True\<rparr>"

definition demo_state :: pstate where
  "demo_state = open_state ''BTC'' ''long'' 64 demo_spec 0"

lemma demo_good: "good_state demo_state"
  using is_float_numeral [of "Num.Bit0 (Num.Bit0 (Num.Bit0 (Num.Bit0 (Num.Bit0 (Num.Bit0 Num.One)))))"]
  by (simp add: good_state_def demo_state_def open_state_def demo_spec_def good_price_def power_int_minus)

text \<open>64, up to 96, which arms the stop at 72, down to 70: the trailing stop closes at 70.\<close>

lemma live_refines_backtest_witness:
  "run_bars Conservative [(1, 96, 96, 96), (2, 70, 70, 70)] demo_state
     = Some (decision demo_state Trailing_Stop 70 72 2)"
proof -
  have "good_price 96" "good_price 70"
    using is_float_numeral [of "Num.Bit0 (Num.Bit0 (Num.Bit0 (Num.Bit0 (Num.Bit0 (Num.Bit1 Num.One)))))"]
      is_float_numeral [of "Num.Bit0 (Num.Bit1 (Num.Bit1 (Num.Bit0 (Num.Bit0 (Num.Bit0 Num.One)))))"]
    by (simp_all add: good_price_def)
  then have "run_bars Conservative [(1, 96, 96, 96), (2, 70, 70, 70)] demo_state
      = run_ticks Conservative [(1, 96), (2, 70)] demo_state"
    using live_refines_backtest [of demo_state "[(1, 96), (2, 70)]" Conservative] demo_good by simp
  also have "\<dots> = Some (decision demo_state Trailing_Stop 70 72 2)" by code_simp
  finally show ?thesis .
qed

section \<open>Saving and restoring\<close>

definition spec_ok :: "pspec \<Rightarrow> bool" where
  "spec_ok s = (spec_enabled s \<and> 0 \<le> sp_stop s \<and> sp_stop s \<le> 1 \<and> 0 \<le> sp_take s \<and> sp_take s \<le> 5
     \<and> 0 \<le> sp_trail s \<and> sp_trail s \<le> 1 \<and> 0 \<le> sp_activation s \<and> sp_activation s \<le> 5 \<and> 0 \<le> sp_limit s)"

lemma make_spec_ok: "spec_enabled (make_spec a b c d e r) \<Longrightarrow> spec_ok (make_spec a b c d e r)"
  by (simp add: spec_ok_def make_spec_def ratio_of_def)

lemma spec_from_value_ok:
  assumes "spec_from_value v ov t r = Some s"
  shows "spec_ok s"
proof -
  have "\<exists>a b c d e. spec_from_value v ov t r
      = (if spec_enabled (make_spec a b c d e r) then Some (make_spec a b c d e r) else None)"
    unfolding spec_from_value_def Let_def by (intro exI, rule refl)
  with assms make_spec_ok show ?thesis by (metis option.inject option.distinct(1))
qed

lemma spec_metadata_roundtrip:
  assumes "spec_ok s"
  shows "spec_from_value (spec_metadata s) (\<lambda>_. None) None (Some (JBool (sp_rebase s))) = Some s"
proof -
  have "make_spec (Some (sp_stop s)) (Some (sp_take s)) (Some (sp_trail s)) (Some (sp_activation s))
      (Some (of_int (sp_limit s))) (Some (JBool (sp_rebase s))) = s"
    using assms by (simp add: make_spec_def ratio_of_def number_def boolean_of_def spec_ok_def)
  then show ?thesis
    using assms by (simp add: spec_from_value_def spec_metadata_def get_num_def spec_ok_def Let_def)
qed

text \<open>A protection state survives a restart: restoring the saved state gives it back, whatever the
  time of the restart, with its extremes clipped to include the entry price; so it is the same
  state when they did.  Every specification the parser accepts qualifies.\<close>

theorem protection_roundtrip:
  assumes "spec_ok (pt_spec s)" and "0 < pt_entry s" and "0 < pt_low s"
    and "py_lower (pt_side s) = pt_side s" and "pt_side s \<noteq> []"
  shows "state_from_metadata (state_metadata s) now
      = Some (s\<lparr>pt_high := max (pt_entry s) (pt_high s), pt_low := min (pt_entry s) (pt_low s)\<rparr>)
    \<and> (pt_low s \<le> pt_entry s \<and> pt_entry s \<le> pt_high s \<longrightarrow> state_from_metadata (state_metadata s) now = Some s)"
proof -
  have "state_from_metadata (state_metadata s) now
      = Some (s\<lparr>pt_high := max (pt_entry s) (pt_high s), pt_low := min (pt_entry s) (pt_low s)\<rparr>)"
    using assms
    by (simp add: state_from_metadata_def state_metadata_def spec_metadata_roundtrip number_def opt_str_def
        open_state_def Let_def)
  then show ?thesis by (auto simp: max_def min_def)
qed

lemma protection_roundtrip_witness: "state_from_metadata (state_metadata demo_state) 9 = Some demo_state"
proof -
  have side: "pt_side demo_state = ''long''" by code_simp
  moreover have "py_lower ''long'' = ''long''" by code_simp
  ultimately show ?thesis
    using protection_roundtrip [of demo_state 9]
    by (simp add: demo_state_def open_state_def demo_spec_def spec_ok_def spec_enabled_def)
qed

section \<open>Exits on a bar\<close>

lemma first_min_in: "first_min f x ys \<in> set (x # ys)"
  by (induction f x ys rule: first_min.induct) (auto split: if_splits)

lemma first_min_le: "y \<in> set (x # ys) \<Longrightarrow> f (first_min f x ys) \<le> f y"
proof (induction f x ys arbitrary: y rule: first_min.induct)
  case (2 f x z zs)
  have le: "f (first_min f (if f z < f x then z else x) zs) \<le> f w" if "w \<in> set ((if f z < f x then z else x) # zs)" for w
    using 2 that by blast
  have "f (first_min f (if f z < f x then z else x) zs) \<le> f x" "f (first_min f (if f z < f x then z else x) zs) \<le> f z"
    using le [of "if f z < f x then z else x"] by (auto split: if_splits)
  then show ?case using 2 le by auto
qed simp

lemma pick_in: "pick m r x xs \<in> set (x # xs)"
  unfolding pick_def by (cases m) (simp_all only: intrabar_mode.case first_min_in)

lemma choose_exit_in: "choose_exit m ds r = Some d \<Longrightarrow> d \<in> set ds"
  using pick_in [of m r] by (cases ds) (auto simp: choose_exit_def simp del: set_simps)

lemma choose_conservative:
  assumes "choose_exit Conservative ds r = Some d" and "e \<in> set ds" and "dc_reason e = Stop_Loss"
  shows "dc_reason d = Stop_Loss"
proof -
  obtain x xs where ds: "ds = x # xs" using assms(2) by (cases ds) auto
  have "conservative_priority (dc_reason d) \<le> conservative_priority (dc_reason e)"
    using assms(1,2) first_min_le [of e x xs "conservative_priority \<circ> dc_reason"]
    by (simp add: choose_exit_def pick_def ds)
  then show ?thesis using assms(3) by (cases "dc_reason d") simp_all
qed

lemma evaluate_bar_Some:
  assumes "evaluate_bar m s ts opn h l = (Some d, s')"
  shows "choose_exit m (fst (bar_candidates s ts opn (max opn h) (min opn l))) opn = Some d"
  using assms by (auto simp: evaluate_bar_def Let_def split: prod.splits option.splits)

definition exit_price_ok :: "pstate \<Rightarrow> rat \<Rightarrow> rat \<Rightarrow> pdecision \<Rightarrow> bool" where
  "exit_price_ok s low high d =
     (low \<le> dc_price d \<and> dc_price d \<le> high
      \<and> (dc_reason d \<in> {Stop_Loss, Trailing_Stop} \<longrightarrow> (if is_long s then dc_price d \<le> dc_trigger d else dc_trigger d \<le> dc_price d))
      \<and> (dc_reason d = Take_Profit \<longrightarrow> (if is_long s then dc_trigger d \<le> dc_price d else dc_price d \<le> dc_trigger d)))"

lemma bar_candidate_ok:
  assumes "d \<in> set (fst (bar_candidates s ts opn high low))" and "low \<le> opn" and "opn \<le> high"
  shows "exit_price_ok s low high d"
  using assms
  by (auto simp: bar_candidates_def trailing_trigger_eq exit_price_ok_def decision_def Let_def split: if_splits)

text \<open>C14. An exit decided on a bar is one the bar allows: its price is between the bar's low and high; a
  stop or trailing stop never gets a better price than its trigger (a gap fills at the open),
  a take profit never a worse one; and in the conservative mode a bar that touches the stop loss
  always exits by it.\<close>

theorem bar_exit_price:
  assumes "evaluate_bar m s ts opn h l = (Some d, s')"
  shows "exit_price_ok s (min opn l) (max opn h) d
    \<and> (m = Conservative \<and> 0 < sp_stop (pt_spec s)
        \<and> (if is_long s then min opn l \<le> stop_trigger s else stop_trigger s \<le> max opn h) \<longrightarrow> dc_reason d = Stop_Loss)"
proof (intro conjI impI)
  note c = evaluate_bar_Some [OF assms]
  show "exit_price_ok s (min opn l) (max opn h) d"
    by (rule bar_candidate_ok [OF choose_exit_in [OF c]]) simp_all
  assume stop: "m = Conservative \<and> 0 < sp_stop (pt_spec s)
        \<and> (if is_long s then min opn l \<le> stop_trigger s else stop_trigger s \<le> max opn h)"
  let ?high = "max opn h" and ?low = "min opn l"
  have "\<exists>e \<in> set (fst (bar_candidates s ts opn ?high ?low)). dc_reason e = Stop_Loss"
    using stop by (cases "is_long s") (simp_all add: bar_candidates_def Let_def decision_def split: prod.split)
  then show "dc_reason d = Stop_Loss" using c stop choose_conservative by blast
qed

lemma bar_exit_price_witness:
  "\<exists>d. fst (evaluate_bar Conservative demo_state 5 30 40 20) = Some d \<and> dc_reason d = Stop_Loss \<and> dc_price d \<le> dc_trigger d"
proof -
  obtain d where d: "evaluate_bar Conservative demo_state 5 30 40 20 = (Some d, snd (evaluate_bar Conservative demo_state 5 30 40 20))"
    and r: "dc_reason d = Stop_Loss"
  proof -
    have "map_option dc_reason (fst (evaluate_bar Conservative demo_state 5 30 40 20)) = Some Stop_Loss" by code_simp
    then show thesis using that by (auto simp: prod_eq_iff)
  qed
  have "is_long demo_state" by code_simp
  with bar_exit_price [OF d] r d show ?thesis by (auto simp: exit_price_ok_def prod_eq_iff)
qed

section \<open>The trailing stop only tightens\<close>

lemma snd_evaluate_price:
  "snd (evaluate_price m s ts p) = (if p \<le> 0 then s else snd (trailing_trigger (with_price p s)))"
  by (simp add: evaluate_price_def price_candidates_eq with_price_def)

lemma snd_evaluate_bar:
  "snd (evaluate_bar m s ts opn h l) = snd (trailing_trigger s)
   \<or> snd (evaluate_bar m s ts opn h l)
       = (let s1 = snd (trailing_trigger s) in s1\<lparr>pt_high := max (pt_high s1) (max opn h), pt_low := min (pt_low s1) (min opn l)\<rparr>)"
proof -
  have "snd (bar_candidates s ts opn (max opn h) (min opn l)) = snd (trailing_trigger s)"
    by (cases "trailing_trigger s") (simp only: bar_candidates_def Let_def prod.case snd_conv)
  then obtain cs where "bar_candidates s ts opn (max opn h) (min opn l) = (cs, snd (trailing_trigger s))"
    by (cases "bar_candidates s ts opn (max opn h) (min opn l)") simp
  then show ?thesis
    by (cases "choose_exit m cs opn") (simp_all add: evaluate_bar_def Let_def)
qed

definition tightened :: "pstate \<Rightarrow> pstate \<Rightarrow> bool" where
  "tightened s s' = (pt_high s \<le> pt_high s' \<and> pt_low s' \<le> pt_low s \<and> pt_side s' = pt_side s \<and> pt_spec s' = pt_spec s
     \<and> pt_entry s' = pt_entry s \<and> (0 < sp_trail (pt_spec s) \<and> armed s \<longrightarrow> armed s'))"

lemma tightened_trans: "tightened a b \<Longrightarrow> tightened b c \<Longrightarrow> tightened a c"
  unfolding tightened_def by auto

lemma reaches_activation_mono:
  "reaches_activation s \<Longrightarrow> pt_high s \<le> h \<Longrightarrow> l \<le> pt_low s \<Longrightarrow> reaches_activation (s\<lparr>pt_high := h, pt_low := l\<rparr>)"
  by (auto simp: reaches_activation_def is_long_def)

lemma tightened_extremes: "pt_high s \<le> h \<Longrightarrow> l \<le> pt_low s \<Longrightarrow> tightened s (s\<lparr>pt_high := h, pt_low := l\<rparr>)"
  using reaches_activation_mono [of s h l] by (auto simp: tightened_def armed_def)

lemma tightened_trigger: "tightened s (snd (trailing_trigger s))"
  by (auto simp: tightened_def trailing_trigger_eq armed_def)

lemma extremes_after:
  assumes "s' = snd (evaluate_price m s ts p) \<or> s' = snd (evaluate_bar m s ts opn h l)"
  shows "tightened s s'"
  using assms
proof
  assume s': "s' = snd (evaluate_price m s ts p)"
  have "tightened s (with_price p s)" unfolding with_price_def by (rule tightened_extremes) simp_all
  then have "tightened s (snd (trailing_trigger (with_price p s)))" using tightened_trigger by (rule tightened_trans)
  then show ?thesis by (simp add: s' snd_evaluate_price tightened_def)
next
  assume s': "s' = snd (evaluate_bar m s ts opn h l)"
  let ?t = "snd (trailing_trigger s)"
  have "tightened ?t (?t\<lparr>pt_high := max (pt_high ?t) (max opn h), pt_low := min (pt_low ?t) (min opn l)\<rparr>)"
    by (rule tightened_extremes) simp_all
  then show ?thesis
    using snd_evaluate_bar [of m s ts opn h l] tightened_trigger [of s] tightened_trans unfolding s' Let_def by metis
qed

text \<open>A trailing stop only tightens: evaluating a price or a bar never lowers the stop of an armed
  long position, never raises that of a short one, and never disarms it.\<close>

theorem trailing_stop_ratchets:
  assumes s': "s' = snd (evaluate_price m s ts p) \<or> s' = snd (evaluate_bar m s ts opn h l)"
    and armed: "trails s" and q: "sp_trail (pt_spec s) \<le> 1"
  shows "trails s' \<and> (if is_long s then trail_level s \<le> trail_level s' else trail_level s' \<le> trail_level s)"
proof -
  note e = extremes_after [OF s', unfolded tightened_def]
  have side: "is_long s' = is_long s" using e by (simp add: is_long_def)
  have "trails s'" using e armed by (simp add: trails_def)
  moreover have "0 \<le> fsub 1 (sp_trail (pt_spec s))" using q by (rule fsub_nonneg)
  then have "trail_level s \<le> trail_level s'" if "is_long s"
    using that e side unfolding trail_level_def fmul_def by (auto intro!: fl_mono mult_right_mono)
  moreover have "0 \<le> fadd 1 (sp_trail (pt_spec s))" using armed by (intro fadd_nonneg) (simp_all add: trails_def)
  then have "trail_level s' \<le> trail_level s" if "\<not> is_long s"
    using that e side unfolding trail_level_def fmul_def by (auto intro!: fl_mono mult_right_mono)
  ultimately show ?thesis by simp
qed

lemma trailing_stop_ratchets_witness:
  "trails (snd (evaluate_price Conservative (demo_state\<lparr>pt_high := 96, pt_active := True\<rparr>) 3 100))"
proof -
  let ?s = "demo_state\<lparr>pt_high := 96, pt_active := True\<rparr>"
  have "trails ?s" by code_simp
  moreover have "sp_trail (pt_spec ?s) \<le> 1" by (simp add: demo_state_def open_state_def demo_spec_def)
  ultimately show ?thesis
    using trailing_stop_ratchets [of "snd (evaluate_price Conservative ?s 3 100)" Conservative ?s 3 100] by blast
qed

end
