(* ===== verification/Grid_Levels.thy ===== *)
theory Grid_Levels
  imports Py_Float
begin

text \<open>
  The grid's geometry, \<open>services/grid/levels.py\<close>, its configuration (\<open>config.py\<close>) and the checks
  before a live start (\<open>validator.py\<close>).

  Python computes \<open>x ** y\<close> on floats with the platform's C library, whose rounding the language
  does not fix: it is the parameter \<open>fpow\<close>, and no theorem assumes anything of it.
\<close>

section \<open>Configuration\<close>

record grid_cfg =
  upper_price :: rat
  lower_price :: rat
  grid_count :: int
  amount_per_grid :: rat
  amount_per_grid_pct :: rat
  grid_mode :: string
  grid_direction :: string
  initial_position_pct :: rat
  order_mode :: string
  boundary_action :: string
  leverage :: rat
  market_type :: string
  margin_mode :: string
  grid_count_unit :: string
  max_open_orders :: int
  min_spread :: rat
  order_frequency :: int

text \<open>\<open>_pct\<close> on a number: 30 and 0.3 both stand for 30 per cent.\<close>

definition pct :: "rat \<Rightarrow> rat" where
  "pct x = (if 1 < x then fdiv x 100 else max 0 x)"

text \<open>1 is read as 100 per cent, any percentage above it as that many hundredths: a setting raised
  from 1 to 2 drops from the whole capital to a fiftieth of it.\<close>

lemma pct_drops_above_one: "pct 1 = 1 \<and> pct 2 \<le> 1/2"
proof -
  have "fl (2 / 100) \<le> fl (1 / 2)" by (rule fl_mono) simp
  moreover have "fl (1 / 2) = 1 / 2" using fl_representable [of 1 "-1"] by (simp add: power_int_minus)
  ultimately show ?thesis by (simp add: pct_def fdiv_def)
qed

text \<open>
  \<open>GridBotConfig.from_trading_config\<close> on the values of the two dictionaries after their key aliases
  are resolved and the numbers converted (\<open>_float\<close>, \<open>_int\<close> with their defaults); a text is
  \<open>[]\<close> when its keys are missing or empty.
\<close>

definition keyword :: "string \<Rightarrow> string \<Rightarrow> string" where
  "keyword d s = py_lower (py_strip (str_or s d))"

definition one_of :: "string list \<Rightarrow> string \<Rightarrow> string \<Rightarrow> string" where
  "one_of ks d s = (if s \<in> set ks then s else d)"

definition perpetual_alias :: "string \<Rightarrow> string" where
  "perpetual_alias mt = (if mt \<in> {''futures'', ''future'', ''perp'', ''perpetual''} then ''swap'' else mt)"

definition from_trading_config :: "grid_cfg \<Rightarrow> grid_cfg" where
  "from_trading_config raw = \<lparr>
     upper_price = upper_price raw, lower_price = lower_price raw,
     grid_count = max 2 (grid_count raw),
     amount_per_grid = amount_per_grid raw, amount_per_grid_pct = pct (amount_per_grid_pct raw),
     grid_mode = keyword ''arithmetic'' (grid_mode raw),
     grid_direction = one_of [''long'', ''short'', ''neutral''] ''long'' (keyword ''long'' (grid_direction raw)),
     initial_position_pct =
       (if keyword ''long'' (grid_direction raw) = ''neutral'' then 0 else pct (initial_position_pct raw)),
     order_mode = keyword ''maker'' (order_mode raw),
     boundary_action = one_of [''pause'', ''stop_loss'', ''hold''] ''pause'' (keyword ''pause'' (boundary_action raw)),
     leverage = max 1 (leverage raw),
     market_type = perpetual_alias (keyword ''swap'' (market_type raw)),
     margin_mode = keyword ''cross'' (margin_mode raw),
     grid_count_unit = one_of [''lines'', ''cells''] ''lines'' (keyword ''lines'' (grid_count_unit raw)),
     max_open_orders = max 1 (max_open_orders raw),
     min_spread = pct (min_spread raw),
     order_frequency = max 0 (order_frequency raw)\<rparr>"

definition grid_line_count :: "grid_cfg \<Rightarrow> int" where
  "grid_line_count c = (if grid_count_unit c = ''cells'' then grid_count c + 1 else grid_count c)"

definition tradable_cell_count :: "grid_cfg \<Rightarrow> int" where
  "tradable_cell_count c = max 1 (grid_line_count c - 1)"

section \<open>Levels and cells\<close>

record cell_spec =
  cs_index :: int
  cs_lower :: rat
  cs_upper :: rat

definition generate_levels ::
  "(rat \<Rightarrow> rat \<Rightarrow> rat) \<Rightarrow> rat \<Rightarrow> rat \<Rightarrow> int \<Rightarrow> string \<Rightarrow> rat list" where
  "generate_levels fpow lo hi count mode =
     (let n = max 2 count in
      if hi \<le> lo then []
      else if py_lower mode = ''geometric'' \<and> 0 < lo then
        let ratio = fpow (fdiv hi lo) (fdiv 1 (of_int (n - 1))) in
        map (\<lambda>i. fmul lo (fpow ratio (of_nat i))) [0..<nat n]
      else
        let step = fdiv (fsub hi lo) (of_int (n - 1)) in
        map (\<lambda>i. fadd lo (fmul step (of_nat i))) [0..<nat n])"

fun cells_from :: "int \<Rightarrow> rat list \<Rightarrow> cell_spec list" where
  "cells_from i (lo # hi # rest) =
     (if lo < hi then [\<lparr>cs_index = i, cs_lower = lo, cs_upper = hi\<rparr>] else [])
     @ cells_from (i + 1) (hi # rest)"
| "cells_from i _ = []"

definition generate_cells :: "rat list \<Rightarrow> cell_spec list" where
  "generate_cells levels = cells_from 0 levels"

definition levels_and_cells ::
  "(rat \<Rightarrow> rat \<Rightarrow> rat) \<Rightarrow> grid_cfg \<Rightarrow> rat list \<times> cell_spec list" where
  "levels_and_cells fpow c =
     (let levels = generate_levels fpow (lower_price c) (upper_price c) (grid_line_count c) (grid_mode c) in
      (levels, generate_cells levels))"

section \<open>Validation\<close>

datatype rejection =
  Bad_Bounds
| No_Amount
| Too_Few_Cells
| Unsupported_Direction string
| Bad_Initial_Position
| Too_Narrow rat rat
| Below_Min_Spread rat rat

definition fee_coverage :: rat where
  "fee_coverage = 5/4"

text \<open>Price distance of a cell less the fees of a round trip with their safety factor.\<close>

definition fee_margin :: "rat \<Rightarrow> cell_spec \<Rightarrow> rat" where
  "fee_margin fee c =
     fsub (fsub (cs_upper c) (cs_lower c))
          (fmul (fmul (fadd (cs_lower c) (cs_upper c)) (max 0 fee)) fee_coverage)"

definition checked :: "cell_spec \<Rightarrow> bool" where
  "checked c = (0 < cs_lower c \<and> cs_lower c < cs_upper c)"

definition worst_cell :: "rat \<Rightarrow> cell_spec list \<Rightarrow> (rat \<times> cell_spec) option" where
  "worst_cell fee cells =
     foldl (\<lambda>worst c.
        if \<not> checked c then worst
        else case worst of
          None \<Rightarrow> Some (fee_margin fee c, c)
        | Some w \<Rightarrow> if fee_margin fee c < fst w then Some (fee_margin fee c, c) else worst)
       None cells"

definition spread :: "cell_spec \<Rightarrow> rat" where
  "spread c = fdiv (fsub (cs_upper c) (cs_lower c)) (cs_lower c)"

definition effective_amount :: "grid_cfg \<Rightarrow> rat \<Rightarrow> rat" where
  "effective_amount c capital =
     (if 0 < amount_per_grid_pct c \<and> 0 < capital then fmul capital (amount_per_grid_pct c)
      else amount_per_grid c)"

text \<open>The result: \<open>None\<close> when the grid is accepted, and whether the initial position is warned about.\<close>

definition validate_grid_config ::
  "(rat \<Rightarrow> rat \<Rightarrow> rat) \<Rightarrow> grid_cfg \<Rightarrow> rat \<Rightarrow> rat \<Rightarrow> rejection option \<times> bool" where
  "validate_grid_config fpow c capital fee =
     (let amount = effective_amount c capital; cells = snd (levels_and_cells fpow c) in
      if upper_price c \<le> lower_price c then (Some Bad_Bounds, False)
      else if amount \<le> 0 then (Some No_Amount, False)
      else if cells = [] then (Some Too_Few_Cells, False)
      else if grid_direction c \<notin> {''long'', ''short'', ''neutral''}
      then (Some (Unsupported_Direction (grid_direction c)), False)
      else if initial_position_pct c < 0 \<or> 1 < initial_position_pct c then (Some Bad_Initial_Position, False)
      else case (case worst_cell fee cells of
              None \<Rightarrow> None
            | Some (m, w) \<Rightarrow> if m \<le> 0 then Some (Too_Narrow (cs_lower w) (cs_upper w)) else None) of
        Some r \<Rightarrow> (Some r, False)
      | None \<Rightarrow>
         (case (if 0 < min_spread c then find (\<lambda>x. checked x \<and> spread x < min_spread c) cells else None) of
            Some x \<Rightarrow> (Some (Below_Min_Spread (cs_lower x) (cs_upper x)), False)
          | None \<Rightarrow>
              (None, 0 < capital \<and> 0 < initial_position_pct c
                     \<and> fmul capital (initial_position_pct c) < fmul amount (1/2))))"

section \<open>Facts about cells\<close>

lemma cells_from_props:
  "c \<in> set (cells_from i ls) \<Longrightarrow>
     cs_lower c < cs_upper c \<and> i \<le> cs_index c \<and> cs_index c < i + int (length ls) - 1
     \<and> cs_lower c = ls ! nat (cs_index c - i) \<and> cs_upper c = ls ! nat (cs_index c - i + 1)"
proof (induction i ls rule: cells_from.induct)
  case (1 i lo hi rest)
  show ?case
  proof (cases "c \<in> set (cells_from (i + 1) (hi # rest))")
    case True
    note ih = "1.IH" [OF True]
    then have n: "nat (cs_index c - i) = Suc (nat (cs_index c - (i + 1)))"
      "nat (cs_index c - i + 1) = Suc (nat (cs_index c - (i + 1) + 1))" by linarith+
    from ih show ?thesis by (simp add: n)
  next
    case False
    with "1.prems" show ?thesis by (auto split: if_splits)
  qed
qed auto

lemma sorted_cells_from: "sorted_wrt (\<lambda>a b. cs_index a < cs_index b) (cells_from i ls)"
proof (induction i ls rule: cells_from.induct)
  case (1 i lo hi rest)
  then show ?case by (auto simp: sorted_wrt_append dest: cells_from_props)
qed auto

lemma distinct_cells_from: "distinct (map cs_index (cells_from i ls))"
proof -
  have "sorted_wrt (<) (map cs_index (cells_from i ls))"
    unfolding sorted_wrt_map by (rule sorted_cells_from)
  then show ?thesis by (simp add: strict_sorted_iff)
qed

lemma levels_length: "lo < hi \<Longrightarrow> length (generate_levels fpow lo hi n m) = nat (max 2 n)"
  by (simp add: generate_levels_def Let_def)

lemma arithmetic_levels_sorted:
  assumes "lo < hi" and "py_lower m \<noteq> ''geometric''"
  shows "sorted (generate_levels fpow lo hi n m)"
proof -
  let ?step = "fdiv (fsub hi lo) (of_int (max 2 n - 1))"
  have "0 \<le> fsub hi lo" using assms(1) by (intro fsub_nonneg) simp
  then have "0 \<le> ?step" by (intro fdiv_nonneg) auto
  then have "i \<le> j \<Longrightarrow> fadd lo (fmul ?step (of_nat i)) \<le> fadd lo (fmul ?step (of_nat j))" for i j
    unfolding fmul_def by (intro fadd_mono fl_mono mult_left_mono) auto
  then show ?thesis using assms by (auto simp: generate_levels_def Let_def sorted_iff_nth_mono)
qed

section \<open>An accepted grid earns its fees\<close>

lemma worst_cell_least:
  assumes "foldl (\<lambda>worst c.
        if \<not> checked c then worst
        else case worst of
          None \<Rightarrow> Some (fee_margin fee c, c)
        | Some w \<Rightarrow> if fee_margin fee c < fst w then Some (fee_margin fee c, c) else worst)
       w0 cells = r"
  shows "(\<forall>w. w0 = Some w \<longrightarrow> (\<exists>v. r = Some v \<and> fst v \<le> fst w))
     \<and> (\<forall>c \<in> set cells. checked c \<longrightarrow> (\<exists>v. r = Some v \<and> fst v \<le> fee_margin fee c))"
  using assms
proof (induction cells arbitrary: w0)
  case (Cons c cs)
  show ?case
    using Cons.IH [OF Cons.prems [simplified foldl_Cons]]
    by (cases w0) (fastforce split: if_splits)+
qed simp

lemma accepted_margin:
  assumes "fst (validate_grid_config fpow cfg capital fee) = None"
    and "c \<in> set (snd (levels_and_cells fpow cfg))" and "checked c"
  shows "0 < fee_margin fee c"
proof -
  let ?cells = "snd (levels_and_cells fpow cfg)"
  obtain v where v: "worst_cell fee ?cells = Some v" "fst v \<le> fee_margin fee c"
    using worst_cell_least [of fee None ?cells, OF refl] assms(2,3) unfolding worst_cell_def by blast
  with assms(1) have "0 < fst v"
    by (auto simp: validate_grid_config_def Let_def split: if_splits option.splits prod.splits)
  with v(2) show ?thesis by simp
qed

text \<open>Below \<open>tiny\<close> (far below any price) the relative error of binary64 is not bounded.\<close>

definition tiny :: rat where
  "tiny = 2 powi (-1000)"

definition unit_roundoff :: rat where
  "unit_roundoff = 1 / 2 ^ 53"

lemma tiny_pos: "0 < tiny"
  by (simp add: tiny_def)

lemma tiny_small: "tiny \<le> 1 / 10 ^ 20"
proof -
  have "tiny \<le> 2 powi (-70)" unfolding tiny_def by (intro power_int_increasing) auto
  also have "\<dots> \<le> 1 / 10 ^ 20" by (simp add: power_int_minus)
  finally show ?thesis .
qed

lemma fl_tiny: "fl tiny = tiny"
  unfolding tiny_def using fl_representable [of 1 "-1000"] by simp

lemma fl_rel_error:
  assumes "tiny \<le> \<bar>x\<bar>"
  shows "\<bar>fl x - x\<bar> \<le> \<bar>x\<bar> * unit_roundoff"
proof -
  have pos: "0 < \<bar>x\<bar>" by (rule less_le_trans [OF tiny_pos assms])
  let ?k = "ilog2 \<bar>x\<bar>"
  note b = ilog2_bounds [OF pos]
  have "(2::rat) powi (-1000) < 2 powi (?k + 1)"
    using assms b(2) unfolding tiny_def by (rule le_less_trans)
  then have k: "-1000 < ?k + 1" by (simp only: powi_less_iff)
  have "\<bar>fl x - x\<bar> \<le> 2 powi (?k + 1 - 54)" using b(2) k by (intro fl_error) auto
  also have "\<dots> = 2 powi ?k * unit_roundoff" by (simp add: power_int_diff unit_roundoff_def)
  also have "\<dots> \<le> \<bar>x\<bar> * unit_roundoff" using b(1) by (intro mult_right_mono) (auto simp: unit_roundoff_def)
  finally show ?thesis .
qed

lemma fl_lower: "tiny \<le> x \<Longrightarrow> x * (1 - unit_roundoff) \<le> fl x"
  using fl_rel_error [of x] tiny_pos by (simp add: right_diff_distrib abs_le_iff)

lemma fl_upper:
  assumes "y < fl x" and "tiny \<le> y"
  shows "y < x * (1 + unit_roundoff)"
proof -
  have "tiny < x" by (rule fl.less_D [OF fl_tiny]) (use assms in simp)
  then show ?thesis
    using fl_rel_error [of x] assms(1) tiny_pos by (simp add: distrib_left abs_le_iff)
qed

lemma margin_covers_fees:
  assumes lower: "1 / 10 ^ 8 \<le> cs_lower c" and "checked c" and fee: "1 / 10 ^ 8 \<le> fee"
    and margin: "0 < fee_margin fee c"
  shows "fee * (cs_lower c + cs_upper c) < cs_upper c - cs_lower c"
proof -
  define A where "A = cs_lower c + cs_upper c"
  define D where "D = cs_upper c - cs_lower c"
  define u where "u = 1 - unit_roundoff"
  define a where "a = fadd (cs_lower c) (cs_upper c)"
  define p where "p = fmul a fee"
  define R where "R = fmul p fee_coverage"
  have u: "1/2 \<le> u" "u \<le> 1" by (auto simp: u_def unit_roundoff_def)
  have fee0: "0 < fee" by (rule less_le_trans [OF _ fee]) simp
  have A: "1 / 10 ^ 8 \<le> A" using lower \<open>checked c\<close> by (simp add: checked_def A_def)
  have a: "A * u \<le> a"
    unfolding a_def fadd_def u_def A_def [symmetric]
    using tiny_small A by (intro fl_lower) simp
  have "1 / 10 ^ 8 / 2 \<le> A * u" using mult_mono [OF A u(1)] A by simp
  then have a0: "1 / 10 ^ 8 / 2 \<le> a" using a by linarith
  have af: "1 / 10 ^ 16 / 2 \<le> a * fee" using mult_mono [OF a0 fee] a0 by simp
  then have "a * fee * u \<le> p"
    unfolding p_def fmul_def u_def using tiny_small by (intro fl_lower) simp
  moreover have "1 / 10 ^ 16 / 4 \<le> a * fee * u" using mult_mono [OF af u(1)] af by simp
  ultimately have p0: "1 / 10 ^ 16 / 4 \<le> p" and p: "a * fee * u \<le> p" by linarith+
  have "p * fee_coverage * u \<le> R"
    unfolding R_def fmul_def u_def
    using tiny_small p0 by (intro fl_lower) (simp add: fee_coverage_def)
  moreover have "1 / 10 ^ 16 / 8 \<le> p * fee_coverage * u"
    using mult_mono [of "1 / 10 ^ 16 / 4" "p * fee_coverage" "1/2" u] p0 u by (simp add: fee_coverage_def)
  ultimately have R0: "1 / 10 ^ 16 / 8 \<le> R" and R: "p * (5/4) * u \<le> R"
    by (auto simp: fee_coverage_def)
  have "0 < fl (fl D - R)" using margin fee0
    by (simp add: fee_margin_def fsub_def D_def R_def p_def a_def)
  then have "R < fl D" using fl.pos_D by fastforce
  then have D: "R < D * (1 + unit_roundoff)" using R0 tiny_small by (intro fl_upper) auto
  have pos: "0 \<le> A * fee" using A fee0 by simp
  have "A * u * fee * u \<le> a * fee * u" using a fee0 u by (intro mult_right_mono) auto
  then have "A * u * fee * u \<le> p" using p by (rule order_trans)
  then have "A * u * fee * u * (5/4) * u \<le> p * (5/4) * u" using u by (intro mult_right_mono) auto
  then have "A * u * fee * u * (5/4) * u < D * (1 + unit_roundoff)"
    by (rule le_less_trans [OF order_trans [OF _ R] D])
  moreover have "A * u * fee * u * (5/4) * u = (A * fee) * (u * u * u * (5/4))" by (simp only: ac_simps)
  ultimately have "(A * fee) * (u * u * u * (5/4)) < D * (1 + unit_roundoff)" by (simp only:)
  moreover have "(A * fee) * (1 + unit_roundoff) \<le> (A * fee) * (u * u * u * (5/4))"
    using pos by (intro mult_left_mono) (simp_all add: u_def unit_roundoff_def)
  ultimately have "(A * fee) * (1 + unit_roundoff) < D * (1 + unit_roundoff)" by (rule le_less_trans [rotated])
  then have "A * fee < D" by (simp add: unit_roundoff_def)
  then show ?thesis by (simp add: A_def D_def mult.commute)
qed

text \<open>C15.  An accepted grid earns its fees.  When \<open>validate_grid_config\<close> accepts a configuration, buying any
  quantity at the lower price of any of its cells and selling it at the upper price (or the other
  way round, for a short cell) earns, in exact arithmetic, more than the fees of both fills at the
  validated rate; whatever \<open>**\<close> computes for a geometric grid.  The rounding errors of the check
  are absorbed by its safety factor as long as prices and the rate are not below 10^-8.\<close>

theorem accepted_cells_earn_fees:
  assumes accepted: "fst (validate_grid_config fpow cfg capital fee) = None"
    and cell: "c \<in> set (snd (levels_and_cells fpow cfg))"
    and lower: "1 / 10 ^ 8 \<le> cs_lower c"
    and fee: "fee = 0 \<or> 1 / 10 ^ 8 \<le> fee"
    and qty: "0 < qty"
  shows "fee * (qty * cs_lower c) + fee * (qty * cs_upper c) < qty * cs_upper c - qty * cs_lower c"
proof -
  let ?lo = "cs_lower c" and ?hi = "cs_upper c"
  have "cs_lower c < cs_upper c"
    using cell cells_from_props unfolding levels_and_cells_def generate_cells_def Let_def snd_conv by blast
  moreover have "0 < ?lo" using lower by (simp add: less_le_trans [of 0 "1/10^8"])
  ultimately have c: "checked c" by (simp add: checked_def)
  have "fee * (?lo + ?hi) < ?hi - ?lo"
  proof (cases "fee = 0")
    case True
    then show ?thesis using c by (simp add: checked_def)
  next
    case False
    with fee have fee: "1 / 10 ^ 8 \<le> fee" by simp
    then show ?thesis
      using accepted cell c lower by (intro margin_covers_fees accepted_margin)
  qed
  from mult_strict_left_mono [OF this qty] show ?thesis by (simp add: algebra_simps)
qed

definition demo_grid :: grid_cfg where
  "demo_grid = \<lparr>upper_price = 192, lower_price = 128, grid_count = 5, amount_per_grid = 64,
     amount_per_grid_pct = 0, grid_mode = ''arithmetic'', grid_direction = ''long'',
     initial_position_pct = 0, order_mode = ''maker'', boundary_action = ''pause'', leverage = 1,
     market_type = ''swap'', margin_mode = ''cross'', grid_count_unit = ''lines'', max_open_orders = 10,
     min_spread = 0, order_frequency = 0\<rparr>"

lemma demo_cells:
  "snd (levels_and_cells (*) demo_grid) =
     [\<lparr>cs_index = 0, cs_lower = 128, cs_upper = 144\<rparr>, \<lparr>cs_index = 1, cs_lower = 144, cs_upper = 160\<rparr>,
      \<lparr>cs_index = 2, cs_lower = 160, cs_upper = 176\<rparr>, \<lparr>cs_index = 3, cs_lower = 176, cs_upper = 192\<rparr>]"
  by code_simp

lemma demo_margins:
  "fee_margin (1/64) \<lparr>cs_index = 0, cs_lower = 128, cs_upper = 144\<rparr> = 171/16"
  "fee_margin (1/64) \<lparr>cs_index = 1, cs_lower = 144, cs_upper = 160\<rparr> = 161/16"
  "fee_margin (1/64) \<lparr>cs_index = 2, cs_lower = 160, cs_upper = 176\<rparr> = 151/16"
  "fee_margin (1/64) \<lparr>cs_index = 3, cs_lower = 176, cs_upper = 192\<rparr> = 141/16"
  by code_simp+

lemma demo_accepted: "fst (validate_grid_config (*) demo_grid 1024 (1/64)) = None"
  unfolding validate_grid_config_def Let_def demo_cells
  by (simp add: worst_cell_def checked_def demo_margins effective_amount_def demo_grid_def)

lemma accepted_cells_earn_fees_witness:
  "1 / 64 * (2 * 128) + 1 / 64 * (2 * 144) < (2 * 144 - 2 * 128 :: rat)"
  using accepted_cells_earn_fees
    [OF demo_accepted, of "\<lparr>cs_index = 0, cs_lower = 128, cs_upper = 144\<rparr>" 2]
  by (simp add: demo_cells)

end
