(* ===== verification/Grid_Cells.thy ===== *)
theory Grid_Cells
  imports Py_Float
begin

text \<open>
  The grid's two tables: the cells (\<open>qd_grid_cells\<close>, \<open>services/live_trading/grid_cells.py\<close>) and the
  resting limit orders (\<open>qd_grid_resting_orders\<close>, \<open>services/grid/resting_orders_repo.py\<close>), with the
  operations of their repositories.  Prices and quantities are \<open>DECIMAL(.., 8)\<close> columns, written
  with \<open>column 8\<close> and read with \<open>fl\<close>.  Time stamps and the JSON column \<open>extra\<close> are left out.
\<close>

section \<open>Cells\<close>

datatype cell_state = Idle | Buy_Open | Long_Held | Sell_Open | Short_Held

fun state_value :: "cell_state \<Rightarrow> string" where
  "state_value Idle = ''idle''"
| "state_value Buy_Open = ''buy_open''"
| "state_value Long_Held = ''long_held''"
| "state_value Sell_Open = ''sell_open''"
| "state_value Short_Held = ''short_held''"

definition parse_state :: "string \<Rightarrow> cell_state" where
  "parse_state raw =
     (case find (\<lambda>st. state_value st = py_lower (py_strip raw)) [Idle, Buy_Open, Long_Held, Sell_Open, Short_Held] of
        Some st \<Rightarrow> st
      | None \<Rightarrow> Idle)"

record cell_row =
  ce_strategy :: int
  ce_symbol :: string
  ce_index :: int
  ce_lower :: rat
  ce_upper :: rat
  ce_state :: string
  ce_leg_size :: rat
  ce_leg_entry :: rat
  ce_working :: string

text \<open>\<open>GridCell\<close>, the row with its numbers as floats and its state parsed.\<close>

record grid_cell =
  gc_index :: int
  gc_lower :: rat
  gc_upper :: rat
  gc_state :: cell_state
  gc_leg_size :: rat
  gc_leg_entry :: rat
  gc_working :: string

definition cell_from_row :: "cell_row \<Rightarrow> grid_cell" where
  "cell_from_row r = \<lparr>gc_index = ce_index r, gc_lower = fl (ce_lower r), gc_upper = fl (ce_upper r),
     gc_state = parse_state (ce_state r), gc_leg_size = fl (ce_leg_size r),
     gc_leg_entry = fl (ce_leg_entry r), gc_working = ce_working r\<rparr>"

definition cell_to_row :: "int \<Rightarrow> string \<Rightarrow> grid_cell \<Rightarrow> cell_row" where
  "cell_to_row sid symbol c = \<lparr>ce_strategy = sid, ce_symbol = symbol, ce_index = gc_index c,
     ce_lower = column 8 (gc_lower c), ce_upper = column 8 (gc_upper c),
     ce_state = state_value (gc_state c), ce_leg_size = column 8 (gc_leg_size c),
     ce_leg_entry = column 8 (gc_leg_entry c), ce_working = gc_working c\<rparr>"

definition cell_key :: "cell_row \<Rightarrow> int \<times> string \<times> int" where
  "cell_key r = (ce_strategy r, ce_symbol r, ce_index r)"

definition idle_row :: "int \<Rightarrow> string \<Rightarrow> int \<Rightarrow> rat \<Rightarrow> rat \<Rightarrow> cell_row" where
  "idle_row sid symbol i lo hi = \<lparr>ce_strategy = sid, ce_symbol = symbol, ce_index = i,
     ce_lower = column 8 lo, ce_upper = column 8 hi, ce_state = ''idle'',
     ce_leg_size = 0, ce_leg_entry = 0, ce_working = []\<rparr>"

text \<open>\<open>INSERT .. ON CONFLICT (strategy_id, symbol, cell_index) DO NOTHING\<close>.\<close>

definition insert_cell :: "cell_row \<Rightarrow> cell_row list \<Rightarrow> int \<times> cell_row list" where
  "insert_cell r t = (if \<exists>x \<in> set t. cell_key x = cell_key r then (0, t) else (1, t @ [r]))"

fun insert_cells :: "int \<Rightarrow> string \<Rightarrow> int \<Rightarrow> rat list \<Rightarrow> cell_row list \<Rightarrow> int \<times> cell_row list" where
  "insert_cells sid symbol i (lo # hi # rest) t =
     (let (m, t') = (if hi \<le> lo then (0, t) else insert_cell (idle_row sid symbol i lo hi) t);
          (n, t'') = insert_cells sid symbol (i + 1) (hi # rest) t' in
      (m + n, t''))"
| "insert_cells sid symbol i _ t = (0, t)"

definition bootstrap_idle_cells :: "int \<Rightarrow> string \<Rightarrow> rat list \<Rightarrow> cell_row list \<Rightarrow> int \<times> cell_row list" where
  "bootstrap_idle_cells sid symbol levels t =
     (if length levels < 2 then (0, t)
      else insert_cells sid symbol 0 (sort (filter (\<lambda>x. 0 < x) levels)) t)"

definition list_cells :: "int \<Rightarrow> string \<Rightarrow> cell_row list \<Rightarrow> grid_cell list" where
  "list_cells sid symbol t =
     map cell_from_row (sort_key ce_index (filter (\<lambda>r. ce_strategy r = sid \<and> ce_symbol r = symbol) t))"

text \<open>The optional arguments of \<open>update_state\<close>: \<open>None\<close> leaves the column alone.\<close>

definition update_state ::
  "int \<Rightarrow> string \<Rightarrow> int \<Rightarrow> cell_state \<Rightarrow> rat option \<Rightarrow> rat option \<Rightarrow> string option
   \<Rightarrow> cell_row list \<Rightarrow> cell_row list" where
  "update_state sid symbol i st leg_size entry working =
     upd_where (\<lambda>r. cell_key r = (sid, symbol, i))
       (\<lambda>r. r\<lparr>ce_state := state_value st,
              ce_leg_size := (case leg_size of None \<Rightarrow> ce_leg_size r | Some x \<Rightarrow> column 8 x),
              ce_leg_entry := (case entry of None \<Rightarrow> ce_leg_entry r | Some x \<Rightarrow> column 8 x),
              ce_working := (case working of None \<Rightarrow> ce_working r | Some w \<Rightarrow> w)\<rparr>)"

definition release_row :: "cell_row \<Rightarrow> cell_row" where
  "release_row r =
     (if ce_state r \<in> {''buy_open'', ''sell_open''}
      then r\<lparr>ce_state := ''idle'', ce_leg_size := 0, ce_leg_entry := 0, ce_working := []\<rparr>
      else r\<lparr>ce_working := []\<rparr>)"

definition releasable :: "int \<Rightarrow> string option \<Rightarrow> cell_row \<Rightarrow> bool" where
  "releasable sid symbol r =
     (ce_strategy r = sid \<and> (case symbol of None \<Rightarrow> True | Some s \<Rightarrow> s = [] \<or> ce_symbol r = s)
      \<and> ce_state r \<in> {''buy_open'', ''sell_open'', ''long_held'', ''short_held''})"

definition release_cancelled_working_orders :: "int \<Rightarrow> string option \<Rightarrow> cell_row list \<Rightarrow> int \<times> cell_row list" where
  "release_cancelled_working_orders sid symbol t =
     (count_where (releasable sid symbol) t, upd_where (releasable sid symbol) release_row t)"

definition delete_cells :: "int \<Rightarrow> string option \<Rightarrow> cell_row list \<Rightarrow> int \<times> cell_row list" where
  "delete_cells sid symbol t =
     (let p = (\<lambda>r. ce_strategy r = sid \<and> (case symbol of None \<Rightarrow> True | Some s \<Rightarrow> s = [] \<or> ce_symbol r = s)) in
      (count_where p t, delete_where p t))"

section \<open>Resting orders\<close>

record resting =
  ro_id :: int
  ro_strategy :: int
  ro_symbol :: string
  ro_cell :: int
  ro_purpose :: string
  ro_side :: string
  ro_pos_side :: string
  ro_reduce_only :: bool
  ro_price :: rat
  ro_quantity :: rat
  ro_quote :: rat
  ro_client :: string
  ro_exchange :: string
  ro_status :: string
  ro_filled :: rat
  ro_avg :: rat
  ro_processed :: rat

definition open_statuses :: "string list" where
  "open_statuses = [''pending'', ''open'', ''partial'']"

definition is_open :: "resting \<Rightarrow> bool" where
  "is_open r = (ro_status r \<in> set open_statuses)"

record order_book =
  resting_rows :: "resting list"
  next_resting :: int

text \<open>\<open>from_row\<close>: the numbers of a row as floats.\<close>

definition resting_from_row :: "resting \<Rightarrow> resting" where
  "resting_from_row r = r\<lparr>ro_price := fl (ro_price r), ro_quantity := fl (ro_quantity r),
     ro_quote := fl (ro_quote r), ro_filled := fl (ro_filled r), ro_avg := fl (ro_avg r),
     ro_processed := fl (ro_processed r), ro_status := str_or (ro_status r) ''pending''\<rparr>"

text \<open>\<open>insert\<close>: the unique index on (strategy, client order id) refuses a second order with the
  same id; the sequence of the primary key moves on either way.\<close>

definition stored_order :: "int \<Rightarrow> resting \<Rightarrow> resting" where
  "stored_order i ord = ord\<lparr>ro_id := i, ro_price := column 8 (ro_price ord), ro_quantity := column 8 (ro_quantity ord),
     ro_quote := column 8 (ro_quote ord), ro_filled := column 8 (ro_filled ord),
     ro_avg := column 8 (ro_avg ord), ro_processed := column 8 (ro_processed ord),
     ro_status := str_or (ro_status ord) ''open''\<rparr>"

definition client_id_taken :: "resting \<Rightarrow> order_book \<Rightarrow> bool" where
  "client_id_taken ord b = (ro_client ord \<noteq> []
     \<and> (\<exists>x \<in> set (resting_rows b). ro_strategy x = ro_strategy ord \<and> ro_client x = ro_client ord))"

definition insert_resting :: "resting \<Rightarrow> order_book \<Rightarrow> int option \<times> order_book" where
  "insert_resting ord b =
     (let i = next_resting b; b' = b\<lparr>next_resting := i + 1\<rparr> in
      if client_id_taken ord b then (None, b')
      else (if i = 0 then None else Some i, b'\<lparr>resting_rows := resting_rows b @ [stored_order i ord]\<rparr>))"

definition update_status :: "int \<Rightarrow> string \<Rightarrow> rat option \<Rightarrow> rat option \<Rightarrow> rat option \<Rightarrow> order_book \<Rightarrow> order_book" where
  "update_status i status filled avg processed b =
     b\<lparr>resting_rows := upd_where (\<lambda>r. ro_id r = i)
         (\<lambda>r. r\<lparr>ro_status := status,
                ro_filled := (case filled of None \<Rightarrow> ro_filled r | Some x \<Rightarrow> column 8 x),
                ro_avg := (case avg of None \<Rightarrow> ro_avg r | Some x \<Rightarrow> column 8 x),
                ro_processed := (case processed of None \<Rightarrow> ro_processed r | Some x \<Rightarrow> column 8 x)\<rparr>)
         (resting_rows b)\<rparr>"

definition open_of :: "int \<Rightarrow> order_book \<Rightarrow> resting list" where
  "open_of sid b = filter (\<lambda>r. ro_strategy r = sid \<and> is_open r) (resting_rows b)"

definition list_open :: "int \<Rightarrow> order_book \<Rightarrow> resting list" where
  "list_open sid b = map resting_from_row (open_of sid b)"

text \<open>The SQL comparison \<open>processed_fill_qty + 1e-12 < filled_quantity\<close> is on decimals.\<close>

definition list_unprocessed :: "int \<Rightarrow> order_book \<Rightarrow> resting list" where
  "list_unprocessed sid b =
     map resting_from_row (filter (\<lambda>r. ro_strategy r = sid \<and> 0 < ro_filled r
       \<and> ro_processed r + 1 / 10 ^ 12 < ro_filled r) (resting_rows b))"

definition has_open_for_cell :: "int \<Rightarrow> int \<Rightarrow> string \<Rightarrow> order_book \<Rightarrow> bool" where
  "has_open_for_cell sid i purpose b =
     (\<exists>r \<in> set (resting_rows b). ro_strategy r = sid \<and> ro_cell r = i \<and> ro_purpose r = purpose \<and> is_open r)"

definition cancel_all :: "int \<Rightarrow> string option \<Rightarrow> order_book \<Rightarrow> int \<times> order_book" where
  "cancel_all sid symbol b =
     (let p = (\<lambda>r. ro_strategy r = sid \<and> (case symbol of None \<Rightarrow> True | Some s \<Rightarrow> s = [] \<or> ro_symbol r = s) \<and> is_open r) in
      (count_where p (resting_rows b),
       b\<lparr>resting_rows := upd_where p (\<lambda>r. r\<lparr>ro_status := ''cancelled''\<rparr>) (resting_rows b)\<rparr>))"

end
