(* ===== verification/Grid_Engine.thy ===== *)
theory Grid_Engine
  imports Grid_Levels Grid_Cells Positions
begin

text \<open>
  The grid engine, \<open>services/grid/engine.py\<close>, with the fill handler (\<open>fill_handler.py\<close>) and the fill
  poller (\<open>poller.py\<close>): resting entries on the idle cells, one reduce-only exit per held cell,
  fills posted to the position ledger and turned into cell states.

  The exchange is the record \<open>venue\<close>: what its adapter answers during one operation.  Every
  operation gets its own venue, so nothing relates the answers of two operations.
\<close>

section \<open>State and surroundings\<close>

record bot =
  b_strategy :: int
  b_symbol :: string
  b_cfg :: grid_cfg
  b_capital :: rat
  b_pow :: "rat \<Rightarrow> rat \<Rightarrow> rat"
  b_leg :: leg_context

record grid =
  g_cells :: "cell_row list"
  g_book :: order_book
  g_ledger :: ledger
  g_bounds :: "rat \<times> rat"
  g_bootstrapped :: bool
  g_paused :: bool
  g_waterfall :: bool
  g_initial_done :: bool
  g_seeded :: "int list"
  g_errors :: int
  g_stop :: bool
  g_last_entry :: int

datatype posting = Posted | Position_Only | Not_Posted

text \<open>
  \<open>v_client\<close>: whether \<open>create_client\<close> returns; \<open>v_lot\<close>: \<open>normalize_grid_order_quantity\<close>;
  \<open>v_entry\<close>: the ownership guard's verdict and reason for a side; \<open>v_reduce\<close>: what
  \<open>resolve_reduce_only_quantity\<close> resolves, with the budgets of its report, or that it raised (or no
  credential protects the inventory); \<open>v_spot_clamp\<close>: \<open>clamp_spot_close_quantity\<close>; \<open>v_place\<close>,
  \<open>v_cancel\<close>: the exchange's answers to an order (its id) and a cancellation; \<open>v_auto_stop\<close>:
  \<open>maybe_auto_stop_on_exchange_error\<close>; \<open>v_posting\<close>: how far the ledger's statements get.
\<close>

record venue =
  v_client :: bool
  v_lot :: "rat \<Rightarrow> rat"
  v_entry :: "string \<Rightarrow> bool \<times> string"
  v_reduce :: "string \<Rightarrow> rat \<Rightarrow> (rat \<times> rat list) option"
  v_spot_clamp :: "rat \<Rightarrow> rat"
  v_place :: "resting \<Rightarrow> string option"
  v_cancel :: "resting \<Rightarrow> bool"
  v_auto_stop :: "int \<Rightarrow> bool"
  v_posting :: posting
  v_leg_raises :: bool
  v_commission :: rat

section \<open>Sizes\<close>

definition grid_budget_usdt :: "bot \<Rightarrow> rat" where
  "grid_budget_usdt b =
     (if 0 < amount_per_grid_pct (b_cfg b) \<and> 0 < b_capital b
      then fmul (b_capital b) (amount_per_grid_pct (b_cfg b)) else max 0 (amount_per_grid (b_cfg b)))"

definition qty_from_usdt :: "bot \<Rightarrow> rat \<Rightarrow> rat \<Rightarrow> rat" where
  "qty_from_usdt b usdt price =
     (if price \<le> 0 \<or> usdt \<le> 0 then 0
      else fdiv (fmul usdt (if market_type (b_cfg b) \<noteq> ''spot'' then leverage (b_cfg b) else 1)) price)"

definition normalize_grid_base_qty :: "venue \<Rightarrow> rat \<Rightarrow> rat \<Rightarrow> rat" where
  "normalize_grid_base_qty v qty price =
     (if qty \<le> 0 \<or> price \<le> 0 \<or> \<not> v_client v then 0 else v_lot v qty)"

definition grid_base_qty :: "bot \<Rightarrow> venue \<Rightarrow> rat \<Rightarrow> rat" where
  "grid_base_qty b v price = normalize_grid_base_qty v (qty_from_usdt b (grid_budget_usdt b) price) price"

definition engine_levels :: "bot \<Rightarrow> grid \<Rightarrow> rat list" where
  "engine_levels b g =
     fst (levels_and_cells (b_pow b) ((b_cfg b)\<lparr>upper_price := fst (g_bounds g), lower_price := snd (g_bounds g)\<rparr>))"

definition engine_cells :: "bot \<Rightarrow> grid \<Rightarrow> cell_spec list" where
  "engine_cells b g =
     snd (levels_and_cells (b_pow b) ((b_cfg b)\<lparr>upper_price := fst (g_bounds g), lower_price := snd (g_bounds g)\<rparr>))"

definition cell_spec_of :: "bot \<Rightarrow> grid \<Rightarrow> int \<Rightarrow> cell_spec option" where
  "cell_spec_of b g i = find (\<lambda>c. cs_index c = i) (engine_cells b g)"

definition engine_rows :: "bot \<Rightarrow> grid \<Rightarrow> grid_cell list" where
  "engine_rows b g = list_cells (b_strategy b) (b_symbol b) (g_cells g)"

definition cell_record :: "bot \<Rightarrow> grid \<Rightarrow> int \<Rightarrow> grid_cell option" where
  "cell_record b g i = find (\<lambda>c. gc_index c = i) (engine_rows b g)"

definition cell_states :: "bot \<Rightarrow> grid \<Rightarrow> int \<Rightarrow> cell_state" where
  "cell_states b g i = (case cell_record b g i of None \<Rightarrow> Idle | Some c \<Rightarrow> gc_state c)"

definition has_open :: "bot \<Rightarrow> grid \<Rightarrow> int \<Rightarrow> string \<Rightarrow> bool" where
  "has_open b g i purpose = has_open_for_cell (b_strategy b) i purpose (g_book g)"

definition open_orders :: "bot \<Rightarrow> grid \<Rightarrow> resting list" where
  "open_orders b g = list_open (b_strategy b) (g_book g)"

definition bootstrap :: "bot \<Rightarrow> rat \<Rightarrow> grid \<Rightarrow> bool \<times> grid" where
  "bootstrap b price g =
     (if price \<le> 0 \<or> engine_cells b g = [] then (False, g)
      else (True, g\<lparr>g_cells := snd (bootstrap_idle_cells (b_strategy b) (b_symbol b) (engine_levels b g) (g_cells g)),
                    g_bootstrapped := True\<rparr>))"

section \<open>Client order ids\<close>

fun zeros :: "nat \<Rightarrow> string" where
  "zeros 0 = []"
| "zeros (Suc n) = CHR ''0'' # zeros n"

definition padded :: "nat \<Rightarrow> int \<Rightarrow> string" where
  "padded n k = zeros (n - length (int_str k)) @ int_str k"

definition purpose_letter :: "string \<Rightarrow> string" where
  "purpose_letter purpose =
     (if py_contains ''long_entry'' purpose then ''e''
      else if py_contains ''long_exit'' purpose then ''x''
      else if py_contains ''short_entry'' purpose then ''s''
      else if py_contains ''short_exit'' purpose then ''c''
      else py_lower (List.take 1 (str_or purpose ''x'')))"

definition make_grid_client_order_id :: "int \<Rightarrow> int \<Rightarrow> string \<Rightarrow> int \<Rightarrow> string" where
  "make_grid_client_order_id sid i purpose now =
     List.take 32 (''g'' @ padded 4 (sid mod 10000) @ ''c'' @ padded 3 i @ purpose_letter purpose
                   @ padded 5 ((now mod 1000000) mod 99999))"

section \<open>Cancelling\<close>

definition is_exit :: "resting \<Rightarrow> bool" where
  "is_exit r = (ro_reduce_only r \<or> py_endswith (ro_purpose r) ''_exit'')"

definition set_order_status :: "string \<Rightarrow> resting \<Rightarrow> grid \<Rightarrow> grid" where
  "set_order_status st r g =
     (if ro_id r = 0 then g else g\<lparr>g_book := update_status (ro_id r) st None None None (g_book g)\<rparr>)"

definition cancel_position_orders :: "bot \<Rightarrow> venue \<Rightarrow> string \<Rightarrow> bool \<Rightarrow> grid \<Rightarrow> grid" where
  "cancel_position_orders b v pos_side exits g =
     fold (\<lambda>r g. if is_exit r = exits \<and> (pos_side = [] \<or> ro_pos_side r = pos_side) \<and> v_client v \<and> v_cancel v r
                 then set_order_status ''cancelled'' r g else g)
       (open_orders b g) g"

text \<open>The reasons for which an unverified position also takes the exits down.\<close>

definition unsafe_reasons :: "string set" where
  "unsafe_reasons = {''account_below_protected_allocation'', ''position_ownership_snapshot_failed'',
     ''position_ownership_credential_missing''}"

definition withdraw_side :: "bot \<Rightarrow> venue \<Rightarrow> string \<Rightarrow> grid \<Rightarrow> grid" where
  "withdraw_side b v pos_side g =
     (let g' = cancel_position_orders b v pos_side False g in
      if snd (v_entry v pos_side) \<in> unsafe_reasons then cancel_position_orders b v pos_side True g' else g')"

definition cancel_all_orders_on_exchange :: "bot \<Rightarrow> grid \<Rightarrow> grid" where
  "cancel_all_orders_on_exchange b g = fold (set_order_status ''cancelled'') (open_orders b g) g"

definition shutdown :: "bot \<Rightarrow> grid \<Rightarrow> grid" where
  "shutdown b g =
     (let g1 = cancel_all_orders_on_exchange b g;
          g2 = g1\<lparr>g_book := snd (cancel_all (b_strategy b) (Some (b_symbol b)) (g_book g1))\<rparr> in
      g2\<lparr>g_cells := snd (release_cancelled_working_orders (b_strategy b) (Some (b_symbol b)) (g_cells g2))\<rparr>)"

definition keep_one :: "bot \<Rightarrow> string \<Rightarrow> int \<Rightarrow> grid \<Rightarrow> grid" where
  "keep_one b purpose i g =
     (let os = filter (\<lambda>r. ro_purpose r = purpose \<and> ro_cell r = i) (open_orders b g) in
      fold (set_order_status ''cancelled'')
        (drop 1 (sort_key (\<lambda>r. - fsub (ro_quantity r) (ro_processed r)) os)) g)"

text \<open>\<open>_dedupe_open_entry_orders\<close>, \<open>_dedupe_open_exit_orders\<close>: of several open orders of a cell keep
  the one with most left to fill; a failed cancellation is only logged.\<close>

definition dedupe_open_orders :: "bot \<Rightarrow> string \<Rightarrow> grid \<Rightarrow> grid" where
  "dedupe_open_orders b purpose g =
     fold (keep_one b purpose)
       (remdups (map ro_cell (filter (\<lambda>r. ro_purpose r = purpose) (open_orders b g)))) g"

section \<open>Placing a limit order\<close>

definition record_order_error :: "venue \<Rightarrow> grid \<Rightarrow> grid" where
  "record_order_error v g =
     (if g_stop g then g
      else let n = g_errors g + 1 in
        if v_auto_stop v n then g\<lparr>g_errors := n, g_stop := True, g_paused := True\<rparr>
        else g\<lparr>g_errors := n\<rparr>)"

definition remaining_qty :: "resting \<Rightarrow> rat" where
  "remaining_qty r = max 0 (fsub (ro_quantity r) (ro_processed r))"

definition reserved_exit_qty :: "bot \<Rightarrow> grid \<Rightarrow> string \<Rightarrow> rat" where
  "reserved_exit_qty b g pos_side =
     foldl (\<lambda>t r. fadd t (remaining_qty r)) 0
       (filter (\<lambda>r. is_exit r \<and> ro_pos_side r = pos_side) (open_orders b g))"

definition resolve_grid_exit_quantity :: "bot \<Rightarrow> venue \<Rightarrow> string \<Rightarrow> rat \<Rightarrow> grid \<Rightarrow> rat" where
  "resolve_grid_exit_quantity b v pos_side requested g =
     (case v_reduce v pos_side requested of
        None \<Rightarrow> 0
      | Some (resolved, budgets) \<Rightarrow>
          let safe = (if budgets = [] then 0 else Min (set (map (max 0) budgets)));
              amount = min (max 0 resolved) (max 0 (fsub safe (reserved_exit_qty b g pos_side))) in
          max 0 (if market_type (b_cfg b) = ''spot'' \<and> 0 < amount then v_spot_clamp v amount else amount))"

definition cell_cost_basis :: "bot \<Rightarrow> grid \<Rightarrow> int \<Rightarrow> string \<Rightarrow> rat \<Rightarrow> rat" where
  "cell_cost_basis b g i purpose fallback =
     (case cell_record b g i of
        None \<Rightarrow> fallback
      | Some c \<Rightarrow>
          if 0 < gc_leg_entry c then gc_leg_entry c
          else if purpose = ''long_exit'' then num_or (gc_lower c) fallback
          else if purpose = ''short_exit'' then num_or (gc_upper c) fallback
          else fallback)"

definition placed_state :: "string \<Rightarrow> string \<Rightarrow> bool \<Rightarrow> string \<Rightarrow> cell_state" where
  "placed_state purpose side reduce_only pos_side =
     (if reduce_only \<and> pos_side = ''long'' then Long_Held
      else if reduce_only \<and> pos_side = ''short'' then Short_Held
      else if purpose = ''long_entry'' then Buy_Open
      else if purpose = ''short_entry'' then Sell_Open
      else if side = ''buy'' then Buy_Open else Sell_Open)"

definition new_resting :: "bot \<Rightarrow> int \<Rightarrow> int \<Rightarrow> string \<Rightarrow> string \<Rightarrow> bool \<Rightarrow> string \<Rightarrow> rat \<Rightarrow> rat \<Rightarrow> resting" where
  "new_resting b now i purpose side reduce_only pos_side px qty = \<lparr>
     ro_id = 0, ro_strategy = b_strategy b, ro_symbol = b_symbol b, ro_cell = i, ro_purpose = purpose,
     ro_side = side, ro_pos_side = pos_side, ro_reduce_only = reduce_only, ro_price = px, ro_quantity = qty,
     ro_quote = grid_budget_usdt b, ro_client = make_grid_client_order_id (b_strategy b) i purpose now,
     ro_exchange = [], ro_status = ''open'', ro_filled = 0, ro_avg = 0, ro_processed = 0\<rparr>"

text \<open>
  Checks, the call of the exchange, the insert and the state of the cell in one step: the poller, the
  engine's loop and the execution stream are threads without a common lock, and can meet in between
  (\<open>racing_orders_stack\<close> in \<open>Grid_Safety\<close>).
\<close>

definition place_limit ::
  "bot \<Rightarrow> venue \<Rightarrow> int \<Rightarrow> int \<Rightarrow> string \<Rightarrow> string \<Rightarrow> rat \<Rightarrow> bool \<Rightarrow> string \<Rightarrow> rat option \<Rightarrow> grid \<Rightarrow> bool \<times> grid" where
  "place_limit b v now i purpose side px reduce_only pos_side quantity g =
     (let qty = normalize_grid_base_qty v
                  (case quantity of Some q \<Rightarrow> q | None \<Rightarrow> qty_from_usdt b (grid_budget_usdt b) px) px;
          qty' = (if reduce_only
                  then normalize_grid_base_qty v (resolve_grid_exit_quantity b v pos_side qty g) px else qty);
          ord = new_resting b now i purpose side reduce_only pos_side px qty' in
      if px \<le> 0 \<or> qty \<le> 0 then (False, g)
      else if \<not> reduce_only \<and> \<not> fst (v_entry v pos_side) then (False, withdraw_side b v pos_side g)
      else if qty' \<le> 0 then (False, g)
      else case v_place v ord of
        None \<Rightarrow> (False, record_order_error v g)
      | Some ex \<Rightarrow>
         (case insert_resting (ord\<lparr>ro_exchange := ex\<rparr>) (g_book g) of
            (None, bk) \<Rightarrow> (False, g\<lparr>g_book := bk\<rparr>)
          | (Some _, bk) \<Rightarrow>
              let entry = (if reduce_only then cell_cost_basis b g i purpose px else px) in
              (True, g\<lparr>g_book := bk,
                 g_cells := update_state (b_strategy b) (b_symbol b) i
                   (placed_state purpose side reduce_only pos_side) (Some qty') (Some entry)
                   (Some (str_or ex (ro_client ord))) (g_cells g),
                 g_errors := 0\<rparr>)))"

definition cell_allows_entry :: "bot \<Rightarrow> grid \<Rightarrow> (int \<Rightarrow> cell_state) \<Rightarrow> int \<Rightarrow> string \<Rightarrow> bool" where
  "cell_allows_entry b g states i purpose =
     (if purpose = ''long_entry'' then
        states i = Idle \<and> \<not> has_open b g i ''long_entry'' \<and> \<not> has_open b g i ''long_exit''
      else if purpose = ''short_entry'' then
        states i = Idle \<and> \<not> has_open b g i ''short_entry'' \<and> \<not> has_open b g i ''short_exit''
      else False)"

section \<open>The two sides of a cell\<close>

text \<open>A long entry buys at the lower price and exits at the upper one, a short entry the other way
  round.\<close>

definition side_name :: "bool \<Rightarrow> string" where
  "side_name long = (if long then ''long'' else ''short'')"

definition entry_purpose :: "bool \<Rightarrow> string" where
  "entry_purpose long = (if long then ''long_entry'' else ''short_entry'')"

definition exit_purpose :: "bool \<Rightarrow> string" where
  "exit_purpose long = (if long then ''long_exit'' else ''short_exit'')"

definition entry_state :: "bool \<Rightarrow> cell_state" where
  "entry_state long = (if long then Buy_Open else Sell_Open)"

definition held_state :: "bool \<Rightarrow> cell_state" where
  "held_state long = (if long then Long_Held else Short_Held)"

definition entry_price :: "bool \<Rightarrow> cell_spec \<Rightarrow> rat" where
  "entry_price long c = (if long then cs_lower c else cs_upper c)"

definition exit_price :: "bool \<Rightarrow> cell_spec \<Rightarrow> rat" where
  "exit_price long c = (if long then cs_upper c else cs_lower c)"

definition place_entry :: "bot \<Rightarrow> venue \<Rightarrow> int \<Rightarrow> bool \<Rightarrow> cell_spec \<Rightarrow> rat option \<Rightarrow> grid \<Rightarrow> bool \<times> grid" where
  "place_entry b v now long c qty g =
     place_limit b v now (cs_index c) (entry_purpose long) (if long then ''buy'' else ''sell'')
       (entry_price long c) False (side_name long) qty g"

definition place_exit :: "bot \<Rightarrow> venue \<Rightarrow> int \<Rightarrow> bool \<Rightarrow> cell_spec \<Rightarrow> rat \<Rightarrow> grid \<Rightarrow> bool \<times> grid" where
  "place_exit b v now long c qty g =
     place_limit b v now (cs_index c) (exit_purpose long) (if long then ''sell'' else ''buy'')
       (exit_price long c) True (side_name long) (Some qty) g"

section \<open>Exits of held cells\<close>

definition dust :: rat where
  "dust = fl (1 / 10 ^ 10)"

definition open_orders_for_cell :: "bot \<Rightarrow> grid \<Rightarrow> int \<Rightarrow> string \<Rightarrow> resting list" where
  "open_orders_for_cell b g i purpose =
     filter (\<lambda>r. ro_cell r = i \<and> ro_purpose r = purpose) (open_orders b g)"

text \<open>Cancel a list of orders, stopping at the first the exchange refuses to cancel.\<close>

fun cancel_each :: "venue \<Rightarrow> resting list \<Rightarrow> grid \<Rightarrow> bool \<times> grid" where
  "cancel_each v [] g = (True, g)"
| "cancel_each v (r # rs) g =
     (if v_client v \<and> \<not> v_cancel v r then (False, g)
      else cancel_each v rs (set_order_status ''cancelled'' r g))"

definition ensure_cell_exit_coverage ::
  "bot \<Rightarrow> venue \<Rightarrow> int \<Rightarrow> bool \<Rightarrow> cell_spec \<Rightarrow> rat \<Rightarrow> grid \<Rightarrow> bool \<times> grid" where
  "ensure_cell_exit_coverage b v now long c quantity g =
     (let desired = normalize_grid_base_qty v quantity (exit_price long c);
          orders = open_orders_for_cell b g (cs_index c) (exit_purpose long);
          covered = py_sum (map remaining_qty orders) in
      if desired \<le> 0 then (False, g)
      else if \<bar>fsub covered desired\<bar> \<le> max dust (fmul desired (fl (1 / 10 ^ 8))) then (True, g)
      else
        let (ok, g') = cancel_each v orders g in
        if \<not> ok then (False, g') else place_exit b v now long c desired g')"

definition hang_exit :: "bot \<Rightarrow> venue \<Rightarrow> int \<Rightarrow> grid_cell \<Rightarrow> grid \<Rightarrow> int \<times> grid" where
  "hang_exit b v now c g =
     (let direction = grid_direction (b_cfg b) in
      case cell_spec_of b g (gc_index c) of
        None \<Rightarrow> (0, g)
      | Some spec \<Rightarrow>
          let long = (direction \<in> {''long'', ''neutral''} \<and> gc_state c = Long_Held);
              short = (direction \<in> {''short'', ''neutral''} \<and> gc_state c = Short_Held);
              qty = normalize_grid_base_qty v (gc_leg_size c) (exit_price long spec) in
          if \<not> long \<and> \<not> short then (0, g)
          else if has_open b g (gc_index c) (exit_purpose long) \<or> qty \<le> 0 then (0, g)
          else
            let (ok, g') = place_exit b v now long spec qty g in (if ok then 1 else 0, g'))"

fun hang_exits :: "bot \<Rightarrow> venue \<Rightarrow> int \<Rightarrow> grid_cell list \<Rightarrow> grid \<Rightarrow> int \<times> grid" where
  "hang_exits b v now [] g = (0, g)"
| "hang_exits b v now (c # cs) g =
     (let (m, g') = hang_exit b v now c g; (n, g'') = hang_exits b v now cs g' in (m + n, g''))"

definition sync_held_cell_exits :: "bot \<Rightarrow> venue \<Rightarrow> int \<Rightarrow> rat \<Rightarrow> grid \<Rightarrow> int \<times> grid" where
  "sync_held_cell_exits b v now price g =
     (if \<not> g_bootstrapped g \<or> price \<le> 0
         \<or> grid_direction (b_cfg b) \<notin> {''long'', ''short'', ''neutral''} then (0, g)
      else hang_exits b v now (engine_rows b g) g)"

section \<open>Exits for the initial position\<close>

definition open_exit_qty :: "bot \<Rightarrow> grid \<Rightarrow> string \<Rightarrow> rat" where
  "open_exit_qty b g purpose =
     foldl (\<lambda>t r. if 0 < fsub (ro_quantity r) (ro_processed r)
                   then fadd t (fsub (ro_quantity r) (ro_processed r)) else t) 0
       (filter (\<lambda>r. ro_purpose r = purpose) (open_orders b g))"

definition held_cell_qty :: "bot \<Rightarrow> grid \<Rightarrow> cell_state \<Rightarrow> rat" where
  "held_cell_qty b g st =
     foldl (\<lambda>t c. if 0 < gc_leg_size c then fadd t (gc_leg_size c) else t) 0
       (filter (\<lambda>c. gc_state c = st) (engine_rows b g))"

text \<open>The loop over the candidate cells; the cell states are read once, before it.\<close>

fun seed_exits ::
  "bot \<Rightarrow> venue \<Rightarrow> int \<Rightarrow> bool \<Rightarrow> (int \<Rightarrow> cell_state) \<Rightarrow> cell_spec list \<Rightarrow> rat \<Rightarrow> grid \<Rightarrow> int \<times> grid" where
  "seed_exits b v now long states [] uncovered g = (0, g)"
| "seed_exits b v now long states (c # cs) uncovered g =
     (let i = cs_index c; qty = grid_base_qty b v (exit_price long c) in
      if i \<in> set (g_seeded g) \<or> states i \<noteq> Idle \<or> has_open b g i (exit_purpose long)
         \<or> has_open b g i (entry_purpose long) \<or> qty \<le> 0 \<or> fadd uncovered (fl (1 / 10 ^ 8)) < qty
      then seed_exits b v now long states cs uncovered g
      else
        let (ok, g') = place_exit b v now long c qty g in
        if \<not> ok then seed_exits b v now long states cs uncovered g'
        else
          let (n, g'') = seed_exits b v now long (states(i := held_state long)) cs
                           (max 0 (fsub uncovered qty)) (g'\<lparr>g_seeded := g_seeded g' @ [i]\<rparr>) in
          (n + 1, g''))"

definition sync_exit_coverage :: "bot \<Rightarrow> venue \<Rightarrow> int \<Rightarrow> rat \<Rightarrow> grid \<Rightarrow> int \<times> grid" where
  "sync_exit_coverage b v now price g =
     (let direction = grid_direction (b_cfg b); long = (direction = ''long'');
          pos = fetch_position_size_for_side (b_strategy b) (b_symbol b) (side_name long) (g_ledger g) in
      if \<not> g_bootstrapped g \<or> price \<le> 0 \<or> direction \<notin> {''long'', ''short''} \<or> engine_cells b g = []
         \<or> pos \<le> dust then (0, g)
      else
        let (m, g1) = sync_held_cell_exits b v now price (dedupe_open_orders b (exit_purpose long) g);
            candidates = (if long then sort_key cs_upper (filter (\<lambda>c. price < cs_upper c) (engine_cells b g))
                          else sort_key (\<lambda>c. - cs_lower c) (filter (\<lambda>c. cs_lower c < price) (engine_cells b g)));
            covered = max (held_cell_qty b g1 (held_state long)) (open_exit_qty b g1 (exit_purpose long));
            (n, g2) = seed_exits b v now long (cell_states b g1) candidates (max 0 (fsub pos covered)) g1 in
        (m + n, g2))"

definition sync_initial_exit_orders :: "bot \<Rightarrow> venue \<Rightarrow> int \<Rightarrow> rat \<Rightarrow> grid \<Rightarrow> int \<times> grid" where
  "sync_initial_exit_orders b v now price g =
     (if \<not> g_bootstrapped g \<or> price \<le> 0 \<or> grid_direction (b_cfg b) \<notin> {''long'', ''short''}
         \<or> 0 < initial_position_pct (b_cfg b) \<and> \<not> g_initial_done g then (0, g)
      else sync_exit_coverage b v now price g)"

section \<open>Entries\<close>

text \<open>One direction: the cells beyond the price, in index order, while slots are left.\<close>

fun directional_entries ::
  "bot \<Rightarrow> venue \<Rightarrow> int \<Rightarrow> bool \<Rightarrow> cell_spec list \<Rightarrow> (int \<Rightarrow> cell_state) \<Rightarrow> int \<Rightarrow> grid \<Rightarrow> int \<times> grid" where
  "directional_entries b v now long [] states slots g = (0, g)"
| "directional_entries b v now long (c # cs) states slots g =
     (if slots \<le> 0 then (0, g)
      else if cell_allows_entry b g states (cs_index c) (entry_purpose long) then
        let (ok, g') = place_entry b v now long c None g in
        if ok then
          let (n, g'') = directional_entries b v now long cs (states(cs_index c := entry_state long)) (slots - 1)
                           (g'\<lparr>g_last_entry := now\<rparr>) in
          (n + 1, g'')
        else directional_entries b v now long cs states slots g'
      else directional_entries b v now long cs states slots g)"

text \<open>A neutral grid: from one pool, the first cell that admits an entry, and what is left of it.\<close>

fun next_cell :: "bot \<Rightarrow> grid \<Rightarrow> (int \<Rightarrow> cell_state) \<Rightarrow> string \<Rightarrow> cell_spec list \<Rightarrow> cell_spec option \<times> cell_spec list" where
  "next_cell b g states purpose [] = (None, [])"
| "next_cell b g states purpose (c # cs) =
     (if cell_allows_entry b g states (cs_index c) purpose then (Some c, cs)
      else next_cell b g states purpose cs)"

record pools =
  pl_long :: "cell_spec list"
  pl_short :: "cell_spec list"
  pl_states :: "int \<Rightarrow> cell_state"

definition pool :: "bool \<Rightarrow> pools \<Rightarrow> cell_spec list" where
  "pool long p = (if long then pl_long p else pl_short p)"

definition set_pool :: "bool \<Rightarrow> cell_spec list \<Rightarrow> pools \<Rightarrow> pools" where
  "set_pool long cs p = (if long then p\<lparr>pl_long := cs\<rparr> else p\<lparr>pl_short := cs\<rparr>)"

definition try_side :: "bot \<Rightarrow> venue \<Rightarrow> int \<Rightarrow> bool \<Rightarrow> pools \<Rightarrow> grid \<Rightarrow> bool \<times> pools \<times> grid" where
  "try_side b v now long p g =
     (case next_cell b g (pl_states p) (entry_purpose long) (pool long p) of
        (None, rest) \<Rightarrow> (False, set_pool long rest p, g)
      | (Some c, rest) \<Rightarrow>
          let (ok, g') = place_entry b v now long c None g in
          if ok then (True, (set_pool long rest p)\<lparr>pl_states := (pl_states p)(cs_index c := entry_state long)\<rparr>,
                      g'\<lparr>g_last_entry := now\<rparr>)
          else (False, set_pool long rest p, g'))"

definition try_allowed :: "bot \<Rightarrow> venue \<Rightarrow> int \<Rightarrow> (bool \<Rightarrow> bool) \<Rightarrow> bool \<Rightarrow> pools \<Rightarrow> grid \<Rightarrow> bool \<times> pools \<times> grid" where
  "try_allowed b v now allowed long p g = (if allowed long then try_side b v now long p g else (False, p, g))"

text \<open>The side with fewer open entries goes first, the long side when they are equal.\<close>

fun neutral_entries ::
  "nat \<Rightarrow> bot \<Rightarrow> venue \<Rightarrow> int \<Rightarrow> (bool \<Rightarrow> bool) \<Rightarrow> int \<Rightarrow> int \<Rightarrow> pools \<Rightarrow> grid \<Rightarrow> int \<times> grid" where
  "neutral_entries 0 b v now allowed nl ns p g = (0, g)"
| "neutral_entries (Suc slots) b v now allowed nl ns p g =
     (let first = (nl \<le> ns); (ok1, p1, g1) = try_allowed b v now allowed first p g in
      if ok1 then
        let (n, g') = neutral_entries slots b v now allowed (if first then nl + 1 else nl) (if first then ns else ns + 1) p1 g1 in
        (n + 1, g')
      else
        let (ok2, p2, g2) = try_allowed b v now allowed (\<not> first) p1 g1 in
        if ok2 then
          let (n, g') = neutral_entries slots b v now allowed (if first then nl else nl + 1) (if first then ns + 1 else ns) p2 g2 in
          (n + 1, g')
        else (0, g2))"

definition open_entries :: "bot \<Rightarrow> grid \<Rightarrow> string \<Rightarrow> int" where
  "open_entries b g purpose = int (length (filter (\<lambda>r. ro_purpose r = purpose) (open_orders b g)))"

definition entry_sides :: "bot \<Rightarrow> bool list" where
  "entry_sides b = (if grid_direction (b_cfg b) = ''neutral'' then [True, False]
     else if grid_direction (b_cfg b) = ''long'' then [True]
     else if grid_direction (b_cfg b) = ''short'' then [False] else [])"

definition entry_allowed :: "venue \<Rightarrow> bool \<Rightarrow> bool" where
  "entry_allowed v long = fst (v_entry v (side_name long))"

definition guard_sides :: "bot \<Rightarrow> venue \<Rightarrow> grid \<Rightarrow> grid" where
  "guard_sides b v g =
     fold (\<lambda>long g. if entry_allowed v long then g else withdraw_side b v (side_name long) g) (entry_sides b) g"

text \<open>The part after the ownership guard: deduplicate, then place what the slots allow.\<close>

definition place_entries :: "bot \<Rightarrow> venue \<Rightarrow> int \<Rightarrow> rat \<Rightarrow> grid \<Rightarrow> int \<times> grid" where
  "place_entries b v now price g =
     (let g2 = dedupe_open_orders b ''short_entry'' (dedupe_open_orders b ''long_entry'' g);
          cells = engine_cells b g2; states = cell_states b g2;
          nl = open_entries b g2 ''long_entry''; ns = open_entries b g2 ''short_entry'';
          slots = max 0 (max_open_orders (b_cfg b) - (nl + ns));
          longs = filter (\<lambda>c. cs_lower c < price) cells;
          shorts = filter (\<lambda>c. price < cs_upper c) cells in
      if slots \<le> 0 then (0, g2)
      else if grid_direction (b_cfg b) = ''neutral'' then
        neutral_entries (nat slots) b v now (entry_allowed v) nl ns
          \<lparr>pl_long = sort_key (\<lambda>c. - cs_lower c) longs, pl_short = sort_key cs_upper shorts, pl_states = states\<rparr> g2
      else if grid_direction (b_cfg b) = ''long'' \<and> entry_allowed v True
      then directional_entries b v now True longs states slots g2
      else if grid_direction (b_cfg b) = ''short'' \<and> entry_allowed v False
      then directional_entries b v now False shorts states slots g2
      else (0, g2))"

definition sync_grid_orders :: "bot \<Rightarrow> venue \<Rightarrow> int \<Rightarrow> rat \<Rightarrow> grid \<Rightarrow> int \<times> grid" where
  "sync_grid_orders b v now price g =
     (let g1 = guard_sides b v g in
      if \<not> g_bootstrapped g \<or> g_paused g \<or> price \<le> 0 \<or> g_waterfall g then (0, g)
      else if entry_sides b \<noteq> [] \<and> \<not> v_client v then (0, g)
      else if entry_sides b \<noteq> [] \<and> \<not> list_ex (entry_allowed v) (entry_sides b) then (0, g1)
      else if 0 < order_frequency (b_cfg b) \<and> 0 < g_last_entry g1
              \<and> now - g_last_entry g1 < order_frequency (b_cfg b) then (0, g1)
      else place_entries b v now price g1)"

section \<open>Fills\<close>

definition purpose_to_signal :: "string \<Rightarrow> string" where
  "purpose_to_signal p =
     (if p = ''long_entry'' then ''open_long'' else if p = ''long_exit'' then ''close_long''
      else if p = ''short_entry'' then ''open_short'' else if p = ''short_exit'' then ''close_short'' else [])"

definition matched_grid_entry_price :: "bot \<Rightarrow> grid \<Rightarrow> resting \<Rightarrow> rat" where
  "matched_grid_entry_price b g r =
     (if ro_purpose r \<noteq> ''long_exit'' \<and> ro_purpose r \<noteq> ''short_exit'' then 0
      else case find (\<lambda>c. gc_index c = ro_cell r)
                  (list_cells (b_strategy b) (normalize_strategy_symbol (b_symbol b)) (g_cells g)) of
        None \<Rightarrow> 0
      | Some c \<Rightarrow> if 0 < gc_leg_entry c then gc_leg_entry c
                  else if ro_purpose r = ''long_exit'' then gc_lower c else gc_upper c)"

definition grid_match_profit :: "string \<Rightarrow> rat \<Rightarrow> rat \<Rightarrow> rat \<Rightarrow> rat option" where
  "grid_match_profit purpose entry px qty =
     (if entry \<le> 0 \<or> px \<le> 0 \<or> qty \<le> 0 then None
      else if purpose = ''long_exit'' then Some (fmul (fsub px entry) qty)
      else if purpose = ''short_exit'' then Some (fmul (fsub entry px) qty)
      else None)"

record fill_info =
  fi_commission :: rat
  fi_event :: int
  fi_fill :: string

text \<open>\<open>apply_grid_fill_to_local_state\<close>: an exception of the ledger's statements is logged and
  swallowed, after the position, after the trade, or before both.\<close>

definition apply_grid_fill :: "bot \<Rightarrow> venue \<Rightarrow> resting \<Rightarrow> rat \<Rightarrow> rat \<Rightarrow> fill_info \<Rightarrow> grid \<Rightarrow> grid" where
  "apply_grid_fill b v r filled avg fi g =
     (let sym = normalize_strategy_symbol (b_symbol b);
          signal = purpose_to_signal (ro_purpose r);
          px = num_or avg (ro_price r); qty = num_or filled (ro_quantity r);
          entry = matched_grid_entry_price b g r;
          ((profit, _, matched), l') = apply_fill (b_strategy b) sym signal qty px None (Some (b_leg b)) (g_ledger g);
          grid_profit = grid_match_profit (ro_purpose r) entry px qty;
          row = \<lparr>nt_strategy = b_strategy b, nt_symbol = sym, nt_type = signal, nt_price = px, nt_amount = qty,
            nt_commission = fi_commission fi,
            nt_profit = (case grid_profit of None \<Rightarrow> profit | Some p \<Rightarrow> Some p),
            nt_reason = ro_purpose r, nt_user = None,
            nt_matched = (case grid_profit of None \<Rightarrow> matched | Some _ \<Rightarrow> Some entry),
            nt_leg = Some (b_leg b), nt_event = fi_event fi, nt_fill = fi_fill fi\<rparr> in
      if signal = [] \<or> qty \<le> 0 \<or> px \<le> 0 then g
      else case v_posting v of
        Not_Posted \<Rightarrow> g
      | Position_Only \<Rightarrow> g\<lparr>g_ledger := l'\<rparr>
      | Posted \<Rightarrow> g\<lparr>g_ledger := snd (record_trade row l')\<rparr>)"

definition set_cell :: "bot \<Rightarrow> int \<Rightarrow> cell_state \<Rightarrow> rat \<Rightarrow> rat option \<Rightarrow> grid \<Rightarrow> grid" where
  "set_cell b i st leg_size entry g =
     g\<lparr>g_cells := update_state (b_strategy b) (b_symbol b) i st (Some leg_size) entry None (g_cells g)\<rparr>"

definition entry_filled :: "bot \<Rightarrow> venue \<Rightarrow> int \<Rightarrow> bool \<Rightarrow> cell_spec \<Rightarrow> rat \<Rightarrow> rat \<Rightarrow> grid \<Rightarrow> grid" where
  "entry_filled b v now long c fq px g =
     (let i = cs_index c;
          leg = (case cell_record b g i of None \<Rightarrow> 0 | Some x \<Rightarrow> max 0 (gc_leg_size x));
          entry = (case cell_record b g i of None \<Rightarrow> 0 | Some x \<Rightarrow> max 0 (gc_leg_entry x));
          prior = (if cell_states b g i = held_state long then leg else 0);
          held_qty = fadd prior fq;
          held_entry = (if 0 < held_qty then fdiv (fadd (fmul entry prior) (fmul px fq)) held_qty else px) in
      snd (ensure_cell_exit_coverage b v now long c held_qty
             (set_cell b i (held_state long) held_qty (Some held_entry) g)))"

definition exit_filled :: "bot \<Rightarrow> venue \<Rightarrow> int \<Rightarrow> bool \<Rightarrow> cell_spec \<Rightarrow> rat \<Rightarrow> grid \<Rightarrow> grid" where
  "exit_filled b v now long c fq g =
     (let i = cs_index c;
          leg = (case cell_record b g i of None \<Rightarrow> 0 | Some x \<Rightarrow> max 0 (gc_leg_size x));
          rest = max 0 (fsub leg fq);
          g1 = set_cell b i (if dust < rest then held_state long else Idle) rest None g in
      if dust < rest \<or> g_paused g then g1
      else if cell_allows_entry b g1 (cell_states b g1) i (entry_purpose long)
      then snd (place_entry b v now long c (Some fq) g1) else g1)"

definition on_order_filled :: "bot \<Rightarrow> venue \<Rightarrow> int \<Rightarrow> resting \<Rightarrow> rat \<Rightarrow> rat \<Rightarrow> fill_info \<Rightarrow> grid \<Rightarrow> grid" where
  "on_order_filled b v now r filled avg fi g =
     (let g1 = apply_grid_fill b v r filled avg fi g;
          fq = num_or filled (ro_quantity r); px = num_or avg (ro_price r);
          purpose = ro_purpose r in
      case cell_spec_of b g1 (ro_cell r) of
        None \<Rightarrow> g1
      | Some c \<Rightarrow>
          if (g_paused g1 \<or> g_waterfall g1) \<and> \<not> py_endswith purpose ''_exit'' \<and> boundary_action (b_cfg b) = ''pause''
          then g1
          else if purpose = ''long_entry'' then entry_filled b v now True c fq px g1
          else if purpose = ''long_exit'' then exit_filled b v now True c fq g1
          else if purpose = ''short_entry'' then entry_filled b v now False c fq px g1
          else if purpose = ''short_exit'' then exit_filled b v now False c fq g1
          else g1)"

section \<open>Boundary\<close>

definition handle_boundary :: "bot \<Rightarrow> venue \<Rightarrow> rat \<Rightarrow> grid \<Rightarrow> bool \<times> grid" where
  "handle_boundary b v price g =
     (let (upper, lower) = g_bounds g; below = (price < lower); above = (upper < price);
          direction = grid_direction (b_cfg b);
          triggered = (direction = ''long'' \<and> below \<or> direction = ''short'' \<and> above
                       \<or> direction = ''neutral'' \<and> (below \<or> above)) in
      if upper \<le> lower \<or> price \<le> 0 \<or> \<not> triggered then (False, g)
      else if boundary_action (b_cfg b) = ''hold'' then (True, g)
      else
        let g1 = (cancel_position_orders b v [] False g)\<lparr>g_paused := True\<rparr> in
        (True, if boundary_action (b_cfg b) = ''stop_loss'' then g1\<lparr>g_stop := True\<rparr> else g1))"

section \<open>The poller\<close>

text \<open>What the exchange reports of an order: cumulative filled quantity, average price, status.\<close>

record report =
  rp_filled :: rat
  rp_avg :: rat
  rp_status :: string

definition fill_epsilon :: rat where
  "fill_epsilon = fl (1 / 10 ^ 12)"

definition reported_total :: "resting \<Rightarrow> report \<Rightarrow> rat" where
  "reported_total r rp =
     (let t = num_or (rp_filled rp) (ro_filled r) in
      if t \<le> 0 \<and> rp_status rp = ''filled'' then ro_quantity r else t)"

definition local_status :: "resting \<Rightarrow> report \<Rightarrow> rat \<Rightarrow> string" where
  "local_status r rp cum =
     (if rp_status rp \<in> {''open'', ''partial''} then (if 0 < cum then ''partial'' else ''open'')
      else if rp_status rp = ''cancelled'' then ''cancelled''
      else if rp_status rp = ''filled'' \<or> ro_quantity r \<le> cum \<and> 0 < ro_quantity r then ''filled''
      else str_or (ro_status r) ''open'')"

text \<open>
  \<open>_poll_order\<close> on the order as the caller read it.  When posting the fill raises (\<open>v_leg_raises\<close>, the
  lookup of the leg context, before any effect), the quantity processed is left for a retry.
\<close>

definition poll_order :: "bot \<Rightarrow> venue \<Rightarrow> int \<Rightarrow> resting \<Rightarrow> report \<Rightarrow> grid \<Rightarrow> grid" where
  "poll_order b v now r rp g =
     (let cum = reported_total r rp; new_fill = fsub cum (ro_processed r);
          fresh = (fill_epsilon < new_fill);
          post = (\<lambda>status processed g. g\<lparr>g_book :=
                    update_status (ro_id r) status (Some cum) (Some (rp_avg rp)) (Some processed) (g_book g)\<rparr>) in
      if rp_status rp = ''unknown'' \<or> ro_id r = 0 then g
      else if fresh \<and> v_leg_raises v
      then post (if 0 < cum then ''partial'' else str_or (ro_status r) ''open'') (ro_processed r) g
      else
        let g1 = (if fresh
                  then on_order_filled b v now r new_fill (num_or (rp_avg rp) (ro_price r))
                         \<lparr>fi_commission = v_commission v, fi_event = 0, fi_fill = []\<rparr> g
                  else g);
            g2 = post (local_status r rp cum) (if fresh then cum else ro_processed r) g1 in
        if rp_status rp = ''cancelled'' \<and> 0 < cum
        then snd (sync_held_cell_exits b v now (num_or (rp_avg rp) (ro_price r)) g2) else g2)"

section \<open>The execution stream\<close>

text \<open>
  \<open>_process_grid\<close> of \<open>execution_streams/processor.py\<close>: an event of the private stream bound to the resting
  order \<open>n\<close>.  Its numbers are floats; \<open>ge_runner\<close> says whether the grid runs in this process.  The fees
  of an event without a new fill only change stored trades and are left out.
\<close>

record grid_event =
  ge_quantity :: rat
  ge_cumulative :: rat
  ge_is_cumulative :: bool
  ge_price :: rat
  ge_status :: string
  ge_info :: fill_info
  ge_runner :: bool

definition streamed_total :: "grid_event \<Rightarrow> resting \<Rightarrow> rat" where
  "streamed_total ev r =
     (let seen = fl (ro_filled r); cum = max 0 (ge_cumulative ev) in
      if ge_is_cumulative ev \<or> 0 < cum then max seen cum else fadd seen (max 0 (ge_quantity ev)))"

definition streamed_avg :: "grid_event \<Rightarrow> resting \<Rightarrow> rat \<Rightarrow> rat" where
  "streamed_avg ev r price =
     (let seen = fl (ro_filled r); avg = fl (ro_avg r); reached = streamed_total ev r; new = max 0 (fsub reached seen) in
      if 0 < reached \<and> 0 < new then fdiv (fadd (fmul seen avg) (fmul new price)) reached else num_or avg price)"

definition streamed_status :: "grid_event \<Rightarrow> resting \<Rightarrow> string" where
  "streamed_status ev r =
     (if ge_status ev \<in> {''filled'', ''cancelled''} then ge_status ev
      else if 0 < streamed_total ev r then ''partial'' else ro_status r)"

definition raise_processed :: "int \<Rightarrow> rat \<Rightarrow> grid \<Rightarrow> grid" where
  "raise_processed n reached g = g\<lparr>g_book := (g_book g)\<lparr>resting_rows := upd_where (\<lambda>r. ro_id r = n)
     (\<lambda>r. r\<lparr>ro_processed := max (ro_processed r) (column 8 reached)\<rparr>) (resting_rows (g_book g))\<rparr>\<rparr>"

definition process_grid :: "bot \<Rightarrow> venue \<Rightarrow> int \<Rightarrow> int \<Rightarrow> grid_event \<Rightarrow> grid \<Rightarrow> grid" where
  "process_grid b v now n ev g =
     (case find (\<lambda>r. ro_id r = n) (resting_rows (g_book g)) of
        None \<Rightarrow> g
      | Some r \<Rightarrow>
          let reached = streamed_total ev r; price = num_or (ge_price ev) (fl (ro_price r));
              delta = max 0 (fsub reached (fl (ro_processed r)));
              g1 = g\<lparr>g_book := update_status n (streamed_status ev r) (Some reached) (Some (streamed_avg ev r price)) None (g_book g)\<rparr> in
          if delta \<le> fill_epsilon \<or> price \<le> 0 \<or> \<not> ge_runner ev \<or> v_leg_raises v then g1
          else raise_processed n reached (on_order_filled b v now (resting_from_row r) delta price (ge_info ev) g1))"

end
