(* ===== verification/Grid_Safety.thy ===== *)
theory Grid_Safety
  imports Grid_Engine
begin

text \<open>
  What the grid engine guarantees whatever the exchange answers, as long as its operations take
  turns: orders of a cell never stack.  What can happen when they do not, or when an exchange reports
  a closed order as partly filled.  And the cell whose entry is withdrawn: the grid by itself never
  gives it an order again.

  The engine changes its tables through few primitives, under the same guards everywhere.  The
  locale \<open>engine_invariant\<close> states what a property of the tables needs of them; that every
  operation then keeps the property is proved once, inside it.
\<close>

section \<open>Steps of a running grid\<close>

text \<open>The rows of the bot that are open.\<close>

definition own_row :: "bot \<Rightarrow> grid \<Rightarrow> resting \<Rightarrow> bool" where
  "own_row b g x = (x \<in> set (resting_rows (g_book g)) \<and> ro_strategy x = b_strategy b \<and> is_open x)"

text \<open>
  Each step runs to its end before the next one begins.  A row polled may have been read any time
  before: only its identity is that of the row in the table, which is still open here.
\<close>

inductive grid_step :: "bot \<Rightarrow> grid \<Rightarrow> grid \<Rightarrow> bool" for b where
  params: "grid_step b g (g\<lparr>g_waterfall := w, g_bounds := bounds\<rparr>)"
| initial: "grid_step b g (g\<lparr>g_ledger := l, g_initial_done := finished\<rparr>)"
| risk: "grid_step b g ((cancel_position_orders b v [] False g)\<lparr>g_paused := True, g_stop := stop\<rparr>)"
| boundary: "grid_step b g (snd (handle_boundary b v price g))"
| held: "grid_step b g (snd (sync_held_cell_exits b v now price g))"
| coverage: "grid_step b g (snd (sync_exit_coverage b v now price g))"
| entries: "grid_step b g (snd (sync_grid_orders b v now price g))"
| polled: "own_row b g x \<Longrightarrow> ro_id r = ro_id x \<Longrightarrow> ro_cell r = ro_cell x \<Longrightarrow> ro_purpose r = ro_purpose x
    \<Longrightarrow> grid_step b g (poll_order b v now r rp g)"

inductive_cases grid_stepE: "grid_step b g g'"

text \<open>
  In between, the initial market order may change the ledger and the runner's risk exit withdraws
  the entries and pauses the grid.

  The life of a grid also has its start and its shutdowns, after which it may be started again; polls
  of rows that are not open any more (closed since the poller read its list, or listed because a fill
  of them was not processed); and the events of the execution stream, which may arrive at any time.
  Of these two the life has those that do not set a closed row to an open status: a report that
  settles the order, or an event that does or is about an open one.
\<close>

definition settles :: "venue \<Rightarrow> resting \<Rightarrow> report \<Rightarrow> bool" where
  "settles v r rp =
     (local_status r rp (reported_total r rp) \<notin> set open_statuses
      \<and> (fill_epsilon < fsub (reported_total r rp) (ro_processed r) \<longrightarrow> \<not> v_leg_raises v))"

definition keeps_closed :: "int \<Rightarrow> grid_event \<Rightarrow> grid \<Rightarrow> bool" where
  "keeps_closed n ev g =
     (ge_status ev \<in> {''filled'', ''cancelled''} \<or> (\<exists>r \<in> set (resting_rows (g_book g)). ro_id r = n \<and> is_open r))"

definition grid_life :: "bot \<Rightarrow> grid \<Rightarrow> grid \<Rightarrow> bool" where
  "grid_life b g g' =
     (grid_step b g g' \<or> g' = shutdown b g \<or> (\<exists>price. g' = snd (bootstrap b price g))
      \<or> (\<exists>v now r rp. settles v r rp \<and> g' = poll_order b v now r rp g)
      \<or> (\<exists>v now n ev. keeps_closed n ev g \<and> g' = process_grid b v now n ev g))"

section \<open>The contract of an invariant\<close>

definition ids_ok :: "grid \<Rightarrow> bool" where
  "ids_ok g = (distinct (map ro_id (resting_rows (g_book g)))
     \<and> (\<forall>r \<in> set (resting_rows (g_book g)). 0 < ro_id r \<and> ro_id r < next_resting (g_book g))
     \<and> 0 < next_resting (g_book g))"

section \<open>What cancelling and filling do to the book\<close>

lemma set_status_rows:
  "resting_rows (g_book (set_order_status st r g)) =
     map (\<lambda>x. if ro_id x = ro_id r \<and> ro_id r \<noteq> 0 then x\<lparr>ro_status := st\<rparr> else x) (resting_rows (g_book g))"
  by (auto simp: set_order_status_def update_status_def upd_where_def)

lemma cancel_each_rows:
  "fst (cancel_each v rs g) \<Longrightarrow>
     resting_rows (g_book (snd (cancel_each v rs g))) =
     map (\<lambda>x. if ro_id x \<in> ro_id ` set rs \<and> ro_id x \<noteq> 0 then x\<lparr>ro_status := ''cancelled''\<rparr> else x)
       (resting_rows (g_book g))"
proof (induction v rs g rule: cancel_each.induct)
  case (2 v r rs g)
  let ?g = "set_order_status ''cancelled'' r g"
  have go: "\<not> (v_client v \<and> \<not> v_cancel v r)" and fst: "fst (cancel_each v rs ?g)"
    using "2.prems" by (simp_all split: if_splits)
  have one: "(if ro_id y \<in> I \<and> ro_id y \<noteq> 0 then y\<lparr>ro_status := st\<rparr> else y) =
      (if ro_id x \<in> insert k I \<and> ro_id x \<noteq> 0 then x\<lparr>ro_status := st\<rparr> else x)"
    if "y = (if ro_id x = k \<and> k \<noteq> 0 then x\<lparr>ro_status := st\<rparr> else x)" for x y :: resting and I k st
    unfolding that by (cases "ro_id x = k"; cases "k = 0"; simp)
  have "resting_rows (g_book (snd (cancel_each v (r # rs) g))) = resting_rows (g_book (snd (cancel_each v rs ?g)))"
    using go by auto
  also have "\<dots> = map (\<lambda>x. if ro_id x \<in> insert (ro_id r) (ro_id ` set rs) \<and> ro_id x \<noteq> 0
      then x\<lparr>ro_status := ''cancelled''\<rparr> else x) (resting_rows (g_book g))"
    unfolding "2.IH" [OF go fst] set_status_rows map_map comp_def by (intro map_cong refl one)
  finally show ?case by (simp only: list.set image_insert)
qed simp

lemma cancelled_not_open [simp]: "\<not> is_open (x\<lparr>ro_status := ''cancelled''\<rparr>)"
  by (simp add: is_open_def open_statuses_def)

lemma from_row_simps [simp]:
  "ro_id (resting_from_row x) = ro_id x" "ro_cell (resting_from_row x) = ro_cell x"
  "ro_purpose (resting_from_row x) = ro_purpose x" "ro_strategy (resting_from_row x) = ro_strategy x"
  "ro_pos_side (resting_from_row x) = ro_pos_side x" "ro_reduce_only (resting_from_row x) = ro_reduce_only x"
  by (simp_all add: resting_from_row_def)

lemma open_orders_own: "set (open_orders b g) = resting_from_row ` {x. own_row b g x}"
  by (auto simp: open_orders_def list_open_def open_of_def own_row_def)

lemma has_open_own: "has_open b g i p \<longleftrightarrow> (\<exists>x. own_row b g x \<and> ro_cell x = i \<and> ro_purpose x = p)"
  by (auto simp: has_open_def has_open_for_cell_def own_row_def)

lemma all_cancelled:
  assumes "ids_ok g" and "fst (cancel_each v (open_orders_for_cell b g i p) g)"
  shows "\<not> has_open b (snd (cancel_each v (open_orders_for_cell b g i p) g)) i p"
proof
  assume "has_open b (snd (cancel_each v (open_orders_for_cell b g i p) g)) i p"
  then obtain y where y: "own_row b (snd (cancel_each v (open_orders_for_cell b g i p) g)) y"
    "ro_cell y = i" "ro_purpose y = p" by (auto simp: has_open_own)
  then obtain x where x: "x \<in> set (resting_rows (g_book g))"
    "y = (if ro_id x \<in> ro_id ` set (open_orders_for_cell b g i p) \<and> ro_id x \<noteq> 0
          then x\<lparr>ro_status := ''cancelled''\<rparr> else x)"
    unfolding own_row_def cancel_each_rows [OF assms(2)] by auto
  have "y = x"
    using x(2) y(1) cancelled_not_open [of x] unfolding own_row_def by presburger
  with y x(1) have own: "own_row b g x" "ro_cell x = i" "ro_purpose x = p" by (auto simp: own_row_def)
  then have "resting_from_row x \<in> set (open_orders_for_cell b g i p)"
    by (simp add: open_orders_for_cell_def open_orders_own)
  then have "ro_id x \<in> ro_id ` set (open_orders_for_cell b g i p)"
    by (rule rev_image_eqI) simp
  moreover have "ro_id x \<noteq> 0" using assms(1) x(1) by (force simp: ids_ok_def)
  ultimately have "y = x\<lparr>ro_status := ''cancelled''\<rparr>" using x(2) by simp
  with y(1) cancelled_not_open [of x] show False unfolding own_row_def by simp
qed

text \<open>Placing an exit only adds to the book; so does placing an entry the exchange's guard admits.\<close>

lemma insert_resting_keeps: "x \<in> set (resting_rows bk) \<Longrightarrow> x \<in> set (resting_rows (snd (insert_resting ord bk)))"
  by (simp add: insert_resting_def Let_def)

lemma place_exit_keeps:
  assumes "own_row b g x"
  shows "own_row b (snd (place_exit b v now l c q g)) x"
proof -
  define qty where "qty = normalize_grid_base_qty v q (exit_price l c)"
  define qty' where "qty' = normalize_grid_base_qty v (resolve_grid_exit_quantity b v (side_name l) qty g) (exit_price l c)"
  define ord where "ord = new_resting b now (cs_index c) (exit_purpose l) (if l then ''sell'' else ''buy'') True (side_name l)
      (exit_price l c) qty'"
  have "own_row b (g\<lparr>g_book := bk\<rparr>) x" if "insert_resting od (g_book g) = (y, bk)" for od y bk
    using assms insert_resting_keeps [of x "g_book g" od] that by (simp add: own_row_def)
  moreover have "own_row b (g\<lparr>g_book := bk, g_cells := cs, g_errors := n\<rparr>) x"
    if "insert_resting od (g_book g) = (y, bk)" for od y bk cs n
    using assms insert_resting_keeps [of x "g_book g" od] that by (simp add: own_row_def)
  moreover have "own_row b (record_order_error v g) x"
    using assms by (simp add: own_row_def record_order_error_def Let_def)
  ultimately show ?thesis
    unfolding place_exit_def place_limit_def Let_def option.case
      if_True qty_def [symmetric] qty'_def [symmetric] ord_def [symmetric]
    using assms by (simp split: option.split prod.split)
qed

lemma entry_exit_purpose [simp]: "entry_purpose l \<noteq> exit_purpose m" "exit_purpose m \<noteq> entry_purpose l"
  by (auto simp: entry_purpose_def exit_purpose_def)

lemma book_simps [simp]:
  "g_book (set_cell b i st sz en g) = g_book g"
  "g_book (apply_grid_fill b v r q px fi g) = g_book g"
  by (auto simp: set_cell_def apply_grid_fill_def Let_def split: prod.splits posting.splits)

lemma own_row_simps [simp]:
  "own_row b (set_cell b i st sz en g) x = own_row b g x"
  "own_row b (apply_grid_fill b v r q px fi g) x = own_row b g x"
  "has_open b (set_cell b i st sz en g) j p = has_open b g j p"
  "ids_ok (set_cell b i st sz en g) = ids_ok g"
  "ids_ok (apply_grid_fill b v r q px fi g) = ids_ok g"
  by (simp_all add: own_row_def has_open_def ids_ok_def)

lemma cancel_each_keeps_row:
  "own_row b g x \<Longrightarrow> ro_id x \<notin> ro_id ` set rs \<Longrightarrow> own_row b (snd (cancel_each v rs g)) x"
proof (induction v rs g rule: cancel_each.induct)
  case (2 v r rs g)
  have "own_row b (set_order_status ''cancelled'' r g) x"
    using "2.prems" by (force simp: own_row_def set_status_rows)
  then show ?case using 2 by auto
qed simp

lemma ensure_exit_keeps:
  assumes "ids_ok g" and "own_row b g x" and "ro_purpose x \<noteq> exit_purpose l"
  shows "own_row b (snd (ensure_cell_exit_coverage b v now l c q g)) x"
proof -
  let ?rs = "open_orders_for_cell b g (cs_index c) (exit_purpose l)"
  have "ro_id x \<notin> ro_id ` set ?rs"
  proof
    assume "ro_id x \<in> ro_id ` set ?rs"
    then obtain y where "own_row b g y" "ro_purpose y = exit_purpose l" "ro_id y = ro_id x"
      by (auto simp: open_orders_for_cell_def open_orders_own)
    moreover from this have "y = x"
      using assms(1,2) distinct_key_eq [of ro_id "resting_rows (g_book g)" y x]
      by (simp add: own_row_def ids_ok_def)
    ultimately show False using assms(3) by simp
  qed
  with assms(2) have "own_row b (snd (cancel_each v ?rs g)) x" by (rule cancel_each_keeps_row)
  then show ?thesis
    using assms(2) by (simp add: ensure_cell_exit_coverage_def Let_def case_prod_beta place_exit_keeps)
qed

lemma exit_filled_waits:
  assumes "has_open b g (cs_index c) (exit_purpose l)"
  shows "g_book (exit_filled b v now l c fq g) = g_book g"
  using assms
  by (auto simp: exit_filled_def Let_def cell_allows_entry_def entry_purpose_def exit_purpose_def
      split: if_splits)

lemma polled_order_stays:
  assumes "ids_ok g" and "own_row b g x" and r: "ro_cell r = ro_cell x" "ro_purpose r = ro_purpose x"
  shows "own_row b (on_order_filled b v now r q px fi g) x"
proof -
  let ?g = "apply_grid_fill b v r q px fi g"
  have own: "own_row b ?g x" and ids: "ids_ok ?g"
    using assms(1,2) by simp_all
  have entry: "own_row b (entry_filled b v now l c fq p ?g) x"
    if "ro_purpose x = entry_purpose l" for l c fq p
    unfolding entry_filled_def Let_def
    using own ids that by (intro ensure_exit_keeps) simp_all
  have exit: "own_row b (exit_filled b v now l c fq ?g) x"
    if "ro_purpose x = exit_purpose l" and "cs_index c = ro_cell x" for l c fq
  proof -
    have "has_open b ?g (cs_index c) (exit_purpose l)" using own that by (auto simp: has_open_own)
    from exit_filled_waits [OF this] own show ?thesis by (simp add: own_row_def)
  qed
  show ?thesis
    using entry [of True] entry [of False] exit [of True] exit [of False] own
    by (auto simp: on_order_filled_def Let_def r entry_purpose_def exit_purpose_def cell_spec_of_def
        dest: find_SomeD split: option.splits)
qed

locale engine_invariant =
  fixes b :: bot and I :: "grid \<Rightarrow> bool" and free :: "int \<Rightarrow> bool"
  assumes ids: "I g \<Longrightarrow> ids_ok g"
    and keep: "I g \<Longrightarrow> g_book g' = g_book g \<Longrightarrow> g_cells g' = g_cells g \<Longrightarrow> I g'"
    and cancelled: "I g \<Longrightarrow> I (set_order_status ''cancelled'' r g)"
    and free_idle: "I g \<Longrightarrow> cell_states b g i = Idle \<Longrightarrow> free i"
    and free_held: "I g \<Longrightarrow> c \<in> set (engine_rows b g) \<Longrightarrow> gc_state c \<in> {Long_Held, Short_Held}
                      \<Longrightarrow> free (gc_index c)"
    and free_open: "I g \<Longrightarrow> own_row b g x \<Longrightarrow> free (ro_cell x)"
    and touched: "I g \<Longrightarrow> free i
                    \<Longrightarrow> I (g\<lparr>g_cells := update_state (b_strategy b) (b_symbol b) i st sz en w (g_cells g)\<rparr>)"
    and added: "I g \<Longrightarrow> free (ro_cell ord) \<Longrightarrow> \<not> has_open b g (ro_cell ord) (ro_purpose ord)
                  \<Longrightarrow> ro_strategy ord = b_strategy b \<Longrightarrow> I (g\<lparr>g_book := snd (insert_resting ord (g_book g))\<rparr>)"
    and reported: "I g \<Longrightarrow> own_row b g x
                     \<Longrightarrow> I (g\<lparr>g_book := update_status (ro_id x) status f a p (g_book g)\<rparr>)"
begin

lemma keep_iff: "g_book g' = g_book g \<Longrightarrow> g_cells g' = g_cells g \<Longrightarrow> I g' = I g"
  using keep [of g g'] keep [of g' g] by auto

lemma flags [simp]:
  "I (g\<lparr>g_paused := x\<rparr>) = I g" "I (g\<lparr>g_stop := x\<rparr>) = I g" "I (g\<lparr>g_errors := n\<rparr>) = I g"
  "I (g\<lparr>g_last_entry := n\<rparr>) = I g" "I (g\<lparr>g_seeded := is\<rparr>) = I g" "I (g\<lparr>g_ledger := l\<rparr>) = I g"
  "I (g\<lparr>g_initial_done := x\<rparr>) = I g" "I (g\<lparr>g_waterfall := x\<rparr>) = I g" "I (g\<lparr>g_bounds := bs\<rparr>) = I g"
  by (rule keep_iff; simp)+

lemma fold_keeps:
  assumes "\<And>x g. I g \<Longrightarrow> I (f x g)"
  shows "I g \<Longrightarrow> I (fold f xs g)"
  by (induction xs arbitrary: g) (simp_all add: assms)

lemma cancel_position_orders: "I g \<Longrightarrow> I (cancel_position_orders b v side exits g)"
  unfolding cancel_position_orders_def by (rule fold_keeps) (simp_all add: cancelled)

lemma withdraw_side: "I g \<Longrightarrow> I (withdraw_side b v side g)"
  by (simp add: withdraw_side_def Let_def cancel_position_orders)

lemma keep_one: "I g \<Longrightarrow> I (keep_one b p i g)"
  unfolding keep_one_def Let_def by (rule fold_keeps) (simp_all add: cancelled)

lemma dedupe_open_orders: "I g \<Longrightarrow> I (dedupe_open_orders b p g)"
  unfolding dedupe_open_orders_def by (rule fold_keeps) (simp_all add: keep_one)

lemma handle_boundary: "I g \<Longrightarrow> I (snd (handle_boundary b v price g))"
  by (simp add: handle_boundary_def Let_def cancel_position_orders split: prod.splits)

lemma insert_and_mark:
  assumes "I g" and "free i" and "\<not> has_open b g i purpose"
    and "insert_resting ((new_resting b now i purpose side ro pos_side px q)\<lparr>ro_exchange := ex\<rparr>) (g_book g) = (x, bk)"
  shows "I (g\<lparr>g_book := bk\<rparr>)"
    and "I (g\<lparr>g_book := bk, g_cells := update_state (b_strategy b) (b_symbol b) i st sz en w (g_cells g)\<rparr>)"
proof -
  show *: "I (g\<lparr>g_book := bk\<rparr>)"
    using added [OF assms(1), of "(new_resting b now i purpose side ro pos_side px q)\<lparr>ro_exchange := ex\<rparr>"]
      assms(2-4) by (simp add: new_resting_def)
  show "I (g\<lparr>g_book := bk, g_cells := update_state (b_strategy b) (b_symbol b) i st sz en w (g_cells g)\<rparr>)"
    using touched [OF * assms(2)] by simp
qed

lemma place_limit:
  assumes "I g" and "free i" and "\<not> has_open b g i purpose"
  shows "I (snd (place_limit b v now i purpose side px ro pos_side quantity g))"
proof -
  have err: "I (record_order_error v g)"
    using assms(1) by (simp add: record_order_error_def Let_def)
  define qty where "qty = normalize_grid_base_qty v
      (case quantity of Some q \<Rightarrow> q | None \<Rightarrow> qty_from_usdt b (grid_budget_usdt b) px) px"
  define qty' where "qty' = (if ro then normalize_grid_base_qty v (resolve_grid_exit_quantity b v pos_side qty g) px else qty)"
  define ord where "ord = new_resting b now i purpose side ro pos_side px qty'"
  note unfolded = place_limit_def Let_def qty_def [symmetric] qty'_def [symmetric] ord_def [symmetric]
  show ?thesis
  proof (cases "v_place v ord")
    case None
    then show ?thesis unfolding unfolded by (simp add: assms(1) err withdraw_side)
  next
    case (Some ex)
    obtain x bk where ins: "insert_resting (ord\<lparr>ro_exchange := ex\<rparr>) (g_book g) = (x, bk)" by fastforce
    note marked = insert_and_mark [OF assms ins [unfolded ord_def]]
    show ?thesis
      unfolding unfolded by (cases x) (simp_all add: assms(1) withdraw_side Some ins marked)
  qed
qed

lemma place_limit_D:
  "place_limit b v now i purpose side px ro pos_side quantity g = (ok, g') \<Longrightarrow> I g \<Longrightarrow> free i
   \<Longrightarrow> \<not> has_open b g i purpose \<Longrightarrow> I g'"
  using place_limit [of g i purpose v now side px ro pos_side quantity] by simp

lemma place_exit:
  assumes "I g" and "free (cs_index c)" and "\<not> has_open b g (cs_index c) (exit_purpose long)"
  shows "I (snd (place_exit b v now long c qty g))"
  unfolding place_exit_def using assms by (rule place_limit)

lemma place_entry:
  assumes "I g" and "free (cs_index c)" and "\<not> has_open b g (cs_index c) (entry_purpose long)"
  shows "I (snd (place_entry b v now long c qty g))"
  unfolding place_entry_def using assms by (rule place_limit)

lemma spec_index: "cell_spec_of b g i = Some c \<Longrightarrow> cs_index c = i"
  by (auto simp: cell_spec_of_def dest: find_SomeD)

lemma hang_exit:
  assumes "I g" and "free (gc_index c) \<or> gc_state c \<notin> {Long_Held, Short_Held}"
  shows "I (snd (hang_exit b v now c g))"
  using assms
  by (auto simp: hang_exit_def Let_def case_prod_beta spec_index intro!: place_exit split: option.splits)

lemma hang_exits:
  assumes "I g" and "\<And>c. c \<in> set cs \<Longrightarrow> free (gc_index c) \<or> gc_state c \<notin> {Long_Held, Short_Held}"
  shows "I (snd (hang_exits b v now cs g))"
  using assms
proof (induction cs arbitrary: g)
  case (Cons c cs)
  have "I (snd (hang_exit b v now c g))" using Cons.prems by (intro hang_exit) auto
  then show ?case using Cons.prems(2) by (simp add: case_prod_beta Cons.IH)
qed simp

lemma sync_held_cell_exits: "I g \<Longrightarrow> I (snd (sync_held_cell_exits b v now price g))"
  unfolding sync_held_cell_exits_def using free_held by (auto intro: hang_exits)

lemma seed_exits:
  assumes "I g" and "\<And>i. states i = Idle \<Longrightarrow> free i"
  shows "I (snd (seed_exits b v now long states cs uncovered g))"
  using assms
proof (induction cs arbitrary: states uncovered g)
  case (Cons c cs)
  have rest: "I (snd (seed_exits b v now long (states(cs_index c := held_state long)) cs x g'))"
    if "I g'" for x g'
    using Cons.prems(2) that by (intro Cons.IH) (auto simp: held_state_def split: if_splits)
  have skip: "I (snd (seed_exits b v now long states cs x g'))" if "I g'" for x g'
    using Cons.IH [OF that] Cons.prems(2) by simp
  show ?case
    using Cons.prems by (simp add: Let_def case_prod_beta rest skip place_exit)
qed simp

lemma sync_exit_coverage: "I g \<Longrightarrow> I (snd (sync_exit_coverage b v now price g))"
  unfolding sync_exit_coverage_def Let_def case_prod_beta
  by (auto intro!: seed_exits sync_held_cell_exits dedupe_open_orders intro: free_idle [rotated])

lemma allows_entry_D:
  "cell_allows_entry b g states i (entry_purpose long)
   \<Longrightarrow> states i = Idle \<and> \<not> has_open b g i (entry_purpose long) \<and> \<not> has_open b g i (exit_purpose long)"
  by (auto simp: cell_allows_entry_def entry_purpose_def exit_purpose_def split: if_splits)

lemma directional_entries:
  assumes "I g" and "\<And>i. states i = Idle \<Longrightarrow> free i"
  shows "I (snd (directional_entries b v now long cs states slots g))"
  using assms
proof (induction cs arbitrary: states slots g)
  case (Cons c cs)
  have rest: "I (snd (directional_entries b v now long cs (states(cs_index c := entry_state long)) n g'))"
    if "I g'" for n g'
    using Cons.prems(2) that by (intro Cons.IH) (auto simp: entry_state_def split: if_splits)
  have skip: "I (snd (directional_entries b v now long cs states n g'))" if "I g'" for n g'
    using Cons.IH [OF that] Cons.prems(2) by simp
  have "I (snd (place_entry b v now long c None g))"
    if "cell_allows_entry b g states (cs_index c) (entry_purpose long)"
    using Cons.prems allows_entry_D [OF that] by (intro place_entry) auto
  then show ?case using Cons.prems(1) by (simp add: case_prod_beta rest skip)
qed simp

lemma next_cell_D:
  "next_cell b g states purpose cs = (Some c, rest) \<Longrightarrow> cell_allows_entry b g states (cs_index c) purpose"
  by (induction cs) (auto split: if_splits)

lemma try_side:
  assumes "I g" and "\<And>i. pl_states p i = Idle \<Longrightarrow> free i"
  shows "I (snd (snd (try_side b v now long p g)))"
    and "pl_states (fst (snd (try_side b v now long p g))) i = Idle \<Longrightarrow> free i"
proof -
  have "I (snd (snd (try_side b v now long p g)))
      \<and> (pl_states (fst (snd (try_side b v now long p g))) i = Idle \<longrightarrow> free i)"
  proof (cases "next_cell b g (pl_states p) (entry_purpose long) (pool long p)")
    case (Pair x rest)
    show ?thesis
    proof (cases x)
      case None
      with Pair assms show ?thesis by (auto simp: try_side_def set_pool_def)
    next
      case (Some c)
      have "cell_allows_entry b g (pl_states p) (cs_index c) (entry_purpose long)"
        using Pair Some by (simp add: next_cell_D)
      from allows_entry_D [OF this] assms
      have "I (snd (place_entry b v now long c None g))" by (intro place_entry) auto
      then show ?thesis using Pair Some assms(2)
        by (auto simp: try_side_def case_prod_beta set_pool_def entry_state_def split: if_splits)
    qed
  qed
  then show "I (snd (snd (try_side b v now long p g)))"
    and "pl_states (fst (snd (try_side b v now long p g))) i = Idle \<Longrightarrow> free i" by auto
qed

lemma try_allowed:
  assumes "I g" and "\<And>i. pl_states p i = Idle \<Longrightarrow> free i"
  shows "I (snd (snd (try_allowed b v now allowed long p g)))"
    and "pl_states (fst (snd (try_allowed b v now allowed long p g))) i = Idle \<Longrightarrow> free i"
  using try_side [OF assms] assms by (auto simp: try_allowed_def split: if_splits)

lemma neutral_entries:
  assumes "I g" and "\<And>i. pl_states p i = Idle \<Longrightarrow> free i"
  shows "I (snd (neutral_entries slots b v now allowed nl ns p g))"
  using assms
proof (induction slots arbitrary: nl ns p g)
  case (Suc slots)
  note one = try_allowed [OF Suc.prems]
  note two = try_allowed [OF one]
  show ?case by (simp add: Let_def case_prod_beta Suc.IH one two)
qed simp

lemma guard_sides: "I g \<Longrightarrow> I (guard_sides b v g)"
  unfolding guard_sides_def by (rule fold_keeps) (simp_all add: withdraw_side)

lemma place_entries: "I g \<Longrightarrow> I (snd (place_entries b v now price g))"
proof -
  assume "I g"
  define g2 where "g2 = dedupe_open_orders b ''short_entry'' (dedupe_open_orders b ''long_entry'' g)"
  have g2: "I g2" using \<open>I g\<close> by (simp add: g2_def dedupe_open_orders)
  have neutral: "I (snd (neutral_entries slots b v now allowed nl ns
      \<lparr>pl_long = ls, pl_short = ss, pl_states = cell_states b g2\<rparr> g2))" for slots allowed nl ns ls ss
    by (rule neutral_entries) (use g2 free_idle in auto)
  have one: "I (snd (directional_entries b v now long cs (cell_states b g2) slots g2))" for long cs slots
    by (rule directional_entries) (use g2 free_idle in auto)
  show ?thesis
    unfolding place_entries_def Let_def g2_def [symmetric] by (simp add: g2 one neutral)
qed

lemma sync_grid_orders: "I g \<Longrightarrow> I (snd (sync_grid_orders b v now price g))"
  by (simp add: sync_grid_orders_def Let_def guard_sides place_entries)

text \<open>Fills: the order filled is one of the bot's open orders, so its cell may be touched.\<close>

lemma set_cell: "I g \<Longrightarrow> free i \<Longrightarrow> I (set_cell b i st sz en g)"
  by (simp add: set_cell_def touched)

lemma cancel_each: "I g \<Longrightarrow> I (snd (cancel_each v rs g))"
  by (induction v rs g rule: cancel_each.induct) (simp_all add: cancelled)

lemma ensure_cell_exit_coverage:
  assumes "I g" and "free (cs_index c)"
  shows "I (snd (ensure_cell_exit_coverage b v now long c quantity g))"
proof -
  let ?rs = "open_orders_for_cell b g (cs_index c) (exit_purpose long)"
  have "\<not> has_open b (snd (cancel_each v ?rs g)) (cs_index c) (exit_purpose long)" if "fst (cancel_each v ?rs g)"
    using ids [OF assms(1)] that by (rule all_cancelled)
  then show ?thesis
    using assms(1) by (simp add: ensure_cell_exit_coverage_def Let_def case_prod_beta cancel_each place_exit assms(2))
qed

lemma entry_filled: "I g \<Longrightarrow> free (cs_index c) \<Longrightarrow> I (entry_filled b v now long c fq px g)"
  by (simp add: entry_filled_def Let_def ensure_cell_exit_coverage set_cell)

lemma exit_filled: "I g \<Longrightarrow> free (cs_index c) \<Longrightarrow> I (exit_filled b v now long c fq g)"
proof -
  assume I: "I g" and c: "free (cs_index c)"
  have "I (snd (place_entry b v now long c q g1))"
    if "cell_allows_entry b g1 st (cs_index c) (entry_purpose long)" and "I g1" for g1 st q
    using allows_entry_D [OF that(1)] by (intro place_entry that(2) c) simp
  then show ?thesis by (simp add: exit_filled_def Let_def set_cell I c)
qed

lemma apply_grid_fill: "I g \<Longrightarrow> I (apply_grid_fill b v r q px fi g)"
  by (auto simp: apply_grid_fill_def Let_def case_prod_beta split: posting.splits)

lemma on_order_filled:
  assumes "I g" and "free (ro_cell r)"
  shows "I (on_order_filled b v now r q px fi g)"
  using assms
  by (auto simp: on_order_filled_def Let_def apply_grid_fill spec_index entry_filled exit_filled split: option.splits)

text \<open>The order a report is about is still in the book, open, after its fill was handled.\<close>

lemma poll_order:
  assumes "I g" and x: "own_row b g x" and r: "ro_id r = ro_id x" "ro_cell r = ro_cell x" "ro_purpose r = ro_purpose x"
  shows "I (poll_order b v now r rp g)"
proof -
  have "free (ro_cell r)" using free_open [OF assms(1) x] r by simp
  then have filled: "I (on_order_filled b v now r q px fi g)" for q px fi
    by (rule on_order_filled [OF assms(1)])
  have still: "own_row b (on_order_filled b v now r q px fi g) x" for q px fi
    using ids [OF assms(1)] x r(2,3) by (rule polled_order_stays)
  show ?thesis
    unfolding poll_order_def Let_def r
    using reported [OF assms(1) x] reported [OF filled still] assms(1)
    by (simp add: sync_held_cell_exits)
qed

theorem step: "grid_step b g g' \<Longrightarrow> I g \<Longrightarrow> I g'"
  by (erule grid_stepE)
     (auto simp: handle_boundary sync_held_cell_exits sync_exit_coverage sync_grid_orders poll_order cancel_position_orders)

lemma run: "(grid_step b)\<^sup>*\<^sup>* g g' \<Longrightarrow> I g \<Longrightarrow> I g'"
  by (induction rule: rtranclp_induct) (auto intro: step)

end

section \<open>Orders of a cell never stack\<close>

definition counted :: "bot \<Rightarrow> int \<Rightarrow> string \<Rightarrow> resting \<Rightarrow> bool" where
  "counted b i p r = (ro_strategy r = b_strategy b \<and> ro_cell r = i \<and> ro_purpose r = p \<and> is_open r)"

definition opens :: "bot \<Rightarrow> int \<Rightarrow> string \<Rightarrow> grid \<Rightarrow> nat" where
  "opens b i p g = length (filter (counted b i p) (resting_rows (g_book g)))"

definition single_open :: "bot \<Rightarrow> grid \<Rightarrow> bool" where
  "single_open b g = (ids_ok g \<and> (\<forall>i p. opens b i p g \<le> 1))"

lemma filter_upd_where_le:
  assumes "\<And>r. r \<in> set t \<Longrightarrow> q r \<Longrightarrow> c (f r) \<Longrightarrow> c r"
  shows "length (filter c (upd_where q f t)) \<le> length (filter c t)"
  using assms by (induction t) (auto simp: upd_where_Cons)

lemma ids_ok_map:
  assumes "ids_ok g" and "map ro_id (resting_rows (g_book g')) = map ro_id (resting_rows (g_book g))"
    and "next_resting (g_book g') = next_resting (g_book g)"
  shows "ids_ok g'"
proof -
  have "ids_ok h \<longleftrightarrow> distinct (map ro_id (resting_rows (g_book h)))
      \<and> (\<forall>i \<in> set (map ro_id (resting_rows (g_book h))). 0 < i \<and> i < next_resting (g_book h)) \<and> 0 < next_resting (g_book h)"
    for h by (simp add: ids_ok_def)
  from this [of g] this [of g'] assms show ?thesis by (simp only:)
qed

lemma update_status_ids: "ids_ok g \<Longrightarrow> ids_ok (g\<lparr>g_book := update_status k status filled avg processed (g_book g)\<rparr>)"
  by (erule ids_ok_map) (simp_all add: update_status_def map_upd_where_same)

lemma update_status_single:
  assumes "single_open b g"
    and "\<And>r. r \<in> set (resting_rows (g_book g)) \<Longrightarrow> ro_id r = k \<Longrightarrow> status \<in> set open_statuses \<Longrightarrow> is_open r"
  shows "single_open b (g\<lparr>g_book := update_status k status filled avg processed (g_book g)\<rparr>)"
proof -
  let ?rows = "resting_rows (g_book g)"
  let ?rows' = "resting_rows (update_status k status filled avg processed (g_book g))"
  let ?f = "\<lambda>r. r\<lparr>ro_status := status,
                ro_filled := (case filled of None \<Rightarrow> ro_filled r | Some x \<Rightarrow> column 8 x),
                ro_avg := (case avg of None \<Rightarrow> ro_avg r | Some x \<Rightarrow> column 8 x),
                ro_processed := (case processed of None \<Rightarrow> ro_processed r | Some x \<Rightarrow> column 8 x)\<rparr>"
  have rows': "?rows' = upd_where (\<lambda>r. ro_id r = k) ?f ?rows" by (simp add: update_status_def)
  have le: "length (filter (counted b j q) ?rows') \<le> length (filter (counted b j q) ?rows)" for j q
    unfolding rows'
  proof (rule filter_upd_where_le)
    fix r assume r: "r \<in> set ?rows" "ro_id r = k" and new: "counted b j q (?f r)"
    from new have "status \<in> set open_statuses" by (simp add: counted_def is_open_def)
    from assms(2) [OF r this] new show "counted b j q r" by (simp add: counted_def)
  qed
  have opens: "opens b j q (g\<lparr>g_book := update_status k status filled avg processed (g_book g)\<rparr>) \<le> 1" for j q
    using le [of j q] assms(1) unfolding single_open_def opens_def by (simp, meson order_trans)
  have "ids_ok g" using assms(1) by (simp add: single_open_def)
  with opens show ?thesis by (simp add: single_open_def update_status_ids)
qed

lemma has_open_opens: "has_open b g i p \<longleftrightarrow> 0 < opens b i p g"
  by (auto simp: has_open_def has_open_for_cell_def opens_def counted_def filter_empty_conv)

lemma insert_resting_rows:
  obtains (refused) "client_id_taken ord bk"
    and "resting_rows (snd (insert_resting ord bk)) = resting_rows bk"
    and "next_resting (snd (insert_resting ord bk)) = next_resting bk + 1"
  | (stored) "\<not> client_id_taken ord bk"
    and "resting_rows (snd (insert_resting ord bk)) = resting_rows bk @ [stored_order (next_resting bk) ord]"
    and "next_resting (snd (insert_resting ord bk)) = next_resting bk + 1"
proof (cases "client_id_taken ord bk")
  case True
  show thesis by (rule refused) (simp_all add: insert_resting_def Let_def True)
next
  case False
  show thesis by (rule stored) (simp_all add: insert_resting_def Let_def False)
qed

lemma stored_simps [simp]:
  "ro_id (stored_order i ord) = i" "ro_cell (stored_order i ord) = ro_cell ord"
  "ro_purpose (stored_order i ord) = ro_purpose ord" "ro_strategy (stored_order i ord) = ro_strategy ord"
  by (simp_all add: stored_order_def)

lemma insert_ids:
  assumes "ids_ok g"
  shows "ids_ok (g\<lparr>g_book := snd (insert_resting ord (g_book g))\<rparr>)"
proof (cases ord "g_book g" rule: insert_resting_rows)
  case refused
  with assms show ?thesis by (auto simp: ids_ok_def)
next
  case stored
  have "next_resting (g_book g) \<notin> ro_id ` set (resting_rows (g_book g))" using assms by (auto simp: ids_ok_def)
  with assms show ?thesis by (auto simp: ids_ok_def stored)
qed

lemma insert_single:
  assumes "single_open b g" and free: "\<not> has_open b g (ro_cell ord) (ro_purpose ord)"
  shows "single_open b (g\<lparr>g_book := snd (insert_resting ord (g_book g))\<rparr>)"
proof -
  have "opens b i p (g\<lparr>g_book := snd (insert_resting ord (g_book g))\<rparr>) \<le> 1" for i p
  proof (cases ord "g_book g" rule: insert_resting_rows)
    case refused
    with assms(1) show ?thesis by (simp add: single_open_def opens_def)
  next
    case stored
    let ?new = "stored_order (next_resting (g_book g)) ord"
    have "opens b i p (g\<lparr>g_book := snd (insert_resting ord (g_book g))\<rparr>)
        = opens b i p g + (if counted b i p ?new then 1 else 0)" by (simp add: opens_def stored)
    moreover have "opens b i p g = 0" if "counted b i p ?new"
      using that free by (simp add: counted_def has_open_opens)
    moreover have "opens b i p g \<le> 1" using assms(1) by (simp add: single_open_def)
    ultimately show ?thesis by simp
  qed
  then show ?thesis using assms(1) insert_ids by (simp add: single_open_def)
qed

interpretation stacking: engine_invariant b "single_open b" "\<lambda>_. True" for b
proof unfold_locales
  fix g g' r st sz en w i x
  show "single_open b g \<Longrightarrow> ids_ok g" by (simp add: single_open_def)
  show "single_open b g \<Longrightarrow> g_book g' = g_book g \<Longrightarrow> g_cells g' = g_cells g \<Longrightarrow> single_open b g'"
    by (simp add: single_open_def ids_ok_def opens_def)
  show "single_open b g \<Longrightarrow> single_open b (set_order_status ''cancelled'' r g)"
    unfolding set_order_status_def by (auto intro: update_status_single simp: open_statuses_def)
  show "single_open b g \<Longrightarrow> single_open b
      (g\<lparr>g_cells := update_state (b_strategy b) (b_symbol b) i st sz en w (g_cells g)\<rparr>)"
    by (simp add: single_open_def ids_ok_def opens_def)
  show "single_open b g \<Longrightarrow> own_row b g x
      \<Longrightarrow> single_open b (g\<lparr>g_book := update_status (ro_id x) status f a p (g_book g)\<rparr>)" for status f a p
    by (rule update_status_single)
       (auto simp: own_row_def single_open_def ids_ok_def dest: distinct_key_eq [of ro_id])
qed (simp_all add: insert_single)

lemma cancel_all_single:
  assumes "single_open b g"
  shows "single_open b (g\<lparr>g_book := snd (cancel_all sid sy (g_book g))\<rparr>)"
proof -
  let ?p = "\<lambda>r. ro_strategy r = sid \<and> (case sy of None \<Rightarrow> True | Some s \<Rightarrow> s = [] \<or> ro_symbol r = s) \<and> is_open r"
  let ?f = "\<lambda>r. r\<lparr>ro_status := ''cancelled''\<rparr>"
  have le: "length (filter (counted b j q) (upd_where ?p ?f t)) \<le> length (filter (counted b j q) t)" for j q t
    by (rule filter_upd_where_le) (simp add: counted_def)
  have ids: "map ro_id (upd_where ?p ?f t) = map ro_id t" for t by (rule map_upd_where_same) simp
  have opens: "opens b j q (g\<lparr>g_book := snd (cancel_all sid sy (g_book g))\<rparr>) \<le> 1" for j q
    using le [of j q "resting_rows (g_book g)"] assms
    unfolding single_open_def opens_def cancel_all_def Let_def by (simp, meson order_trans)
  have "ids_ok (g\<lparr>g_book := snd (cancel_all sid sy (g_book g))\<rparr>)"
    by (rule ids_ok_map [of g]) (use assms in \<open>simp_all add: single_open_def cancel_all_def Let_def ids\<close>)
  with opens show ?thesis by (simp add: single_open_def)
qed

lemma shutdown_single: "single_open b g \<Longrightarrow> single_open b (shutdown b g)"
proof -
  assume "single_open b g"
  then have "single_open b (cancel_all_orders_on_exchange b g)"
    unfolding cancel_all_orders_on_exchange_def by (intro stacking.fold_keeps) (rule stacking.cancelled)
  from cancel_all_single [OF this, of "b_strategy b" "Some (b_symbol b)"]
  show ?thesis by (simp add: shutdown_def Let_def single_open_def ids_ok_def opens_def)
qed

text \<open>Polls of closed rows and events of the stream.\<close>

lemma poll_settles_single:
  assumes g: "single_open b g" and r: "settles v r rp"
  shows "single_open b (poll_order b v now r rp g)"
proof -
  define cum where "cum = reported_total r rp"
  define fresh where "fresh = (fill_epsilon < fsub cum (ro_processed r))"
  have st: "local_status r rp cum \<notin> set open_statuses" "\<not> (fresh \<and> v_leg_raises v)"
    using r by (auto simp: settles_def cum_def fresh_def)
  from st(2) have nf: "(fresh \<and> v_leg_raises v) = False" by blast
  define g1 where "g1 = (if fresh
      then on_order_filled b v now r (fsub cum (ro_processed r)) (num_or (rp_avg rp) (ro_price r))
        \<lparr>fi_commission = v_commission v, fi_event = 0, fi_fill = []\<rparr> g else g)"
  define g2 where "g2 = g1\<lparr>g_book := update_status (ro_id r) (local_status r rp cum) (Some cum) (Some (rp_avg rp))
      (Some (if fresh then cum else ro_processed r)) (g_book g1)\<rparr>"
  have "poll_order b v now r rp g =
     (if rp_status rp = ''unknown'' \<or> ro_id r = 0 then g
      else if rp_status rp = ''cancelled'' \<and> 0 < cum
        then snd (sync_held_cell_exits b v now (num_or (rp_avg rp) (ro_price r)) g2) else g2)"
    unfolding poll_order_def Let_def cum_def [symmetric] fresh_def [symmetric] g1_def [symmetric] g2_def [symmetric] nf if_False ..
  moreover have "single_open b g1" unfolding g1_def using g by (simp add: stacking.on_order_filled)
  then have "single_open b g2" unfolding g2_def by (rule update_status_single) (use st(1) in simp)
  ultimately show ?thesis using g by (simp add: stacking.sync_held_cell_exits)
qed

lemma raise_processed_single: "single_open b g \<Longrightarrow> single_open b (raise_processed n q g)"
proof -
  assume g: "single_open b g"
  have ids: "ids_ok (raise_processed n q g)"
    by (rule ids_ok_map [of g]) (use g in \<open>simp_all add: single_open_def raise_processed_def map_upd_where_same\<close>)
  have "opens b i p (raise_processed n q g) \<le> opens b i p g" for i p
    unfolding opens_def raise_processed_def by (simp, rule filter_upd_where_le) (simp add: counted_def is_open_def)
  with g have "opens b i p (raise_processed n q g) \<le> 1" for i p by (meson order_trans single_open_def)
  with ids show ?thesis by (simp add: single_open_def)
qed

lemma process_grid_single:
  assumes g: "single_open b g" and ev: "keeps_closed n ev g"
  shows "single_open b (process_grid b v now n ev g)"
proof (cases "find (\<lambda>r. ro_id r = n) (resting_rows (g_book g))")
  case None
  then show ?thesis using g by (simp add: process_grid_def)
next
  case (Some r)
  then have r: "r \<in> set (resting_rows (g_book g))" "ro_id r = n" by (auto dest: find_SomeD)
  have only: "x = r" if "x \<in> set (resting_rows (g_book g))" "ro_id x = n" for x
    using distinct_key_eq [of ro_id "resting_rows (g_book g)" x r] g r that by (simp add: single_open_def ids_ok_def)
  have op: "is_open r" if "streamed_status ev r \<in> set open_statuses"
    using ev that only by (auto simp: keeps_closed_def streamed_status_def open_statuses_def)
  define g1 where "g1 = g\<lparr>g_book := update_status n (streamed_status ev r) (Some (streamed_total ev r))
      (Some (streamed_avg ev r (num_or (ge_price ev) (fl (ro_price r))))) None (g_book g)\<rparr>"
  have "single_open b g1" unfolding g1_def by (rule update_status_single [OF g]) (use only op in blast)
  then show ?thesis
    by (simp add: process_grid_def Some Let_def g1_def [symmetric] raise_processed_single stacking.on_order_filled)
qed

lemma bootstrap_single: "single_open b g \<Longrightarrow> single_open b (snd (bootstrap b price g))"
  by (simp add: bootstrap_def single_open_def ids_ok_def opens_def)

text \<open>C16.  Orders of a cell do not stack while operations take turns.  Started with at most one open order for
  each cell and purpose, a grid keeps it so for ever: whatever the exchange, the ownership guard and
  the ledger answer, and in whatever order entries and exits are synchronised, orders polled from rows
  read earlier, events of the stream projected, entries withdrawn, boundaries hit and the grid shut
  down and started again.  Each of these runs to its end before the next begins, and no report or
  event sets a closed row to an open status: without the one or the other orders do stack
  (\<open>racing_orders_stack\<close>, \<open>late_partial_stacks\<close>).\<close>

theorem orders_never_stack:
  assumes "single_open b g" and "(grid_life b)\<^sup>*\<^sup>* g g'"
  shows "opens b i purpose g' \<le> 1"
proof -
  from assms(2) have "single_open b g'"
    by (induction rule: rtranclp_induct)
       (auto simp: assms(1) grid_life_def intro: stacking.step shutdown_single bootstrap_single poll_settles_single process_grid_single)
  then show ?thesis by (simp add: single_open_def)
qed

text \<open>
  \<open>place_limit\<close> does not look at the open orders of the cell, its callers do.  Two threads that both
  looked before either placed its order leave two orders: nothing in the table refuses the second, its
  client id carries the time.
\<close>

lemma place_limit_adds:
  assumes "place_limit b v now i purpose side px ro pos_side q g = (True, g')"
  shows "opens b i purpose g' = opens b i purpose g + 1"
proof -
  define qty where "qty = normalize_grid_base_qty v (case q of Some q \<Rightarrow> q | None \<Rightarrow> qty_from_usdt b (grid_budget_usdt b) px) px"
  define qty' where "qty' = (if ro then normalize_grid_base_qty v (resolve_grid_exit_quantity b v pos_side qty g) px else qty)"
  define ord where "ord = new_resting b now i purpose side ro pos_side px qty'"
  note place = assms [unfolded place_limit_def Let_def qty_def [symmetric] qty'_def [symmetric] ord_def [symmetric]]
  obtain ex x bk where ins: "insert_resting (ord\<lparr>ro_exchange := ex\<rparr>) (g_book g) = (Some x, bk)" and bk: "g_book g' = bk"
    using place by (auto split: if_splits option.splits prod.splits)
  from ins have "resting_rows bk = resting_rows (g_book g) @ [stored_order x (ord\<lparr>ro_exchange := ex\<rparr>)]"
    by (auto simp: insert_resting_def Let_def split: if_splits)
  moreover have "counted b i purpose (stored_order x (ord\<lparr>ro_exchange := ex\<rparr>))"
    by (simp add: counted_def is_open_def stored_order_def ord_def new_resting_def open_statuses_def str_or_def)
  ultimately show ?thesis by (simp add: opens_def bk)
qed

theorem racing_orders_stack:
  assumes "\<not> has_open b g i purpose"
    and "place_limit b v now i purpose side px ro pos_side q g = (True, g1)"
    and "place_limit b v' now' i purpose side' px' ro' pos_side' q' g1 = (True, g2)"
  shows "opens b i purpose g2 = 2"
  using place_limit_adds [OF assms(2)] place_limit_adds [OF assms(3)] assms(1) by (simp add: has_open_opens)

text \<open>
  A poll writes \<open>partial\<close> to its row whatever became of the row since it was read: a closed order whose
  cell has a new one by then counts as open again beside it.
\<close>

theorem late_partial_stacks:
  assumes g: "ids_ok g" and r: "r \<in> set (resting_rows (g_book g))" "ro_strategy r = b_strategy b" "\<not> is_open r"
    and new: "has_open b g (ro_cell r) (ro_purpose r)"
    and rp: "rp_status rp = ''partial''" "0 < rp_filled rp" "rp_filled rp = fl (ro_processed r)"
  shows "2 \<le> opens b (ro_cell r) (ro_purpose r) (poll_order b v now (resting_from_row r) rp g)"
proof -
  let ?c = "resting_from_row r" and ?cnt = "counted b (ro_cell r) (ro_purpose r)"
  have id: "ro_id ?c = ro_id r" "ro_id r \<noteq> 0" using g r(1) by (auto simp: ids_ok_def resting_from_row_def)
  have cum: "reported_total ?c rp = rp_filled rp" "ro_processed ?c = rp_filled rp"
    using rp by (simp_all add: reported_total_def num_or_def resting_from_row_def)
  have "0 \<le> fill_epsilon" by (simp add: fill_epsilon_def fl_nonneg)
  moreover have "fsub (rp_filled rp) (rp_filled rp) = 0" by (simp add: fsub_def)
  ultimately have "poll_order b v now ?c rp g = g\<lparr>g_book := update_status (ro_id r) ''partial'' (Some (rp_filled rp)) (Some (rp_avg rp))
      (Some (rp_filled rp)) (g_book g)\<rparr>"
    using rp by (simp add: poll_order_def Let_def cum id local_status_def)
  then obtain f where f: "resting_rows (g_book (poll_order b v now ?c rp g)) = upd_where (\<lambda>x. ro_id x = ro_id r) f (resting_rows (g_book g))"
    and f': "\<And>x. ro_strategy (f x) = ro_strategy x \<and> ro_cell (f x) = ro_cell x \<and> ro_purpose (f x) = ro_purpose x \<and> ro_id (f x) = ro_id x \<and> is_open (f x)"
    by (simp add: update_status_def is_open_def open_statuses_def)
  obtain x where x: "x \<in> set (resting_rows (g_book g))" "?cnt x"
    using new by (auto simp: has_open_opens opens_def filter_empty_conv)
  then have "x \<noteq> r" using r(3) by (auto simp: counted_def)
  then have ne: "ro_id x \<noteq> ro_id r" using distinct_key_eq [of ro_id _ x r] g x(1) r(1) by (auto simp: ids_ok_def)
  let ?ys = "filter ?cnt (upd_where (\<lambda>x. ro_id x = ro_id r) f (resting_rows (g_book g)))"
  have "x \<in> set ?ys" using x ne by (auto simp: set_upd_where)
  moreover have "f r \<in> set ?ys" using r f' by (auto simp: set_upd_where counted_def)
  moreover have "x \<noteq> f r" using ne f' by metis
  ultimately have "{x, f r} \<subseteq> set ?ys" "card {x, f r} = 2" by (blast, simp)
  with card_mono [of "set ?ys" "{x, f r}"] have "2 \<le> card (set ?ys)" by (metis List.finite_set)
  then show ?thesis unfolding opens_def f using card_length [of ?ys] by linarith
qed

section \<open>A withdrawn entry\<close>

text \<open>A cell the grid has lost: it is marked as having an entry working, and has no open order.\<close>

definition marked :: "bot \<Rightarrow> int \<Rightarrow> cell_row list \<Rightarrow> bool" where
  "marked b k t = ((\<exists>r \<in> set t. cell_key r = (b_strategy b, b_symbol b, k))
     \<and> (\<forall>r \<in> set t. cell_key r = (b_strategy b, b_symbol b, k) \<longrightarrow> ce_state r \<in> {''buy_open'', ''sell_open''}))"

definition wedged :: "bot \<Rightarrow> int \<Rightarrow> grid \<Rightarrow> bool" where
  "wedged b k g = (ids_ok g \<and> (\<forall>x. own_row b g x \<longrightarrow> ro_cell x \<noteq> k) \<and> marked b k (g_cells g))"

lemma parse_working [simp]: "parse_state ''buy_open'' = Buy_Open" "parse_state ''sell_open'' = Sell_Open"
  by code_simp+

lemma engine_rows_state:
  assumes "marked b k (g_cells g)" and "c \<in> set (engine_rows b g)" and "gc_index c = k"
  shows "gc_state c \<in> {Buy_Open, Sell_Open}"
proof -
  obtain r where "r \<in> set (g_cells g)" "ce_strategy r = b_strategy b" "ce_symbol r = b_symbol b" "c = cell_from_row r"
    using assms(2) by (auto simp: engine_rows_def list_cells_def)
  with assms(1,3) have "ce_state r \<in> {''buy_open'', ''sell_open''}"
    by (simp add: marked_def cell_key_def cell_from_row_def)
  with \<open>c = cell_from_row r\<close> show ?thesis by (auto simp: cell_from_row_def)
qed

lemma marked_state: "marked b k (g_cells g) \<Longrightarrow> cell_states b g k \<in> {Buy_Open, Sell_Open}"
proof -
  assume m: "marked b k (g_cells g)"
  then obtain r where r: "r \<in> set (g_cells g)" "cell_key r = (b_strategy b, b_symbol b, k)"
    by (auto simp: marked_def)
  then have "cell_from_row r \<in> set (engine_rows b g)" "gc_index (cell_from_row r) = k"
    by (auto simp: engine_rows_def list_cells_def cell_key_def cell_from_row_def)
  then obtain c where c: "cell_record b g k = Some c"
    unfolding cell_record_def by (cases "find (\<lambda>c. gc_index c = k) (engine_rows b g)") (auto dest: find_NoneD)
  then have "c \<in> set (engine_rows b g)" "gc_index c = k" by (auto simp: cell_record_def dest: find_SomeD)
  from engine_rows_state [OF m this] c show ?thesis by (auto simp: cell_states_def)
qed

lemma marked_update_other:
  "marked b k t \<Longrightarrow> i \<noteq> k \<Longrightarrow> marked b k (update_state (b_strategy b) (b_symbol b) i st sz en w t)"
  by (auto simp: marked_def update_state_def set_upd_where cell_key_def)

lemma own_row_cancelled:
  assumes "own_row b (set_order_status ''cancelled'' r g) x"
  shows "own_row b g x \<and> (ro_id r = 0 \<or> ro_id x \<noteq> ro_id r)"
proof -
  obtain y where y: "y \<in> set (resting_rows (g_book g))"
    "x = (if ro_id y = ro_id r \<and> ro_id r \<noteq> 0 then y\<lparr>ro_status := ''cancelled''\<rparr> else y)"
    using assms unfolding own_row_def set_status_rows by auto
  have "is_open x" using assms by (simp add: own_row_def)
  with y(2) cancelled_not_open [of y] have "x = y \<and> \<not> (ro_id y = ro_id r \<and> ro_id r \<noteq> 0)" by presburger
  with y(1) assms show ?thesis by (simp add: own_row_def) blast
qed

lemma own_row_updated:
  assumes "ids_ok g" and "own_row b g x"
    and "own_row b (g\<lparr>g_book := update_status (ro_id x) status f a p (g_book g)\<rparr>) y"
  shows "\<exists>z. own_row b g z \<and> ro_cell z = ro_cell y"
proof -
  from assms(3) obtain z where z: "z \<in> set (resting_rows (g_book g))"
    "ro_id z \<noteq> ro_id x \<and> y = z \<or> ro_id z = ro_id x \<and> ro_cell y = ro_cell z"
    by (auto simp: own_row_def update_status_def set_upd_where split: if_splits)
  show ?thesis
  proof (cases "ro_id z = ro_id x")
    case True
    then have "z = x" using assms(1,2) z(1) distinct_key_eq [of ro_id _ z x] by (auto simp: own_row_def ids_ok_def)
    with assms(2) z(2) show ?thesis by auto
  next
    case False
    with z assms(3) show ?thesis by (auto simp: own_row_def)
  qed
qed

interpretation wedge: engine_invariant b "wedged b k" "\<lambda>i. i \<noteq> k" for b k
proof unfold_locales
  fix g g' r st sz en w i x c ord
  show "wedged b k g \<Longrightarrow> ids_ok g" by (simp add: wedged_def)
  show "wedged b k g \<Longrightarrow> g_book g' = g_book g \<Longrightarrow> g_cells g' = g_cells g \<Longrightarrow> wedged b k g'"
    by (simp add: wedged_def ids_ok_def own_row_def)
  show "wedged b k g \<Longrightarrow> wedged b k (set_order_status ''cancelled'' r g)"
    using own_row_cancelled [of b r g] update_status_ids [of g]
    by (auto simp: wedged_def set_order_status_def)
  show "wedged b k g \<Longrightarrow> cell_states b g i = Idle \<Longrightarrow> i \<noteq> k"
    using marked_state [of b k g] by (auto simp: wedged_def)
  show "wedged b k g \<Longrightarrow> c \<in> set (engine_rows b g) \<Longrightarrow> gc_state c \<in> {Long_Held, Short_Held} \<Longrightarrow> gc_index c \<noteq> k"
    using engine_rows_state [of b k g c] by (auto simp: wedged_def)
  show "wedged b k g \<Longrightarrow> own_row b g x \<Longrightarrow> ro_cell x \<noteq> k" by (simp add: wedged_def)
  show "wedged b k g \<Longrightarrow> i \<noteq> k \<Longrightarrow> wedged b k
      (g\<lparr>g_cells := update_state (b_strategy b) (b_symbol b) i st sz en w (g_cells g)\<rparr>)"
    by (simp add: wedged_def ids_ok_def own_row_def marked_update_other)
  show "wedged b k g \<Longrightarrow> ro_cell ord \<noteq> k \<Longrightarrow> \<not> has_open b g (ro_cell ord) (ro_purpose ord)
      \<Longrightarrow> ro_strategy ord = b_strategy b \<Longrightarrow> wedged b k (g\<lparr>g_book := snd (insert_resting ord (g_book g))\<rparr>)"
    by (cases ord "g_book g" rule: insert_resting_rows) (auto simp: wedged_def insert_ids own_row_def)
  show "wedged b k g \<Longrightarrow> own_row b g x
      \<Longrightarrow> wedged b k (g\<lparr>g_book := update_status (ro_id x) status f a p (g_book g)\<rparr>)" for status f a p
    by (auto simp: wedged_def update_status_ids dest!: own_row_updated [rotated 2])
qed

text \<open>Withdrawing a side cancels its entries.\<close>

lemma cancel_position_own:
  assumes "own_row b (cancel_position_orders b v side exits g) x" and "v_client v" and "\<And>r. v_cancel v r"
    and "ids_ok g"
  shows "own_row b g x \<and> (is_exit x = exits \<longrightarrow> side \<noteq> [] \<and> ro_pos_side x \<noteq> side)"
proof -
  let ?P = "\<lambda>r. is_exit r = exits \<and> (side = [] \<or> ro_pos_side r = side) \<and> v_client v \<and> v_cancel v r"
  let ?step = "\<lambda>r g. if ?P r then set_order_status ''cancelled'' r g else g"
  have fold: "own_row b g x \<and> (\<forall>r \<in> set rs. ?P r \<longrightarrow> ro_id r = 0 \<or> ro_id x \<noteq> ro_id r)"
    if "own_row b (fold ?step rs g) x" for rs g
    using that
  proof (induction rs arbitrary: g)
    case (Cons r rs)
    then have "own_row b (fold ?step rs (?step r g)) x" by simp
    from Cons.IH [OF this] have step: "own_row b (?step r g) x"
      and rest: "\<forall>r \<in> set rs. ?P r \<longrightarrow> ro_id r = 0 \<or> ro_id x \<noteq> ro_id r" by blast+
    have "own_row b g x \<and> (?P r \<longrightarrow> ro_id r = 0 \<or> ro_id x \<noteq> ro_id r)"
    proof (cases "?P r")
      case True
      with step have "own_row b (set_order_status ''cancelled'' r g) x" by simp
      then show ?thesis by (blast dest: own_row_cancelled)
    next
      case False
      with step have "own_row b g x" by (simp only: if_False)
      with False show ?thesis by blast
    qed
    with rest show ?case by simp
  qed simp
  from fold [of "open_orders b g" g] assms(1)
  have own: "own_row b g x" and gone: "\<forall>r \<in> set (open_orders b g). ?P r \<longrightarrow> ro_id r = 0 \<or> ro_id x \<noteq> ro_id r"
    by (auto simp: cancel_position_orders_def)
  have "resting_from_row x \<in> set (open_orders b g)" using own by (simp add: open_orders_own)
  moreover have "is_exit (resting_from_row x) = is_exit x" by (simp add: is_exit_def)
  moreover have "ro_id x \<noteq> 0" using own assms(4) by (force simp: own_row_def ids_ok_def)
  ultimately show ?thesis using own gone assms(2,3) by auto
qed

lemma cancel_position_cells [simp]: "g_cells (cancel_position_orders b v side exits g) = g_cells g"
proof -
  have "g_cells (fold (\<lambda>r g. if P r then set_order_status st r g else g) rs g) = g_cells g" for P st rs
    by (induction rs arbitrary: g) (auto simp: set_order_status_def)
  then show ?thesis by (simp add: cancel_position_orders_def)
qed

lemma cancel_position_ids: "ids_ok g \<Longrightarrow> ids_ok (cancel_position_orders b v side exits g)"
proof -
  have "ids_ok (fold (\<lambda>r g. if P r then set_order_status st r g else g) rs g)" if "ids_ok g" for P st rs
    using that by (induction rs arbitrary: g) (auto simp: set_order_status_def update_status_ids)
  then show "ids_ok g \<Longrightarrow> ?thesis" by (simp add: cancel_position_orders_def)
qed

definition only_entries :: "bot \<Rightarrow> int \<Rightarrow> string \<Rightarrow> grid \<Rightarrow> bool" where
  "only_entries b k side g =
     (ids_ok g \<and> marked b k (g_cells g)
      \<and> (\<forall>x. own_row b g x \<longrightarrow> ro_cell x = k \<longrightarrow> \<not> is_exit x \<and> ro_pos_side x = side))"

lemma withdraw_wedges:
  assumes "only_entries b k side g" and "v_client v" and "\<And>r. v_cancel v r"
  shows "wedged b k (withdraw_side b v side g)"
proof -
  have "wedged b k (cancel_position_orders b v side False g)"
    unfolding wedged_def using assms cancel_position_own [OF _ assms(2,3), of b side False g]
    by (auto simp: only_entries_def cancel_position_ids)
  then show ?thesis by (simp add: withdraw_side_def Let_def wedge.cancel_position_orders)
qed

lemma cancel_position_only:
  assumes "only_entries b k s g" and "v_client v" and "\<And>r. v_cancel v r"
  shows "only_entries b k s (cancel_position_orders b v side exits g)"
  using assms cancel_position_own [OF _ assms(2,3), of b side exits g]
  by (auto simp: only_entries_def cancel_position_ids)

lemma guard_wedges:
  assumes "only_entries b k (side_name long) g" and "long \<in> set (entry_sides b)"
    and "\<not> entry_allowed v long" and "v_client v" and "\<And>r. v_cancel v r"
  shows "wedged b k (guard_sides b v g)"
proof -
  let ?step = "\<lambda>long g. if entry_allowed v long then g else withdraw_side b v (side_name long) g"
  have stays: "wedged b k h \<Longrightarrow> wedged b k (fold ?step ls h)" for ls h
    by (rule wedge.fold_keeps) (simp_all add: wedge.withdraw_side)
  have here: "wedged b k (?step long h)" if "only_entries b k (side_name long) h" for h
    using that assms(3-5) by (simp add: withdraw_wedges)
  have other: "only_entries b k (side_name long) (?step l h)" if "only_entries b k (side_name long) h" for l h
    using that assms(4,5) by (simp add: withdraw_side_def Let_def cancel_position_only)
  have "wedged b k (fold ?step ls h)" if "only_entries b k (side_name long) h" "long \<in> set ls" for ls h
    using that
  proof (induction ls arbitrary: h)
    case (Cons l ls)
    show ?case
    proof (cases "l = long")
      case True
      with stays [OF here [OF Cons.prems(1)]] show ?thesis by simp
    next
      case False
      with Cons.IH [OF other [OF Cons.prems(1)]] Cons.prems(2) show ?thesis by simp
    qed
  qed simp
  with assms(1,2) show ?thesis by (simp add: guard_sides_def)
qed

text \<open>A withdrawn entry loses its cell.  When the ownership guard refuses a side once (a failed
  snapshot of the account is enough), \<open>sync_grid_orders\<close> cancels that side's resting entries but
  leaves their cells marked \<open>buy_open\<close> or \<open>sell_open\<close>.  The steps of the grid (\<open>grid_step\<close>) then never give
  such a cell an order again, however often the guard later admits the side, entries and exits are
  synchronised and open orders are polled; what releases it is \<open>shutdown\<close>, or a fill of the cancelled
  order reported late, to a poll of its old row or by the execution stream.\<close>

theorem withdrawn_entry_loses_cell:
  assumes cell: "only_entries b k (side_name long) g" and side: "long \<in> set (entry_sides b)"
    and running: "g_bootstrapped g" "\<not> g_paused g" "\<not> g_waterfall g" "0 < price"
    and refused: "\<not> entry_allowed v long" and exchange: "v_client v" "\<And>r. v_cancel v r"
    and later: "(grid_step b)\<^sup>*\<^sup>* (snd (sync_grid_orders b v now price g)) g'"
  shows "\<not> has_open b g' k purpose \<and> cell_states b g' k \<in> {Buy_Open, Sell_Open}"
proof -
  have g1: "wedged b k (guard_sides b v g)" by (rule guard_wedges [OF cell side refused exchange])
  have "wedged b k (snd (sync_grid_orders b v now price g))"
    using g1 running exchange(1)
    by (simp add: sync_grid_orders_def Let_def wedge.place_entries)
  from wedge.run [OF later this] show ?thesis
    using marked_state [of b k g'] by (auto simp: wedged_def has_open_own)
qed

section \<open>Witnesses\<close>

definition demo_bot :: bot where
  "demo_bot = \<lparr>b_strategy = 7, b_symbol = ''BTC/USDT'', b_cfg = demo_grid, b_capital = 1024, b_pow = (*),
     b_leg = \<lparr>lc_market = ''swap'', lc_credential = 1, lc_inst = [], lc_source = ''grid_poller'', lc_pending = 0\<rparr>\<rparr>"

definition demo_venue :: "bool \<Rightarrow> venue" where
  "demo_venue admits = \<lparr>v_client = True, v_lot = (\<lambda>q. q), v_entry = (\<lambda>_. (admits, [])),
     v_reduce = (\<lambda>_ q. Some (q, [q])), v_spot_clamp = (\<lambda>q. q), v_place = (\<lambda>_. Some ''ex''),
     v_cancel = (\<lambda>_. True), v_auto_stop = (\<lambda>_. False), v_posting = Posted, v_leg_raises = False,
     v_commission = 0\<rparr>"

definition demo_order :: resting where
  "demo_order = \<lparr>ro_id = 1, ro_strategy = 7, ro_symbol = ''BTC/USDT'', ro_cell = 0, ro_purpose = ''long_entry'',
     ro_side = ''buy'', ro_pos_side = ''long'', ro_reduce_only = False, ro_price = 128, ro_quantity = 1/2,
     ro_quote = 64, ro_client = ''c1'', ro_exchange = ''ex'', ro_status = ''open'', ro_filled = 0, ro_avg = 0,
     ro_processed = 0\<rparr>"

definition demo_state :: grid where
  "demo_state = \<lparr>
     g_cells = [(idle_row 7 ''BTC/USDT'' 0 128 144)\<lparr>ce_state := ''buy_open''\<rparr>, idle_row 7 ''BTC/USDT'' 1 144 160],
     g_book = \<lparr>resting_rows = [demo_order], next_resting = 2\<rparr>, g_ledger = empty_ledger, g_bounds = (192, 128),
     g_bootstrapped = True, g_paused = False, g_waterfall = False, g_initial_done = False, g_seeded = [],
     g_errors = 0, g_stop = False, g_last_entry = 0\<rparr>"

lemma demo_fields [simp]:
  "b_strategy demo_bot = 7" "b_symbol demo_bot = ''BTC/USDT''" "grid_direction (b_cfg demo_bot) = ''long''"
  "resting_rows (g_book demo_state) = [demo_order]" "next_resting (g_book demo_state) = 2"
  "g_bootstrapped demo_state" "\<not> g_paused demo_state" "\<not> g_waterfall demo_state"
  by (simp_all add: demo_bot_def demo_grid_def demo_state_def)

lemma demo_single: "single_open demo_bot demo_state"
  by (auto simp: single_open_def ids_ok_def opens_def) (simp add: demo_order_def)+

lemma demo_only: "only_entries demo_bot 0 (side_name True) demo_state"
  by (auto simp: only_entries_def ids_ok_def own_row_def marked_def side_name_def is_exit_def py_endswith_def)
     (auto simp: demo_order_def demo_state_def idle_row_def cell_key_def)

lemma orders_never_stack_witness:
  "opens demo_bot 1 ''long_entry'' (snd (sync_grid_orders demo_bot (demo_venue True) 1000 160 demo_state)) \<le> 1"
proof -
  have "grid_life demo_bot demo_state (snd (sync_grid_orders demo_bot (demo_venue True) 1000 160 demo_state))"
    by (simp add: grid_life_def entries)
  then show ?thesis using orders_never_stack [OF demo_single r_into_rtranclp] by blast
qed

lemma withdrawn_entry_loses_cell_witness:
  "\<not> has_open demo_bot (snd (sync_grid_orders demo_bot (demo_venue False) 1000 160 demo_state)) 0 ''long_entry''
   \<and> cell_states demo_bot (snd (sync_grid_orders demo_bot (demo_venue False) 1000 160 demo_state)) 0 \<in> {Buy_Open, Sell_Open}"
proof -
  have "True \<in> set (entry_sides demo_bot)" by (simp add: entry_sides_def)
  moreover have "\<not> entry_allowed (demo_venue False) True" "v_client (demo_venue False)" "\<And>r. v_cancel (demo_venue False) r"
    by (simp_all add: entry_allowed_def demo_venue_def)
  ultimately show ?thesis
    using withdrawn_entry_loses_cell [OF demo_only, of 160 "demo_venue False" 1000] by simp
qed

end
