(* ===== verification/Grid_Posting.thy ===== *)
theory Grid_Posting
  imports Grid_Safety
begin

text \<open>
  Fills of resting orders on their way to the ledger: the poller posts the part of the exchange's
  cumulative quantity it has not posted yet, judged by the row it was handed.
\<close>

section \<open>Nothing but a fill touches the ledger\<close>

lemma ledger_set_status [simp]: "g_ledger (set_order_status st r g) = g_ledger g"
  by (simp add: set_order_status_def)

lemma ledger_fold: "(\<And>x g. g_ledger (f x g) = g_ledger g) \<Longrightarrow> g_ledger (fold f xs g) = g_ledger g"
  by (induction xs arbitrary: g) simp_all

lemma ledger_cancel_position [simp]: "g_ledger (cancel_position_orders b v side exits g) = g_ledger g"
  unfolding cancel_position_orders_def by (rule ledger_fold) simp

lemma ledger_withdraw [simp]: "g_ledger (withdraw_side b v side g) = g_ledger g"
  by (simp add: withdraw_side_def Let_def)

lemma ledger_place_limit [simp]:
  "g_ledger (snd (place_limit b v now i purpose side px ro pos_side quantity g)) = g_ledger g"
proof -
  define qty where "qty = normalize_grid_base_qty v
      (case quantity of Some q \<Rightarrow> q | None \<Rightarrow> qty_from_usdt b (grid_budget_usdt b) px) px"
  define qty' where "qty' = (if ro then normalize_grid_base_qty v (resolve_grid_exit_quantity b v pos_side qty g) px else qty)"
  define ord where "ord = new_resting b now i purpose side ro pos_side px qty'"
  have "g_ledger (record_order_error v g) = g_ledger g" by (simp add: record_order_error_def Let_def)
  then show ?thesis
    unfolding place_limit_def Let_def qty_def [symmetric] qty'_def [symmetric] ord_def [symmetric]
    by (simp split: option.split prod.split)
qed

lemma ledger_place_exit [simp]: "g_ledger (snd (place_exit b v now l c q g)) = g_ledger g"
  and ledger_place_entry [simp]: "g_ledger (snd (place_entry b v now l c o' g)) = g_ledger g"
  by (simp_all add: place_exit_def place_entry_def)

lemma ledger_cancel_each [simp]: "g_ledger (snd (cancel_each v rs g)) = g_ledger g"
  by (induction v rs g rule: cancel_each.induct) simp_all

lemma ledger_coverage [simp]: "g_ledger (snd (ensure_cell_exit_coverage b v now l c q g)) = g_ledger g"
  by (simp add: ensure_cell_exit_coverage_def Let_def case_prod_beta)

lemma ledger_set_cell [simp]: "g_ledger (set_cell b i st sz en g) = g_ledger g"
  by (simp add: set_cell_def)

lemma ledger_entry_filled [simp]: "g_ledger (entry_filled b v now l c fq px g) = g_ledger g"
  by (simp add: entry_filled_def Let_def)

lemma ledger_exit_filled [simp]: "g_ledger (exit_filled b v now l c fq g) = g_ledger g"
  by (simp add: exit_filled_def Let_def)

lemma ledger_on_order_filled:
  "g_ledger (on_order_filled b v now r q px fi g) = g_ledger (apply_grid_fill b v r q px fi g)"
  by (simp add: on_order_filled_def Let_def split: option.split)

section \<open>Posting a fill\<close>

lemma trades_record: "nt_event n = 0 \<Longrightarrow> length (trades (snd (record_trade n l))) = length (trades l) + 1"
  by (simp add: record_trade_def Let_def)

definition grid_purposes :: "string list" where
  "grid_purposes = [''long_entry'', ''long_exit'', ''short_entry'', ''short_exit'']"

lemma posted_trades:
  assumes "v_posting v = Posted" and "ro_purpose r \<in> set grid_purposes" and "0 < q" and "0 < px"
    and "fi_event fi = 0"
  shows "length (trades (g_ledger (apply_grid_fill b v r q px fi g))) = length (trades (g_ledger g)) + 1"
proof -
  have "purpose_to_signal (ro_purpose r) \<noteq> []"
    using assms(2) by (auto simp: grid_purposes_def purpose_to_signal_def)
  then show ?thesis
    using assms by (simp add: apply_grid_fill_def Let_def num_or_def case_prod_beta trades_record)
qed

lemma fill_epsilon_pos: "0 < fill_epsilon"
proof -
  have "2 powi (-50) \<le> fl (1 / 10 ^ 12)"
    by (rule fl.above) (use fl_representable [of 1 "-50"] in \<open>simp_all add: power_int_minus\<close>)
  then show ?thesis unfolding fill_epsilon_def by (rule less_le_trans [rotated]) simp
qed

lemma fill_epsilon_nonzero: "fsub t t = 0" "\<not> fill_epsilon < 0"
  using fill_epsilon_pos by simp_all

text \<open>What a fresh report does, and what the poller finds when it reads the row again.\<close>

lemma poll_posts:
  assumes "rp_status rp \<in> {''open'', ''partial'', ''filled''}" and "ro_id r \<noteq> 0"
    and "\<not> v_leg_raises v" and "fill_epsilon < fsub (reported_total r rp) (ro_processed r)"
  shows "g_ledger (poll_order b v now r rp g) =
      g_ledger (apply_grid_fill b v r (fsub (reported_total r rp) (ro_processed r)) (num_or (rp_avg rp) (ro_price r))
        \<lparr>fi_commission = v_commission v, fi_event = 0, fi_fill = []\<rparr> g)"
    and "y \<in> set (resting_rows (g_book (poll_order b v now r rp g))) \<Longrightarrow> ro_id y = ro_id r
      \<Longrightarrow> ro_processed y = column 8 (reported_total r rp)"
proof -
  have st: "rp_status rp \<noteq> ''unknown''" "rp_status rp \<noteq> ''cancelled''" using assms(1) by auto
  show "g_ledger (poll_order b v now r rp g) =
      g_ledger (apply_grid_fill b v r (fsub (reported_total r rp) (ro_processed r)) (num_or (rp_avg rp) (ro_price r))
        \<lparr>fi_commission = v_commission v, fi_event = 0, fi_fill = []\<rparr> g)"
    using assms st by (simp add: poll_order_def Let_def ledger_on_order_filled)
  assume "y \<in> set (resting_rows (g_book (poll_order b v now r rp g)))" and "ro_id y = ro_id r"
  then show "ro_processed y = column 8 (reported_total r rp)"
    using assms st
    by (auto simp: poll_order_def Let_def update_status_def set_upd_where split: if_splits)
qed

lemma poll_idle:
  assumes "rp_status rp \<in> {''open'', ''partial'', ''filled''}"
    and "\<not> fill_epsilon < fsub (reported_total r rp) (ro_processed r)"
  shows "g_ledger (poll_order b v now r rp g) = g_ledger g" and "g_cells (poll_order b v now r rp g) = g_cells g"
  using assms by (auto simp: poll_order_def Let_def)

text \<open>C17.  A fill is posted once, unless its readers race.  Polling an order whose exchange reports a new
  cumulative quantity (of at most eight decimals) posts exactly one trade for it; polling again
  with the row as it then stands posts nothing and leaves ledger and cells alone; but a second
  reader that had read the row before the first poll (the background poller and the refresh
  button, or the poller and the execution stream) posts the same fill a second time.\<close>

theorem fill_posted_once_unless_raced:
  assumes known: "ro_purpose r \<in> set grid_purposes" and row: "0 < ro_id r" "0 < ro_price r"
    and report: "rp_status rp \<in> {''open'', ''partial'', ''filled''}" "0 < rp_filled rp" "0 \<le> rp_avg rp"
    and decimals: "reload 8 (rp_filled rp) = rp_filled rp"
    and new: "fill_epsilon < fsub (rp_filled rp) (ro_processed r)"
    and works: "v_posting v = Posted" "\<not> v_leg_raises v" "v_posting v' = Posted" "\<not> v_leg_raises v'"
    and after: "g1 = poll_order b v now r rp g"
    and reread: "y \<in> set (resting_rows (g_book g1))" "ro_id y = ro_id r"
  shows "length (trades (g_ledger g1)) = length (trades (g_ledger g)) + 1
    \<and> g_ledger (poll_order b v' now' (resting_from_row y) rp g1) = g_ledger g1
    \<and> g_cells (poll_order b v' now' (resting_from_row y) rp g1) = g_cells g1
    \<and> length (trades (g_ledger (poll_order b v' now' r rp g1))) = length (trades (g_ledger g)) + 2"
proof -
  have total: "reported_total r rp = rp_filled rp" for r using report(2) by (simp add: reported_total_def num_or_def)
  have id: "ro_id r \<noteq> 0" using row(1) by simp
  have price: "0 < num_or (rp_avg rp) (ro_price r)" using report(3) row(2) by (simp add: num_or_def)
  have qty: "0 < fsub (rp_filled rp) (ro_processed r)" using new fill_epsilon_pos by simp
  have posts: "length (trades (g_ledger (poll_order b v now r rp g))) = length (trades (g_ledger g)) + 1"
    if "v_posting v = Posted" "\<not> v_leg_raises v" for v now g
    using poll_posts(1) [OF report(1) id that(2), of b now g] new posted_trades [OF that(1) known qty price]
    by (simp add: total)
  have "ro_processed y = column 8 (rp_filled rp)"
    using poll_posts(2) [OF report(1) id works(2), of y b now g] new reread by (simp add: total after)
  then have "ro_processed (resting_from_row y) = rp_filled rp"
    using decimals by (simp add: resting_from_row_def reload_def)
  then have "\<not> fill_epsilon < fsub (reported_total (resting_from_row y) rp) (ro_processed (resting_from_row y))"
    using fill_epsilon_nonzero by (simp add: total)
  from poll_idle [OF report(1) this] posts [OF works(1,2), of now g] posts [OF works(3,4), of now' g1]
  show ?thesis by (simp add: after)
qed

text \<open>A quantity with more decimals than its column keeps is posted again at every poll.\<close>

lemma finer_fill_posted_again:
  assumes "ro_purpose r \<in> set grid_purposes" and "ro_id r \<noteq> 0" and "0 < ro_price r"
    and "rp_status rp \<in> {''open'', ''partial'', ''filled''}" and "0 < rp_filled rp" and "0 \<le> rp_avg rp"
    and "ro_processed r = reload 8 (rp_filled rp)" and "fill_epsilon < fsub (rp_filled rp) (reload 8 (rp_filled rp))"
    and "v_posting v = Posted" and "\<not> v_leg_raises v"
  shows "length (trades (g_ledger (poll_order b v now r rp g))) = length (trades (g_ledger g)) + 1"
proof -
  have "reported_total r rp = rp_filled rp" using assms(5) by (simp add: reported_total_def num_or_def)
  moreover have "0 < fsub (rp_filled rp) (ro_processed r)" using assms(7,8) fill_epsilon_pos by simp
  moreover have "0 < num_or (rp_avg rp) (ro_price r)" using assms(3,6) by (simp add: num_or_def)
  ultimately show ?thesis
    using poll_posts(1) [OF assms(4,2,10), of b now g] posted_trades [OF assms(9,1)] assms(7,8) by simp
qed

lemma poll_row_stays:
  assumes "ids_ok g" and "own_row b g x" and "r = resting_from_row x"
    and "rp_status rp \<in> {''open'', ''partial'', ''filled''}"
  shows "\<exists>y \<in> set (resting_rows (g_book (poll_order b v now r rp g))). ro_id y = ro_id r"
proof -
  have upd: "\<exists>y \<in> set (resting_rows (update_status k st f a p bk)). ro_id y = ro_id x"
    if "x \<in> set (resting_rows bk)" for k st f a p bk
  proof -
    have "map ro_id (resting_rows (update_status k st f a p bk)) = map ro_id (resting_rows bk)"
      by (simp add: update_status_def map_upd_where_same)
    then have "ro_id x \<in> set (map ro_id (resting_rows (update_status k st f a p bk)))" using that by simp
    then show ?thesis by auto
  qed
  have "x \<in> set (resting_rows (g_book (on_order_filled b v now r q px fi g)))" for q px fi
    using polled_order_stays [OF assms(1,2), of r v now q px fi] assms(3) by (simp add: own_row_def)
  note filled = upd [OF this]
  have "x \<in> set (resting_rows (g_book g))" using assms(2) by (simp add: own_row_def)
  note kept = upd [OF this] and this
  have "rp_status rp \<noteq> ''cancelled''" using assms(4) by auto
  then show ?thesis
    using filled kept \<open>x \<in> set (resting_rows (g_book g))\<close> assms(3) by (auto simp: poll_order_def Let_def)
qed

definition demo_report :: report where
  "demo_report = \<lparr>rp_filled = 1/2, rp_avg = 128, rp_status = ''filled''\<rparr>"

lemma fl_half: "fl (1/2) = 1/2"
  using fl_representable [of 1 "-1"] by (simp add: power_int_minus)

lemma fill_epsilon_half: "fill_epsilon < 1/2"
proof -
  have "fl (1 / 10 ^ 12) \<le> fl (1 / 4)" by (rule fl_mono) simp
  moreover have "fl (1 / 4) = 1 / 4" using fl_representable [of 1 "-2"] by (simp add: power_int_minus)
  ultimately show ?thesis by (simp add: fill_epsilon_def)
qed

lemma fill_posted_once_unless_raced_witness:
  defines "r \<equiv> resting_from_row demo_order"
  defines "g1 \<equiv> poll_order demo_bot (demo_venue True) 1000 r demo_report demo_state"
  shows "length (trades (g_ledger g1)) = length (trades (g_ledger demo_state)) + 1
    \<and> length (trades (g_ledger (poll_order demo_bot (demo_venue True) 1001 r demo_report g1)))
      = length (trades (g_ledger demo_state)) + 2"
proof -
  have own: "own_row demo_bot demo_state demo_order"
    by (simp add: own_row_def) (simp add: demo_order_def is_open_def open_statuses_def)
  have "ids_ok demo_state" using demo_single by (simp add: single_open_def)
  from poll_row_stays [OF this own r_def [THEN meta_eq_to_obj_eq], of demo_report "demo_venue True" 1000]
  obtain y where y: "y \<in> set (resting_rows (g_book g1))" "ro_id y = ro_id r"
    by (auto simp: g1_def demo_report_def)
  have r: "ro_purpose r \<in> set grid_purposes" "0 < ro_id r" "0 < ro_price r" "ro_processed r = 0"
    by (simp_all add: r_def resting_from_row_def demo_order_def grid_purposes_def fl_numeral)
  have "dec 8 (1/2) = 1/2" by code_simp
  then have "column 8 (1/2) = 1/2" by (rule column_8_exact) simp
  then have decimals: "reload 8 (rp_filled demo_report) = rp_filled demo_report"
    unfolding reload_def demo_report_def by (simp only: fl_half report.simps)
  have new: "fill_epsilon < fsub (rp_filled demo_report) (ro_processed r)"
    using fill_epsilon_half fl_half by (simp add: fsub_def r demo_report_def)
  have report: "rp_status demo_report \<in> {''open'', ''partial'', ''filled''}" "0 < rp_filled demo_report"
    "0 \<le> rp_avg demo_report" by (simp_all add: demo_report_def)
  have works: "v_posting (demo_venue True) = Posted" "\<not> v_leg_raises (demo_venue True)"
    by (simp_all add: demo_venue_def)
  from fill_posted_once_unless_raced
    [OF r(1-3) report decimals new works works g1_def [THEN meta_eq_to_obj_eq] y]
  show ?thesis by blast
qed

text \<open>A fill the ledger refuses is lost.  The poller means to leave \<open>processed_fill_qty\<close> alone when posting fails, so that the fill is
  posted again later; but the fill handler swallows the failures of the ledger, so the poller never
  sees one: the ledger lacks the fill and the order counts as processed.\<close>

theorem unposted_fill_is_lost:
  assumes "rp_status rp \<in> {''open'', ''partial'', ''filled''}" and "ro_id r \<noteq> 0"
    and "\<not> v_leg_raises v" and "v_posting v = Not_Posted"
    and "fill_epsilon < fsub (reported_total r rp) (ro_processed r)"
    and "y \<in> set (resting_rows (g_book (poll_order b v now r rp g)))" and "ro_id y = ro_id r"
  shows "g_ledger (poll_order b v now r rp g) = g_ledger g \<and> ro_processed y = column 8 (reported_total r rp)"
  using poll_posts(1) [OF assms(1-3,5), of b now g] poll_posts(2) [OF assms(1-3,5-7)] assms(4)
  by (simp add: apply_grid_fill_def Let_def case_prod_beta)

lemma unposted_fill_is_lost_witness:
  defines "r \<equiv> resting_from_row demo_order"
  defines "g1 \<equiv> poll_order demo_bot ((demo_venue True)\<lparr>v_posting := Not_Posted\<rparr>) 1000 r demo_report demo_state"
  shows "g_ledger g1 = empty_ledger \<and> (\<exists>y \<in> set (resting_rows (g_book g1)). ro_processed y = 1/2)"
proof -
  let ?v = "(demo_venue True)\<lparr>v_posting := Not_Posted\<rparr>"
  have own: "own_row demo_bot demo_state demo_order"
    by (simp add: own_row_def) (simp add: demo_order_def is_open_def open_statuses_def)
  have "ids_ok demo_state" using demo_single by (simp add: single_open_def)
  from poll_row_stays [OF this own r_def [THEN meta_eq_to_obj_eq], of demo_report ?v 1000]
  obtain y where y: "y \<in> set (resting_rows (g_book g1))" "ro_id y = ro_id r"
    by (auto simp: g1_def demo_report_def)
  have r: "ro_id r \<noteq> 0" "ro_processed r = 0" by (simp_all add: r_def resting_from_row_def demo_order_def)
  have total: "reported_total r demo_report = 1/2" by (simp add: reported_total_def demo_report_def num_or_def)
  have "dec 8 (1/2) = 1/2" by code_simp
  then have col: "column 8 (1/2) = 1/2" by (rule column_8_exact) simp
  have new: "fill_epsilon < fsub (reported_total r demo_report) (ro_processed r)"
    using fill_epsilon_half fl_half by (simp add: fsub_def r total)
  have report: "rp_status demo_report \<in> {''open'', ''partial'', ''filled''}" by (simp add: demo_report_def)
  have works: "\<not> v_leg_raises ?v" "v_posting ?v = Not_Posted" by (simp_all add: demo_venue_def)
  from unposted_fill_is_lost [OF report r(1) works new y [unfolded g1_def]] y
  show ?thesis by (auto simp: g1_def total col demo_state_def)
qed

end
