(* ===== verification/Execution.thy ===== *)
theory Execution
  imports Order_Flow
begin

text \<open>
  Executing one order on an exchange: the contracts and algorithms of \<open>services/live_trading/contracts.py\<close>
  and \<open>executors.py\<close>, the building blocks of \<open>pending_orders/live_order_support.py\<close> and the decisions of
  \<open>sent_order_recovery.py\<close>.  The adapter of an exchange is the record \<open>adapter\<close>: functions that
  transform an arbitrary state \<open>'x\<close> of the exchange, so that what an order did there can be observed.
\<close>

section \<open>Contracts\<close>

text \<open>
  \<open>oi_quote\<close> is what a market order tells the exchange to spend instead of the quantity, when it does: the
  contract has no such field, the adapter sets it (\<open>market_sized\<close>).
\<close>

record order_intent =
  oi_symbol :: string
  oi_side :: string
  oi_quantity :: rat
  oi_price :: rat
  oi_pos_side :: string
  oi_reduce_only :: bool
  oi_client :: string
  oi_fallback :: string
  oi_quote :: "rat option"

text \<open>An exception of an adapter: a \<open>LiveTradingError\<close>, a \<open>TimeoutError\<close>, any other.\<close>

datatype adapter_error = Live_Trading_Error string | Timeout_Error string | Other_Error string

record live_order =
  lo_exchange :: string
  lo_oid :: string
  lo_filled :: rat
  lo_avg :: rat

type_synonym fees = "(string \<times> rat) list"

record fill_snapshot =
  fs_filled :: rat
  fs_avg :: rat
  fs_status :: string
  fs_fees :: fees

type_synonym ('x, 'a) call = "'x \<Rightarrow> (adapter_error + 'a) \<times> 'x"

text \<open>\<open>ad_find\<close> is \<open>find_order_by_client_id\<close> for adapters that have it; it yields the exchange's order id.\<close>

record 'x adapter =
  ad_market :: "order_intent \<Rightarrow> ('x, live_order) call"
  ad_limit :: "order_intent \<Rightarrow> ('x, live_order) call"
  ad_cancel :: "order_intent \<Rightarrow> string \<Rightarrow> ('x, unit) call"
  ad_wait :: "order_intent \<Rightarrow> string \<Rightarrow> rat \<Rightarrow> ('x, fill_snapshot option) call"
  ad_find :: "(string \<Rightarrow> ('x, string option) call) option"

text \<open>
  \<open>LiveOrderPhaseAdapter\<close> over such an adapter: a market order that buys is sized by the quote amount,
  where there is one (\<open>place_live_market_order\<close> for the spot markets of Bitget and Gate); every other call is passed on.
\<close>

definition market_sized :: "rat option \<Rightarrow> order_intent \<Rightarrow> order_intent" where
  "market_sized quote i = (if oi_side i = ''buy'' then i\<lparr>oi_quote := quote\<rparr> else i)"

definition phase_adapter :: "rat option \<Rightarrow> 'x adapter \<Rightarrow> 'x adapter" where
  "phase_adapter quote a = a\<lparr>ad_market := (\<lambda>i. ad_market a (market_sized quote i))\<rparr>"

record execution =
  ex_success :: bool
  ex_exchange :: string
  ex_oid :: string
  ex_filled :: rat
  ex_avg :: rat
  ex_status :: string
  ex_error :: string
  ex_fees :: fees
  ex_market_leg :: "(string \<times> rat \<times> rat) option"

definition from_live_order :: "live_order \<Rightarrow> string \<Rightarrow> execution" where
  "from_live_order r status = \<lparr>ex_success = True, ex_exchange = lo_exchange r, ex_oid = lo_oid r, ex_filled = lo_filled r,
     ex_avg = lo_avg r, ex_status = status, ex_error = [], ex_fees = [], ex_market_leg = None\<rparr>"

definition rejected :: "string \<Rightarrow> execution" where
  "rejected e = \<lparr>ex_success = False, ex_exchange = [], ex_oid = [], ex_filled = 0, ex_avg = 0, ex_status = ''rejected'',
     ex_error = e, ex_fees = [], ex_market_leg = None\<rparr>"

text \<open>\<open>attempt r k\<close>: the call \<open>r\<close> inside the executors' \<open>try\<close>, then \<open>k\<close>.\<close>

definition attempt ::
  "(adapter_error + 'a) \<times> 'x \<Rightarrow> ('a \<Rightarrow> ('x, execution) call) \<Rightarrow> (adapter_error + execution) \<times> 'x" where
  "attempt r k = (case r of
       (Inl (Live_Trading_Error e), x) \<Rightarrow> (Inr (rejected e), x)
     | (Inl e, x) \<Rightarrow> (Inl e, x)
     | (Inr v, x) \<Rightarrow> k v x)"

lemma attempt_simps [simp]:
  "attempt (Inr v, x) k = k v x"
  "attempt (Inl (Live_Trading_Error e), x) k = (Inr (rejected e), x)"
  "attempt (Inl (Timeout_Error e), x) k = (Inl (Timeout_Error e), x)"
  "attempt (Inl (Other_Error e), x) k = (Inl (Other_Error e), x)"
  by (simp_all add: attempt_def)

section \<open>Executors\<close>

definition market_execute :: "'x adapter \<Rightarrow> order_intent \<Rightarrow> rat \<Rightarrow> ('x, execution) call" where
  "market_execute a i wait x =
     attempt (ad_market a i x) (\<lambda>r x1.
       attempt (ad_wait a i (lo_oid r) (max 0 wait) x1) (\<lambda>fill x2.
         (Inr (case fill of
            None \<Rightarrow> from_live_order r (if 0 < lo_filled r then ''filled'' else ''submitted'')
          | Some f \<Rightarrow> (from_live_order r (str_or (fs_status f) ''submitted''))
              \<lparr>ex_filled := num_or (fs_filled f) (lo_filled r), ex_avg := num_or (fs_avg f) (lo_avg r), ex_fees := fs_fees f\<rparr>), x2)))"

definition resting_limit_execute :: "'x adapter \<Rightarrow> order_intent \<Rightarrow> ('x, execution) call" where
  "resting_limit_execute a i x =
     (if oi_price i \<le> 0 then (Inr (rejected ''limit_price_required''), x)
      else attempt (ad_limit a i x) (\<lambda>r x1.
        (Inr (from_live_order r
           (if oi_quantity i \<le> lo_filled r \<and> 0 < oi_quantity i then ''filled'' else ''submitted'')), x1)))"

definition is_complete :: "fill_snapshot option \<Rightarrow> rat \<Rightarrow> bool" where
  "is_complete fill requested =
     (case fill of
        None \<Rightarrow> False
      | Some f \<Rightarrow> py_lower (py_strip (fs_status f)) \<in> {''filled'', ''closed'', ''complete''}
                  \<or> 0 < requested \<and> fmul requested (fl (999999 / 1000000)) \<le> fs_filled f)"

definition weighted_avg :: "(rat \<times> rat) list \<Rightarrow> rat" where
  "weighted_avg fills =
     (let base = py_sum (map (\<lambda>(q, p). max 0 q) fills);
          notional = foldl (\<lambda>n (q, p). fadd n (fmul (max 0 q) (max 0 p))) 0 fills in
      if base \<le> 0 then 0 else if 0 < notional then fdiv notional base else 0)"

text \<open>A dictionary of fees, in insertion order: add \<open>v\<close> under \<open>k\<close>.\<close>

fun add_fee :: "string \<Rightarrow> rat \<Rightarrow> fees \<Rightarrow> fees" where
  "add_fee k v [] = [(k, v)]"
| "add_fee k v ((j, w) # fs) = (if j = k then (j, fadd w v) # fs else (j, w) # add_fee k v fs)"

definition fee_key :: "string \<Rightarrow> string" where
  "fee_key currency = str_or (py_upper (py_strip currency)) ''UNKNOWN''"

definition merge_fee_breakdowns :: "fees list \<Rightarrow> fees" where
  "merge_fee_breakdowns items =
     foldl (\<lambda>m (c, v). if \<bar>v\<bar> \<le> 0 then m else add_fee (fee_key c) (fadd 0 \<bar>v\<bar>) m) [] (concat items)"

definition snap_filled :: "fill_snapshot option \<Rightarrow> rat" where
  "snap_filled fill = (case fill of None \<Rightarrow> 0 | Some f \<Rightarrow> fs_filled f)"

definition snap_avg :: "fill_snapshot option \<Rightarrow> rat" where
  "snap_avg fill = (case fill of None \<Rightarrow> 0 | Some f \<Rightarrow> fs_avg f)"

text \<open>What the limit leg alone came to, and both legs together.\<close>

definition limit_leg_result :: "live_order \<Rightarrow> fill_snapshot option \<Rightarrow> string \<Rightarrow> execution" where
  "limit_leg_result r fill status = (from_live_order r
       (str_or (case fill of None \<Rightarrow> [] | Some f \<Rightarrow> fs_status f) status))
     \<lparr>ex_filled := snap_filled fill, ex_avg := snap_avg fill, ex_fees := (case fill of None \<Rightarrow> [] | Some f \<Rightarrow> fs_fees f)\<rparr>"

definition both_legs_result :: "live_order \<Rightarrow> fill_snapshot option \<Rightarrow> execution \<Rightarrow> execution" where
  "both_legs_result r fill m =
     \<lparr>ex_success = ex_success m, ex_exchange = str_or (ex_exchange m) (lo_exchange r),
      ex_oid = str_or (ex_oid m) (lo_oid r), ex_filled = fadd (snap_filled fill) (ex_filled m),
      ex_avg = weighted_avg [(snap_filled fill, snap_avg fill), (ex_filled m, ex_avg m)],
      ex_status = str_or (ex_status m) ''submitted'', ex_error = ex_error m,
      ex_fees = merge_fee_breakdowns [case fill of None \<Rightarrow> [] | Some f \<Rightarrow> fs_fees f, ex_fees m],
      ex_market_leg = Some (ex_oid m, ex_filled m, ex_avg m)\<rparr>"

definition fallback_intent :: "order_intent \<Rightarrow> rat \<Rightarrow> order_intent" where
  "fallback_intent i rest =
     i\<lparr>oi_quantity := rest, oi_price := 0, oi_client := str_or (oi_fallback i) (oi_client i)\<rparr>"

definition limit_then_market_execute :: "'x adapter \<Rightarrow> order_intent \<Rightarrow> rat \<Rightarrow> bool \<Rightarrow> ('x, execution) call" where
  "limit_then_market_execute a i wait fallback x =
     (if oi_price i \<le> 0 then market_execute a i 12 x
      else attempt (ad_limit a i x) (\<lambda>r x1.
        attempt (ad_wait a i (lo_oid r) (max 0 wait) x1) (\<lambda>fill x2.
          let rest = max 0 (fsub (oi_quantity i) (snap_filled fill)) in
          if is_complete fill (oi_quantity i) then (Inr (limit_leg_result r fill ''filled''), x2)
          else if \<not> fallback then (Inr (limit_leg_result r fill ''submitted''), x2)
          else attempt (ad_cancel a i (lo_oid r) x2) (\<lambda>_ x3.
            if rest \<le> 0 then (Inr (limit_leg_result r fill ''submitted''), x3)
            else attempt (market_execute a (fallback_intent i rest) 12 x3) (\<lambda>m x4.
              (Inr (both_legs_result r fill m), x4))))))"

section \<open>Fills and fees of an order\<close>

record accumulator =
  fa_base :: rat
  fa_quote :: rat
  fa_fee :: rat
  fa_fee_ccy :: string
  fa_fees :: fees

definition no_fills :: accumulator where
  "no_fills = \<lparr>fa_base = 0, fa_quote = 0, fa_fee = 0, fa_fee_ccy = [], fa_fees = []\<rparr>"

definition accumulate_fill :: "rat \<Rightarrow> rat \<Rightarrow> accumulator \<Rightarrow> accumulator" where
  "accumulate_fill q px f =
     (if 0 < q \<and> 0 < px then f\<lparr>fa_base := fadd (fa_base f) q, fa_quote := fadd (fa_quote f) (fmul q px)\<rparr> else f)"

definition accumulate_fee :: "rat \<Rightarrow> string \<Rightarrow> accumulator \<Rightarrow> accumulator" where
  "accumulate_fee fee ccy f =
     (if \<bar>fee\<bar> \<le> 0 then f
      else let key = fee_key ccy; fs = add_fee key (fadd 0 \<bar>fee\<bar>) (fa_fees f) in
        if length fs = 1
        then f\<lparr>fa_fees := fs, fa_fee_ccy := (if key = ''UNKNOWN'' then [] else key), fa_fee := snd (hd fs)\<rparr>
        else f\<lparr>fa_fees := fs, fa_fee_ccy := ''MIXED'', fa_fee := 0\<rparr>)"

definition accumulated_avg :: "accumulator \<Rightarrow> rat" where
  "accumulated_avg f = (if 0 < fa_base f then fdiv (fa_quote f) (fa_base f) else 0)"

definition apply_execution_result :: "execution \<Rightarrow> accumulator \<Rightarrow> accumulator" where
  "apply_execution_result ex f =
     foldl (\<lambda>f (c, v). accumulate_fee v c f) (accumulate_fill (ex_filled ex) (ex_avg ex) f) (ex_fees ex)"

section \<open>Identities and sides\<close>

definition is_alnum :: "char \<Rightarrow> bool" where
  "is_alnum c = (let n = (of_char c :: nat) in 48 \<le> n \<and> n \<le> 57 \<or> 65 \<le> n \<and> n \<le> 90 \<or> 97 \<le> n \<and> n \<le> 122)"

definition make_client_order_id :: "string \<Rightarrow> int \<Rightarrow> int \<Rightarrow> string \<Rightarrow> string" where
  "make_client_order_id exchange sid oid phase =
     (let ph = py_lower (py_strip phase) in
      if py_lower (py_strip exchange) = ''okx''
      then take 32 (str_or (filter is_alnum (''qd'' @ int_str sid @ int_str oid @ ph)) (''qd'' @ int_str sid @ int_str oid))
      else ''qd_'' @ int_str sid @ ''_'' @ int_str oid @ (if ph = [] then [] else ''_'' @ ph))"

definition signal_to_side_pos_reduce :: "string \<Rightarrow> (string \<times> string \<times> bool) option" where
  "signal_to_side_pos_reduce signal =
     (let st = py_lower (py_strip signal) in
      if st \<in> {''open_long'', ''add_long''} then Some (''buy'', ''long'', False)
      else if st \<in> {''open_short'', ''add_short''} then Some (''sell'', ''short'', False)
      else if st \<in> {''close_long'', ''reduce_long'', ''close_long_stop'', ''close_long_profit'', ''close_long_trailing''}
      then Some (''sell'', ''long'', True)
      else if st \<in> {''close_short'', ''reduce_short'', ''close_short_stop'', ''close_short_profit'', ''close_short_trailing''}
      then Some (''buy'', ''short'', True)
      else None)"

definition maker_limit_price :: "rat \<Rightarrow> string \<Rightarrow> rat \<Rightarrow> adapter_error + rat" where
  "maker_limit_price ref side offset =
     (let s = py_lower (py_strip side) in
      if ref \<le> 0 then Inl (Live_Trading_Error ''missing_ref_price_for_limit_order'')
      else if s = ''buy'' then Inr (fmul ref (fsub 1 offset))
      else if s \<noteq> ''sell'' then Inl (Live_Trading_Error (''unsupported_order_side:'' @ side))
      else Inr (fmul ref (fadd 1 offset)))"

section \<open>Completion\<close>

definition normalize_live_order_status :: "string \<Rightarrow> string" where
  "normalize_live_order_status status =
     (let n = remove_char (CHR ''_'') (py_lower (py_strip status)) in
      if n \<in> {''filled'', ''complete'', ''completed''} then ''filled''
      else if n \<in> {''cancelled'', ''canceled'', ''apicancelled'', ''inactive'', ''expired'', ''rejected''} then ''cancelled''
      else if n \<in> {''partiallyfilled'', ''partial'', ''partialfill''} then ''partial''
      else if n \<in> {''submitted'', ''presubmitted'', ''pendingsubmit'', ''pendingcancel'', ''open'', ''new''} then ''open''
      else ''unknown'')"

definition is_final_fill :: "rat \<Rightarrow> rat \<Rightarrow> rat \<Rightarrow> string \<Rightarrow> bool" where
  "is_final_fill requested filled avg status =
     (0 < requested \<and> 0 < filled \<and> 0 < avg
      \<and> (normalize_live_order_status status = ''filled'' \<or> fmul requested (fl (999999 / 1000000)) \<le> filled))"

text \<open>\<open>executable\<close> is what the exchange's step size leaves of the requested quantity.\<close>

definition reconciled_queue_status :: "rat \<Rightarrow> rat \<Rightarrow> rat \<Rightarrow> string \<Rightarrow> string" where
  "reconciled_queue_status executable filled avg status =
     (if is_final_fill executable filled avg status then ''filled''
      else if py_lower (py_strip status) = ''cancelled'' then ''cancelled'' else ''sent'')"

text \<open>\<open>tracked_fill_baseline\<close> over the stored response of the row.\<close>

definition tracked_fill_baseline :: "response \<Rightarrow> string \<Rightarrow> rat \<Rightarrow> rat \<Rightarrow> rat \<times> rat" where
  "tracked_fill_baseline resp oid prev_filled prev_avg =
     (case resp of
        Fill_Sync f a \<Rightarrow> (max 0 f, max 0 a)
      | Phases (Some (leg, f, a)) \<Rightarrow> if leg = oid then (max 0 f, max 0 a) else (max 0 prev_filled, max 0 prev_avg)
      | _ \<Rightarrow> (max 0 prev_filled, max 0 prev_avg))"

end
