(* ===== verification/Ownership.thy ===== *)
theory Ownership
  imports Positions
begin

text \<open>
  Who owns a position.  The exchange reports one quantity per account and leg; the strategies'
  ledgers and the holdings a user protects share it.  \<open>services/live_trading/position_ownership.py\<close>
  keeps a table of reservations, one row per leg, with the protected quantity, the coexistence mode
  and the last verdict; \<open>pending_orders/entry_position_guard.py\<close> consults it before an entry, and
  \<open>position_query.resolve_reduce_only_quantity\<close> caps an exit by it.
\<close>

section \<open>Legs\<close>

definition own_market :: "string \<Rightarrow> string" where
  "own_market v = swap_alias (py_lower (py_strip (str_or v ''swap'')))"

definition supports_position_coexistence :: "string \<Rightarrow> string \<Rightarrow> bool" where
  "supports_position_coexistence market exchange =
     (let mt = own_market market; ex = py_lower (py_strip exchange) in
      mt \<in> {''spot'', ''swap''}
      \<and> (mt = ''swap'' \<or> ex = [] \<or> ex \<in> {''binance'', ''bitget'', ''bybit'', ''gate'', ''htx'', ''okx''}))"

definition own_side :: "string \<Rightarrow> string" where
  "own_side v = (let s = py_lower (py_strip v) in if s = ''long'' \<or> s = ''short'' then s else [])"

definition own_symbol :: "string \<Rightarrow> string" where
  "own_symbol v = py_upper (normalize_strategy_symbol v)"

section \<open>The calculation\<close>

record ownership =
  ow_symbol :: string
  ow_side :: string
  ow_account :: rat
  ow_strategy :: rat
  ow_protected :: rat
  ow_expected :: rat
  ow_unknown :: rat
  ow_tolerance :: rat
  ow_mode :: string
  ow_status :: string
  ow_reason :: string
  ow_allowed :: bool
  ow_should_log :: bool

definition own_tolerance :: "rat \<Rightarrow> rat \<Rightarrow> rat" where
  "own_tolerance expected absolute =
     max (max (fl (1 / 10 ^ 8)) (fmul expected (fl (1 / 1000)))) (max 0 absolute)"

definition calculate_position_ownership ::
  "string \<Rightarrow> string \<Rightarrow> rat \<Rightarrow> rat \<Rightarrow> rat \<Rightarrow> string \<Rightarrow> string \<Rightarrow> string \<Rightarrow> rat \<Rightarrow> ownership" where
  "calculate_position_ownership symbol side account_qty strategy_qty protected_qty cmode prev_status prev_reason absolute =
     (let account = max 0 account_qty; strategy = max 0 strategy_qty;
          mode = (if py_lower cmode = ''advanced'' then ''advanced'' else ''strict'');
          protected = (if mode = ''strict'' then 0 else max 0 protected_qty);
          expected = fadd strategy protected;
          tolerance = own_tolerance expected absolute;
          unknown = fsub account expected;
          allowed = (\<bar>unknown\<bar> \<le> tolerance);
          status = (if allowed then ''ok'' else ''drift_blocked'');
          reason = (if allowed then [] else if 0 < unknown then ''unallocated_account_position''
                    else ''account_below_protected_allocation'') in
      \<lparr>ow_symbol = own_symbol symbol, ow_side = own_side side, ow_account = account, ow_strategy = strategy,
       ow_protected = protected, ow_expected = expected, ow_unknown = unknown, ow_tolerance = tolerance,
       ow_mode = mode, ow_status = status, ow_reason = reason, ow_allowed = allowed,
       ow_should_log = (\<not> allowed \<and> (prev_status \<noteq> ''drift_blocked'' \<or> prev_reason \<noteq> reason))\<rparr>)"

section \<open>Reservations\<close>

record reservation =
  rv_user :: int
  rv_credential :: int
  rv_exchange :: string
  rv_market :: string
  rv_inst :: string
  rv_symbol :: string
  rv_canonical :: string
  rv_side :: string
  rv_mode :: string
  rv_manual :: rat
  rv_observed :: rat
  rv_allocated :: rat
  rv_status :: string
  rv_reason :: string
  rv_log_at :: "int option"

text \<open>The leg of an account: user, credential, market type, symbol and side, as the caller names them.\<close>

record account_leg =
  al_user :: int
  al_credential :: int
  al_exchange :: string
  al_market :: string
  al_symbol :: string
  al_side :: string
  al_inst :: string

type_synonym leg_id = "int \<times> int \<times> string \<times> string \<times> string"

definition rv_key :: "reservation \<Rightarrow> leg_id" where
  "rv_key r = (rv_user r, rv_credential r, rv_market r, rv_canonical r, rv_side r)"

definition al_key :: "account_leg \<Rightarrow> leg_id" where
  "al_key a = (al_user a, al_credential a, own_market (al_market a), own_symbol (al_symbol a), own_side (al_side a))"

definition fetch_reservation :: "account_leg \<Rightarrow> reservation list \<Rightarrow> reservation option" where
  "fetch_reservation a t = find (\<lambda>r. rv_key r = al_key a) t"

definition reserved_qty :: "reservation option \<Rightarrow> rat" where
  "reserved_qty r = (case r of None \<Rightarrow> 0 | Some x \<Rightarrow> fl (rv_manual x))"

definition reserved_mode :: "reservation option \<Rightarrow> string" where
  "reserved_mode r = (case r of None \<Rightarrow> ''strict'' | Some x \<Rightarrow> str_or (rv_mode x) ''strict'')"

text \<open>\<open>INSERT .. ON CONFLICT (leg) DO UPDATE\<close>.\<close>

definition upsert_reservation ::
  "reservation \<Rightarrow> (reservation \<Rightarrow> reservation) \<Rightarrow> reservation list \<Rightarrow> reservation list" where
  "upsert_reservation new merge t =
     (if \<exists>r \<in> set t. rv_key r = rv_key new then upd_where (\<lambda>r. rv_key r = rv_key new) merge t else t @ [new])"

definition reservation_of :: "account_leg \<Rightarrow> string \<Rightarrow> ownership \<Rightarrow> string \<Rightarrow> rat \<Rightarrow> int option \<Rightarrow> reservation" where
  "reservation_of a ex s mode manual log_at = \<lparr>
     rv_user = al_user a, rv_credential = al_credential a, rv_exchange = ex,
     rv_market = own_market (al_market a), rv_inst = py_strip (al_inst a),
     rv_symbol = normalize_strategy_symbol (al_symbol a), rv_canonical = ow_symbol s, rv_side = ow_side s,
     rv_mode = mode, rv_manual = column 8 manual, rv_observed = column 8 (ow_account s),
     rv_allocated = column 8 (ow_strategy s), rv_status = ow_status s, rv_reason = ow_reason s, rv_log_at = log_at\<rparr>"

definition merge_common :: "reservation \<Rightarrow> reservation \<Rightarrow> reservation" where
  "merge_common new r = r\<lparr>rv_exchange := rv_exchange new,
     rv_inst := (if rv_inst new \<noteq> [] then rv_inst new else rv_inst r), rv_symbol := rv_symbol new,
     rv_observed := rv_observed new, rv_allocated := rv_allocated new, rv_status := rv_status new,
     rv_reason := rv_reason new\<rparr>"

definition evaluate_and_record_ownership ::
  "account_leg \<Rightarrow> rat \<Rightarrow> rat \<Rightarrow> rat \<Rightarrow> int \<Rightarrow> reservation list \<Rightarrow> ownership \<times> reservation list" where
  "evaluate_and_record_ownership a account_qty strategy_qty absolute now t =
     (let row = fetch_reservation a t;
          s = calculate_position_ownership (al_symbol a) (al_side a) account_qty strategy_qty
                (reserved_qty row) (reserved_mode row)
                (case row of None \<Rightarrow> [] | Some r \<Rightarrow> rv_status r) (case row of None \<Rightarrow> [] | Some r \<Rightarrow> rv_reason r) absolute;
          new = reservation_of a (py_lower (py_strip (al_exchange a))) s (ow_mode s) (ow_protected s)
                  (if ow_should_log s then Some now else None) in
      (s, upsert_reservation new
            (\<lambda>r. (merge_common new r)\<lparr>rv_log_at := (if ow_should_log s then Some now else rv_log_at r)\<rparr>) t))"

definition is_position_leg_blocked :: "account_leg \<Rightarrow> reservation list \<Rightarrow> bool" where
  "is_position_leg_blocked a t =
     (case fetch_reservation a t of None \<Rightarrow> False | Some r \<Rightarrow> rv_status r = ''drift_blocked'')"

definition protected_quantity :: "account_leg \<Rightarrow> reservation list \<Rightarrow> rat" where
  "protected_quantity a t =
     (if reserved_mode (fetch_reservation a t) \<noteq> ''advanced'' then 0
      else max 0 (reserved_qty (fetch_reservation a t)))"

datatype repair_error = Invalid_Repair_Action | Market_Unsupported | Account_Below_Allocation

definition repair_position_ownership ::
  "account_leg \<Rightarrow> rat \<Rightarrow> rat \<Rightarrow> string \<Rightarrow> reservation list \<Rightarrow> (repair_error + ownership) \<times> reservation list" where
  "repair_position_ownership a account_qty strategy_qty action t =
     (let act = py_lower (py_strip action); row = fetch_reservation a t;
          mode = (if act = ''protect_manual'' then ''advanced''
                  else if act = ''strict_mode'' then ''strict'' else reserved_mode row);
          manual = (if act = ''protect_manual'' then max 0 (fsub account_qty strategy_qty)
                    else if act = ''strict_mode'' then 0 else max 0 (reserved_qty row));
          s = calculate_position_ownership (al_symbol a) (al_side a) account_qty strategy_qty manual mode [] [] 0;
          new = (reservation_of a (py_lower (al_exchange a)) s mode manual None)\<lparr>rv_inst := al_inst a\<rparr> in
      if act \<notin> {''protect_manual'', ''strict_mode'', ''recheck''} then (Inl Invalid_Repair_Action, t)
      else if act = ''protect_manual'' \<and> \<not> supports_position_coexistence (al_market a) (al_exchange a)
      then (Inl Market_Unsupported, t)
      else if act = ''protect_manual'' \<and> fadd account_qty (fl (1 / 10 ^ 8)) < strategy_qty
      then (Inl Account_Below_Allocation, t)
      else (Inr s, upsert_reservation new
              (\<lambda>r. (merge_common new r)\<lparr>rv_mode := mode, rv_manual := column 8 manual, rv_log_at := None\<rparr>) t))"

section \<open>Before an entry\<close>

datatype guard_error = Drift | Opposite_Unknown | Opposite_Open

text \<open>
  \<open>evaluate_entry_position_guard\<close>: \<open>mode\<close> is the strategy's resolved direction mode, \<open>dust\<close> its drift
  tolerance in quote units, \<open>opposite\<close> the exchange's position on the other leg (\<open>None\<close> when the
  query raises).
\<close>

definition drift_tolerance :: "rat \<Rightarrow> rat \<Rightarrow> rat" where
  "drift_tolerance dust price =
     (let d = min 5 (max 0 (num_or dust 1)); p = max 0 price in if 0 < d \<and> 0 < p then fdiv d p else 0)"

definition evaluate_entry_position_guard ::
  "int \<Rightarrow> account_leg \<Rightarrow> string \<Rightarrow> rat \<Rightarrow> rat \<Rightarrow> rat \<Rightarrow> rat option \<Rightarrow> int \<Rightarrow> ledger \<Rightarrow> reservation list
   \<Rightarrow> (guard_error option \<times> ownership) \<times> reservation list" where
  "evaluate_entry_position_guard sid a mode dust account_qty price opposite now l t =
     (let strategy_qty = fetch_allocated_position_size sid (al_credential a) (al_market a) (al_symbol a) (al_side a) l;
          (s, t') = evaluate_and_record_ownership (a\<lparr>al_user := (if al_user a = 0 then 1 else al_user a)\<rparr>)
                      account_qty strategy_qty (drift_tolerance dust price) now t;
          other = (if al_side a = ''long'' then ''short'' else ''long'');
          local = fetch_position_size_for_side sid (al_symbol a) other l in
      ((if \<not> ow_allowed s then Some Drift
        else if own_market (al_market a) = ''spot'' \<or> mode \<in> {''both'', ''neutral''} then None
        else if local \<le> fl (1 / 10 ^ 8) then None
        else case opposite of
          None \<Rightarrow> Some Opposite_Unknown
        | Some q \<Rightarrow> if q \<le> fl (1 / 10 ^ 8) then None else Some Opposite_Open, s), t'))"

text \<open>
  The check of \<open>_execute_signal\<close> at the queue: on a venue where account and strategy share a leg, an
  entry is dropped while the leg is blocked (\<open>cred\<close> is the credential of the resolved exchange).
\<close>

definition entry_gate :: "int \<Rightarrow> int \<Rightarrow> string \<Rightarrow> string \<Rightarrow> reservation list \<Rightarrow> string \<Rightarrow> string \<Rightarrow> bool" where
  "entry_gate user cred exchange market t symbol side =
     (supports_position_coexistence (py_lower (py_strip (str_or market ''swap''))) exchange
      \<and> is_position_leg_blocked
          \<lparr>al_user = user, al_credential = cred, al_exchange = exchange,
           al_market = py_lower (py_strip (str_or market ''swap'')), al_symbol = symbol, al_side = side, al_inst = []\<rparr> t)"

section \<open>The quantity of an exit\<close>

record exit_quantity =
  eq_resolved :: rat
  eq_db :: rat
  eq_exchange :: rat
  eq_available :: "rat option"

text \<open>\<open>resolve_reduce_only_quantity\<close>: \<open>exch\<close> is the exchange's position (0 when unknown).\<close>

definition resolve_reduce_only_quantity ::
  "int \<Rightarrow> account_leg \<Rightarrow> rat \<Rightarrow> rat \<Rightarrow> bool \<Rightarrow> ledger \<Rightarrow> reservation list \<Rightarrow> exit_quantity" where
  "resolve_reduce_only_quantity sid a requested exch fallback l t =
     (let db = fetch_position_size_for_side sid (al_symbol a) (al_side a) l;
          asked = max 0 requested;
          a1 = (if 0 < db then (if asked \<le> 0 then db else min asked db)
                else if fallback then asked else 0);
          a2 = (if 0 < exch then (if a1 \<le> 0 \<and> fallback then exch else min a1 exch) else a1);
          guarded = (0 < al_user a \<and> 0 < al_credential a);
          available = max 0 (fsub exch (protected_quantity a t)) in
      \<lparr>eq_resolved = (if guarded then min a2 available else a2), eq_db = db, eq_exchange = exch,
       eq_available = (if guarded then Some available else None)\<rparr>)"

end
