(* ===== verification/Dispatch.thy ===== *)
theory Dispatch
  imports Execution Ownership
begin

text \<open>
  The queue of the pending order worker, \<open>services/pending_order_worker.py\<close>: the statements that move a row
  of \<open>pending_orders\<close> and its intent from \<open>pending\<close> to a final status, the ledger of execution attempts
  that guards against submitting twice after a crash, and the posting of fills
  (\<open>pending_orders/fill_records.py\<close>).  Every function is one transaction.
\<close>

section \<open>Statements on the queue\<close>

definition minutes5 :: int where
  "minutes5 = 300 * second"

definition set_row :: "int \<Rightarrow> (pending_row \<Rightarrow> pending_row) \<Rightarrow> queue \<Rightarrow> queue" where
  "set_row n f q = q\<lparr>pending := upd_where (\<lambda>p. pd_id p = n) f (pending q)\<rparr>"

text \<open>\<open>UPDATE strategy_order_intents .. FROM pending_orders po WHERE po.id = .. AND po.order_intent_id = soi.id\<close>\<close>

definition set_intent_of :: "int \<Rightarrow> string \<Rightarrow> queue \<Rightarrow> queue" where
  "set_intent_of n st q =
     q\<lparr>intents := upd_where (\<lambda>i. \<exists>p \<in> set (pending q). pd_id p = n \<and> pd_intent p = in_id i)
        (\<lambda>i. i\<lparr>in_status := st\<rparr>) (intents q)\<rparr>"

definition dead_letters :: "queue \<Rightarrow> queue" where
  "dead_letters q = q\<lparr>pending := upd_where
     (\<lambda>p. pd_status p \<in> {''pending'', ''processing''} \<and> pd_max p \<le> pd_attempts p \<and> pd_updated p < clock q - minutes5)
     (\<lambda>p. p\<lparr>pd_status := ''failed'', pd_updated := clock q, pd_note := ''dead_letter_max_attempts''\<rparr>) (pending q)\<rparr>"

definition requeue_stale :: "int \<Rightarrow> queue \<Rightarrow> queue" where
  "requeue_stale stale q = q\<lparr>pending := upd_where
     (\<lambda>p. pd_status p = ''processing'' \<and> pd_updated p < clock q - stale * second \<and> pd_attempts p < pd_max p)
     (\<lambda>p. p\<lparr>pd_status := ''pending'', pd_updated := clock q,
             pd_note := str_or (pd_note p) ''requeued_stale_processing''\<rparr>) (pending q)\<rparr>"

definition fetch_pending_orders :: "int \<Rightarrow> nat \<Rightarrow> queue \<Rightarrow> pending_row list \<times> queue" where
  "fetch_pending_orders stale limit q =
     (let q' = (if 0 < stale then requeue_stale stale (dead_letters q) else q) in
      (take limit (sort_key (\<lambda>p. - pd_priority p) (sort_key pd_id
         (filter (\<lambda>p. pd_status p = ''pending'' \<and> pd_attempts p < pd_max p) (pending q')))), q'))"

definition mark_processing :: "int \<Rightarrow> queue \<Rightarrow> bool \<times> queue" where
  "mark_processing n q =
     (0 < count_where (\<lambda>p. pd_id p = n \<and> pd_status p = ''pending'') (pending q),
      q\<lparr>pending := upd_where (\<lambda>p. pd_id p = n \<and> pd_status p = ''pending'')
          (\<lambda>p. p\<lparr>pd_status := ''processing'', pd_attempts := pd_attempts p + 1, pd_updated := clock q\<rparr>) (pending q)\<rparr>)"

definition mark_failed :: "int \<Rightarrow> queue \<Rightarrow> queue" where
  "mark_failed n q =
     set_intent_of n ''rejected'' (set_row n (\<lambda>p. p\<lparr>pd_status := ''failed'', pd_updated := clock q\<rparr>) q)"

definition mark_deferred :: "int \<Rightarrow> queue \<Rightarrow> queue" where
  "mark_deferred n q = set_row n (\<lambda>p. p\<lparr>pd_status := ''deferred'', pd_updated := clock q\<rparr>) q"

record sent_report =
  sr_note :: string
  sr_exchange :: string
  sr_oid :: string
  sr_response :: response
  sr_filled :: rat
  sr_avg :: rat
  sr_final :: bool

definition mark_sent :: "int \<Rightarrow> sent_report \<Rightarrow> queue \<Rightarrow> queue" where
  "mark_sent n r q =
     set_intent_of n (if sr_final r then ''filled'' else if 0 < sr_filled r then ''partially_filled'' else ''submitted'')
       (set_row n (\<lambda>p. p\<lparr>pd_status := (if pd_status p = ''filled'' \<or> sr_final r then ''filled'' else ''sent''),
            pd_note := sr_note r, pd_sent := Some (clock q), pd_exchange := sr_exchange r, pd_oid := sr_oid r,
            pd_response := sr_response r, pd_filled := max (pd_filled p) (column 8 (sr_filled r)),
            pd_avg := (if repr (fl (sr_filled r)) < pd_filled p \<and> 0 < pd_avg p then pd_avg p else column 8 (sr_avg r)),
            pd_updated := clock q\<rparr>) q)"

section \<open>Orders on the exchange\<close>

text \<open>
  \<open>fee_missing\<close> says of an order that one of its trades has no commission in the quote currency yet
  (the fee columns of \<open>qd_strategy_trades\<close> are not part of the ledger's model).
\<close>

definition live_syncable :: "int \<Rightarrow> (int \<Rightarrow> bool) \<Rightarrow> int \<Rightarrow> pending_row \<Rightarrow> bool" where
  "live_syncable fee_retry fee_missing now p =
     ((pd_status p = ''sent''
       \<or> pd_status p = ''filled'' \<and> pd_filled p \<le> 0 \<and> pd_avg p \<le> 0
       \<or> pd_status p = ''filled'' \<and> 0 < pd_filled p
         \<and> (pd_note p \<notin> {''live_fee_sync:no_fee'', ''live_fee_sync:retry''} \<or> pd_updated p < now - fee_retry * second)
         \<and> fee_missing (pd_id p))
      \<and> py_lower (pd_exchange p) \<noteq> ''alpaca'' \<and> pd_oid p \<noteq> [])"

definition sent_rank :: "pending_row \<Rightarrow> int" where
  "sent_rank p = (case pd_sent p of None \<Rightarrow> 0 | Some _ \<Rightarrow> 1)"

definition fetch_live_sent_orders :: "int \<Rightarrow> int \<Rightarrow> (int \<Rightarrow> bool) \<Rightarrow> nat \<Rightarrow> queue \<Rightarrow> pending_row list \<times> queue" where
  "fetch_live_sent_orders stale fee_retry fee_missing limit q =
     (let q' = (if 0 < max 0 stale then q\<lparr>pending := upd_where
          (\<lambda>p. pd_status p = ''syncing'' \<and> py_lower (pd_exchange p) \<noteq> ''alpaca'' \<and> pd_updated p < clock q - max 0 stale * second)
          (\<lambda>p. p\<lparr>pd_status := ''sent'', pd_note := ''live_fill_sync:requeued_stale_sync'', pd_updated := clock q\<rparr>)
          (pending q)\<rparr> else q) in
      (take limit (sort_key sent_rank (sort_key (\<lambda>p. case pd_sent p of None \<Rightarrow> 0 | Some t \<Rightarrow> t) (sort_key pd_id
         (filter (\<lambda>p. live_syncable fee_retry fee_missing (clock q) p \<and> pd_exchange p \<noteq> []) (pending q'))))), q'))"

definition claim_live_sent_order :: "int \<Rightarrow> (int \<Rightarrow> bool) \<Rightarrow> int \<Rightarrow> queue \<Rightarrow> pending_row option \<times> queue" where
  "claim_live_sent_order fee_retry fee_missing n q =
     (let hit = (\<lambda>p. pd_id p = n \<and> live_syncable fee_retry fee_missing (clock q) p);
          q' = q\<lparr>pending := upd_where hit
            (\<lambda>p. p\<lparr>pd_status := ''syncing'', pd_note := ''live_fill_sync:syncing'', pd_updated := clock q\<rparr>) (pending q)\<rparr> in
      if n \<le> 0 then (None, q)
      else case find hit (pending q) of
        None \<Rightarrow> (None, q')
      | Some _ \<Rightarrow> (find (\<lambda>p. pd_id p = n) (pending q'), q'))"

definition update_live_sent_order_snapshot ::
  "int \<Rightarrow> string \<Rightarrow> string \<Rightarrow> rat \<Rightarrow> rat \<Rightarrow> response \<Rightarrow> string \<Rightarrow> queue \<Rightarrow> queue" where
  "update_live_sent_order_snapshot n status exchange_status filled avg resp note q =
     (let st = str_or status ''sent'' in
      set_intent_of n (if st = ''filled'' then ''filled'' else if st = ''cancelled'' then ''cancelled''
                       else if 0 < filled then ''partially_filled'' else ''submitted'')
        (set_row n (\<lambda>p. p\<lparr>pd_status := st,
             pd_note := str_or note (''live_fill_sync:'' @ str_or exchange_status ''unknown''),
             pd_filled := column 8 filled, pd_avg := column 8 avg, pd_response := resp, pd_updated := clock q\<rparr>) q))"

section \<open>Execution attempts\<close>

record attempt_row =
  xa_pending :: int
  xa_client :: string
  xa_number :: int
  xa_status :: string
  xa_oid :: string

definition last_attempt :: "int \<Rightarrow> string \<Rightarrow> attempt_row list \<Rightarrow> attempt_row option" where
  "last_attempt n client t =
     (case sort_key (\<lambda>r. - xa_number r) (filter (\<lambda>r. xa_pending r = n \<and> xa_client r = client) t) of
        [] \<Rightarrow> None | r # _ \<Rightarrow> Some r)"

text \<open>\<open>_log_execution_attempt_start\<close>: whether an earlier attempt with this client id may have gone through.\<close>

definition log_execution_attempt_start :: "int \<Rightarrow> string \<Rightarrow> attempt_row list \<Rightarrow> bool \<times> attempt_row list" where
  "log_execution_attempt_start n client t =
     (let prev = last_attempt n client t;
          number = (case prev of None \<Rightarrow> 1 | Some r \<Rightarrow> (if xa_number r = 0 then 1 else xa_number r) + 1) in
      if client = [] then (False, t)
      else if (case prev of None \<Rightarrow> False | Some r \<Rightarrow> xa_status r = ''confirmed'' \<or> xa_status r = ''submitted'')
      then (True, t)
      else (False, t @ [\<lparr>xa_pending = n, xa_client = client, xa_number = number, xa_status = ''submitted'', xa_oid = []\<rparr>]))"

definition log_execution_attempt_end :: "int \<Rightarrow> string \<Rightarrow> string \<Rightarrow> string \<Rightarrow> attempt_row list \<Rightarrow> attempt_row list" where
  "log_execution_attempt_end n client status oid t =
     (if client = [] then t
      else upd_where (\<lambda>r. xa_pending r = n \<and> xa_client r = client \<and> xa_status r = ''submitted'')
        (\<lambda>r. r\<lparr>xa_status := status, xa_oid := oid\<rparr>) t)"

text \<open>
  The market branch of \<open>_execute_live_order\<close>: \<open>Inl\<close> is an exception, or the timeout, both of which fail
  the order.  The three transactions around the exchange call are one function here; a crash
  between them is stated with the parts.
\<close>

definition recovered :: "string \<Rightarrow> execution" where
  "recovered oid = \<lparr>ex_success = True, ex_exchange = [], ex_oid = oid, ex_filled = 0, ex_avg = 0, ex_status = [],
     ex_error = [], ex_fees = [], ex_market_leg = None\<rparr>"

definition reconcile_market :: "'x adapter \<Rightarrow> order_intent \<Rightarrow> ('x, execution) call" where
  "reconcile_market a i x =
     (case ad_find a of
        None \<Rightarrow> market_execute a i 12 x
      | Some search \<Rightarrow>
          (case search (oi_client i) x of
             (Inl e, x1) \<Rightarrow> (Inl (Other_Error ''Generic reconciliation lookup failed''), x1)
           | (Inr (Some oid), x1) \<Rightarrow> (Inr (recovered oid), x1)
           | (Inr None, x1) \<Rightarrow>
               (case market_execute a i 12 x1 of
                  (Inl e, x2) \<Rightarrow> (Inl (Other_Error ''Generic reconciliation lookup failed''), x2)
                | (Inr ex, x2) \<Rightarrow> (Inr ex, x2))))"

definition submit_market ::
  "'x adapter \<Rightarrow> order_intent \<Rightarrow> int \<Rightarrow> attempt_row list \<Rightarrow> 'x \<Rightarrow> ((adapter_error + execution) \<times> 'x) \<times> attempt_row list" where
  "submit_market a i n t x =
     (case log_execution_attempt_start n (oi_client i) t of
        (True, t1) \<Rightarrow> (reconcile_market a i x, t1)
      | (False, t1) \<Rightarrow>
          (case market_execute a i 12 x of
             (Inr ex, x1) \<Rightarrow> ((Inr ex, x1), log_execution_attempt_end n (oi_client i)
                               (if ex_success ex then ''confirmed'' else ''failed'') (ex_oid ex) t1)
           | (Inl (Timeout_Error e), x1) \<Rightarrow>
               ((Inl (Timeout_Error e), x1), log_execution_attempt_end n (oi_client i) ''timeout'' [] t1)
           | (Inl e, x1) \<Rightarrow> ((Inl e, x1), t1)))"

section \<open>Posting fills\<close>

definition symbol_currencies :: "string \<Rightarrow> string \<times> string" where
  "symbol_currencies symbol =
     (let s = normalize_strategy_symbol symbol in
      if CHR ''/'' \<notin> set s then ([], [])
      else (py_upper (takeWhile (\<lambda>c. c \<noteq> CHR ''/'') s),
            py_upper (takeWhile (\<lambda>c. c \<noteq> CHR '':'') (tl (dropWhile (\<lambda>c. c \<noteq> CHR ''/'') s)))))"

definition spot_position_fill_quantity :: "string \<Rightarrow> string \<Rightarrow> string \<Rightarrow> rat \<Rightarrow> fees \<Rightarrow> rat" where
  "spot_position_fill_quantity market symbol signal gross fs =
     (let g = max 0 gross; sig = py_lower (py_strip signal);
          fee = max 0 (case map_of fs (fst (symbol_currencies symbol)) of None \<Rightarrow> 0 | Some v \<Rightarrow> v) in
      if py_lower (py_strip market) \<noteq> ''spot'' then g
      else if sig \<in> {''open_long'', ''add_long''} then max 0 (fsub g fee)
      else if sig \<in> {''close_long'', ''reduce_long''} then fadd g fee
      else g)"

definition proportional_spot_position_fill_quantity :: "string \<Rightarrow> string \<Rightarrow> string \<Rightarrow> rat \<Rightarrow> rat \<Rightarrow> fees \<Rightarrow> rat" where
  "proportional_spot_position_fill_quantity market symbol signal recorded cumulative fs =
     (let r = max 0 recorded; c = max 0 cumulative; share = (if 0 < c then min 1 (fdiv r c) else 1) in
      spot_position_fill_quantity market symbol signal r (map (\<lambda>(k, v). (k, fmul v share)) fs))"

record fill_post =
  fp_strategy :: int
  fp_symbol :: string
  fp_signal :: string
  fp_filled :: rat
  fp_avg :: rat
  fp_position :: rat
  fp_leg :: leg_context
  fp_commission :: rat
  fp_reason :: string
  fp_run :: int
  fp_intent :: int
  fp_profit :: "rat option"
  fp_event :: int
  fp_fill :: string

text \<open>
  \<open>persist_strategy_fill\<close> with \<open>_record_runtime_fill\<close>: position, trade and, when a run or an intent is
  known, the status of the intent (the row it adds to \<open>strategy_order_fills\<close> is a log).
\<close>

definition persist_strategy_fill :: "fill_post \<Rightarrow> queue \<times> ledger \<Rightarrow> queue \<times> ledger" where
  "persist_strategy_fill f ql =
     (let (q, l) = ql;
          ((profit, _, matched), l1) = apply_fill (fp_strategy f) (fp_symbol f) (fp_signal f) (fp_position f) (fp_avg f)
                                         None (Some (fp_leg f)) l;
          row = \<lparr>nt_strategy = fp_strategy f, nt_symbol = fp_symbol f, nt_type = fp_signal f, nt_price = fp_avg f,
                 nt_amount = fp_filled f, nt_commission = fp_commission f, nt_profit = (case fp_profit f of None \<Rightarrow> profit | Some p \<Rightarrow> Some p),
                 nt_reason = fp_reason f,
                 nt_user = None, nt_matched = matched, nt_leg = Some (fp_leg f), nt_event = fp_event f,
                 nt_fill = fp_fill f\<rparr>;
          q1 = (if (0 < fp_run f \<or> 0 < fp_intent f) \<and> 0 < fp_intent f \<and> 0 < fp_filled f
                then q\<lparr>intents := upd_where (\<lambda>i. in_id i = fp_intent f)
                       (\<lambda>i. i\<lparr>in_status := ''partially_filled''\<rparr>) (intents q)\<rparr> else q) in
      if \<bar>fp_filled f\<bar> \<le> fl (1 / 10 ^ 12) then (q, l) else (q1, snd (record_trade row l1)))"

definition recorded_quantity :: "int \<Rightarrow> ledger \<Rightarrow> rat" where
  "recorded_quantity n l = sum_list (map tr_amount (filter (\<lambda>t. tr_pending t = n) (trades l)))"

definition unrecorded_pending_fill :: "int \<Rightarrow> rat \<Rightarrow> ledger \<Rightarrow> rat" where
  "unrecorded_pending_fill n cumulative l =
     (if n \<le> 0 then max 0 cumulative else max 0 (fsub cumulative (fl (recorded_quantity n l))))"

definition close_reason :: "order_request \<Rightarrow> string" where
  "close_reason r = (if is_close_signal (py_lower (py_strip (rq_action r))) then py_strip (rq_reason r) else [])"

end
