(* ===== verification/Live_Order.thy ===== *)
theory Live_Order
  imports Dispatch
begin

text \<open>
  Dispatching a claimed order: \<open>_dispatch_one\<close>, \<open>_execute_live_order\<close> and \<open>_tick\<close> of
  \<open>services/pending_order_worker.py\<close> for clients of crypto exchanges.  \<open>live_env\<close> is what the handler
  reads from outside: configuration, environment variables, answers of the exchange to queries, and
  verdicts of services that are not modelled (account risk, market policy).  Of the sizing it takes what
  the exchange's steps leave of a quantity (\<open>le_executable\<close>, \<open>le_base\<close>) and of a quote amount (\<open>le_quote\<close>), the
  free balance as \<open>le_clamp\<close> applies it, its last price, and whether its market orders buy by quote amount.
\<close>

section \<open>State and surroundings\<close>

record 'x floor =
  fl_queue :: queue
  fl_attempts :: "attempt_row list"
  fl_ledger :: ledger
  fl_reserved :: "reservation list"
  fl_exchange :: 'x

text \<open>
  How far recording a fill in the ledger got before it failed: to the end, to the end but for the status
  of the intent (whose failure is swallowed), to the position without its trade, or nowhere.
\<close>

datatype bookkeeping = Booked | Booked_Unlogged | Position_Booked | Not_Booked

record live_env =
  le_context_error :: "string option"
  le_exchange :: string
  le_user :: int
  le_credential :: int
  le_market :: string
  le_enabled :: bool
  le_client_error :: "string option"
  le_sync :: "ledger \<Rightarrow> ledger"
  le_account :: "rat option"
  le_mode :: string
  le_dust :: rat
  le_opposite :: "rat option"
  le_risk :: "string option"
  le_position :: rat
  le_configure_error :: "string option"
  le_clamp :: "rat \<Rightarrow> rat"
  le_prepare_fails :: bool
  le_base :: "rat \<Rightarrow> rat"
  le_quote :: "rat \<Rightarrow> rat"
  le_last :: rat
  le_by_quote :: bool
  le_executable :: "rat \<Rightarrow> rat"
  le_order_mode :: string
  le_wait :: rat
  le_fallback :: bool
  le_offset :: rat
  le_recover :: "string \<Rightarrow> rat \<times> rat"
  le_leg :: leg_context
  le_marking :: bool
  le_posting :: bookkeeping
  le_configured_mode :: string
  le_notified :: bool

section \<open>Before the exchange\<close>

text \<open>The checks up to the client: why the order is refused, if it is.\<close>

definition order_symbol :: "pending_row \<Rightarrow> string" where
  "order_symbol p = str_or (rq_symbol (pd_payload p)) (pd_symbol p)"

definition order_signal :: "pending_row \<Rightarrow> string" where
  "order_signal p = str_or (rq_action (pd_payload p)) (pd_action p)"

definition order_amount :: "pending_row \<Rightarrow> rat" where
  "order_amount p = num_or (rq_quantity (pd_payload p)) (fl (pd_amount p))"

definition live_rejection :: "live_env \<Rightarrow> pending_row \<Rightarrow> string option" where
  "live_rejection e p =
     (if order_symbol p = [] \<or> order_signal p = [] then Some ''missing_symbol_or_signal_type''
      else if le_context_error e \<noteq> None then le_context_error e
      else if le_exchange e = ''paper''
      then Some ''Execution mode invariant violated: live order routed to paper exchange config''
      else if \<not> le_enabled e then Some ''agentLiveTradingDisabled: Live trading is globally disabled on this server.''
      else if le_client_error e \<noteq> None then le_client_error e
      else if le_market e = ''spot'' \<and> py_contains ''short'' (py_lower (py_strip (order_signal p)))
      then Some ''spot_market_does_not_support_short_signals''
      else if signal_to_side_pos_reduce (order_signal p) = None then Some ''Unsupported signal_type''
      else None)"

text \<open>The leg of the order, as the guard and the exit sizing name it.\<close>

definition order_leg :: "live_env \<Rightarrow> pending_row \<Rightarrow> string \<Rightarrow> account_leg" where
  "order_leg e p pos_side = \<lparr>al_user = le_user e, al_credential = le_credential e, al_exchange = le_exchange e,
     al_market = le_market e, al_symbol = order_symbol p, al_side = pos_side, al_inst = []\<rparr>"

definition ref_price :: "pending_row \<Rightarrow> rat" where
  "ref_price p = num_or (num_or (rq_price (pd_payload p)) (num_or (rq_limit (pd_payload p)) (rq_price (pd_payload p))))
     (fl (pd_price p))"

text \<open>The ownership guard and the account's risk limits before an entry.\<close>

definition check_entry :: "live_env \<Rightarrow> pending_row \<Rightarrow> string \<Rightarrow> 'x floor \<Rightarrow> string option \<times> 'x floor" where
  "check_entry e p pos_side s =
     (let account = (case le_account e of None \<Rightarrow> 0 | Some q \<Rightarrow> q);
          ((err, _), t) = evaluate_entry_position_guard (rq_strategy (pd_payload p)) (order_leg e p pos_side) (le_mode e)
             (le_dust e) account (ref_price p) (le_opposite e) (clock (fl_queue s)) (fl_ledger s) (fl_reserved s) in
      if supports_position_coexistence (le_market e) (le_exchange e)
      then (case err of
              Some Drift \<Rightarrow> Some ''position_drift_detected''
            | Some Opposite_Unknown \<Rightarrow> Some ''opposite_position_snapshot_failed''
            | Some Opposite_Open \<Rightarrow> Some ''opposite_position_still_open''
            | None \<Rightarrow> if le_market e \<in> {''spot'', ''swap''} then le_risk e else None, s\<lparr>fl_reserved := t\<rparr>)
      else (if le_market e \<in> {''spot'', ''swap''} then le_risk e else None, s))"

definition close_quantity :: "live_env \<Rightarrow> pending_row \<Rightarrow> string \<Rightarrow> rat \<Rightarrow> 'x floor \<Rightarrow> rat" where
  "close_quantity e p pos_side requested s =
     eq_resolved (resolve_reduce_only_quantity (rq_strategy (pd_payload p)) (order_leg e p pos_side) requested
        (le_position e) False (fl_ledger s) (fl_reserved s))"

definition requires_account_configuration :: "string \<Rightarrow> bool \<Rightarrow> bool" where
  "requires_account_configuration market reduce =
     (py_lower (py_strip market) \<in> {''swap'', ''future'', ''futures'', ''perp'', ''perpetual''} \<and> \<not> reduce)"

text \<open>The quantity to send: what the ledger allows, what a spot balance leaves, what the step size leaves.\<close>

definition bitget_size :: "live_env \<Rightarrow> rat \<Rightarrow> rat" where
  "bitget_size e q = (if le_market e = ''swap'' \<and> le_exchange e = ''bitget'' then le_executable e q else q)"

text \<open>\<open>prepare_spot_live_order_sizes\<close>: base quantity, quote amount, and whether a market order buys by the latter.\<close>

definition spot_price :: "live_env \<Rightarrow> rat \<Rightarrow> rat" where
  "spot_price e ref = (if ref \<le> 0 then le_last e else ref)"

definition normalize_spot_quote_amount :: "live_env \<Rightarrow> rat \<Rightarrow> rat" where
  "normalize_spot_quote_amount e amount = (if amount \<le> 0 then 0 else le_quote e amount)"

definition prepare_spot_live_order_sizes :: "live_env \<Rightarrow> string \<Rightarrow> bool \<Rightarrow> rat \<Rightarrow> rat \<Rightarrow> rat \<times> rat \<times> bool" where
  "prepare_spot_live_order_sizes e side reduce q ref =
     (if side = ''buy'' \<and> \<not> reduce
      then let rp = spot_price e ref;
               quote = normalize_spot_quote_amount e (if 0 < rp \<and> 0 < q then fmul q rp else 0);
               by_quote = (le_by_quote e \<and> 0 < quote) in
        (max 0 (if by_quote then q else le_base e q), max 0 quote, by_quote)
      else (max 0 (le_base e q), 0, False))"

text \<open>What a spot order comes to; the quote amount is \<open>Some\<close> when market orders are to use it.\<close>

definition spot_size :: "live_env \<Rightarrow> string \<Rightarrow> bool \<Rightarrow> rat \<Rightarrow> rat \<Rightarrow> rat \<times> rat option" where
  "spot_size e side reduce q ref =
     (let q1 = (if reduce \<and> le_market e = ''spot'' \<and> side = ''sell'' then le_clamp e q else q) in
      if le_market e = ''spot'' \<and> \<not> le_prepare_fails e
      then let (q2, quote, by_quote) = prepare_spot_live_order_sizes e side reduce q1 ref in
           (q2, if by_quote \<and> 0 < quote then Some quote else None)
      else (q1, None))"

definition order_size :: "live_env \<Rightarrow> pending_row \<Rightarrow> string \<times> string \<times> bool \<Rightarrow> 'x floor \<Rightarrow> (rat \<times> rat option) \<times> 'x floor" where
  "order_size e p sides s =
     (let (side, pos_side, reduce) = sides;
          q0 = (if reduce then close_quantity e p pos_side (max 0 (order_amount p)) s else order_amount p);
          (q1, quote) = spot_size e side reduce q0 (ref_price p);
          q2 = bitget_size e q1;
          s1 = s\<lparr>fl_ledger := le_sync e (fl_ledger s)\<rparr>;
          retry = close_quantity e p pos_side (order_amount p) s1 in
      if q2 \<le> 0 \<and> reduce \<and> quote = None
      then ((if 0 < retry then bitget_size e retry else retry, quote), s1)
      else ((q2, quote), s))"

section \<open>On the exchange\<close>

definition order_mode_of :: "live_env \<Rightarrow> pending_row \<Rightarrow> string" where
  "order_mode_of e p =
     (let algo = py_lower (py_strip (rq_algo (pd_payload p))) in
      if algo = ''market'' then ''market''
      else if algo \<in> {''limit_then_market'', ''maker'', ''maker_then_market''} then ''maker_then_market''
      else if algo = ''limit'' then ''limit''
      else py_lower (py_strip (le_order_mode e)))"

definition limit_first :: "live_env \<Rightarrow> pending_row \<Rightarrow> bool" where
  "limit_first e p = (order_mode_of e p \<in> {''maker'', ''limit'', ''limit_first'', ''maker_then_market''})"

definition is_limit :: "pending_row \<Rightarrow> bool" where
  "is_limit p = (py_lower (py_strip (rq_algo (pd_payload p))) = ''limit'')"

definition order_price :: "live_env \<Rightarrow> pending_row \<Rightarrow> string \<Rightarrow> adapter_error + rat" where
  "order_price e p side =
     (if is_limit p \<or> limit_first e p
      then (if rq_limit (pd_payload p) \<noteq> 0 then Inr (rq_limit (pd_payload p))
            else maker_limit_price (ref_price p) side (le_offset e))
      else Inr 0)"

definition client_order_id :: "live_env \<Rightarrow> pending_row \<Rightarrow> string \<Rightarrow> string" where
  "client_order_id e p phase = make_client_order_id (le_exchange e) (rq_strategy (pd_payload p)) (pd_id p) phase"

definition order_intent_of :: "live_env \<Rightarrow> pending_row \<Rightarrow> string \<times> string \<times> bool \<Rightarrow> rat \<Rightarrow> rat \<Rightarrow> order_intent" where
  "order_intent_of e p sides q price =
     \<lparr>oi_symbol = order_symbol p, oi_side = fst sides, oi_quantity = q, oi_price = price,
      oi_pos_side = fst (snd sides), oi_reduce_only = snd (snd sides),
      oi_client = client_order_id e p (if is_limit p \<or> limit_first e p then ''lmt'' else ''mkt''),
      oi_fallback = client_order_id e p ''mkt'', oi_quote = None\<rparr>"

text \<open>\<open>le_fallback\<close> is \<open>open_fallback_to_market\<close> of the payload, \<open>close_fallback_to_market\<close> for an exit.\<close>

definition run_executor ::
  "live_env \<Rightarrow> pending_row \<Rightarrow> 'x adapter \<Rightarrow> order_intent \<Rightarrow> 'x floor \<Rightarrow> (adapter_error + execution) \<times> 'x floor" where
  "run_executor e p a i s =
     (if is_limit p
      then let (r, x) = resting_limit_execute a i (fl_exchange s) in (r, s\<lparr>fl_exchange := x\<rparr>)
      else if limit_first e p
      then let (r, x) = limit_then_market_execute a i (le_wait e) (le_fallback e) (fl_exchange s) in (r, s\<lparr>fl_exchange := x\<rparr>)
      else let ((r, x), t) = submit_market a i (pd_id p) (fl_attempts s) (fl_exchange s) in
           (r, s\<lparr>fl_exchange := x, fl_attempts := t\<rparr>))"

section \<open>After the exchange\<close>

text \<open>The fill of the execution, or the one recovered from the exchange when it reported none.\<close>

definition final_fill :: "live_env \<Rightarrow> pending_row \<Rightarrow> execution \<Rightarrow> rat \<times> rat" where
  "final_fill e p ex =
     (let f = apply_execution_result ex no_fills; (rf, ra) = le_recover e (ex_oid ex) in
      if fa_base f \<le> 0 \<and> ex_oid ex \<noteq> [] \<and> 0 < rf then (rf, if 0 < ra then ra else ref_price p)
      else (fa_base f, accumulated_avg f))"

definition posted_fill :: "live_env \<Rightarrow> pending_row \<Rightarrow> execution \<Rightarrow> rat \<Rightarrow> rat \<Rightarrow> rat \<Rightarrow> fill_post" where
  "posted_fill e p ex recordable filled avg =
     (let r = pd_payload p; fs = fa_fees (apply_execution_result ex no_fills) in
      \<lparr>fp_strategy = rq_strategy r, fp_symbol = order_symbol p, fp_signal = order_signal p, fp_filled = recordable,
       fp_avg = avg,
       fp_position = proportional_spot_position_fill_quantity (le_market e) (order_symbol p) (order_signal p)
          recordable filled fs,
       fp_leg = (le_leg e)\<lparr>lc_source := ''worker'', lc_pending := pd_id p\<rparr>,
       fp_commission = fa_fee (apply_execution_result ex no_fills), fp_reason = close_reason r,
       fp_run = rq_run r, fp_intent = pd_intent p, fp_profit = None, fp_event = 0, fp_fill = []\<rparr>)"

text \<open>Posting a fill as far as it gets.\<close>

definition post_fill :: "bookkeeping \<Rightarrow> fill_post \<Rightarrow> queue \<times> ledger \<Rightarrow> queue \<times> ledger" where
  "post_fill w f ql =
     (let (q, l) = persist_strategy_fill f ql;
          held = snd (apply_fill (fp_strategy f) (fp_symbol f) (fp_signal f) (fp_position f) (fp_avg f) None (Some (fp_leg f)) (snd ql)) in
      case w of
        Booked \<Rightarrow> (q, l)
      | Booked_Unlogged \<Rightarrow> (fst ql, l)
      | Position_Booked \<Rightarrow> (fst ql, if \<bar>fp_filled f\<bar> \<le> fl (1 / 10 ^ 12) then snd ql else held)
      | Not_Booked \<Rightarrow> ql)"

text \<open>
  The queue is written first: when that fails (\<open>le_marking\<close> is false), or the ledger does (\<open>le_posting\<close>), the
  exception is logged and ignored.
\<close>

definition record_execution :: "live_env \<Rightarrow> pending_row \<Rightarrow> execution \<Rightarrow> rat \<Rightarrow> 'x floor \<Rightarrow> 'x floor" where
  "record_execution e p ex amount s =
     (let (filled, avg) = final_fill e p ex;
          q = (if le_marking e
               then mark_sent (pd_id p) \<lparr>sr_note = ''live_order_sent'', sr_exchange = le_exchange e, sr_oid = ex_oid ex,
                 sr_response = Phases (ex_market_leg ex), sr_filled = filled, sr_avg = avg,
                 sr_final = is_final_fill amount filled avg (ex_status ex)\<rparr> (fl_queue s)
               else fl_queue s);
          recordable = unrecorded_pending_fill (pd_id p) filled (fl_ledger s);
          (q', l') = (if 0 < recordable \<and> 0 < avg
                      then post_fill (le_posting e) (posted_fill e p ex recordable filled avg) (q, fl_ledger s)
                      else (q, fl_ledger s)) in
      s\<lparr>fl_queue := q', fl_ledger := l'\<rparr>)"

section \<open>The handler\<close>

definition fail_order :: "pending_row \<Rightarrow> 'x floor \<Rightarrow> 'x floor" where
  "fail_order p s = s\<lparr>fl_queue := mark_failed (pd_id p) (fl_queue s)\<rparr>"

definition place_order :: "live_env \<Rightarrow> 'x adapter \<Rightarrow> pending_row \<Rightarrow> string \<times> string \<times> bool \<Rightarrow> 'x floor \<Rightarrow> 'x floor" where
  "place_order e a p sides s =
     (let ((q, quote), s1) = order_size e p sides s in
      if q \<le> 0 \<and> quote = None then fail_order p s1
      else case order_price e p (fst sides) of
        Inl _ \<Rightarrow> fail_order p s1
      | Inr price \<Rightarrow>
          (case run_executor e p (phase_adapter quote a) (order_intent_of e p sides q price) s1 of
             (Inl _, s2) \<Rightarrow> fail_order p s2
           | (Inr ex, s2) \<Rightarrow> if ex_success ex then record_execution e p ex q s2 else fail_order p s2))"

definition execute_live_order :: "live_env \<Rightarrow> 'x adapter \<Rightarrow> pending_row \<Rightarrow> 'x floor \<Rightarrow> 'x floor" where
  "execute_live_order e a p s =
     (case live_rejection e p of
        Some _ \<Rightarrow> fail_order p s
      | None \<Rightarrow>
          (case signal_to_side_pos_reduce (order_signal p) of
             None \<Rightarrow> fail_order p s
           | Some sides \<Rightarrow>
               let s1 = s\<lparr>fl_ledger := le_sync e (fl_ledger s)\<rparr>;
                   reduce = snd (snd sides);
                   (err, s2) = (if reduce then (None, s1) else check_entry e p (fst (snd sides)) s1) in
               if le_account e = None then fail_order p s1
               else if err \<noteq> None then fail_order p s2
               else if requires_account_configuration (le_market e) reduce \<and> le_configure_error e \<noteq> None
               then fail_order p s2
               else place_order e a p sides s2))"

text \<open>
  \<open>_execute_paper_order\<close> reads \<open>ctx.client_order_id\<close>, a field \<open>LiveOrderExecutionContext\<close> does not have:
  unless the context is refused before, the attribute error fails the order in \<open>_tick\<close>.
\<close>

definition execute_paper_order :: "pending_row \<Rightarrow> 'x floor \<Rightarrow> 'x floor" where
  "execute_paper_order p s = fail_order p s"

text \<open>\<open>_dispatch_one\<close>; \<open>le_notified\<close> says whether a signal reached any channel.\<close>

definition dispatch_mode :: "live_env \<Rightarrow> pending_row \<Rightarrow> string" where
  "dispatch_mode e p =
     (let mode = py_lower (py_strip (str_or (rq_mode (pd_payload p)) ''signal'')) in
      if mode \<noteq> ''live'' \<and> py_lower (py_strip (le_configured_mode e)) = ''live'' then ''live'' else mode)"

definition dispatch_one :: "live_env \<Rightarrow> 'x adapter \<Rightarrow> pending_row \<Rightarrow> 'x floor \<Rightarrow> 'x floor" where
  "dispatch_one e a p s =
     (if dispatch_mode e p = ''signal''
      then (if le_notified e
            then s\<lparr>fl_queue := mark_sent (pd_id p) \<lparr>sr_note = ''notified_ok'', sr_exchange = [], sr_oid = [],
                     sr_response = No_Response, sr_filled = 0, sr_avg = 0, sr_final = False\<rparr> (fl_queue s)\<rparr>
            else fail_order p s)
      else if dispatch_mode e p = ''live'' then execute_live_order e a p s
      else if dispatch_mode e p = ''paper'' then execute_paper_order p s
      else fail_order p s)"

text \<open>The part of \<open>_tick\<close> that dispatches: every order fetched is claimed first.\<close>

fun dispatch_fetched :: "(pending_row \<Rightarrow> live_env) \<Rightarrow> 'x adapter \<Rightarrow> pending_row list \<Rightarrow> 'x floor \<Rightarrow> 'x floor" where
  "dispatch_fetched env a [] s = s"
| "dispatch_fetched env a (p # ps) s =
     (case mark_processing (pd_id p) (fl_queue s) of
        (False, q) \<Rightarrow> dispatch_fetched env a ps (s\<lparr>fl_queue := q\<rparr>)
      | (True, q) \<Rightarrow> dispatch_fetched env a ps (dispatch_one (env p) a p (s\<lparr>fl_queue := q\<rparr>)))"

definition dispatch_pending :: "(pending_row \<Rightarrow> live_env) \<Rightarrow> 'x adapter \<Rightarrow> int \<Rightarrow> nat \<Rightarrow> 'x floor \<Rightarrow> 'x floor" where
  "dispatch_pending env a stale limit s =
     (let (ps, q) = fetch_pending_orders stale limit (fl_queue s) in
      dispatch_fetched env a ps (s\<lparr>fl_queue := q\<rparr>))"

end
