(* ===== verification/Fill_Sync.thy ===== *)
theory Fill_Sync
  imports Live_Order
begin

text \<open>
  Reconciling submitted orders, \<open>_sync_one_live_sent_order\<close> of \<open>services/pending_order_worker.py\<close>: claim the
  row, ask the exchange for the cumulative fill, post what is new, store the new snapshot.  The new
  part is counted from \<open>tracked_fill_baseline\<close>, the cumulative quantity the last snapshot stored for
  the exchange order that is being tracked.
\<close>

section \<open>The new part of a fill\<close>

text \<open>\<open>int(a or b)\<close>\<close>

definition num_int_or :: "int \<Rightarrow> int \<Rightarrow> int" where
  "num_int_or a b = (if a = 0 then b else a)"

definition fill_delta_epsilon :: rat where
  "fill_delta_epsilon = fl (1 / 10 ^ 8)"

text \<open>\<open>(filled, avg, status)\<close> as the exchange reports them.\<close>

type_synonym sync_report = "rat \<times> rat \<times> string"

record sync_state =
  sy_filled :: rat
  sy_avg :: rat
  sy_delta :: rat
  sy_delta_avg :: rat
  sy_previous :: rat
  sy_previous_avg :: rat

definition sync_state_of :: "pending_row \<Rightarrow> sync_report \<Rightarrow> sync_state" where
  "sync_state_of p rep =
     (let filled = max 0 (fst rep); avg = max 0 (fst (snd rep));
          prev = max 0 (fl (pd_filled p)); prev_avg = max 0 (fl (pd_avg p));
          (base, base_avg) = tracked_fill_baseline (pd_response p) (py_strip (pd_oid p)) prev prev_avg;
          delta = fsub filled base;
          notional = fsub (fmul filled avg) (fmul base base_avg) in
      \<lparr>sy_filled = filled, sy_avg = avg, sy_delta = delta,
       sy_delta_avg = (if 0 < base \<and> 0 < base_avg \<and> 0 < notional then fdiv notional delta else avg),
       sy_previous = prev, sy_previous_avg = prev_avg\<rparr>)"

definition posts_fill :: "sync_state \<Rightarrow> bool" where
  "posts_fill y = (fill_delta_epsilon < sy_delta y \<and> 0 < sy_avg y)"

definition aggregate_fill :: "sync_state \<Rightarrow> rat \<times> rat" where
  "aggregate_fill y =
     (if \<not> posts_fill y then (sy_previous y, sy_previous_avg y)
      else if 0 < sy_previous y \<and> 0 < sy_previous_avg y
      then let notional = fadd (fmul (sy_previous y) (sy_previous_avg y)) (fmul (sy_delta y) (sy_delta_avg y));
               filled = fadd (sy_previous y) (sy_delta y) in (filled, fdiv notional filled)
      else (fadd (sy_previous y) (sy_delta y), sy_delta_avg y))"

section \<open>One order\<close>

text \<open>
  \<open>se_query\<close> is the answer of the exchange (\<open>None\<close> when the query raises), \<open>se_commission\<close> the new part
  of its fees in one currency, \<open>se_fees_known\<close> whether it reported fees at all, \<open>se_executable\<close> its step
  size, \<open>se_posting\<close> whether the ledger's statements succeed.
\<close>

record sync_env =
  se_query :: "sync_report option"
  se_commission :: rat
  se_fees_known :: bool
  se_executable :: "rat \<Rightarrow> rat"
  se_leg :: leg_context
  se_posting :: bool

definition synced_post :: "sync_env \<Rightarrow> pending_row \<Rightarrow> sync_state \<Rightarrow> fill_post" where
  "synced_post e p y =
     (let r = pd_payload p in
      \<lparr>fp_strategy = num_int_or (rq_strategy r) (pd_strategy p), fp_symbol = py_strip (order_symbol p),
       fp_signal = order_signal p, fp_filled = sy_delta y, fp_avg = sy_delta_avg y, fp_position = sy_delta y,
       fp_leg = (se_leg e)\<lparr>lc_source := ''worker_live_fill_sync'', lc_pending := pd_id p\<rparr>,
       fp_commission = se_commission e, fp_reason = close_reason r,
       fp_run = num_int_or (rq_run r) (pd_run p), fp_intent = pd_intent p,
       fp_profit = None, fp_event = 0, fp_fill = []\<rparr>)"

definition sync_status :: "sync_state \<Rightarrow> sync_report \<Rightarrow> string" where
  "sync_status y rep =
     (if fill_delta_epsilon < sy_delta y \<and> sy_avg y \<le> 0 then ''fill_price_missing''
      else py_lower (py_strip (str_or (snd (snd rep)) ''unknown'')))"

definition store_snapshot :: "sync_env \<Rightarrow> pending_row \<Rightarrow> sync_report \<Rightarrow> queue \<Rightarrow> queue" where
  "store_snapshot e p rep q =
     (let y = sync_state_of p rep; (filled, avg) = aggregate_fill y; st = sync_status y rep;
          requested = max 0 (num_or (order_amount p) filled);
          status = reconciled_queue_status (se_executable e requested) filled avg st in
      update_live_sent_order_snapshot (pd_id p) status st filled avg (Fill_Sync (sy_filled y) (sy_avg y))
        (if status = ''filled'' \<and> \<not> se_fees_known e \<and> sy_delta y \<le> fill_delta_epsilon then ''live_fee_sync:retry'' else []) q)"

text \<open>A claimed row.  When posting raises, the exception leaves the row \<open>syncing\<close>, to be requeued when stale.\<close>

definition sync_claimed :: "sync_env \<Rightarrow> pending_row \<Rightarrow> queue \<times> ledger \<Rightarrow> queue \<times> ledger" where
  "sync_claimed e p ql =
     (let (q, l) = ql in
      if num_int_or (rq_strategy (pd_payload p)) (pd_strategy p) \<le> 0 \<or> py_strip (order_symbol p) = [] \<or> py_strip (pd_oid p) = []
      then (mark_failed (pd_id p) q, l)
      else case se_query e of
        None \<Rightarrow> (update_live_sent_order_snapshot (pd_id p) ''sent'' ''sync_error'' (fl (pd_filled p)) (fl (pd_avg p))
                  Sync_Error [] q, l)
      | Some rep \<Rightarrow>
          let y = sync_state_of p rep in
          if \<not> posts_fill y then (store_snapshot e p rep q, l)
          else if \<not> se_posting e then (q, l)
          else let (q1, l1) = persist_strategy_fill (synced_post e p y) (q, l) in (store_snapshot e p rep q1, l1))"

definition sync_one_live_sent_order ::
  "sync_env \<Rightarrow> int \<Rightarrow> (int \<Rightarrow> bool) \<Rightarrow> int \<Rightarrow> queue \<times> ledger \<Rightarrow> queue \<times> ledger" where
  "sync_one_live_sent_order e fee_retry fee_missing n ql =
     (case claim_live_sent_order fee_retry fee_missing n (fst ql) of
        (None, q) \<Rightarrow> (q, snd ql)
      | (Some p, q) \<Rightarrow> sync_claimed e p (q, snd ql))"

end
