(* ===== verification/Streams.thy ===== *)
theory Streams
  imports Fill_Sync
begin

text \<open>
  Private execution streams, \<open>services/execution_streams\<close>: canonical events and their keys (\<open>events.py\<close>),
  the tables of events and order bindings (\<open>repository.py\<close>) and the projection of an event into the
  queue and the ledger (\<open>processor.py\<close>), the path of pending orders.  The two transactions of a
  projection are kept apart.
\<close>

section \<open>Events\<close>

definition normalize_status :: "string \<Rightarrow> string" where
  "normalize_status value =
     (let raw = replace_char (CHR ''-'') (CHR ''_'') (py_lower (py_strip value)) in
      if raw \<in> {''filled'', ''fill'', ''closed'', ''done'', ''fully_filled'', ''full_fill''} then ''filled''
      else if raw \<in> {''partiallyfilled'', ''partially_filled'', ''partial_fill'', ''partial''} then ''partial''
      else if raw \<in> {''cancelled'', ''canceled'', ''expired'', ''rejected'', ''failed''} then ''cancelled''
      else if raw \<in> {''new'', ''open'', ''live'', ''submitted'', ''accepted''} then ''open''
      else raw)"

definition drop_suffix :: "string \<Rightarrow> string \<Rightarrow> string" where
  "drop_suffix s suffix = (if py_endswith s suffix then take (length s - length suffix) s else s)"

definition stream_symbol :: "string \<Rightarrow> string" where
  "stream_symbol value =
     (let raw = replace_char (CHR ''_'') (CHR ''/'') (replace_char (CHR ''-'') (CHR ''/'') (py_upper (py_strip value)));
          r = foldl drop_suffix raw [''/SWAP'', ''/PERP'', ''/PERPETUAL''] in
      if CHR ''/'' \<in> set r then r
      else case find (\<lambda>s. py_endswith r s \<and> length s < length r) [''USDT'', ''USDC'', ''USD'', ''BTC'', ''ETH''] of
        None \<Rightarrow> r
      | Some s \<Rightarrow> take (length r - length s) r @ ''/'' @ s)"

text \<open>A fee is its type, currency and amount.\<close>

record exec_event =
  xe_exchange :: string
  xe_market :: string
  xe_symbol :: string
  xe_oid :: string
  xe_client :: string
  xe_fill :: string
  xe_status :: string
  xe_price :: rat
  xe_quantity :: rat
  xe_cumulative :: rat
  xe_is_cumulative :: bool
  xe_pnl :: "rat option"
  xe_occurred :: int
  xe_fees :: "(string \<times> string \<times> rat) list"
  xe_credential :: int

text \<open>What \<open>event_key\<close> hashes; collisions of the hash are left out.\<close>

datatype event_key =
    Fill_Key string int string string string
  | Content_Key string int string string string string rat rat rat int string

definition round12 :: "rat \<Rightarrow> rat" where
  "round12 x = fl (of_int (rne (x * 10 ^ 12)) / 10 ^ 12)"

definition event_key :: "exec_event \<Rightarrow> event_key" where
  "event_key e =
     (let fill = py_strip (xe_fill e) in
      if fill \<noteq> [] then Fill_Key (xe_exchange e) (xe_credential e) (xe_market e) (xe_oid e) fill
      else Content_Key (xe_exchange e) (xe_credential e) (xe_market e) (xe_oid e) (xe_client e) (xe_symbol e)
             (round12 (xe_quantity e)) (round12 (xe_cumulative e)) (round12 (xe_price e)) (xe_occurred e) (xe_status e))"

section \<open>Tables\<close>

record event_row =
  ev_id :: int
  ev_key :: event_key
  ev_data :: exec_event
  ev_received :: int
  ev_processed :: bool
  ev_attempts :: int

record binding =
  bd_id :: int
  bd_credential :: int
  bd_exchange :: string
  bd_market :: string
  bd_owner_type :: string
  bd_owner :: int
  bd_strategy :: int
  bd_pending :: int
  bd_run :: int
  bd_intent :: int
  bd_symbol :: string
  bd_signal :: string
  bd_client :: string
  bd_oid :: string
  bd_observed :: rat
  bd_status :: string

record projector =
  pj_events :: "event_row list"
  pj_next_event :: int
  pj_bindings :: "binding list"
  pj_next_binding :: int
  pj_fee_done :: "int list"
  pj_queue :: queue
  pj_ledger :: ledger

text \<open>\<open>INSERT .. ON CONFLICT (owner_type, owner_id) DO UPDATE\<close>\<close>

definition merge_binding :: "binding \<Rightarrow> binding \<Rightarrow> binding" where
  "merge_binding new old = new\<lparr>bd_id := bd_id old, bd_client := str_or (bd_client new) (bd_client old),
     bd_oid := str_or (bd_oid new) (bd_oid old), bd_observed := max (bd_observed old) (bd_observed new),
     bd_status := bd_status old\<rparr>"

definition register_binding :: "binding \<Rightarrow> projector \<Rightarrow> projector" where
  "register_binding b0 s =
     (let b = b0\<lparr>bd_id := pj_next_binding s, bd_exchange := py_lower (bd_exchange b0),
                 bd_market := py_lower (str_or (bd_market b0) ''swap''), bd_observed := column 12 (bd_observed b0),
                 bd_status := ''open''\<rparr>;
          same = (\<lambda>x. bd_owner_type x = bd_owner_type b \<and> bd_owner x = bd_owner b) in
      if bd_owner_type b = [] \<or> bd_owner b \<le> 0 then s
      else if list_ex same (pj_bindings s)
      then s\<lparr>pj_bindings := upd_where same (merge_binding b) (pj_bindings s), pj_next_binding := pj_next_binding s + 1\<rparr>
      else s\<lparr>pj_bindings := pj_bindings s @ [b], pj_next_binding := pj_next_binding s + 1\<rparr>)"

text \<open>The components of the fees, added up per type and currency.\<close>

fun add_component :: "string \<times> string \<times> rat \<Rightarrow> (string \<times> string \<times> rat) list \<Rightarrow> (string \<times> string \<times> rat) list" where
  "add_component (t, c, a) [] = [(t, c, fadd 0 a)]"
| "add_component (t, c, a) ((t', c', b) # fs) =
     (if t = t' \<and> c = c' then (t', c', fadd b a) # fs else (t', c', b) # add_component (t, c, a) fs)"

definition aggregate_fees :: "(string \<times> string \<times> rat) list \<Rightarrow> (string \<times> string \<times> rat) list" where
  "aggregate_fees fs = foldl (\<lambda>m (t, c, a). add_component (str_or t ''trade'', py_upper c, a) m) [] fs"

definition stored_event :: "exec_event \<Rightarrow> exec_event" where
  "stored_event e = e\<lparr>xe_exchange := py_lower (xe_exchange e), xe_market := py_lower (str_or (xe_market e) ''swap''),
     xe_price := column 12 (xe_price e), xe_quantity := column 12 (xe_quantity e),
     xe_cumulative := column 12 (xe_cumulative e), xe_pnl := map_option (column 12) (xe_pnl e),
     xe_fees := map (\<lambda>(t, c, a). (t, c, column 12 a)) (aggregate_fees (xe_fees e))\<rparr>"

definition ingest :: "exec_event \<Rightarrow> projector \<Rightarrow> int option \<times> projector" where
  "ingest e s =
     (let n = pj_next_event s; s1 = s\<lparr>pj_next_event := n + 1\<rparr> in
      if list_ex (\<lambda>r. ev_key r = event_key e) (pj_events s) then (None, s1)
      else (Some n, s1\<lparr>pj_events := pj_events s @ [\<lparr>ev_id = n, ev_key = event_key e, ev_data = stored_event e,
              ev_received = clock (pj_queue s), ev_processed = False, ev_attempts = 0\<rparr>]\<rparr>))"

definition pending_events :: "nat \<Rightarrow> projector \<Rightarrow> event_row list" where
  "pending_events limit s = take limit (sort_key ev_received (sort_key ev_id
     (filter (\<lambda>r. \<not> ev_processed r \<and> ev_attempts r < 20) (pj_events s))))"

definition mark_event_processed :: "int \<Rightarrow> projector \<Rightarrow> projector" where
  "mark_event_processed n s = s\<lparr>pj_events := upd_where (\<lambda>r. ev_id r = n) (\<lambda>r. r\<lparr>ev_processed := True\<rparr>) (pj_events s)\<rparr>"

definition mark_event_failed :: "int \<Rightarrow> projector \<Rightarrow> projector" where
  "mark_event_failed n s = s\<lparr>pj_events := upd_where (\<lambda>r. ev_id r = n) (\<lambda>r. r\<lparr>ev_attempts := ev_attempts r + 1\<rparr>) (pj_events s)\<rparr>"

text \<open>\<open>resolve_binding\<close>: the newest binding of the order, one with the exchange's order id first.\<close>

definition binds :: "exec_event \<Rightarrow> binding \<Rightarrow> bool" where
  "binds e b = (bd_credential b = xe_credential e \<and> bd_exchange b = py_lower (xe_exchange e)
     \<and> (bd_market b = py_lower (xe_market e) \<or> bd_market b = [] \<or> py_lower (xe_market e) = [])
     \<and> (xe_oid e \<noteq> [] \<and> bd_oid b = xe_oid e \<or> xe_client e \<noteq> [] \<and> bd_client b = xe_client e))"

definition find_binding :: "exec_event \<Rightarrow> projector \<Rightarrow> binding option" where
  "find_binding e s =
     (case sort_key (\<lambda>b. if bd_oid b = xe_oid e \<and> xe_oid e \<noteq> [] then 0 else (1::int)) (sort_key (\<lambda>b. - bd_id b)
            (filter (binds e) (pj_bindings s))) of
        [] \<Rightarrow> None | b # _ \<Rightarrow> Some b)"

text \<open>\<open>en_legacy\<close> is the binding \<open>_discover_legacy_binding\<close> derives from the rows of the order, if it finds one.\<close>

record stream_env =
  en_legacy :: "binding option"
  en_client :: bool
  en_leg :: leg_context
  en_posting :: bool
  en_other :: bool

definition resolve_binding :: "stream_env \<Rightarrow> exec_event \<Rightarrow> projector \<Rightarrow> binding option \<times> projector" where
  "resolve_binding n e s =
     (case find_binding e s of
        Some b \<Rightarrow> (Some b, s)
      | None \<Rightarrow> (case en_legacy n of
          None \<Rightarrow> (None, s)
        | Some b \<Rightarrow> let s1 = register_binding b s in (find_binding e s1, s1)))"

section \<open>Projecting an event\<close>

definition event_fees :: "exec_event \<Rightarrow> fees" where
  "event_fees e = foldl (\<lambda>m (_, c, a). add_fee (py_upper c) (fadd 0 (fl a)) m) [] (xe_fees e)"

definition fee_storage :: "fees \<Rightarrow> rat" where
  "fee_storage fs = (case fs of [(_, a)] \<Rightarrow> a | _ \<Rightarrow> 0)"

text \<open>The new part of an event and the new total of the order, given what its row has.\<close>

definition event_delta :: "exec_event \<Rightarrow> rat \<Rightarrow> rat \<times> rat" where
  "event_delta e previous =
     (let qty = max 0 (fl (xe_quantity e)); cumulative = max 0 (fl (xe_cumulative e)) in
      if xe_is_cumulative e \<or> 0 < cumulative
      then (max 0 (fsub (max previous cumulative) previous), max previous cumulative)
      else (qty, fadd previous qty))"

definition event_price :: "exec_event \<Rightarrow> pending_row \<Rightarrow> rat" where
  "event_price e p = num_or (fl (xe_price e)) (fl (pd_avg p))"

text \<open>The first transaction: the row of the order and its binding.\<close>

definition project_row :: "exec_event \<Rightarrow> pending_row \<Rightarrow> int \<Rightarrow> pending_row" where
  "project_row e p now =
     (let previous = fl (pd_filled p); (delta, target) = event_delta e previous; price = event_price e p;
          avg = (if 0 < target \<and> 0 < delta \<and> 0 < price
                 then fdiv (fadd (fmul previous (fl (pd_avg p))) (fmul delta price)) target
                 else num_or (fl (pd_avg p)) price) in
      p\<lparr>pd_filled := max (pd_filled p) (column 8 target), pd_avg := (if 0 < avg then column 8 avg else pd_avg p),
        pd_status := (if pd_status p \<in> {''failed'', ''cancelled''} then pd_status p
                      else if xe_status e = ''filled'' then ''filled'' else pd_status p),
        pd_updated := now\<rparr>)"

definition project_binding :: "exec_event \<Rightarrow> int \<Rightarrow> rat \<Rightarrow> binding list \<Rightarrow> binding list" where
  "project_binding e n target = upd_where (\<lambda>b. bd_id b = n)
     (\<lambda>b. b\<lparr>bd_observed := max (bd_observed b) (column 12 target), bd_oid := str_or (xe_oid e) (bd_oid b),
            bd_status := str_or (xe_status e) ''open''\<rparr>)"

definition stream_post :: "stream_env \<Rightarrow> event_row \<Rightarrow> binding \<Rightarrow> pending_row \<Rightarrow> fill_post" where
  "stream_post n r b p =
     (let e = ev_data r; w = pd_payload p; fs = event_fees e;
          symbol = str_or (xe_symbol e) (pd_symbol p);
          signal = str_or (bd_signal b) (str_or (pd_action p) (rq_action w));
          delta = fst (event_delta e (fl (pd_filled p))) in
      \<lparr>fp_strategy = num_int_or (bd_strategy b) (pd_strategy p), fp_symbol = symbol, fp_signal = signal,
       fp_filled = delta, fp_avg = event_price e p,
       fp_position = spot_position_fill_quantity (str_or (xe_market e) (str_or (rq_market w) ''swap'')) symbol signal delta fs,
       fp_leg = (en_leg n)\<lparr>lc_source := ''private_websocket'', lc_pending := num_int_or (bd_pending b) (bd_owner b)\<rparr>,
       fp_commission = fee_storage fs,
       fp_reason = (if is_close_signal (py_lower (py_strip signal)) then py_strip (rq_reason w) else []),
       fp_run = num_int_or (bd_run b) (pd_run p), fp_intent = num_int_or (bd_intent b) (pd_intent p),
       fp_profit = map_option fl (xe_pnl e), fp_event = ev_id r, fp_fill = xe_fill e\<rparr>)"

text \<open>\<open>_apply_late_fee\<close>: an exception until the trade is there.  Its fee columns are not part of the ledger.\<close>

definition apply_late_fee :: "int \<Rightarrow> int \<Rightarrow> projector \<Rightarrow> bool \<times> projector" where
  "apply_late_fee n order s =
     (if n \<in> set (pj_fee_done s) then (True, s)
      else if \<not> list_ex (\<lambda>t. tr_pending t = order) (trades (pj_ledger s)) then (False, s)
      else (True, s\<lparr>pj_fee_done := n # pj_fee_done s\<rparr>))"

text \<open>\<open>_process_pending_order\<close>; the result says whether it returned without an exception.\<close>

definition process_pending_order :: "stream_env \<Rightarrow> event_row \<Rightarrow> binding \<Rightarrow> projector \<Rightarrow> bool \<times> projector" where
  "process_pending_order n r b s =
     (let order = num_int_or (bd_pending b) (bd_owner b); e = ev_data r in
      case find (\<lambda>p. pd_id p = order) (pending (pj_queue s)) of
        None \<Rightarrow> (True, s)
      | Some p \<Rightarrow>
          let (delta, target) = event_delta e (fl (pd_filled p));
              q1 = set_row order (\<lambda>p. project_row e p (clock (pj_queue s))) (pj_queue s);
              s1 = s\<lparr>pj_queue := q1, pj_bindings := project_binding e (bd_id b) target (pj_bindings s)\<rparr> in
          if num_int_or (bd_strategy b) (pd_strategy p) \<le> 0 then (True, s1)
          else if \<not> en_client n then (False, s1)
          else if fl (1 / 10 ^ 12) < delta \<and> 0 < event_price e p
          then (if \<not> en_posting n then (False, s1)
                else let (q2, l2) = persist_strategy_fill (stream_post n r b p) (q1, pj_ledger s) in
                     (True, s1\<lparr>pj_queue := q2, pj_ledger := l2\<rparr>))
          else if event_fees e \<noteq> [] then apply_late_fee (ev_id r) order s1
          else (True, s1))"

definition already_projected :: "int \<Rightarrow> ledger \<Rightarrow> bool" where
  "already_projected n l = (0 < n \<and> list_ex (\<lambda>t. tr_event t = n) (trades l))"

text \<open>
  One event of \<open>process_pending\<close>.  Owners other than pending orders (\<open>grid\<close>, \<open>grid_market\<close>,
  \<open>quick_trade\<close>) have tables of their own; \<open>en_other\<close> says whether their projection returns.
\<close>

definition unbound_age :: int where
  "unbound_age = 120 * second"

definition process_event :: "stream_env \<Rightarrow> event_row \<Rightarrow> projector \<Rightarrow> projector" where
  "process_event n r s =
     (if already_projected (ev_id r) (pj_ledger s) then mark_event_processed (ev_id r) s
      else case resolve_binding n (ev_data r) s of
        (None, s1) \<Rightarrow> if unbound_age \<le> clock (pj_queue s) - ev_received r then mark_event_processed (ev_id r) s1 else s1
      | (Some b, s1) \<Rightarrow>
          let (ok, s2) = (if bd_owner_type b = ''pending_order'' then process_pending_order n r b s1
                          else if bd_owner_type b \<in> {''grid'', ''grid_market'', ''quick_trade''} then (en_other n, s1)
                          else (True, s1)) in
          if ok then mark_event_processed (ev_id r) s2 else mark_event_failed (ev_id r) s2)"

fun process_events :: "(event_row \<Rightarrow> stream_env) \<Rightarrow> event_row list \<Rightarrow> projector \<Rightarrow> projector" where
  "process_events env [] s = s"
| "process_events env (r # rs) s = process_events env rs (process_event (env r) r s)"

definition process_pending :: "(event_row \<Rightarrow> stream_env) \<Rightarrow> nat \<Rightarrow> projector \<Rightarrow> projector" where
  "process_pending env limit s = process_events env (pending_events limit s) s"

end
