(* ===== verification/Ownership_Safety.thy ===== *)
theory Ownership_Safety
  imports Ownership
begin

text \<open>
  What the reservations promise: the table under any sequence of evaluations and repairs (\<open>own_run\<close>),
  the protected inventory an exit leaves alone, and that protecting a leg settles its drift.
\<close>

section \<open>The table\<close>

lemma rv_key_reservation_of [simp]:
  "rv_key (reservation_of a ex (calculate_position_ownership (al_symbol a) (al_side a) q s p m st rs tol) mode manual la) = al_key a"
  by (simp add: rv_key_def al_key_def reservation_of_def calculate_position_ownership_def Let_def)

lemma rv_key_merge_common [simp]: "rv_key (merge_common new r) = rv_key r"
  by (simp add: rv_key_def merge_common_def)

lemma rv_key_updates [simp]:
  "rv_key (r\<lparr>rv_log_at := x\<rparr>) = rv_key r" "rv_key (r\<lparr>rv_inst := i\<rparr>) = rv_key r"
  "rv_key (r\<lparr>rv_mode := m\<rparr>) = rv_key r" "rv_key (r\<lparr>rv_manual := q\<rparr>) = rv_key r"
  by (simp_all add: rv_key_def)

lemma find_upsert:
  assumes "\<And>r. rv_key (merge r) = rv_key r"
  shows "find (\<lambda>r. rv_key r = k) (upsert_reservation new merge t)
       = (if rv_key new = k
          then Some (case find (\<lambda>r. rv_key r = k) t of None \<Rightarrow> new | Some r \<Rightarrow> merge r)
          else find (\<lambda>r. rv_key r = k) t)"
proof (cases "\<exists>r \<in> set t. rv_key r = rv_key new")
  case True
  have "find (\<lambda>r. rv_key r = k) (upsert_reservation new merge t)
      = map_option (\<lambda>r. if rv_key r = rv_key new then merge r else r) (find (\<lambda>r. rv_key r = k) t)"
    using True find_key_upd_where [of "\<lambda>r. rv_key r = rv_key new" rv_key merge k t] assms
    by (simp add: upsert_reservation_def)
  moreover have "rv_key new = k \<Longrightarrow> find (\<lambda>r. rv_key r = k) t \<noteq> None"
    using True by (auto simp: find_None_iff)
  moreover have "find (\<lambda>r. rv_key r = k) t = Some r \<Longrightarrow> rv_key r = k" for r
    by (auto dest: find_SomeD)
  ultimately show ?thesis by (cases "find (\<lambda>r. rv_key r = k) t"; cases "rv_key new = k") simp_all
next
  case False
  then have none: "rv_key new = k \<Longrightarrow> find (\<lambda>r. rv_key r = k) t = None" by (auto simp: find_None_iff)
  have "upsert_reservation new merge t = t @ [new]" using False by (simp add: upsert_reservation_def)
  then show ?thesis using none
    by (cases "rv_key new = k") (simp_all add: find_append split: option.split)
qed

text \<open>A call from outside: an evaluation before an entry, or a repair by the user.\<close>

datatype own_op =
    Evaluate account_leg rat rat rat int
  | Repair account_leg rat rat string

fun own_step :: "own_op \<Rightarrow> reservation list \<Rightarrow> reservation list" where
  "own_step (Evaluate a account strategy tol now) t = snd (evaluate_and_record_ownership a account strategy tol now t)"
| "own_step (Repair a account strategy action) t = snd (repair_position_ownership a account strategy action t)"

definition own_run :: "own_op list \<Rightarrow> reservation list \<Rightarrow> reservation list" where
  "own_run ops t = foldl (\<lambda>t op. own_step op t) t ops"

fun repairs :: "account_leg \<Rightarrow> own_op \<Rightarrow> bool" where
  "repairs a (Evaluate b _ _ _ _) = False"
| "repairs a (Repair b _ _ _) = (al_key b = al_key a)"

text \<open>The row of a leg after an evaluation of it, and of any other leg.\<close>

lemma fetch_evaluate_same:
  fixes account strategy tol :: rat and now :: int and t :: "reservation list"
  assumes k: "al_key b = al_key a"
  defines "s \<equiv> fst (evaluate_and_record_ownership b account strategy tol now t)"
  obtains r' where "fetch_reservation a (snd (evaluate_and_record_ownership b account strategy tol now t)) = Some r'"
    and "rv_status r' = ow_status s"
    and "rv_mode r' = (case fetch_reservation a t of None \<Rightarrow> ow_mode s | Some r \<Rightarrow> rv_mode r)"
    and "rv_manual r' = (case fetch_reservation a t of None \<Rightarrow> column 8 (ow_protected s) | Some r \<Rightarrow> rv_manual r)"
proof -
  define new where "new = reservation_of b (py_lower (py_strip (al_exchange b))) s (ow_mode s) (ow_protected s)
                  (if ow_should_log s then Some now else None)"
  define merge where "merge = (\<lambda>r. (merge_common new r)\<lparr>rv_log_at := (if ow_should_log s then Some now else rv_log_at r)\<rparr>)"
  have s: "snd (evaluate_and_record_ownership b account strategy tol now t) = upsert_reservation new merge t"
    by (simp add: evaluate_and_record_ownership_def Let_def new_def merge_def s_def)
  have "rv_key new = al_key a"
    using k by (simp add: new_def s_def evaluate_and_record_ownership_def Let_def)
  then have f: "fetch_reservation a (upsert_reservation new merge t)
      = Some (case fetch_reservation a t of None \<Rightarrow> new | Some r \<Rightarrow> merge r)"
    using find_upsert [of merge "al_key a" new t] by (simp add: fetch_reservation_def merge_def)
  show ?thesis
  proof (rule that)
    show "fetch_reservation a (snd (evaluate_and_record_ownership b account strategy tol now t))
        = Some (case fetch_reservation a t of None \<Rightarrow> new | Some r \<Rightarrow> merge r)"
      by (simp only: s f)
  qed (simp_all add: new_def merge_def merge_common_def reservation_of_def split: option.split)
qed

lemma fetch_evaluate_other:
  assumes "al_key b \<noteq> al_key a"
  shows "fetch_reservation a (snd (evaluate_and_record_ownership b account strategy tol now t)) = fetch_reservation a t"
  using assms by (simp add: evaluate_and_record_ownership_def Let_def fetch_reservation_def find_upsert)

lemma fetch_repair_other:
  "al_key b \<noteq> al_key a \<Longrightarrow>
     fetch_reservation a (snd (repair_position_ownership b account strategy action t)) = fetch_reservation a t"
  by (auto simp: repair_position_ownership_def fetch_reservation_def Let_def find_upsert)

text \<open>Mode and protected quantity of a leg with a row change by repairs of that leg only.\<close>

lemma evaluate_keeps_protection:
  assumes "fetch_reservation a t = Some r"
  obtains r' where "fetch_reservation a (snd (evaluate_and_record_ownership b account strategy tol now t)) = Some r'"
    and "rv_mode r' = rv_mode r" and "rv_manual r' = rv_manual r"
proof (cases "al_key b = al_key a")
  case True
  from fetch_evaluate_same [OF this, of account strategy tol now t] assms that show ?thesis by auto
next
  case False
  with assms show ?thesis by (intro that) (simp_all add: fetch_evaluate_other)
qed

lemma own_run_keeps_protection:
  assumes "fetch_reservation a t = Some r" and "\<forall>op \<in> set ops. \<not> repairs a op"
  shows "\<exists>r'. fetch_reservation a (own_run ops t) = Some r' \<and> rv_mode r' = rv_mode r \<and> rv_manual r' = rv_manual r"
  using assms
proof (induction ops arbitrary: t r)
  case Nil
  then show ?case by (simp add: own_run_def)
next
  case (Cons op ops)
  obtain r1 where r1: "fetch_reservation a (own_step op t) = Some r1" "rv_mode r1 = rv_mode r" "rv_manual r1 = rv_manual r"
  proof (cases op)
    case (Evaluate b account strategy tol now)
    with Cons.prems(1) that show ?thesis by (metis evaluate_keeps_protection own_step.simps(1))
  next
    case (Repair b account strategy action)
    with Cons.prems that show ?thesis by (simp add: fetch_repair_other)
  qed
  from Cons.IH [OF r1(1)] Cons.prems(2) r1(2,3) show ?case by (simp add: own_run_def)
qed

section \<open>What a column and a float keep of a quantity\<close>

lemma rha_error: "\<bar>of_int (rha y) - y\<bar> \<le> 1 / 2"
proof (cases "0 \<le> y")
  case True
  have "of_int \<lfloor>y + 1/2\<rfloor> \<le> y + 1/2" "y + 1/2 < of_int \<lfloor>y + 1/2\<rfloor> + 1"
    using floor_correct [of "y + 1/2"] by auto
  then have "\<bar>of_int \<lfloor>y + 1/2\<rfloor> - y\<bar> \<le> 1 / 2" by linarith
  with True show ?thesis by (simp add: rha_def)
next
  case False
  have "of_int \<lfloor>1/2 - y\<rfloor> \<le> 1/2 - y" "1/2 - y < of_int \<lfloor>1/2 - y\<rfloor> + 1"
    using floor_correct [of "1/2 - y"] by auto
  then have "\<bar>- of_int \<lfloor>1/2 - y\<rfloor> - y\<bar> \<le> 1 / 2" by linarith
  with False show ?thesis by (simp add: rha_def)
qed

lemma column_near:
  assumes "\<bar>x\<bar> < 2 powi n" and "-1021 \<le> n"
  shows "\<bar>column s x - x\<bar> \<le> 1 / (2 * 10 ^ s) + 2 powi (n - 52)"
proof -
  let ?f = "fl x" and ?r = "repr (fl x)"
  have e1: "\<bar>?f - x\<bar> \<le> 2 powi (n - 54)" by (rule fl_error [OF assms])
  have "fl \<bar>x\<bar> \<le> fl (2 powi n)" using assms(1) by (intro fl_mono) simp
  also have "fl (2 powi n) = 2 powi n" using fl_representable [of 1 n] assms(2) by simp
  also have "\<dots> < (2::rat) powi (n + 1)" by simp
  finally have "\<bar>fl ?r\<bar> < 2 powi (n + 1)" by (simp add: fl_repr fl.abs)
  then have "\<bar>?r\<bar> < 2 powi (n + 1)" by (rule fl_less_powi) (use assms(2) in linarith)
  from fl_error [OF this] have e2: "\<bar>?f - ?r\<bar> \<le> 2 powi (n - 53)" using assms(2) by (simp add: fl_repr)
  have e3: "\<bar>dec s ?r - ?r\<bar> \<le> 1 / (2 * 10 ^ s)"
  proof -
    have "\<bar>of_int (rha (?r * 10 ^ s)) - ?r * 10 ^ s\<bar> \<le> 1 / 2" by (rule rha_error)
    moreover have "dec s ?r - ?r = (of_int (rha (?r * 10 ^ s)) - ?r * 10 ^ s) / 10 ^ s"
      by (simp add: dec_def diff_divide_distrib)
    ultimately show ?thesis
      by (simp add: divide_right_mono divide_le_eq)
  qed
  have "(2::rat) powi (n - 53) = 2 * 2 powi (n - 54)" "(2::rat) powi (n - 52) = 4 * 2 powi (n - 54)"
    using power_int_add [of "2::rat" 1 "n - 54"] power_int_add [of "2::rat" 2 "n - 54"] by simp_all
  moreover have "0 < (2::rat) powi (n - 54)" by simp
  ultimately show ?thesis using e1 e2 e3 by (simp add: column_def)
qed

section \<open>Verdicts\<close>

lemma status_iff:
  "ow_status (calculate_position_ownership y sd q s p m st rs tol) = ''drift_blocked''
     \<longleftrightarrow> \<not> ow_allowed (calculate_position_ownership y sd q s p m st rs tol)"
  unfolding calculate_position_ownership_def Let_def by simp

lemma blocked_iff_not_allowed:
  "is_position_leg_blocked a (snd (evaluate_and_record_ownership a account strategy tol now t))
     \<longleftrightarrow> \<not> ow_allowed (fst (evaluate_and_record_ownership a account strategy tol now t))"
proof -
  from fetch_evaluate_same [OF refl, of a account strategy tol now t] obtain r where
    r: "fetch_reservation a (snd (evaluate_and_record_ownership a account strategy tol now t)) = Some r"
      "rv_status r = ow_status (fst (evaluate_and_record_ownership a account strategy tol now t))"
    by auto
  have "ow_status (fst (evaluate_and_record_ownership a account strategy tol now t)) = ''drift_blocked''
      \<longleftrightarrow> \<not> ow_allowed (fst (evaluate_and_record_ownership a account strategy tol now t))"
    unfolding evaluate_and_record_ownership_def Let_def fst_conv by (rule status_iff)
  with r show ?thesis by (simp add: is_position_leg_blocked_def)
qed

lemma fetch_protect:
  assumes "fst (repair_position_ownership b account strategy ''protect_manual'' t) = Inr s"
    and "al_key b = al_key a"
  obtains r where "fetch_reservation a (snd (repair_position_ownership b account strategy ''protect_manual'' t)) = Some r"
    and "rv_mode r = ''advanced''" and "rv_manual r = column 8 (max 0 (fsub account strategy))"
proof -
  have act: "py_lower (py_strip ''protect_manual'') = ''protect_manual''" by code_simp
  define s' where "s' = calculate_position_ownership (al_symbol b) (al_side b) account strategy
      (max 0 (fsub account strategy)) ''advanced'' [] [] 0"
  define new where "new = (reservation_of b (py_lower (al_exchange b)) s' ''advanced'' (max 0 (fsub account strategy)) None)
      \<lparr>rv_inst := al_inst b\<rparr>"
  define merge where "merge = (\<lambda>r. (merge_common new r)\<lparr>rv_mode := ''advanced'',
      rv_manual := column 8 (max 0 (fsub account strategy)), rv_log_at := None\<rparr>)"
  have s: "snd (repair_position_ownership b account strategy ''protect_manual'' t) = upsert_reservation new merge t"
    using assms(1)
    by (simp add: repair_position_ownership_def act Let_def new_def merge_def s'_def split: if_splits)
  have "rv_key new = al_key a" using assms(2) by (simp add: new_def s'_def)
  then have f: "fetch_reservation a (upsert_reservation new merge t)
      = Some (case fetch_reservation a t of None \<Rightarrow> new | Some r \<Rightarrow> merge r)"
    using find_upsert [of merge "al_key a" new t] by (simp add: fetch_reservation_def merge_def)
  show ?thesis
  proof (rule that)
    show "fetch_reservation a (snd (repair_position_ownership b account strategy ''protect_manual'' t))
        = Some (case fetch_reservation a t of None \<Rightarrow> new | Some r \<Rightarrow> merge r)"
      by (simp only: s f)
  qed (simp_all add: new_def merge_def merge_common_def reservation_of_def split: option.split)
qed

text \<open>The protected quantity is the surplus at the time of the repair, to half a unit of the column.\<close>

lemma protected_near:
  assumes m: "m = max 0 (fsub account strategy)" and f: "is_float account" "0 \<le> strategy" "strategy \<le> account" "account < 2 ^ 20"
  shows "0 \<le> fl (column 8 m)" and "\<bar>fl (column 8 m) - (account - strategy)\<bar> \<le> 11 / 2 / 10 ^ 9"
    and "fl (column 8 m) < 2 ^ 21"
proof -
  have p20: "(2::rat) powi 20 = 2 ^ 20" and p34: "(2::rat) powi - 34 = 1 / 2 ^ 34" and p32: "(2::rat) powi - 32 = 1 / 2 ^ 32"
    and p33: "(2::rat) powi - 33 = 1 / 2 ^ 33" and p21: "(2::rat) powi 21 = 2 ^ 21"
    by (simp_all add: power_int_def power_one_over)
  have m0: "0 \<le> m" and ms: "m = fsub account strategy" using f m by (auto simp: fsub_nonneg)
  have ma: "m \<le> account" using fsub_le [OF f(1,2)] by (simp add: ms)
  have e1: "\<bar>m - (account - strategy)\<bar> \<le> 1 / 2 ^ 34"
    using fl_error [of "account - strategy" 20] f by (simp add: ms fsub_def p20 p34)
  have e2: "\<bar>column 8 m - m\<bar> \<le> 1 / (2 * 10 ^ 8) + 1 / 2 ^ 32"
    using column_near [of m 20 8] m0 ma f(4) by (simp add: p20 p32)
  have "\<bar>column 8 m\<bar> < 2 ^ 21" using abs_le_D1 [OF e2] abs_le_D2 [OF e2] m0 ma f(4) by (intro abs_less_iff [THEN iffD2] conjI) simp_all
  then have e3: "\<bar>fl (column 8 m) - column 8 m\<bar> \<le> 1 / 2 ^ 33"
    using fl_error [of "column 8 m" 21] by (simp add: p21 p33)
  show "0 \<le> fl (column 8 m)" by (simp add: m0 fl_nonneg column.nonneg)
  show "\<bar>fl (column 8 m) - (account - strategy)\<bar> \<le> 11 / 2 / 10 ^ 9"
    using abs_le_D1 [OF e1] abs_le_D2 [OF e1] abs_le_D1 [OF e2] abs_le_D2 [OF e2] abs_le_D1 [OF e3] abs_le_D2 [OF e3]
    by (intro abs_leI) simp_all
  show "fl (column 8 m) < 2 ^ 21" using abs_le_D1 [OF e2] abs_le_D2 [OF e2] abs_le_D1 [OF e3] m0 ma f(4) by simp
qed

section \<open>Protected inventory\<close>

lemma protected_after_run:
  fixes t :: "reservation list"
  assumes "fst (repair_position_ownership b account strategy ''protect_manual'' t) = Inr s"
    and "al_key b = al_key a" and "\<forall>op \<in> set ops. \<not> repairs a op"
  defines "t' \<equiv> own_run ops (snd (repair_position_ownership b account strategy ''protect_manual'' t))"
  obtains r where "fetch_reservation a t' = Some r" "rv_mode r = ''advanced''"
    "rv_manual r = column 8 (max 0 (fsub account strategy))"
proof -
  obtain r where r: "fetch_reservation a (snd (repair_position_ownership b account strategy ''protect_manual'' t)) = Some r"
    "rv_mode r = ''advanced''" "rv_manual r = column 8 (max 0 (fsub account strategy))"
    using assms(1,2) by (rule fetch_protect)
  from own_run_keeps_protection [OF r(1) assms(3)] r(2,3) that show ?thesis by (auto simp: t'_def)
qed

lemma protected_quantity_after_run:
  assumes "fst (repair_position_ownership b account strategy ''protect_manual'' t) = Inr s"
    and "al_key b = al_key a" and "\<forall>op \<in> set ops. \<not> repairs a op"
  shows "protected_quantity a (own_run ops (snd (repair_position_ownership b account strategy ''protect_manual'' t)))
       = fl (column 8 (max 0 (fsub account strategy)))"
  using assms by (rule protected_after_run)
    (simp add: protected_quantity_def reserved_mode_def reserved_qty_def fl_nonneg column.nonneg)

lemma exit_quantity_eq:
  fixes sid :: int and l :: ledger
  assumes "0 < al_user a" "0 < al_credential a" "is_float exch" "0 \<le> exch"
  defines "db \<equiv> fetch_position_size_for_side sid (al_symbol a) (al_side a) l"
  shows "eq_resolved (resolve_reduce_only_quantity sid a requested exch False l t)
       = min (if requested \<le> 0 then db else min requested db) (max 0 (fsub exch (protected_quantity a t)))"
    and "eq_db (resolve_reduce_only_quantity sid a requested exch False l t) = db"
proof -
  have d: "0 \<le> db" by (auto simp: db_def fetch_position_size_for_side_def split: option.split)
  have p: "0 \<le> protected_quantity a t" by (simp add: protected_quantity_def)
  have le: "max 0 (fsub exch (protected_quantity a t)) \<le> exch"
    using fsub_le [OF assms(3) p] assms(4) by simp
  show "eq_resolved (resolve_reduce_only_quantity sid a requested exch False l t)
       = min (if requested \<le> 0 then db else min requested db) (max 0 (fsub exch (protected_quantity a t)))"
    unfolding resolve_reduce_only_quantity_def Let_def db_def [symmetric]
    using assms(1,2) d le by (auto simp: min_def max_def not_less)
  show "eq_db (resolve_reduce_only_quantity sid a requested exch False l t) = db"
    by (simp add: resolve_reduce_only_quantity_def Let_def db_def)
qed

text \<open>C18.  Once a user has protected the surplus of a leg, no exit of the strategy touches it: whatever
  is evaluated and whatever is repaired on other legs in between, an exit resolves to at most the
  strategy's own position, and it leaves at least the surplus of that moment on the exchange, up to
  one unit of the column's last place, or resolves to nothing.\<close>

theorem exits_spare_protected:
  assumes protect: "fst (repair_position_ownership b account strategy ''protect_manual'' t) = Inr s"
    and leg: "al_key b = al_key a" "0 < al_user a" "0 < al_credential a"
    and q: "is_float account" "0 \<le> strategy" "account < 2 ^ 20"
    and run: "\<forall>op \<in> set ops. \<not> repairs a op"
    and exch: "is_float exch" "0 \<le> exch" "exch < 2 ^ 20"
  shows "let t' = own_run ops (snd (repair_position_ownership b account strategy ''protect_manual'' t));
             x = resolve_reduce_only_quantity sid a requested exch False l t' in
         0 \<le> eq_resolved x \<and> eq_resolved x \<le> eq_db x
         \<and> (eq_resolved x = 0 \<or> account - strategy \<le> exch - eq_resolved x + 1 / 10 ^ 8)"
proof -
  define t' where "t' = own_run ops (snd (repair_position_ownership b account strategy ''protect_manual'' t))"
  define x where "x = resolve_reduce_only_quantity sid a requested exch False l t'"
  define P where "P = fl (column 8 (max 0 (fsub account strategy)))"
  have P: "protected_quantity a t' = P"
    unfolding t'_def P_def by (rule protected_quantity_after_run [OF protect leg(1) run])
  have P0: "0 \<le> P" by (simp add: P_def fl_nonneg column.nonneg)
  note x = exit_quantity_eq [OF leg(2,3) exch(1,2), of sid requested l t', folded x_def, unfolded P]
  have x0: "0 \<le> eq_resolved x" and xd: "eq_resolved x \<le> eq_db x" and xa: "eq_resolved x \<le> max 0 (fsub exch P)"
    by (auto simp: x fetch_position_size_for_side_def split: option.split)
  have "account - strategy \<le> exch - eq_resolved x + 1 / 10 ^ 8" if pos: "eq_resolved x \<noteq> 0"
  proof -
    have a: "eq_resolved x \<le> fsub exch P" and "0 < fsub exch P" using xa x0 pos by auto
    then have Pe: "P < exch" using fsub_nonpos [of exch P] by (cases "exch \<le> P") auto
    have p20: "(2::rat) powi 20 = 2 ^ 20" and p34: "(2::rat) powi - 34 = 1 / 2 ^ 34"
      by (simp_all add: power_int_def power_one_over)
    have e: "\<bar>fsub exch P - (exch - P)\<bar> \<le> 1 / 2 ^ 34"
      using fl_error [of "exch - P" 20] exch P0 Pe by (simp add: fsub_def p20 p34)
    have "account - strategy \<le> P + 11 / 2 / 10 ^ 9"
    proof (cases "strategy \<le> account")
      case True
      from abs_le_D2 [OF protected_near(2) [OF refl q(1,2) True q(3)]] show ?thesis by (simp add: P_def)
    next
      case False
      with P0 show ?thesis by simp
    qed
    with a abs_le_D1 [OF e] show ?thesis by simp
  qed
  with x0 xd show ?thesis by (auto simp: Let_def t'_def [symmetric] x_def [symmetric])
qed

definition demo_leg :: "string \<Rightarrow> account_leg" where
  "demo_leg side = \<lparr>al_user = 1, al_credential = 7, al_exchange = ''okx'', al_market = ''swap'',
     al_symbol = ''BTC/USDT'', al_side = side, al_inst = []\<rparr>"

definition demo_ledger :: ledger where
  "demo_ledger = \<lparr>positions = [\<lparr>ps_id = 1, ps_user = 1, ps_strategy = 1, ps_symbol = ''BTC/USDT'', ps_canonical = ''BTC/USDT'',
       ps_side = ''long'', ps_size = 1, ps_entry = 10, ps_current = 10, ps_high = 10, ps_low = 10, ps_market = ''swap'',
       ps_credential = 7, ps_inst = []\<rparr>],
     next_position = 2, trades = [], next_trade = 1, strategy_users = []\<rparr>"

lemma demo_venue_ok: "supports_position_coexistence (al_market (demo_leg side)) (al_exchange (demo_leg side))"
  unfolding demo_leg_def account_leg.select_convs by code_simp

lemma is_float_demo: "is_float (3 / 2)" "is_float 2"
  using fl_representable [of 3 "- 1"] fl_numeral [of "num.Bit0 num.One"]
  by (simp_all add: is_float_def power_int_minus)

lemma demo_protect: "\<exists>s. fst (repair_position_ownership (demo_leg ''long'') (3 / 2) (1 / 2) ''protect_manual'' []) = Inr s"
proof -
  have act: "py_lower (py_strip ''protect_manual'') = ''protect_manual''" by code_simp
  have "\<not> fadd (3 / 2) (fl (1 / 10 ^ 8)) < 1 / 2"
    using fadd_ge [OF is_float_demo(1), of "fl (1 / 10 ^ 8)"] by (simp add: fl_nonneg)
  with demo_venue_ok [of "''long''"] show ?thesis
    by (simp add: repair_position_ownership_def act Let_def)
qed

lemma exits_spare_protected_witness:
  "let t' = own_run [Evaluate (demo_leg ''long'') 2 1 0 0, Repair (demo_leg ''short'') 0 0 ''strict_mode'']
              (snd (repair_position_ownership (demo_leg ''long'') (3 / 2) (1 / 2) ''protect_manual'' []));
       x = resolve_reduce_only_quantity 1 (demo_leg ''long'') 0 2 False demo_ledger t' in
     0 \<le> eq_resolved x \<and> eq_resolved x \<le> eq_db x \<and> (eq_resolved x = 0 \<or> 1 \<le> 2 - eq_resolved x + 1 / 10 ^ 8)"
proof -
  obtain s where s: "fst (repair_position_ownership (demo_leg ''long'') (3 / 2) (1 / 2) ''protect_manual'' []) = Inr s"
    using demo_protect by blast
  have k: "al_key (demo_leg ''short'') \<noteq> al_key (demo_leg ''long'')"
    unfolding demo_leg_def al_key_def account_leg.select_convs by code_simp
  have u: "0 < al_user (demo_leg ''long'')" "0 < al_credential (demo_leg ''long'')" by (simp_all add: demo_leg_def)
  have r: "\<forall>op \<in> set [Evaluate (demo_leg ''long'') 2 1 0 0, Repair (demo_leg ''short'') 0 0 ''strict_mode''].
      \<not> repairs (demo_leg ''long'') op"
    using k by simp
  from exits_spare_protected [OF s refl u is_float_demo(1) _ _ r is_float_demo(2), of 1 0 demo_ledger]
  show ?thesis by (simp add: Let_def)
qed

text \<open>Protecting a leg settles its drift: on a venue that supports it, when the account holds at
  least what the strategies hold, the repair succeeds and its verdict is ok, and as long as the
  quantities stay the same every later evaluation before an entry allows the entry and leaves the leg
  unblocked, although the protected quantity went through a decimal column and the sums through
  binary64.\<close>

theorem protect_settles:
  assumes venue: "supports_position_coexistence (al_market a) (al_exchange a)"
    and q: "is_float account" "0 \<le> strategy" "strategy \<le> account" "account < 2 ^ 20"
    and run: "\<forall>op \<in> set ops. \<not> repairs a op"
  shows "let (res, t1) = repair_position_ownership a account strategy ''protect_manual'' t;
             (v, t2) = evaluate_and_record_ownership a account strategy tol now (own_run ops t1) in
         (\<exists>s. res = Inr s \<and> ow_allowed s) \<and> ow_allowed v \<and> \<not> is_position_leg_blocked a t2"
proof -
  have act: "py_lower (py_strip ''protect_manual'') = ''protect_manual''" and adv: "py_lower ''advanced'' = ''advanced''"
    by code_simp+
  have p: "(2::rat) powi 21 = 2 ^ 21" "(2::rat) powi 22 = 2 ^ 22" "(2::rat) powi - 32 = 1 / 2 ^ 32"
    "(2::rat) powi - 33 = 1 / 2 ^ 33" "(2::rat) powi - 20 = 1 / 2 ^ 20" "(2::rat) powi - 74 = 1 / 2 ^ 74" "(2::rat) powi - 27 = 1 / 2 ^ 27"
    by (simp_all add: power_int_def power_one_over)
  have tol8: "1 / 2 ^ 27 \<le> fl (1 / 10 ^ 8)"
    using fl_mono [of "2 powi - 27" "1 / 10 ^ 8"] fl_representable [of 1 "- 27"] by (simp add: p)
  have settled: "ow_allowed (calculate_position_ownership y sd account strategy P ''advanced'' st rs tol)"
    if P: "0 \<le> P" "\<bar>P - (account - strategy)\<bar> \<le> 11 / 2 / 10 ^ 9" "P < 2 ^ 21" for y sd P st rs tol
  proof -
    have "\<bar>strategy + P\<bar> < 2 ^ 22" using P q by simp
    then have e1: "\<bar>fadd strategy P - (strategy + P)\<bar> \<le> 1 / 2 ^ 32"
      using fl_error [of "strategy + P" 22] by (simp add: fadd_def p)
    let ?u = "account - fadd strategy P"
    have u: "\<bar>?u\<bar> \<le> 6 / 10 ^ 9"
      using abs_le_D1 [OF e1] abs_le_D2 [OF e1] abs_le_D1 [OF P(2)] abs_le_D2 [OF P(2)] by (intro abs_leI) simp_all
    then have e2: "\<bar>fsub account (fadd strategy P) - ?u\<bar> \<le> 1 / 2 ^ 74"
      using fl_error [of ?u "- 20"] by (simp add: fsub_def p)
    have "\<bar>fsub account (fadd strategy P)\<bar> \<le> 1 / 2 ^ 27"
      using abs_le_D1 [OF e2] abs_le_D2 [OF e2] abs_le_D1 [OF u] abs_le_D2 [OF u] by (intro abs_leI) simp_all
    with tol8 have "\<bar>fsub account (fadd strategy P)\<bar> \<le> own_tolerance (fadd strategy P) tol"
      by (simp add: own_tolerance_def max.coboundedI1)
    moreover have "max 0 account = account" "max 0 strategy = strategy" "max 0 P = P" using q P by auto
    ultimately show ?thesis by (simp add: calculate_position_ownership_def adv Let_def)
  qed
  let ?m = "max 0 (fsub account strategy)"
  define res where "res = fst (repair_position_ownership a account strategy ''protect_manual'' t)"
  define t1 where "t1 = snd (repair_position_ownership a account strategy ''protect_manual'' t)"
  have "\<not> fadd account (fl (1 / 10 ^ 8)) < strategy"
    using fadd_ge [OF q(1), of "fl (1 / 10 ^ 8)"] q(3) by (simp add: fl_nonneg)
  then have res: "res = Inr (calculate_position_ownership (al_symbol a) (al_side a) account strategy ?m ''advanced'' [] [] 0)"
    using venue by (simp add: res_def repair_position_ownership_def act Let_def)
  have m: "0 \<le> ?m" "?m < 2 ^ 21" "\<bar>?m - (account - strategy)\<bar> \<le> 11 / 2 / 10 ^ 9"
  proof -
    show "0 \<le> ?m" by simp
    show "?m < 2 ^ 21" using fsub_le [OF q(1,2)] q(4) by simp
    show "\<bar>?m - (account - strategy)\<bar> \<le> 11 / 2 / 10 ^ 9"
      using fl_error [of "account - strategy" 21] fsub_nonneg [OF q(3)] q by (simp add: fsub_def p)
  qed
  from settled [OF m(1) m(3) m(2)] have ok: "\<exists>s. res = Inr s \<and> ow_allowed s" by (simp add: res)
  from res obtain r where r: "fetch_reservation a (own_run ops t1) = Some r" "rv_mode r = ''advanced''"
    "rv_manual r = column 8 ?m"
    unfolding res_def t1_def by (rule protected_after_run) (use run in auto)
  define v where "v = fst (evaluate_and_record_ownership a account strategy tol now (own_run ops t1))"
  have "v = calculate_position_ownership (al_symbol a) (al_side a) account strategy (fl (column 8 ?m)) ''advanced''
      (rv_status r) (rv_reason r) tol"
    by (simp add: v_def evaluate_and_record_ownership_def Let_def r reserved_qty_def reserved_mode_def)
  then have "ow_allowed v" using settled [OF protected_near [OF refl q]] by simp
  with ok blocked_iff_not_allowed [of a account strategy tol now "own_run ops t1"]
  show ?thesis by (simp add: res_def t1_def v_def case_prod_beta Let_def)
qed

lemma protect_settles_witness:
  "let (res, t1) = repair_position_ownership (demo_leg ''long'') (3 / 2) (1 / 2) ''protect_manual'' [];
       (v, t2) = evaluate_and_record_ownership (demo_leg ''long'') (3 / 2) (1 / 2) 0 0
                   (own_run [Evaluate (demo_leg ''long'') 2 1 0 0] t1) in
   (\<exists>s. res = Inr s \<and> ow_allowed s) \<and> ow_allowed v \<and> \<not> is_position_leg_blocked (demo_leg ''long'') t2"
  by (rule protect_settles [OF demo_venue_ok is_float_demo(1)]) simp_all

end
