(* ===== verification/Dispatch_Safety.thy ===== *)
theory Dispatch_Safety
  imports Fill_Sync Order_Safety Ownership_Safety
begin

text \<open>
  What the worker's queue promises over any interleaving of its transactions: \<open>queue_step\<close> is one
  statement of any process, \<open>queue_run\<close> a sequence of them with the dispatches it made.
\<close>

section \<open>Runs of the queue\<close>

inductive queue_step :: "queue \<Rightarrow> int list \<Rightarrow> queue \<Rightarrow> bool" where
  submit: "submit r q = (res, q') \<Longrightarrow> queue_step q [] q'"
| time: "0 \<le> d \<Longrightarrow> queue_step q [] (q\<lparr>clock := clock q + d\<rparr>)"
| fetch: "queue_step q [] (snd (fetch_pending_orders stale limit q))"
| claim: "mark_processing n q = (b, q') \<Longrightarrow> queue_step q (if b then [n] else []) q'"
| failed: "queue_step q [] (mark_failed n q)"
| deferred: "queue_step q [] (mark_deferred n q)"
| sent: "queue_step q [] (mark_sent n r q)"
| fetch_sent: "queue_step q [] (snd (fetch_live_sent_orders stale retry missing limit q))"
| claim_sent: "queue_step q [] (snd (claim_live_sent_order retry missing n q))"
| snapshot: "st \<in> {''sent'', ''filled'', ''cancelled''} \<Longrightarrow>
    queue_step q [] (update_live_sent_order_snapshot n st xs f av resp note q)"

inductive queue_run :: "queue \<Rightarrow> int list \<Rightarrow> queue \<Rightarrow> bool" where
  start: "queue_run q [] q"
| step: "queue_run q h q1 \<Longrightarrow> queue_step q1 h1 q2 \<Longrightarrow> queue_run q (h @ h1) q2"

inductive_cases queue_stepE: "queue_step q h q'"

text \<open>
  What a statement may do to a row: leave it, claim it if it is pending, take it back from
  processing while attempts remain, or settle it.
\<close>

definition settled :: "pending_row \<Rightarrow> bool" where
  "settled p = (pd_status p \<noteq> ''pending'' \<and> pd_status p \<noteq> ''processing'')"

definition row_ok :: "pending_row \<Rightarrow> bool" where
  "row_ok p = (0 \<le> pd_attempts p \<and> pd_attempts p \<le> pd_max p \<and> (pd_status p = ''pending'' \<longrightarrow> pd_attempts p < pd_max p))"

definition evolves :: "int list \<Rightarrow> pending_row \<Rightarrow> pending_row \<Rightarrow> bool" where
  "evolves h p p' = (pd_id p' = pd_id p \<and> pd_key p' = pd_key p \<and> pd_max p' = pd_max p \<and> pd_symbol p' = pd_symbol p
     \<and> pd_action p' = pd_action p \<and> pd_payload p' = pd_payload p
     \<and> pd_attempts p' = pd_attempts p + int (count_list h (pd_id p))
     \<and> (count_list h (pd_id p) = (if pd_status p = ''pending'' \<and> pd_status p' = ''processing'' then 1 else 0))
     \<and> (settled p \<longrightarrow> settled p') \<and> (row_ok p \<longrightarrow> row_ok p'))"

lemma evolves_refl: "evolves [] p p"
  by (simp add: evolves_def)

lemmas status_defs = settled_def row_ok_def evolves_def

text \<open>Every statement but an insertion maps the rows one by one and keeps the rest of \<open>queue_ok\<close>.\<close>

lemma pending_set_intent [simp]: "pending (set_intent_of n st q) = pending q"
  and ids_set_intent [simp]: "map in_id (intents (set_intent_of n st q)) = map in_id (intents q)"
  and next_set_intent [simp]: "next_pending (set_intent_of n st q) = next_pending q" "next_intent (set_intent_of n st q) = next_intent q"
  by (simp_all add: set_intent_of_def map_upd_where_same)

lemma pending_set_row [simp]: "pending (set_row n f q) = map (\<lambda>p. if pd_id p = n then f p else p) (pending q)"
  and rest_set_row [simp]: "intents (set_row n f q) = intents q" "next_pending (set_row n f q) = next_pending q"
    "next_intent (set_row n f q) = next_intent q" "clock (set_row n f q) = clock q"
  by (simp_all add: set_row_def upd_where_def)

definition same_rest :: "queue \<Rightarrow> queue \<Rightarrow> bool" where
  "same_rest q q' = (map in_id (intents q') = map in_id (intents q) \<and> next_pending q' = next_pending q
     \<and> next_intent q' = next_intent q)"

text \<open>Updates of the rows with \<open>P\<close> that evolve each of them.\<close>

lemma evolves_if: "(P \<Longrightarrow> evolves [] p p') \<Longrightarrow> evolves [] p (if P then p' else p)"
  by (simp add: evolves_refl)

lemma evolves_trans: "evolves [] p p1 \<Longrightarrow> evolves [] p1 p2 \<Longrightarrow> evolves [] p p2"
  by (auto simp: evolves_def settled_def split: if_splits)

definition core :: "pending_row \<Rightarrow> int \<times> string \<times> int \<times> string \<times> string \<times> order_request \<times> int" where
  "core p = (pd_id p, pd_key p, pd_max p, pd_symbol p, pd_action p, pd_payload p, pd_attempts p)"

lemma evolves_settle: "core p' = core p \<Longrightarrow> settled p' \<Longrightarrow> evolves [] p p'"
  by (auto simp: core_def status_defs)

lemma evolves_requeue:
  "core p' = core p \<Longrightarrow> pd_status p = ''processing'' \<Longrightarrow> pd_status p' = ''pending'' \<Longrightarrow> pd_attempts p < pd_max p \<Longrightarrow> evolves [] p p'"
  by (auto simp: core_def status_defs)

definition row_map :: "int list \<Rightarrow> queue \<Rightarrow> queue \<Rightarrow> bool" where
  "row_map h q q' = (\<exists>g. pending q' = map g (pending q) \<and> (\<forall>p \<in> set (pending q). evolves h p (g p)))"

lemma row_mapI: "pending q' = map g (pending q) \<Longrightarrow> (\<And>p. evolves h p (g p)) \<Longrightarrow> row_map h q q'"
  by (auto simp: row_map_def)

lemma row_map_id: "pending q' = pending q \<Longrightarrow> row_map [] q q'"
  by (rule row_mapI [where g = "\<lambda>p. p"]) (simp_all add: evolves_refl)

lemma row_map_upd:
  assumes "pending q' = upd_where P f (pending q)" and "\<And>p. P p \<Longrightarrow> evolves [] p (f p)"
  shows "row_map [] q q'"
  by (rule row_mapI [where g = "\<lambda>p. if P p then f p else p"]) (simp_all add: assms upd_where_def evolves_refl)

lemma row_map_trans: "row_map [] q q1 \<Longrightarrow> row_map [] q1 q2 \<Longrightarrow> row_map [] q q2"
  unfolding row_map_def
proof clarify
  fix g g'
  assume "pending q1 = map g (pending q)" "\<forall>p \<in> set (pending q). evolves [] p (g p)"
    "pending q2 = map g' (pending q1)" "\<forall>p \<in> set (pending q1). evolves [] p (g' p)"
  then show "\<exists>k. pending q2 = map k (pending q) \<and> (\<forall>p \<in> set (pending q). evolves [] p (k p))"
    by (intro exI [of _ "g' \<circ> g"]) (auto intro: evolves_trans)
qed

lemma row_map_set_row: "(\<And>p. core (f p) = core p \<and> settled (f p)) \<Longrightarrow> pending q' = pending (set_row n f q) \<Longrightarrow> row_map [] q q'"
  by (rule row_map_upd [of _ "\<lambda>p. pd_id p = n" f]) (auto simp: upd_where_def intro: evolves_settle)

lemma rows_dead: "row_map [] q (dead_letters q)"
  by (rule row_map_upd, simp add: dead_letters_def, rule evolves_settle) (simp_all add: core_def settled_def)

lemma rows_requeue: "row_map [] q (requeue_stale stale q)"
  by (rule row_map_upd, simp add: requeue_stale_def, rule evolves_requeue) (simp_all add: core_def)

lemma rows_fetch: "row_map [] q (snd (fetch_pending_orders stale limit q))"
  by (cases "0 < stale")
    (simp_all add: fetch_pending_orders_def Let_def row_map_id row_map_trans [OF rows_dead rows_requeue])

lemma rows_mark_failed: "row_map [] q (mark_failed n q)"
  unfolding mark_failed_def by (rule row_map_set_row) (rule conjI, simp_all only: pending_set_intent, simp_all add: core_def settled_def)

lemma rows_mark_deferred: "row_map [] q (mark_deferred n q)"
  unfolding mark_deferred_def by (rule row_map_set_row [OF _ refl]) (simp add: core_def settled_def)

lemma rows_mark_sent: "row_map [] q (mark_sent n r q)"
  unfolding mark_sent_def by (rule row_map_set_row [OF _ pending_set_intent]) (simp add: core_def settled_def)

lemma rows_snapshot:
  "st \<in> {''sent'', ''filled'', ''cancelled''} \<Longrightarrow> row_map [] q (update_live_sent_order_snapshot n st xs f av resp note q)"
  unfolding update_live_sent_order_snapshot_def Let_def
  by (rule row_map_set_row [OF _ pending_set_intent]) (auto simp: core_def settled_def)

lemma rows_fetch_sent: "row_map [] q (snd (fetch_live_sent_orders stale retry missing limit q))"
proof (cases "0 < max 0 stale")
  case True
  have "pending (snd (fetch_live_sent_orders stale retry missing limit q)) = upd_where
      (\<lambda>p. pd_status p = ''syncing'' \<and> py_lower (pd_exchange p) \<noteq> ''alpaca'' \<and> pd_updated p < clock q - max 0 stale * second)
      (\<lambda>p. p\<lparr>pd_status := ''sent'', pd_note := ''live_fill_sync:requeued_stale_sync'', pd_updated := clock q\<rparr>) (pending q)"
    unfolding fetch_live_sent_orders_def Let_def snd_conv if_P [OF True] by simp
  then show ?thesis by (rule row_map_upd) (rule evolves_settle, simp_all add: core_def settled_def)
qed (simp add: fetch_live_sent_orders_def Let_def row_map_id)

lemma rows_claim_sent: "row_map [] q (snd (claim_live_sent_order retry missing n q))"
proof (cases "n \<le> 0")
  case False
  then have "pending (snd (claim_live_sent_order retry missing n q))
      = upd_where (\<lambda>p. pd_id p = n \<and> live_syncable retry missing (clock q) p)
          (\<lambda>p. p\<lparr>pd_status := ''syncing'', pd_note := ''live_fill_sync:syncing'', pd_updated := clock q\<rparr>) (pending q)"
    by (simp add: claim_live_sent_order_def Let_def split: option.split)
  then show ?thesis by (rule row_map_upd) (rule evolves_settle, simp_all add: core_def settled_def)
qed (simp add: claim_live_sent_order_def Let_def row_map_id)

lemma rows_claim:
  assumes ok: "queue_ok q" and c: "mark_processing n q = (b, q')"
  shows "row_map (if b then [n] else []) q q'"
proof -
  let ?g = "\<lambda>p. if pd_id p = n \<and> pd_status p = ''pending'' then
      p\<lparr>pd_status := ''processing'', pd_attempts := pd_attempts p + 1, pd_updated := clock q\<rparr> else p"
  have "count_list (if b then [n] else []) (pd_id p) = (if pd_id p = n \<and> pd_status p = ''pending'' then 1 else 0)"
    if p: "p \<in> set (pending q)" for p
  proof (cases b)
    case True
    then obtain x where x: "x \<in> set (pending q)" "pd_id x = n" "pd_status x = ''pending''"
      using c by (auto simp: mark_processing_def count_where_pos)
    then have "pd_id p = n \<Longrightarrow> p = x"
      using ok p by (intro distinct_key_eq [of pd_id "pending q"]) (auto simp: queue_ok_def)
    with x True show ?thesis by (cases "pd_id p = n") simp_all
  next
    case False
    with c p show ?thesis by (auto simp: mark_processing_def count_where_pos)
  qed
  then have "evolves (if b then [n] else []) p (?g p)" if "p \<in> set (pending q)" for p
    using that by (auto simp: evolves_def settled_def row_ok_def)
  moreover have "pending q' = map ?g (pending q)" using c by (auto simp: mark_processing_def upd_where_def)
  ultimately show ?thesis unfolding row_map_def by (intro exI [of _ ?g] conjI ballI) simp_all
qed

text \<open>The rest of \<open>queue_ok\<close>.\<close>

lemma rest_ops:
  "same_rest q (snd (fetch_pending_orders stale limit q))"
  "same_rest q (snd (mark_processing n q))"
  "same_rest q (mark_failed n q)"
  "same_rest q (mark_deferred n q)"
  "same_rest q (mark_sent n r q)"
  "same_rest q (snd (fetch_live_sent_orders stale retry missing limit q))"
  "same_rest q (snd (claim_live_sent_order retry missing n q))"
  "same_rest q (update_live_sent_order_snapshot n st xs f av resp note q)"
  "same_rest q (q\<lparr>clock := c\<rparr>)"
  by (simp_all add: same_rest_def mark_processing_def fetch_pending_orders_def requeue_stale_def dead_letters_def mark_failed_def
      mark_deferred_def mark_sent_def fetch_live_sent_orders_def claim_live_sent_order_def
      update_live_sent_order_snapshot_def Let_def split: option.split)

lemma ok_mapped:
  assumes ok: "queue_ok q" and r: "same_rest q q'" and m: "pending q' = map g (pending q)"
    and e: "\<forall>p \<in> set (pending q). evolves h p (g p)"
  shows "queue_ok q'"
proof -
  have k: "map pd_key (pending q') = map pd_key (pending q)" "map pd_id (pending q') = map pd_id (pending q)"
    using m e by (simp_all add: evolves_def)
  have i: "in_id ` set (intents q') = in_id ` set (intents q)" and n: "next_intent q' = next_intent q" "next_pending q' = next_pending q"
    using r by (simp_all add: same_rest_def) (metis set_map)
  have p: "pd_id ` set (pending q') = pd_id ` set (pending q)" using k(2) by (metis set_map)
  have "\<forall>j \<in> in_id ` set (intents q'). 0 < j \<and> j < next_intent q'"
    unfolding i n using ok by (simp add: queue_ok_def)
  moreover have "\<forall>j \<in> pd_id ` set (pending q'). 0 < j \<and> j < next_pending q'"
    unfolding p n using ok by (simp add: queue_ok_def)
  ultimately show ?thesis using ok k n unfolding queue_ok_def by simp
qed

lemma step_rows:
  assumes ok: "queue_ok q" and s: "queue_step q h q'"
  obtains (added) p where "pending q' = pending q @ [p]" "h = []" "row_ok p" "pd_attempts p = 0"
      "pd_id p = next_pending q" "queue_ok q'"
  | (mapped) g where "pending q' = map g (pending q)" "\<forall>p \<in> set (pending q). evolves h p (g p)" "queue_ok q'"
proof -
  have by_map: thesis if "same_rest q q'" "row_map h q q'"
    using mapped ok_mapped [OF ok that(1)] that(2) unfolding row_map_def by blast
  show thesis
    using s
  proof cases
    case (submit r res)
    from ok submit(2) show thesis
    proof (cases rule: submit_cases)
      case (queued i)
      then show thesis using submit(1) by (intro added) (auto simp: new_pending_row_def row_ok_def)
    qed (use submit ok in \<open>auto intro!: mapped [of "\<lambda>p. p"] simp: evolves_refl\<close>)
  next
    case (time d)
    then show thesis by (intro by_map) (simp_all add: row_map_id rest_ops)
  next
    case (claim n b)
    then show thesis using rows_claim [OF ok claim(2)] rest_ops(2) [of q n] by (intro by_map) simp_all
  qed (simp_all add: by_map rest_ops rows_fetch rows_mark_failed rows_mark_deferred rows_mark_sent rows_snapshot
        rows_fetch_sent rows_claim_sent)
qed

section \<open>Dispatches\<close>

text \<open>What a run makes of the rows it started with (\<open>old\<close>) and of those submitted on the way.\<close>

definition run_row :: "pending_row list \<Rightarrow> int list \<Rightarrow> pending_row \<Rightarrow> bool" where
  "run_row old h p' =
     (case find (\<lambda>p. pd_id p = pd_id p') old of
        None \<Rightarrow> pd_attempts p' = int (count_list h (pd_id p'))
      | Some p \<Rightarrow> pd_attempts p' = pd_attempts p + int (count_list h (pd_id p'))
          \<and> (settled p \<longrightarrow> settled p' \<and> count_list h (pd_id p') = 0))"

definition run_ok :: "queue \<Rightarrow> int list \<Rightarrow> queue \<Rightarrow> bool" where
  "run_ok q h q' = (queue_ok q' \<and> next_pending q \<le> next_pending q' \<and> (\<forall>n \<in> set h. n < next_pending q')
     \<and> (\<forall>p \<in> set (pending q'). row_ok p \<and> run_row (pending q) h p))"

lemma submit_next: "submit r q = (res, q') \<Longrightarrow> next_pending q \<le> next_pending q'"
  by (auto simp: submit_def create_intent_def insert_pending_def Let_def split: option.splits if_splits sum.splits prod.splits)

lemma step_next: "queue_step q h q' \<Longrightarrow> next_pending q \<le> next_pending q'"
proof (cases rule: queue_step.cases, assumption)
  fix n b assume "mark_processing n q = (b, q')"
  then show ?thesis using rest_ops(2) [of q n] by (simp add: same_rest_def)
qed (use rest_ops submit_next in \<open>auto simp: same_rest_def\<close>)

lemma step_claims: "queue_step q h q' \<Longrightarrow> n \<in> set h \<Longrightarrow> \<exists>p \<in> set (pending q). pd_id p = n"
  by (erule queue_step.cases) (auto simp: mark_processing_def count_where_pos split: if_splits)

lemma run_row_evolves:
  assumes "run_row old h p" and "evolves h1 p p'"
  shows "run_row old (h @ h1) p'"
  using assms by (auto simp: run_row_def evolves_def settled_def split: option.splits if_splits)

lemma queue_run_ok:
  assumes "queue_run q h q'" and "queue_ok q" and "\<forall>p \<in> set (pending q). row_ok p"
  shows "run_ok q h q'"
  using assms
proof (induction rule: queue_run.induct)
  case (start q)
  have "run_row (pending q) [] p" if "p \<in> set (pending q)" for p
    using that find_key [of pd_id "pending q" p] start by (simp add: run_row_def queue_ok_def)
  with start show ?case by (simp add: run_ok_def)
next
  case (step q h q1 h1 q2)
  then have ok: "run_ok q h q1" by blast
  then have q1: "queue_ok q1" by (simp add: run_ok_def)
  have n: "next_pending q \<le> next_pending q2" "\<forall>n \<in> set (h @ h1). n < next_pending q2"
    using ok step_next [OF step.hyps(2)] step_claims [OF step.hyps(2)] q1
    by (fastforce simp: run_ok_def queue_ok_def)+
  from q1 step.hyps(2) show ?case
  proof (cases rule: step_rows)
    case (added p)
    have "pd_id p \<notin> pd_id ` set (pending q)"
      using added(5) step.prems(1) ok by (auto simp: queue_ok_def run_ok_def)
    then have "find (\<lambda>x. pd_id x = pd_id p) (pending q) = None" by (auto simp: find_None_iff image_iff)
    moreover have "pd_id p \<notin> set h" using ok added(5) by (auto simp: run_ok_def)
    ultimately have "run_row (pending q) h p" using added(4) by (simp add: run_row_def)
    with added ok n show ?thesis by (auto simp: run_ok_def)
  next
    case (mapped g)
    then have "row_ok (g p) \<and> run_row (pending q) (h @ h1) (g p)" if "p \<in> set (pending q1)" for p
      using ok that run_row_evolves [of "pending q" h p h1 "g p"] by (simp add: run_ok_def evolves_def)
    with mapped n show ?thesis by (auto simp: run_ok_def)
  qed
qed

text \<open>C22.  Over any interleaving of submissions, fetches, claims, crashes with their requeueing, outcomes and
  reconciliations by any number of processes, an order is dispatched to the exchange at most as
  often as attempts remained when the run began (ten for an order submitted on the way), and an
  order that has left \<open>pending\<close> and \<open>processing\<close> is never dispatched again.\<close>

theorem dispatches_bounded:
  assumes "queue_ok q" and "\<forall>p \<in> set (pending q). row_ok p" and "queue_run q h q'" and "p' \<in> set (pending q')"
  shows "row_ok p'
    \<and> (case find (\<lambda>p. pd_id p = pd_id p') (pending q) of
         None \<Rightarrow> int (count_list h (pd_id p')) \<le> pd_max p'
       | Some p \<Rightarrow> int (count_list h (pd_id p')) \<le> pd_max p' - pd_attempts p
           \<and> (settled p \<longrightarrow> settled p' \<and> pd_id p' \<notin> set h))"
proof -
  have "row_ok p' \<and> run_row (pending q) h p'"
    using queue_run_ok [OF assms(3,1,2)] assms(4) by (simp add: run_ok_def)
  then show ?thesis by (auto simp: run_row_def row_ok_def count_list_0_iff split: option.splits)
qed

text \<open>A request is submitted, claimed, its worker crashes, the row is requeued and claimed again.\<close>

definition after_submit :: queue where
  "after_submit = snd (submit demo_request empty_queue)"

lemma after_submit_pending: "pending after_submit = [new_pending_row demo_request (request_key demo_request) 1 1 0]"
  and after_submit_clock: "clock after_submit = 0"
proof -
  have "validate_request demo_request = None" by code_simp
  moreover have "py_strip (request_key demo_request) \<noteq> []" using request_key_nonblank [of demo_request] by auto
  ultimately show "pending after_submit = [new_pending_row demo_request (request_key demo_request) 1 1 0]"
    and "clock after_submit = 0"
    by (simp_all add: after_submit_def submit_def create_intent_def Let_def get_by_key_def empty_queue_def
        pending_id_def insert_pending_def new_intent_row_def)
qed

definition after_claim :: queue where
  "after_claim = snd (mark_processing 1 after_submit)"

definition after_requeue :: queue where
  "after_requeue = snd (fetch_pending_orders 90 50 (after_claim\<lparr>clock := clock after_claim + 100 * second\<rparr>))"

definition after_second :: queue where
  "after_second = snd (mark_processing 1 after_requeue)"

lemma after_claim_pending:
  "pending after_claim = [(new_pending_row demo_request (request_key demo_request) 1 1 0)\<lparr>pd_status := ''processing'', pd_attempts := 1\<rparr>]"
  "clock after_claim = 0" "fst (mark_processing 1 after_submit)"
  by (simp_all add: after_claim_def mark_processing_def after_submit_pending after_submit_clock new_pending_row_def)

lemma after_requeue_pending:
  "pending after_requeue = [(new_pending_row demo_request (request_key demo_request) 1 1 0)
     \<lparr>pd_attempts := 1, pd_updated := 100 * second, pd_note := ''requeued_stale_processing''\<rparr>]"
  "fst (mark_processing 1 after_requeue)"
  by (simp_all add: after_requeue_def fetch_pending_orders_def dead_letters_def requeue_stale_def after_claim_pending
      new_pending_row_def mark_processing_def Let_def second_def)

lemma crash_run: "queue_run empty_queue [1, 1] after_second"
proof -
  note c1 = after_claim_pending(3) and c2 = after_requeue_pending(2)
  have "queue_run empty_queue ([] @ []) after_submit"
    by (rule queue_run.step [OF queue_run.start], rule queue_step.submit [of demo_request _ "fst (submit demo_request empty_queue)"])
      (simp add: after_submit_def)
  then have "queue_run empty_queue ([] @ [1]) after_claim"
    using queue_run.step [of empty_queue "[]" after_submit] queue_step.claim [of 1 after_submit True after_claim] c1
    by (simp add: after_claim_def prod_eq_iff)
  then have "queue_run empty_queue ([1] @ []) (after_claim\<lparr>clock := clock after_claim + 100 * second\<rparr>)"
    by (intro queue_run.step [OF _ queue_step.time]) (simp_all add: second_def)
  then have "queue_run empty_queue ([1] @ []) after_requeue"
    unfolding after_requeue_def by (intro queue_run.step [OF _ queue_step.fetch]) simp_all
  then have "queue_run empty_queue ([1] @ [1]) after_second"
    using queue_run.step [of empty_queue "[1]" after_requeue] queue_step.claim [of 1 after_requeue True after_second] c2
    by (simp add: after_second_def prod_eq_iff)
  then show ?thesis by simp
qed

lemma dispatches_bounded_witness:
  "\<exists>p \<in> set (pending after_second). pd_id p = 1 \<and> row_ok p \<and> int (count_list [1, 1] (pd_id p)) \<le> pd_max p"
proof -
  obtain p where p: "p \<in> set (pending after_second)" "pd_id p = 1"
    by (simp add: after_second_def mark_processing_def after_requeue_pending new_pending_row_def)
  have "pending empty_queue = []" by (simp add: empty_queue_def)
  with dispatches_bounded [OF empty_queue_ok _ crash_run p(1)] p show ?thesis by (intro bexI [OF _ p(1)]) simp
qed

end
