(* ===== verification/Sync_Safety.thy ===== *)
theory Sync_Safety
  imports Dispatch_Safety
begin

text \<open>
  The quantities posted for a submitted order against what the exchange reported: \<open>tracked\<close> is the
  cumulative fill the row remembers, \<open>recorded_quantity\<close> the sum of the trades of the order.
\<close>

section \<open>Rounds of reconciliation\<close>

fun sync_rounds :: "sync_env list \<Rightarrow> int \<Rightarrow> (int \<Rightarrow> bool) \<Rightarrow> int \<Rightarrow> queue \<times> ledger \<Rightarrow> queue \<times> ledger" where
  "sync_rounds [] retry missing n ql = ql"
| "sync_rounds (e # es) retry missing n ql =
     sync_rounds es retry missing n (sync_one_live_sent_order e retry missing n ql)"

definition row_baseline :: "pending_row \<Rightarrow> rat" where
  "row_baseline p = fst (tracked_fill_baseline (pd_response p) (py_strip (pd_oid p)) (max 0 (fl (pd_filled p))) (max 0 (fl (pd_avg p))))"

definition row_of :: "int \<Rightarrow> queue \<Rightarrow> pending_row option" where
  "row_of n q = find (\<lambda>p. pd_id p = n) (pending q)"

definition tracked :: "int \<Rightarrow> queue \<Rightarrow> rat" where
  "tracked n q = (case row_of n q of None \<Rightarrow> 0 | Some p \<Rightarrow> row_baseline p)"

lemma row_of_set_row:
  assumes "\<And>p. pd_id (f p) = pd_id p"
  shows "row_of n (set_row m f q) = map_option (\<lambda>p. if pd_id p = m then f p else p) (row_of n q)"
  using find_key_upd_where [of "\<lambda>p. pd_id p = m" pd_id f n "pending q"] assms
  by (simp add: row_of_def set_row_def)

lemma row_of_set_intent [simp]: "row_of n (set_intent_of m st q) = row_of n q"
  by (simp add: row_of_def)

lemma row_of_same_rows: "pending q' = pending q \<Longrightarrow> row_of n q' = row_of n q"
  by (simp add: row_of_def)

lemma row_baseline_nonneg: "0 \<le> row_baseline p"
  by (auto simp: row_baseline_def tracked_fill_baseline_def split: response.split option.split)

lemma tracked_nonneg: "0 \<le> tracked n q"
  by (auto simp: tracked_def row_baseline_nonneg split: option.split)

lemma row_of_id: "row_of n q = Some p \<Longrightarrow> pd_id p = n"
  by (auto simp: row_of_def dest: find_SomeD)

text \<open>A claim keeps what the row remembers.\<close>

lemma claim_keeps:
  assumes "claim_live_sent_order retry missing n q = (res, q')"
  shows "tracked n q' = tracked n q" and "res = Some p \<Longrightarrow> row_of n q' = Some p"
proof -
  let ?hit = "\<lambda>p. pd_id p = n \<and> live_syncable retry missing (clock q) p"
  let ?f = "\<lambda>p. p\<lparr>pd_status := ''syncing'', pd_note := ''live_fill_sync:syncing'', pd_updated := clock q\<rparr>"
  have f: "find (\<lambda>p. pd_id p = n) (upd_where ?hit ?f (pending q))
      = map_option (\<lambda>p. if ?hit p then ?f p else p) (row_of n q)"
    unfolding row_of_def by (rule find_key_upd_where) simp
  have q': "q' = q \<or> pending q' = upd_where ?hit ?f (pending q)"
    using assms by (auto simp: claim_live_sent_order_def Let_def split: if_splits option.splits)
  then have "row_of n q' = row_of n q \<or> row_of n q' = map_option (\<lambda>p. if ?hit p then ?f p else p) (row_of n q)"
    using f by (auto simp: row_of_def)
  moreover have "row_baseline (?f p) = row_baseline p" for p by (simp add: row_baseline_def)
  ultimately show "tracked n q' = tracked n q" by (auto simp: tracked_def split: option.split)
  show "row_of n q' = Some p" if "res = Some p"
    using assms that by (auto simp: claim_live_sent_order_def Let_def row_of_def split: if_splits option.splits)
qed

lemma row_of_snapshot:
  assumes "row_of n q = Some p"
  shows "\<exists>p'. row_of n (update_live_sent_order_snapshot n st xs f av resp note q) = Some p' \<and> pd_response p' = resp"
  using assms row_of_id [OF assms]
  by (simp add: update_live_sent_order_snapshot_def Let_def row_of_set_row)

lemma tracked_snapshot:
  assumes "row_of n q = Some p"
  shows "tracked n (update_live_sent_order_snapshot n st xs f av (Fill_Sync a b) nt q) = max 0 a"
  using row_of_snapshot [OF assms, of st xs f av "Fill_Sync a b" nt]
  by (auto simp: tracked_def row_baseline_def tracked_fill_baseline_def)

lemma tracked_store:
  assumes "row_of n q = Some p0" and "pd_id p = n"
  shows "tracked n (store_snapshot e p rep q) = max 0 (fst rep)"
proof -
  have "sy_filled (sync_state_of p rep) = max 0 (fst rep)" by (simp add: sync_state_of_def Let_def case_prod_beta)
  then show ?thesis
    unfolding store_snapshot_def Let_def case_prod_beta assms(2) by (simp add: tracked_snapshot [OF assms(1)])
qed

section \<open>Posting\<close>

lemma persist_trades:
  assumes "fl (1 / 10 ^ 12) < \<bar>fp_filled f\<bar>" and "lc_pending (fp_leg f) = n"
    and "fp_event f \<le> 0 \<or> (\<forall>t \<in> set (trades l). tr_event t \<noteq> fp_event f)"
  shows "recorded_quantity n (snd (persist_strategy_fill f (q, l))) = recorded_quantity n l + column 8 (fp_filled f)"
  using assms
  by (auto simp: persist_strategy_fill_def Let_def case_prod_beta recorded_quantity_def record_trade_def list_ex_iff)

lemma persist_rows [simp]: "pending (fst (persist_strategy_fill f (q, l))) = pending q"
  by (simp add: persist_strategy_fill_def Let_def case_prod_beta)

lemma pending_failed_baseline: "tracked n (mark_failed m q) = tracked n q"
  by (auto simp: tracked_def mark_failed_def row_of_set_row row_baseline_def split: option.split)

section \<open>One round\<close>

text \<open>A round in which the exchange answers with a cumulative quantity \<open>c\<close> and a price, and the ledger works.\<close>

definition priced :: "sync_env \<Rightarrow> rat \<Rightarrow> bool" where
  "priced e c = (se_posting e \<and> 0 \<le> c \<and> c < 2 ^ 20
     \<and> (case se_query e of None \<Rightarrow> False | Some rep \<Rightarrow> fst rep = c \<and> 0 < fst (snd rep)))"

lemma delta_eq: "sy_delta (sync_state_of p rep) = fsub (max 0 (fst rep)) (row_baseline p)"
  and avg_eq: "sy_avg (sync_state_of p rep) = max 0 (fst (snd rep))"
  by (simp_all add: sync_state_of_def row_baseline_def Let_def case_prod_beta)

lemma epsilon_bounds: "0 < fill_delta_epsilon" "fill_delta_epsilon \<le> 11 / 10 ^ 9" "fl (1 / 10 ^ 12) \<le> fill_delta_epsilon"
proof -
  have p: "(2::rat) powi - 27 = 1 / 2 ^ 27" "(2::rat) powi - 26 = 1 / 2 ^ 26" "(2::rat) powi - 80 = 1 / 2 ^ 80"
    by (simp_all add: power_int_def power_one_over)
  have "1 / 2 ^ 27 \<le> fl (1 / 10 ^ 8)"
    using fl_mono [of "2 powi - 27" "1 / 10 ^ 8"] fl_representable [of 1 "- 27"] by (simp add: p)
  moreover have "(0::rat) < 1 / 2 ^ 27" by simp
  ultimately show "0 < fill_delta_epsilon" unfolding fill_delta_epsilon_def by linarith
  have "\<bar>fl (1 / 10 ^ 8) - 1 / 10 ^ 8\<bar> \<le> 2 powi (- 26 - 54)" by (rule fl_error) (simp_all add: p)
  from abs_le_D1 [OF this] show "fill_delta_epsilon \<le> 11 / 10 ^ 9" by (simp add: fill_delta_epsilon_def p)
  show "fl (1 / 10 ^ 12) \<le> fill_delta_epsilon" unfolding fill_delta_epsilon_def by (rule fl_mono) simp
qed

definition syncable :: "pending_row \<Rightarrow> bool" where
  "syncable p = (0 < num_int_or (rq_strategy (pd_payload p)) (pd_strategy p) \<and> py_strip (order_symbol p) \<noteq> [] \<and> py_strip (pd_oid p) \<noteq> [])"

lemma sync_claimed_step:
  fixes l :: ledger
  assumes e: "priced e c" and p: "row_of n q = Some p" and le: "row_baseline p \<le> c"
  defines "q' \<equiv> fst (sync_claimed e p (q, l))" and "l' \<equiv> snd (sync_claimed e p (q, l))"
  shows "\<bar>(recorded_quantity n l' - recorded_quantity n l) - (tracked n q' - row_baseline p)\<bar> \<le> 2 / 10 ^ 8
    \<and> tracked n q' \<le> c \<and> row_baseline p \<le> tracked n q' \<and> (syncable p \<longrightarrow> tracked n q' = c)"
proof (cases "num_int_or (rq_strategy (pd_payload p)) (pd_strategy p) \<le> 0 \<or> py_strip (order_symbol p) = [] \<or> py_strip (pd_oid p) = []")
  case True
  then have "q' = mark_failed (pd_id p) q" "l' = l" by (simp_all add: q'_def l'_def sync_claimed_def)
  then show ?thesis using le p by (simp add: pending_failed_baseline) (use True in \<open>auto simp: tracked_def syncable_def\<close>)
next
  case False
  obtain rep where rep: "se_query e = Some rep" "fst rep = c" "0 < fst (snd rep)"
    using e by (auto simp: priced_def split: option.splits)
  let ?y = "sync_state_of p rep"
  have c: "0 \<le> c" "c < 2 ^ 20" and post: "se_posting e" using e by (simp_all add: priced_def)
  have id: "pd_id p = n" using p by (rule row_of_id)
  have d: "sy_delta ?y = fsub c (row_baseline p)" using c rep(2) by (simp add: delta_eq)
  have pw: "(2::rat) powi 20 = 2 ^ 20" "(2::rat) powi - 34 = 1 / 2 ^ 34" "(2::rat) powi - 31 = 1 / 2 ^ 31" "(2::rat) powi 21 = 2 ^ 21"
    by (simp_all add: power_int_def power_one_over)
  have e1: "\<bar>fsub c (row_baseline p) - (c - row_baseline p)\<bar> \<le> 1 / 2 ^ 34"
    using fl_error [of "c - row_baseline p" 20] c le row_baseline_nonneg [of p] by (simp add: fsub_def pw)
  show ?thesis
  proof (cases "posts_fill ?y")
    case False
    then have small: "fsub c (row_baseline p) \<le> fill_delta_epsilon"
      using rep(3) by (simp add: posts_fill_def d avg_eq)
    have "q' = store_snapshot e p rep q" "l' = l"
      using \<open>\<not> (num_int_or _ _ \<le> 0 \<or> _)\<close> False rep(1) by (simp_all add: q'_def l'_def sync_claimed_def Let_def)
    then have "tracked n q' = c" "l' = l" using tracked_store [OF p id, of e rep] rep(2) c by simp_all
    moreover have "c - row_baseline p \<le> 2 / 10 ^ 8"
      using small abs_le_D2 [OF e1] epsilon_bounds(2) by simp
    ultimately show ?thesis using le by (simp add: abs_le_iff)
  next
    case True
    then have big: "fill_delta_epsilon < fsub c (row_baseline p)" by (simp add: posts_fill_def d)
    define f where "f = synced_post e p ?y"
    have f: "fp_filled f = fsub c (row_baseline p)" "lc_pending (fp_leg f) = n" "fp_event f = 0"
      by (simp_all add: f_def synced_post_def Let_def d id)
    have s: "q' = store_snapshot e p rep (fst (persist_strategy_fill f (q, l)))" "l' = snd (persist_strategy_fill f (q, l))"
      using \<open>\<not> (num_int_or _ _ \<le> 0 \<or> _)\<close> True rep(1) post
      by (simp_all add: q'_def l'_def sync_claimed_def Let_def f_def case_prod_beta)
    have "row_of n (fst (persist_strategy_fill f (q, l))) = Some p" using p by (simp add: row_of_def)
    then have t: "tracked n q' = c" using tracked_store [of n _ p p e rep] id rep(2) c by (simp add: s)
    have r: "recorded_quantity n l' = recorded_quantity n l + column 8 (fsub c (row_baseline p))"
      using persist_trades [of f n l q] f big epsilon_bounds by (simp add: s)
    have "\<bar>fsub c (row_baseline p)\<bar> < 2 ^ 21"
      using fsub_nonneg [OF le] row_baseline_nonneg [of p] c abs_le_D1 [OF e1] by simp
    then have e2: "\<bar>column 8 (fsub c (row_baseline p)) - fsub c (row_baseline p)\<bar> \<le> 1 / (2 * 10 ^ 8) + 1 / 2 ^ 31"
      using column_near [of "fsub c (row_baseline p)" 21 8] by (simp add: pw)
    show ?thesis
      unfolding r t using abs_le_D1 [OF e1] abs_le_D2 [OF e1] abs_le_D1 [OF e2] abs_le_D2 [OF e2]
      by (intro conjI abs_leI impI) (simp_all add: le)
  qed
qed

lemma sync_one_step:
  fixes retry :: int and missing :: "int \<Rightarrow> bool" and l :: ledger
  assumes e: "priced e c" and le: "tracked n q \<le> c"
  defines "ql' \<equiv> sync_one_live_sent_order e retry missing n (q, l)"
  shows "\<bar>(recorded_quantity n (snd ql') - recorded_quantity n l) - (tracked n (fst ql') - tracked n q)\<bar> \<le> 2 / 10 ^ 8
    \<and> tracked n (fst ql') \<le> c \<and> tracked n q \<le> tracked n (fst ql')"
proof -
  obtain res q1 where c: "claim_live_sent_order retry missing n q = (res, q1)" by fastforce
  show ?thesis
  proof (cases res)
    case None
    then have "ql' = (q1, l)" using c by (simp add: ql'_def sync_one_live_sent_order_def)
    with claim_keeps(1) [OF c] le show ?thesis by simp
  next
    case (Some p)
    then have "ql' = sync_claimed e p (q1, l)" using c by (simp add: ql'_def sync_one_live_sent_order_def)
    moreover have row: "row_of n q1 = Some p" using claim_keeps(2) [OF c Some] .
    moreover have "row_baseline p = tracked n q" using row claim_keeps(1) [OF c] by (simp add: tracked_def)
    ultimately show ?thesis using sync_claimed_step [OF e row, of l] le by simp
  qed
qed

text \<open>A row that can be claimed and synced.\<close>

definition sync_ready :: "int \<Rightarrow> (int \<Rightarrow> bool) \<Rightarrow> int \<Rightarrow> queue \<Rightarrow> pending_row \<Rightarrow> bool" where
  "sync_ready retry missing n q p =
     (row_of n q = Some p \<and> live_syncable retry missing (clock q) p \<and> 0 < n \<and> syncable p)"

lemma claim_ready:
  assumes "sync_ready retry missing n q p"
  shows "claim_live_sent_order retry missing n q =
      (Some (p\<lparr>pd_status := ''syncing'', pd_note := ''live_fill_sync:syncing'', pd_updated := clock q\<rparr>),
       snd (claim_live_sent_order retry missing n q))"
proof -
  let ?hit = "\<lambda>p. pd_id p = n \<and> live_syncable retry missing (clock q) p"
  let ?f = "\<lambda>p. p\<lparr>pd_status := ''syncing'', pd_note := ''live_fill_sync:syncing'', pd_updated := clock q\<rparr>"
  have row: "row_of n q = Some p" and hit: "?hit p" and "0 < n"
    using assms row_of_id by (auto simp: sync_ready_def)
  have "find ?hit (pending q) \<noteq> None" using row hit by (auto simp: row_of_def find_None_iff dest: find_SomeD)
  moreover have "find (\<lambda>p. pd_id p = n) (upd_where ?hit ?f (pending q)) = Some (?f p)"
    using find_key_upd_where [of ?hit pd_id ?f n "pending q"] row hit by (simp add: row_of_def)
  ultimately show ?thesis using \<open>0 < n\<close> by (auto simp: claim_live_sent_order_def Let_def split: option.split)
qed


lemma ready_round:
  assumes "sync_ready retry missing n q p"
  shows "\<exists>p1 q1. row_of n q1 = Some p1 \<and> row_baseline p1 = row_baseline p
     \<and> p1 = p\<lparr>pd_status := ''syncing'', pd_note := ''live_fill_sync:syncing'', pd_updated := clock q\<rparr>
     \<and> sync_one_live_sent_order e retry missing n (q, l) = sync_claimed e p1 (q1, l)"
  using claim_ready [OF assms] claim_keeps(2) [OF claim_ready [OF assms] refl]
  by (intro exI conjI) (auto simp: sync_one_live_sent_order_def row_baseline_def split: prod.split)

section \<open>Many rounds\<close>

lemma sync_rounds_posted:
  fixes retry :: int and missing :: "int \<Rightarrow> bool" and ql :: "queue \<times> ledger"
  assumes "list_all2 priced es cs" and "sorted cs" and "\<forall>c \<in> set cs. tracked n (fst ql) \<le> c"
  defines "ql' \<equiv> sync_rounds es retry missing n ql"
  shows "\<bar>(recorded_quantity n (snd ql') - recorded_quantity n (snd ql)) - (tracked n (fst ql') - tracked n (fst ql))\<bar>
      \<le> of_nat (length es) * (2 / 10 ^ 8)"
  using assms(1-3) unfolding ql'_def
proof (induction es cs arbitrary: ql rule: list_all2_induct)
  case Nil
  then show ?case by simp
next
  case (Cons e es c cs)
  define q1 where "q1 = sync_one_live_sent_order e retry missing n ql"
  define q2 where "q2 = sync_rounds es retry missing n q1"
  have one: "\<bar>(recorded_quantity n (snd q1) - recorded_quantity n (snd ql)) - (tracked n (fst q1) - tracked n (fst ql))\<bar> \<le> 2 / 10 ^ 8"
    "tracked n (fst q1) \<le> c"
    using sync_one_step [OF Cons.hyps(1), of n "fst ql" retry missing "snd ql"] Cons.prems by (simp_all add: q1_def)
  have "\<bar>(recorded_quantity n (snd q2) - recorded_quantity n (snd q1)) - (tracked n (fst q2) - tracked n (fst q1))\<bar>
      \<le> of_nat (length es) * (2 / 10 ^ 8)"
    unfolding q2_def using Cons.prems one(2) by (intro Cons.IH) auto
  from abs_le_D1 [OF this] abs_le_D2 [OF this] abs_le_D1 [OF one(1)] abs_le_D2 [OF one(1)]
  show ?case unfolding sync_rounds.simps q1_def [symmetric] q2_def [symmetric] list.size
    by (intro abs_leI) (simp_all add: algebra_simps)
qed

lemma tracked_rounds_mono:
  fixes retry :: int and missing :: "int \<Rightarrow> bool" and ql :: "queue \<times> ledger"
  assumes "list_all2 priced es cs" and "sorted cs" and "\<forall>c \<in> set cs. tracked n (fst ql) \<le> c"
  shows "tracked n (fst ql) \<le> tracked n (fst (sync_rounds es retry missing n ql))"
  using assms
proof (induction es cs arbitrary: ql rule: list_all2_induct)
  case (Cons e es c cs)
  let ?ql = "sync_one_live_sent_order e retry missing n ql"
  have "tracked n (fst ql) \<le> tracked n (fst ?ql)" "tracked n (fst ?ql) \<le> c"
    using sync_one_step [OF Cons.hyps(1), of n "fst ql" retry missing "snd ql"] Cons.prems by simp_all
  moreover from this Cons.prems have "tracked n (fst ?ql) \<le> tracked n (fst (sync_rounds es retry missing n ?ql))"
    by (intro Cons.IH) auto
  ultimately show ?case by simp
qed simp

lemma ready_priced_round:
  assumes ready: "sync_ready retry missing n q p" and e: "priced e c" and le: "tracked n q \<le> c"
  shows "tracked n (fst (sync_one_live_sent_order e retry missing n (q, l))) = c"
proof -
  obtain p1 q1 where row: "row_of n q1 = Some p1" and b: "row_baseline p1 = row_baseline p"
    and p1: "p1 = p\<lparr>pd_status := ''syncing'', pd_note := ''live_fill_sync:syncing'', pd_updated := clock q\<rparr>"
    and s: "sync_one_live_sent_order e retry missing n (q, l) = sync_claimed e p1 (q1, l)"
    using ready_round [OF ready] by blast
  have "row_baseline p1 \<le> c" "syncable p1"
    using ready le b by (simp_all add: sync_ready_def tracked_def p1 syncable_def order_symbol_def)
  with sync_claimed_step [OF e row, of l] show ?thesis by (simp add: s)
qed

lemma tracked_rounds_le:
  fixes retry :: int and missing :: "int \<Rightarrow> bool" and ql :: "queue \<times> ledger"
  assumes "list_all2 priced es cs" and "sorted cs" and "\<forall>c \<in> set cs. tracked n (fst ql) \<le> c \<and> c \<le> b" and "tracked n (fst ql) \<le> b"
  shows "tracked n (fst (sync_rounds es retry missing n ql)) \<le> b"
  using assms
proof (induction es cs arbitrary: ql rule: list_all2_induct)
  case (Cons e es c cs)
  have "tracked n (fst (sync_one_live_sent_order e retry missing n ql)) \<le> c"
    using sync_one_step [OF Cons.hyps(1), of n "fst ql" retry missing "snd ql"] Cons.prems by simp
  then show ?case using Cons.prems unfolding sync_rounds.simps by (intro Cons.IH) auto
qed simp

text \<open>A round that finds nothing to post still stores what it saw.\<close>

lemma unposted_round:
  assumes ready: "sync_ready retry missing n q p" and rep: "se_query e = Some rep"
    and none: "fst (snd rep) \<le> 0 \<or> max 0 (fst rep) \<le> row_baseline p"
  shows "snd (sync_one_live_sent_order e retry missing n (q, l)) = l"
    and "tracked n (fst (sync_one_live_sent_order e retry missing n (q, l))) = max 0 (fst rep)"
proof -
  obtain p1 q1 where row: "row_of n q1 = Some p1" and b: "row_baseline p1 = row_baseline p"
    and p1: "p1 = p\<lparr>pd_status := ''syncing'', pd_note := ''live_fill_sync:syncing'', pd_updated := clock q\<rparr>"
    and s: "sync_one_live_sent_order e retry missing n (q, l) = sync_claimed e p1 (q1, l)"
    using ready_round [OF ready] by blast
  have "fsub (max 0 (fst rep)) (row_baseline p) \<le> 0" if "max 0 (fst rep) \<le> row_baseline p"
    using fl_mono [of "max 0 (fst rep) - row_baseline p" 0] that by (simp add: fsub_def)
  then have "\<not> posts_fill (sync_state_of p1 rep)"
    using none epsilon_bounds(1) by (auto simp: posts_fill_def delta_eq avg_eq b)
  then have "sync_claimed e p1 (q1, l) = (store_snapshot e p1 rep q1, l)"
    using ready rep by (simp add: sync_claimed_def p1 sync_ready_def syncable_def order_symbol_def Let_def)
  with tracked_store [OF row row_of_id [OF row]]
  show "snd (sync_one_live_sent_order e retry missing n (q, l)) = l"
    and "tracked n (fst (sync_one_live_sent_order e retry missing n (q, l))) = max 0 (fst rep)"
    by (simp_all add: s)
qed

text \<open>C21.  Reconciliation posts what the exchange reports, once: over any number of rounds in which the
  exchange reports non-decreasing cumulative fills with a price, whether or not each round wins its
  claim, the trades of the order grow by the growth of the quantity the row remembers, up to two
  units of the last place per round (a column keeps eight decimals, and a new part below one unit is
  not posted): no new part is posted twice, none is dropped.  That quantity never decreases, and the
  first round on a row that can be claimed raises it to the report.\<close>

theorem fills_posted_in_full:
  assumes "list_all2 priced es cs" and "sorted cs" and "\<forall>c \<in> set cs. tracked n q \<le> c"
  shows "let (q', l') = sync_rounds es retry missing n (q, l) in
     \<bar>(recorded_quantity n l' - recorded_quantity n l) - (tracked n q' - tracked n q)\<bar> \<le> of_nat (length es) * (2 / 10 ^ 8)
     \<and> tracked n q \<le> tracked n q'
     \<and> (es \<noteq> [] \<and> (\<exists>p. sync_ready retry missing n q p) \<longrightarrow> hd cs \<le> tracked n q')"
proof -
  have "hd cs \<le> tracked n (fst (sync_rounds es retry missing n (q, l)))" if ne: "es \<noteq> []" and r: "sync_ready retry missing n q p" for p
  proof -
    obtain e es' c cs' where es: "es = e # es'" "cs = c # cs'" using ne assms(1) by (cases es; cases cs) auto
    then have "tracked n (fst (sync_one_live_sent_order e retry missing n (q, l))) = c"
      using ready_priced_round [OF r, of e c l] assms by simp
    with es assms show ?thesis
      using tracked_rounds_mono [of es' cs' n "sync_one_live_sent_order e retry missing n (q, l)" retry missing] by simp
  qed
  with sync_rounds_posted [OF assms(1,2), of n "(q, l)" retry missing] tracked_rounds_mono [OF assms(1,2), of n "(q, l)" retry missing] assms(3)
  show ?thesis by (auto simp: case_prod_beta Let_def)
qed

text \<open>An order for two units is reported filled at one and a half, then in full.\<close>

definition sent_row :: "rat \<Rightarrow> rat \<Rightarrow> response \<Rightarrow> pending_row" where
  "sent_row filled avg resp = (new_pending_row demo_request (request_key demo_request) 1 1 0)
     \<lparr>pd_status := ''sent'', pd_attempts := 1, pd_exchange := ''okx'', pd_oid := ''77'', pd_filled := filled, pd_avg := avg,
      pd_response := resp\<rparr>"

definition sent_queue :: "rat \<Rightarrow> rat \<Rightarrow> response \<Rightarrow> queue" where
  "sent_queue filled avg resp = empty_queue\<lparr>pending := [sent_row filled avg resp], next_pending := 2\<rparr>"

definition sync_leg :: leg_context where
  "sync_leg = \<lparr>lc_market = ''swap'', lc_credential = 1, lc_inst = [], lc_source = ''worker'', lc_pending = 1\<rparr>"

definition demo_report :: "rat \<Rightarrow> rat \<Rightarrow> sync_env" where
  "demo_report c a = \<lparr>se_query = Some (c, a, ''open''), se_commission = 0, se_fees_known = True, se_executable = (\<lambda>x. x),
     se_leg = sync_leg, se_posting = True\<rparr>"

lemma demo_priced: "0 \<le> c \<Longrightarrow> c < 2 ^ 20 \<Longrightarrow> 0 < a \<Longrightarrow> priced (demo_report c a) c"
  by (simp add: priced_def demo_report_def)

lemma sent_row_of: "row_of 1 (sent_queue filled avg resp) = Some (sent_row filled avg resp)"
  by (simp add: row_of_def sent_queue_def sent_row_def new_pending_row_def)

lemma demo_ready: "sync_ready 300 (\<lambda>_. False) 1 (sent_queue filled avg resp) (sent_row filled avg resp)"
proof -
  have "py_strip ''BTC/USDT'' \<noteq> []" "py_strip ''77'' \<noteq> []" "py_lower ''okx'' \<noteq> ''alpaca''" by code_simp+
  then show ?thesis unfolding sync_ready_def sent_row_of
    by (simp add: live_syncable_def syncable_def order_symbol_def str_or_def num_int_or_def sent_row_def new_pending_row_def demo_request_def)
qed

lemma fills_posted_in_full_witness:
  "let (q', l') = sync_rounds [demo_report (3 / 2) 10, demo_report 2 10] 300 (\<lambda>_. False) 1 (sent_queue 0 0 (Phases None), empty_ledger) in
     \<bar>recorded_quantity 1 l' - tracked 1 q'\<bar> \<le> 4 / 10 ^ 8 \<and> 3 / 2 \<le> tracked 1 q'"
proof -
  have t: "tracked 1 (sent_queue 0 0 (Phases None)) = 0" "recorded_quantity 1 empty_ledger = 0"
    by (simp_all add: tracked_def sent_row_of row_baseline_def tracked_fill_baseline_def recorded_quantity_def empty_ledger_def)
      (simp add: sent_row_def)
  have "list_all2 priced [demo_report (3 / 2) 10, demo_report 2 10] [3 / 2, 2]" by (simp add: demo_priced)
  from fills_posted_in_full [OF this, of 1 "sent_queue 0 0 (Phases None)" 300 "\<lambda>_. False" empty_ledger] t demo_ready
  show ?thesis by (auto simp: Let_def case_prod_beta)
qed

section \<open>What gets lost\<close>

text \<open>After a round that leaves the remembered quantity at \<open>c\<close>, later rounds post what comes on top only.\<close>

lemma rounds_from:
  fixes retry :: int and missing :: "int \<Rightarrow> bool" and ql :: "queue \<times> ledger"
  assumes "list_all2 priced es cs" and "sorted cs" and "\<forall>x \<in> set cs. c \<le> x \<and> x \<le> b" and "tracked n (fst ql) = c" and "c \<le> b"
  shows "recorded_quantity n (snd (sync_rounds es retry missing n ql)) - recorded_quantity n (snd ql)
    \<le> (b - c) + of_nat (length es) * (2 / 10 ^ 8)"
proof -
  have "tracked n (fst (sync_rounds es retry missing n ql)) \<le> b" by (rule tracked_rounds_le) (use assms in auto)
  moreover from sync_rounds_posted [OF assms(1,2), of n ql retry missing] assms(3,4)
  have "\<bar>(recorded_quantity n (snd (sync_rounds es retry missing n ql)) - recorded_quantity n (snd ql))
      - (tracked n (fst (sync_rounds es retry missing n ql)) - c)\<bar> \<le> of_nat (length es) * (2 / 10 ^ 8)" by simp
  ultimately show ?thesis using abs_le_D1 by fastforce
qed

text \<open>A fill the exchange reports without a price is never posted: the round that sees it stores it as
  tracked all the same, and whatever further rounds report, with prices, the trades of the order
  grow by what is filled on top of it only (\<open>b\<close> bounds the reports; up to the precision of
  \<open>fills_posted_in_full\<close>).\<close>

theorem priceless_fill_lost:
  assumes "sync_ready retry missing n q p" and "se_query e = Some (c, a, st)" and "a \<le> 0" and "0 \<le> c" and "c \<le> b"
    and "list_all2 priced es cs" and "sorted cs" and "\<forall>x \<in> set cs. c \<le> x \<and> x \<le> b"
  shows "let ql = sync_rounds (e # es) retry missing n (q, l) in
     recorded_quantity n (snd ql) - recorded_quantity n l \<le> (b - c) + of_nat (length es) * (2 / 10 ^ 8)"
proof -
  define ql where "ql = sync_one_live_sent_order e retry missing n (q, l)"
  have "snd ql = l" "tracked n (fst ql) = c"
    using unposted_round [OF assms(1,2), of l] assms(3,4) by (simp_all add: ql_def)
  with rounds_from [OF assms(6-8), of n ql retry missing] assms(5) show ?thesis
    by (simp add: Let_def ql_def)
qed

lemma priceless_fill_lost_witness:
  "let ql = sync_rounds [demo_report 2 0, demo_report 2 10] 300 (\<lambda>_. False) 1 (sent_queue 0 0 (Phases None), empty_ledger) in
     recorded_quantity 1 (snd ql) \<le> 2 / 10 ^ 8"
proof -
  have "list_all2 priced [demo_report 2 10] [2]" by (simp add: demo_priced)
  moreover have "se_query (demo_report 2 0) = Some (2, 0, ''open'')" by (simp add: demo_report_def)
  moreover have "recorded_quantity 1 empty_ledger = 0" by (simp add: recorded_quantity_def empty_ledger_def)
  ultimately show ?thesis
    using priceless_fill_lost [OF demo_ready, of "demo_report 2 0" 2 0 "''open''" 2 "[demo_report 2 10]" "[2]" 0 0 "Phases None" empty_ledger]
    by (simp add: Let_def)
qed

text \<open>A failed query makes the worker forget which leg it tracks: an order filled in part by a limit leg
  and then by a market leg that is still open (\<open>m\<close> of it seen at dispatch) has the total in its
  row, the next round compares the market leg alone with that total, posts nothing and stores the
  leg's quantity \<open>c\<close>: what the leg filled between \<open>m\<close> and \<open>c\<close> is never posted, whatever later rounds report.\<close>

theorem failed_query_forgets_leg:
  assumes ready: "sync_ready retry missing n q p" and leg: "pd_response p = Phases (Some (py_strip (pd_oid p), m, a))"
    and err: "se_query e1 = None" and rep: "se_query e2 = Some (c, a2, st)" and "0 \<le> m" and "m \<le> c" and "c \<le> b"
    and le: "c \<le> fl (column 8 (fl (pd_filled p)))"
    and "list_all2 priced es cs" and "sorted cs" and "\<forall>x \<in> set cs. c \<le> x \<and> x \<le> b"
  shows "tracked n q = m
    \<and> (let ql = sync_rounds (e1 # e2 # es) retry missing n (q, l) in
         recorded_quantity n (snd ql) - recorded_quantity n l \<le> (b - c) + of_nat (length es) * (2 / 10 ^ 8))"
proof -
  obtain p1 q1 where row: "row_of n q1 = Some p1"
    and p1: "p1 = p\<lparr>pd_status := ''syncing'', pd_note := ''live_fill_sync:syncing'', pd_updated := clock q\<rparr>"
    and s: "sync_one_live_sent_order e1 retry missing n (q, l) = sync_claimed e1 p1 (q1, l)"
    using ready_round [OF ready] by blast
  define q2 where "q2 = update_live_sent_order_snapshot (pd_id p1) ''sent'' ''sync_error'' (fl (pd_filled p1)) (fl (pd_avg p1)) Sync_Error [] q1"
  have one: "sync_one_live_sent_order e1 retry missing n (q, l) = (q2, l)"
    using ready err by (simp add: s sync_claimed_def p1 sync_ready_def syncable_def order_symbol_def q2_def)
  obtain p2 where p2: "row_of n q2 = Some p2" "pd_status p2 = ''sent''" "pd_response p2 = Sync_Error"
      "pd_filled p2 = column 8 (fl (pd_filled p))" "pd_oid p2 = pd_oid p" "pd_exchange p2 = pd_exchange p"
      "pd_payload p2 = pd_payload p" "pd_strategy p2 = pd_strategy p" "pd_symbol p2 = pd_symbol p"
    using row row_of_id [OF row]
    by (simp add: q2_def update_live_sent_order_snapshot_def Let_def row_of_set_row p1 str_or_def)
  have ready2: "sync_ready retry missing n q2 p2"
    using ready p2 by (simp add: sync_ready_def live_syncable_def syncable_def order_symbol_def)
  have base: "row_baseline p2 = max 0 (fl (column 8 (fl (pd_filled p))))"
    by (simp add: row_baseline_def tracked_fill_baseline_def p2)
  define ql where "ql = sync_one_live_sent_order e2 retry missing n (q2, l)"
  have ql: "snd ql = l" "tracked n (fst ql) = c"
    using unposted_round [OF ready2 rep, of l] le base assms(5,6) by (simp_all add: ql_def)
  have "tracked n q = m" using ready leg \<open>0 \<le> m\<close>
    by (simp add: tracked_def sync_ready_def row_baseline_def tracked_fill_baseline_def)
  with ql rounds_from [OF assms(9-11), of n ql retry missing] assms(7) show ?thesis
    by (simp add: Let_def one flip: ql_def)
qed

lemma failed_query_forgets_leg_witness:
  "let q = sent_queue 5 10 (Phases (Some (''77'', 1, 10)));
       ql = sync_rounds [(demo_report 0 0)\<lparr>se_query := None\<rparr>, demo_report 4 10, demo_report 4 10] 300 (\<lambda>_. False) 1 (q, empty_ledger) in
     tracked 1 q = 1 \<and> recorded_quantity 1 (snd ql) \<le> 2 / 10 ^ 8"
proof -
  let ?e = "(demo_report 0 0)\<lparr>se_query := None\<rparr>" and ?resp = "Phases (Some (''77'', 1, 10))"
  have oid: "py_strip ''77'' = ''77''" by code_simp
  have row: "pd_response (sent_row 5 10 ?resp) = Phases (Some (py_strip (pd_oid (sent_row 5 10 ?resp)), 1, 10))"
    "pd_filled (sent_row 5 10 ?resp) = 5"
    by (simp_all add: sent_row_def oid)
  have f: "fl (column 8 (fl 5)) = 5"
    using is_float_numeral [of "num.Bit1 (num.Bit0 num.One)"] column_8_exact [of 5] dec_of_int [of 8 5]
    by (simp add: is_float_def)
  have "list_all2 priced [demo_report 4 10] [4]" by (simp add: demo_priced)
  moreover have "recorded_quantity 1 empty_ledger = 0" by (simp add: recorded_quantity_def empty_ledger_def)
  ultimately show ?thesis
    using failed_query_forgets_leg [OF demo_ready row(1), of ?e "demo_report 4 10" 4 10 "''open''" 4 "[demo_report 4 10]" "[4]" empty_ledger]
      row(2) f
    by (simp add: Let_def demo_report_def)
qed

end
