(* ===== verification/Live_Safety.thy ===== *)
theory Live_Safety
  imports Sync_Safety
begin

text \<open>
  What reaches the exchange when an order is dispatched.  \<open>restrict P bad a\<close> is the adapter \<open>a\<close> that
  refuses orders without \<open>P\<close> and then leaves the exchange in the state \<open>bad\<close>: a handler that behaves
  the same with it for every \<open>bad\<close> places no order without \<open>P\<close>.
\<close>

section \<open>Restricted adapters\<close>

definition restrict :: "(order_intent \<Rightarrow> bool) \<Rightarrow> 'x \<Rightarrow> 'x adapter \<Rightarrow> 'x adapter" where
  "restrict P bad a = a\<lparr>ad_market := (\<lambda>i x. if P i then ad_market a i x else (Inl (Other_Error ''refused''), bad)),
     ad_limit := (\<lambda>i x. if P i then ad_limit a i x else (Inl (Other_Error ''refused''), bad))\<rparr>"

lemma restrict_simps [simp]:
  "P i \<Longrightarrow> ad_market (restrict P bad a) i = ad_market a i"
  "P i \<Longrightarrow> ad_limit (restrict P bad a) i = ad_limit a i"
  "ad_wait (restrict P bad a) = ad_wait a" "ad_cancel (restrict P bad a) = ad_cancel a" "ad_find (restrict P bad a) = ad_find a"
  by (auto simp: restrict_def)

text \<open>An adapter that never reports a negative fill.\<close>

definition fills_ok :: "'x adapter \<Rightarrow> bool" where
  "fills_ok a = (\<forall>i oid w x f x'. ad_wait a i oid w x = (Inr (Some f), x') \<longrightarrow> 0 \<le> fs_filled f)"

lemma attempt_cong: "(\<And>v y. r = (Inr v, y) \<Longrightarrow> k v y = k' v y) \<Longrightarrow> attempt r k = attempt r k'"
  by (auto simp: attempt_def split: prod.split sum.split adapter_error.split)

lemma phase_adapter_simps [simp]:
  "ad_market (phase_adapter quote a) i = ad_market a (market_sized quote i)" "ad_limit (phase_adapter quote a) = ad_limit a"
  "ad_wait (phase_adapter quote a) = ad_wait a" "ad_cancel (phase_adapter quote a) = ad_cancel a" "ad_find (phase_adapter quote a) = ad_find a"
  by (simp_all add: phase_adapter_def)

lemma market_sized_simps [simp]:
  "oi_symbol (market_sized quote i) = oi_symbol i" "oi_side (market_sized quote i) = oi_side i"
  "oi_quantity (market_sized quote i) = oi_quantity i" "oi_pos_side (market_sized quote i) = oi_pos_side i"
  "oi_reduce_only (market_sized quote i) = oi_reduce_only i" "oi_client (market_sized quote i) = oi_client i"
  by (simp_all add: market_sized_def)

lemma market_restrict:
  "P (market_sized u i) \<Longrightarrow>
     market_execute (phase_adapter u (restrict P bad a)) i w x = market_execute (phase_adapter u a) i w x"
  by (simp add: market_execute_def)

lemma submit_restrict:
  assumes "P (market_sized u i)"
  shows "submit_market (phase_adapter u (restrict P bad a)) i n t x = submit_market (phase_adapter u a) i n t x"
  unfolding submit_market_def reconcile_market_def market_restrict [where P = P, OF assms] restrict_simps phase_adapter_simps by (rule refl)

lemma limit_restrict:
  assumes P: "P i" "P (market_sized u i)"
      "\<And>rest. 0 < rest \<Longrightarrow> rest \<le> max 0 (fl (oi_quantity i)) \<Longrightarrow> P (market_sized u (fallback_intent i rest))"
    and a: "fills_ok a"
  shows "limit_then_market_execute (phase_adapter u (restrict P bad a)) i w fb x = limit_then_market_execute (phase_adapter u a) i w fb x"
proof -
  have "P (market_sized u (fallback_intent i (max 0 (fsub (oi_quantity i) (snap_filled fill)))))"
    if "ad_wait a i oid w' y = (Inr fill, y')" and "0 < max 0 (fsub (oi_quantity i) (snap_filled fill))" for oid w' y fill y'
  proof -
    have "0 \<le> snap_filled fill" using a [unfolded fills_ok_def, rule_format] that(1)
      by (cases fill) (simp_all add: snap_filled_def)
    then have "fsub (oi_quantity i) (snap_filled fill) \<le> fl (oi_quantity i)" by (simp add: fsub_def fl_mono)
    with that(2) show ?thesis by (intro P(3)) auto
  qed
  then show ?thesis
    unfolding limit_then_market_execute_def
    by (auto simp: market_restrict P(1,2) Let_def not_le intro!: attempt_cong)
qed

section \<open>Quantities\<close>

text \<open>Sizing never raises a quantity or an amount: step sizes, balances and lots round down.\<close>

definition sizing_ok :: "live_env \<Rightarrow> bool" where
  "sizing_ok e = (\<forall>q. le_executable e q \<le> max 0 q \<and> le_clamp e q \<le> max 0 q \<and> le_base e q \<le> max 0 q \<and> le_quote e q \<le> max 0 q)"

text \<open>What an order may ask for: an exit the strategy's own position less what is protected, an entry its amount.\<close>

definition quantity_limit :: "live_env \<Rightarrow> pending_row \<Rightarrow> string \<times> string \<times> bool \<Rightarrow> ledger \<Rightarrow> reservation list \<Rightarrow> rat \<Rightarrow> bool" where
  "quantity_limit e p sides l t q =
     (let (side, pos_side, reduce) = sides in
      if reduce
      then q \<le> fetch_position_size_for_side (rq_strategy (pd_payload p)) (order_symbol p) pos_side l
           \<and> (0 < le_user e \<and> 0 < le_credential e
                \<longrightarrow> q \<le> max 0 (fsub (le_position e) (protected_quantity (order_leg e p pos_side) t)))
      else q \<le> max 0 (order_amount p))"

lemma position_size_float: "0 \<le> fetch_position_size_for_side sid sy sd l" "is_float (fetch_position_size_for_side sid sy sd l)"
  by (auto simp: fetch_position_size_for_side_def is_float_max split: option.split)

lemma fl_le_float: "q \<le> b \<Longrightarrow> is_float b \<Longrightarrow> fl q \<le> b"
  using fl_mono [of q b] by (simp add: is_float_def)

lemma quantity_limit_le:
  assumes "quantity_limit e p sides l t q" and "q' \<le> max 0 q"
  shows "quantity_limit e p sides l t q'"
proof -
  have le: "q' \<le> b" if "q \<le> b" "0 \<le> b" for b using assms(2) that by (simp add: max_def split: if_splits)
  obtain side pos_side reduce where s: "sides = (side, pos_side, reduce)" by (rule prod_cases3)
  show ?thesis using assms(1) by (cases reduce) (auto simp: quantity_limit_def s intro!: le position_size_float)
qed

lemma quantity_limit_fl:
  assumes "quantity_limit e p sides l t q" and "is_float (order_amount p)"
  shows "quantity_limit e p sides l t (fl q)"
  using assms by (auto simp: quantity_limit_def Let_def position_size_float is_float_max intro!: fl_le_float split: prod.splits if_splits)

lemma close_quantity_limit:
  "quantity_limit e p (side, pos_side, True) (fl_ledger s) (fl_reserved s) (close_quantity e p pos_side requested s)"
  using position_size_float(1) [of "rq_strategy (pd_payload p)" "order_symbol p" pos_side "fl_ledger s"]
  by (auto simp: quantity_limit_def close_quantity_def resolve_reduce_only_quantity_def order_leg_def Let_def min_def max_def)

lemma prepare_base_le: "sizing_ok e \<Longrightarrow> fst (prepare_spot_live_order_sizes e side reduce q ref) \<le> max 0 q"
  by (auto simp: prepare_spot_live_order_sizes_def sizing_ok_def Let_def)

lemma spot_size_le:
  assumes "sizing_ok e" shows "fst (spot_size e side reduce q ref) \<le> max 0 q"
proof -
  let ?q = "if reduce \<and> le_market e = ''spot'' \<and> side = ''sell'' then le_clamp e q else q"
  have q: "?q \<le> max 0 q" using assms by (simp add: sizing_ok_def)
  then have "max 0 ?q \<le> max 0 q" by (intro max.boundedI) (rule max.cobounded1)
  with prepare_base_le [OF assms, of side reduce ?q ref] have "fst (prepare_spot_live_order_sizes e side reduce ?q ref) \<le> max 0 q"
    by (rule order_trans)
  with q show ?thesis unfolding spot_size_def Let_def case_prod_beta by (simp only: fst_conv split: if_split) auto
qed

text \<open>Only a spot purchase is sized by quote amount, and by at most the quantity at the price known.\<close>

definition quote_limit :: "live_env \<Rightarrow> pending_row \<Rightarrow> rat" where
  "quote_limit e p = fmul (max 0 (order_amount p)) (max 0 (spot_price e (ref_price p)))"

lemma prepare_quote_le:
  assumes "sizing_ok e" and "prepare_spot_live_order_sizes e side reduce q ref = (q', u, True)"
  shows "side = ''buy'' \<and> \<not> reduce \<and> u \<le> fmul (max 0 q) (max 0 (spot_price e ref))"
proof -
  let ?rp = "spot_price e ref"
  let ?n = "if 0 < ?rp \<and> 0 < q then fmul q ?rp else 0"
  have side: "side = ''buy'' \<and> \<not> reduce" and u: "u = max 0 (normalize_spot_quote_amount e ?n)"
    using assms(2) by (auto simp: prepare_spot_live_order_sizes_def Let_def split: if_splits)
  have bound: "0 \<le> fmul (max 0 q) (max 0 ?rp)" by (simp add: fmul_def fl_nonneg)
  have "?n \<le> fmul (max 0 q) (max 0 ?rp)" using bound by simp
  moreover have "normalize_spot_quote_amount e n \<le> max 0 n" for n
  proof -
    have "le_quote e n \<le> max 0 n" using assms(1) unfolding sizing_ok_def by blast
    then show ?thesis by (cases "n \<le> 0") (simp_all only: normalize_spot_quote_amount_def if_True if_False max.cobounded1)
  qed
  note this [of ?n]
  ultimately have "normalize_spot_quote_amount e ?n \<le> fmul (max 0 q) (max 0 ?rp)" using bound by linarith
  with side bound show ?thesis unfolding u by simp
qed

lemma spot_quote_le:
  assumes "sizing_ok e" and "spot_size e side reduce q ref = (q', Some u)"
  shows "side = ''buy'' \<and> \<not> reduce \<and> le_market e = ''spot'' \<and> u \<le> fmul (max 0 q) (max 0 (spot_price e ref))"
proof -
  let ?q = "if reduce \<and> le_market e = ''spot'' \<and> side = ''sell'' then le_clamp e q else q"
  obtain q2 u2 b where r: "prepare_spot_live_order_sizes e side reduce ?q ref = (q2, u2, b)" by (rule prod_cases3)
  have b: "b" "u2 = u" "le_market e = ''spot''"
    using assms(2) unfolding spot_size_def Let_def r prod.case by (auto split: if_splits)
  from prepare_quote_le [OF assms(1), of side reduce ?q ref q2 u] r b show ?thesis by auto
qed

lemma bitget_size_le: "sizing_ok e \<Longrightarrow> bitget_size e q \<le> max 0 q"
  by (auto simp: bitget_size_def sizing_ok_def)

lemma order_size_limit:
  assumes e: "sizing_ok e" and s: "order_size e p sides s = ((q, b), s1)"
  shows "s1 = s \<or> s1 = s\<lparr>fl_ledger := le_sync e (fl_ledger s)\<rparr>"
    and "\<exists>l \<in> {fl_ledger s, le_sync e (fl_ledger s)}. quantity_limit e p sides l (fl_reserved s) q"
    and "b = Some u \<Longrightarrow> fst sides = ''buy'' \<and> \<not> snd (snd sides) \<and> le_market e = ''spot'' \<and> u \<le> quote_limit e p"
proof -
  obtain side pos_side reduce where sd: "sides = (side, pos_side, reduce)" by (rule prod_cases3)
  define q0 where "q0 = (if reduce then close_quantity e p pos_side (max 0 (order_amount p)) s else order_amount p)"
  define z where "z = spot_size e side reduce q0 (ref_price p)"
  define q1 where "q1 = fst z"
  define s2 where "s2 = s\<lparr>fl_ledger := le_sync e (fl_ledger s)\<rparr>"
  define retry where "retry = close_quantity e p pos_side (order_amount p) s2"
  have l0: "quantity_limit e p sides (fl_ledger s) (fl_reserved s) q0"
    using close_quantity_limit [of e p side pos_side s] by (simp add: q0_def sd quantity_limit_def)
  have "q1 \<le> max 0 q0" unfolding q1_def z_def by (rule spot_size_le [OF e])
  from quantity_limit_le [OF quantity_limit_le [OF l0 this] bitget_size_le [OF e]]
  have l2: "quantity_limit e p sides (fl_ledger s) (fl_reserved s) (bitget_size e q1)" .
  have lr: "quantity_limit e p sides (le_sync e (fl_ledger s)) (fl_reserved s) retry"
    if reduce using close_quantity_limit [of e p side pos_side s2] that by (simp add: retry_def s2_def sd)
  have "order_size e p sides s =
      (if bitget_size e q1 \<le> 0 \<and> reduce \<and> snd z = None
       then ((if 0 < retry then bitget_size e retry else retry, snd z), s2)
       else ((bitget_size e q1, snd z), s))"
    unfolding order_size_def sd prod.case Let_def case_prod_beta q0_def z_def q1_def s2_def retry_def fst_conv snd_conv ..
  then have "b = snd z" and "s1 = s \<and> q = bitget_size e q1
      \<or> s1 = s2 \<and> reduce \<and> (q = bitget_size e retry \<or> q = retry)"
    unfolding s by (auto split: if_splits)
  then show "s1 = s \<or> s1 = s\<lparr>fl_ledger := le_sync e (fl_ledger s)\<rparr>"
    and "\<exists>l \<in> {fl_ledger s, le_sync e (fl_ledger s)}. quantity_limit e p sides l (fl_reserved s) q"
    using l2 lr quantity_limit_le [OF lr bitget_size_le [OF e]] by (auto simp: s2_def)
  show "fst sides = ''buy'' \<and> \<not> snd (snd sides) \<and> le_market e = ''spot'' \<and> u \<le> quote_limit e p" if "b = Some u"
  proof -
    have "spot_size e side reduce q0 (ref_price p) = (q1, Some u)"
      using \<open>b = snd z\<close> that by (simp add: q1_def z_def prod_eq_iff)
    from spot_quote_le [OF e this] show ?thesis by (auto simp: sd q0_def quote_limit_def)
  qed
qed

section \<open>The orders of a dispatch\<close>

text \<open>What clears an entry: no drift on its leg (where account and strategy share it) and no veto of the account's risk limits.\<close>

definition entry_cleared :: "live_env \<Rightarrow> pending_row \<Rightarrow> string \<Rightarrow> ledger \<Rightarrow> reservation list \<Rightarrow> int \<Rightarrow> bool" where
  "entry_cleared e p pos_side l t now =
     ((supports_position_coexistence (le_market e) (le_exchange e) \<longrightarrow>
         (let leg = order_leg e p pos_side; leg' = leg\<lparr>al_user := if le_user e = 0 then 1 else le_user e\<rparr>;
              own = fetch_allocated_position_size (rq_strategy (pd_payload p)) (al_credential leg) (al_market leg) (al_symbol leg) pos_side l in
          \<exists>account. le_account e = Some account
            \<and> ow_allowed (fst (evaluate_and_record_ownership leg' account own (drift_tolerance (le_dust e) (ref_price p)) now t))))
      \<and> (le_market e \<in> {''spot'', ''swap''} \<longrightarrow> le_risk e = None))"

definition order_allowed :: "live_env \<Rightarrow> pending_row \<Rightarrow> 'x floor \<Rightarrow> order_intent \<Rightarrow> bool" where
  "order_allowed e p s i =
     (live_rejection e p = None \<and> le_enabled e
      \<and> oi_symbol i = order_symbol p \<and> oi_client i \<in> {client_order_id e p ''lmt'', client_order_id e p ''mkt''}
      \<and> (\<exists>sides. signal_to_side_pos_reduce (order_signal p) = Some sides
           \<and> (oi_side i, oi_pos_side i, oi_reduce_only i) = sides
           \<and> (\<exists>l \<in> {le_sync e (fl_ledger s), le_sync e (le_sync e (fl_ledger s))}.
                quantity_limit e p sides l (fl_reserved s) (oi_quantity i))
           \<and> (\<forall>u. oi_quote i = Some u \<longrightarrow> oi_side i = ''buy'' \<and> \<not> oi_reduce_only i \<and> le_market e = ''spot'' \<and> u \<le> quote_limit e p)
           \<and> (\<not> oi_reduce_only i \<longrightarrow> entry_cleared e p (oi_pos_side i) (le_sync e (fl_ledger s)) (fl_reserved s) (clock (fl_queue s)))))"

lemma place_restrict:
  assumes e: "sizing_ok e" and a: "fills_ok a" and f: "is_float (order_amount p)"
    and P: "\<And>i l. oi_symbol i = order_symbol p \<Longrightarrow> oi_client i \<in> {client_order_id e p ''lmt'', client_order_id e p ''mkt''} \<Longrightarrow>
      (oi_side i, oi_pos_side i, oi_reduce_only i) = sides \<Longrightarrow> l \<in> {fl_ledger s, le_sync e (fl_ledger s)} \<Longrightarrow>
      quantity_limit e p sides l (fl_reserved s) (oi_quantity i) \<Longrightarrow>
      (\<And>u. oi_quote i = Some u \<Longrightarrow> oi_side i = ''buy'' \<and> \<not> oi_reduce_only i \<and> le_market e = ''spot'' \<and> u \<le> quote_limit e p) \<Longrightarrow> P i"
  shows "place_order e (restrict P bad a) p sides s = place_order e a p sides s"
proof -
  obtain q b s1 where s: "order_size e p sides s = ((q, b), s1)" by (metis prod.exhaust)
  obtain l where l: "l \<in> {fl_ledger s, le_sync e (fl_ledger s)}" "quantity_limit e p sides l (fl_reserved s) q"
    using order_size_limit(2) [OF e s] by blast
  note quote = order_size_limit(3) [OF e s]
  have P': "P i \<and> P (market_sized b i)"
    if "oi_symbol i = order_symbol p" "oi_client i \<in> {client_order_id e p ''lmt'', client_order_id e p ''mkt''}"
      "(oi_side i, oi_pos_side i, oi_reduce_only i) = sides" "quantity_limit e p sides l (fl_reserved s) (oi_quantity i)" "oi_quote i = None" for i
  proof
    show "P i" by (rule P [OF that(1-3) l(1) that(4)]) (simp add: that(5))
    have "oi_side i = fst sides" "oi_reduce_only i = snd (snd sides)" using that(3) by auto
    then have "oi_side i = ''buy'' \<and> \<not> oi_reduce_only i \<and> le_market e = ''spot'' \<and> u \<le> quote_limit e p" if "oi_quote (market_sized b i) = Some u" for u
      using that quote [of u] \<open>oi_quote i = None\<close> by (auto simp: market_sized_def split: if_splits)
    then show "P (market_sized b i)" by (intro P [OF _ _ _ l(1)]) (use that in simp_all)
  qed
  have 1: "P (order_intent_of e p sides q price) \<and> P (market_sized b (order_intent_of e p sides q price))" for price
    by (rule P') (auto simp: order_intent_of_def l(2))
  have 2: "P (market_sized b (fallback_intent (order_intent_of e p sides q price) rest))" if "rest \<le> max 0 (fl q)" for price rest
    using quantity_limit_le [OF quantity_limit_fl [OF l(2) f] that]
    by (intro conjunct2 [OF P']) (auto simp: order_intent_of_def fallback_intent_def str_or_def)
  have run: "run_executor e p (phase_adapter b (restrict P bad a)) i s1 = run_executor e p (phase_adapter b a) i s1"
    if i: "i = order_intent_of e p sides q price" for i price
  proof -
    have "P i" "P (market_sized b i)"
      and rest: "\<And>rest. 0 < rest \<Longrightarrow> rest \<le> max 0 (fl (oi_quantity i)) \<Longrightarrow> P (market_sized b (fallback_intent i rest))"
      unfolding i using 1 by (blast, blast, intro 2) (simp add: order_intent_of_def)
    have limit: "limit_then_market_execute (phase_adapter b (restrict P bad a)) i w fb x = limit_then_market_execute (phase_adapter b a) i w fb x"
      for w fb x by (rule limit_restrict [where P = P, OF \<open>P i\<close> \<open>P (market_sized b i)\<close> rest a])
    note market = submit_restrict [where P = P, OF \<open>P (market_sized b i)\<close>]
    have resting: "resting_limit_execute (phase_adapter b (restrict P bad a)) i = resting_limit_execute (phase_adapter b a) i"
      using \<open>P i\<close> by (simp add: resting_limit_execute_def fun_eq_iff)
    show ?thesis unfolding run_executor_def limit market resting ..
  qed
  show ?thesis unfolding place_order_def s Let_def prod.case run [OF refl] ..
qed

lemma guard_passed:
  assumes "fst (fst (evaluate_entry_position_guard sid a mode dust account price opposite now l t)) = None"
  shows "ow_allowed (fst (evaluate_and_record_ownership (a\<lparr>al_user := (if al_user a = 0 then 1 else al_user a)\<rparr>) account
    (fetch_allocated_position_size sid (al_credential a) (al_market a) (al_symbol a) (al_side a) l)
    (drift_tolerance dust price) now t))"
  using assms by (auto simp: evaluate_entry_position_guard_def Let_def case_prod_beta split: if_splits)

lemma check_entry_cleared:
  assumes c: "check_entry e p pos_side s = (None, s')" and acc: "le_account e \<noteq> None"
  shows "entry_cleared e p pos_side (fl_ledger s) (fl_reserved s) (clock (fl_queue s))" and "fl_ledger s' = fl_ledger s"
proof -
  obtain account where acc: "le_account e = Some account" using acc by blast
  define g where "g = evaluate_entry_position_guard (rq_strategy (pd_payload p)) (order_leg e p pos_side) (le_mode e)
             (le_dust e) account (ref_price p) (le_opposite e) (clock (fl_queue s)) (fl_ledger s) (fl_reserved s)"
  let ?co = "supports_position_coexistence (le_market e) (le_exchange e)"
  have c: "?co \<longrightarrow> fst (fst g) = None" "le_market e \<in> {''spot'', ''swap''} \<longrightarrow> le_risk e = None"
    "s' = (if ?co then s\<lparr>fl_reserved := snd g\<rparr> else s)"
    using c unfolding check_entry_def Let_def acc option.case g_def [symmetric] case_prod_beta
    by (cases ?co; cases "fst (fst g)"; simp split: if_splits guard_error.splits)+
  then show "fl_ledger s' = fl_ledger s" by simp
  have leg: "al_user (order_leg e p pos_side) = le_user e" "al_side (order_leg e p pos_side) = pos_side"
    by (simp_all add: order_leg_def)
  have "?co \<longrightarrow> ow_allowed (fst (evaluate_and_record_ownership ((order_leg e p pos_side)\<lparr>al_user := if le_user e = 0 then 1 else le_user e\<rparr>)
      account (fetch_allocated_position_size (rq_strategy (pd_payload p)) (al_credential (order_leg e p pos_side))
        (al_market (order_leg e p pos_side)) (al_symbol (order_leg e p pos_side)) pos_side (fl_ledger s))
      (drift_tolerance (le_dust e) (ref_price p)) (clock (fl_queue s)) (fl_reserved s)))"
    using guard_passed [of "rq_strategy (pd_payload p)" "order_leg e p pos_side", unfolded leg] c(1) unfolding g_def by blast
  with c(2) show "entry_cleared e p pos_side (fl_ledger s) (fl_reserved s) (clock (fl_queue s))"
    unfolding entry_cleared_def Let_def acc by simp
qed

text \<open>C19.  Whatever order is dispatched and whatever the exchange answers, every order that reaches the exchange
  carries the symbol, side and client ids of the queued one and was accepted by all checks: live
  trading is enabled and no check refused the context; an entry asks for at most the amount queued,
  and only when its leg shows no drift and the account's risk limits allow it; an exit asks for at
  most the strategy's own position and leaves the protected inventory alone.  A market order that spends
  a quote amount instead is a spot purchase, and spends at most the amount queued at the price known.
  The bounds are those of each order on its own; they hold for the market order that follows an
  incomplete limit order too, but the two together may spend more (\<open>fallback_spends_again\<close>).  Step sizes and
  balances round down (\<open>sizing_ok\<close>) and no fill reported is negative (\<open>fills_ok\<close>).\<close>

theorem live_orders_guarded:
  assumes e: "sizing_ok e" and a: "fills_ok a" and f: "is_float (order_amount p)"
  shows "execute_live_order e (restrict (order_allowed e p s) bad a) p s = execute_live_order e a p s"
proof (cases "live_rejection e p \<noteq> None \<or> signal_to_side_pos_reduce (order_signal p) = None \<or> le_account e = None")
  case True
  then show ?thesis
    by (cases "live_rejection e p"; cases "signal_to_side_pos_reduce (order_signal p)")
      (simp_all add: execute_live_order_def Let_def case_prod_beta)
next
  case False
  then obtain side pos_side reduce where sd: "signal_to_side_pos_reduce (order_signal p) = Some (side, pos_side, reduce)"
    and rej: "live_rejection e p = None" and acc: "le_account e \<noteq> None" by auto
  have en: "le_enabled e" using rej by (auto simp: live_rejection_def split: if_splits)
  define s1 where "s1 = s\<lparr>fl_ledger := le_sync e (fl_ledger s)\<rparr>"
  obtain err s2 where c: "(if reduce then (None, s1) else check_entry e p pos_side s1) = (err, s2)" by (metis prod.exhaust)
  have "place_order e (restrict (order_allowed e p s) bad a) p (side, pos_side, reduce) s2 = place_order e a p (side, pos_side, reduce) s2"
    if "err = None"
  proof (rule place_restrict [OF e a f])
    fix i :: order_intent and l
    assume i: "oi_symbol i = order_symbol p" "oi_client i \<in> {client_order_id e p ''lmt'', client_order_id e p ''mkt''}"
      "(oi_side i, oi_pos_side i, oi_reduce_only i) = (side, pos_side, reduce)"
      and l: "l \<in> {fl_ledger s2, le_sync e (fl_ledger s2)}"
      and q: "quantity_limit e p (side, pos_side, reduce) l (fl_reserved s2) (oi_quantity i)"
      and u: "\<And>u. oi_quote i = Some u \<Longrightarrow> oi_side i = ''buy'' \<and> \<not> oi_reduce_only i \<and> le_market e = ''spot'' \<and> u \<le> quote_limit e p"
    have s2: "fl_ledger s2 = le_sync e (fl_ledger s)" and
      clear: "\<not> reduce \<longrightarrow> entry_cleared e p pos_side (le_sync e (fl_ledger s)) (fl_reserved s) (clock (fl_queue s))"
      using c check_entry_cleared [of e p pos_side s1 s2] acc \<open>err = None\<close> by (auto simp: s1_def split: if_splits)
    have "quantity_limit e p (side, pos_side, reduce) l (fl_reserved s) (oi_quantity i)"
      using q c by (cases reduce) (auto simp: quantity_limit_def s1_def)
    then show "order_allowed e p s i"
      using i l clear rej en sd u unfolding order_allowed_def s2 by blast
  qed
  moreover have "execute_live_order e b p s =
      (if err \<noteq> None then fail_order p s2
       else if requires_account_configuration (le_market e) reduce \<and> le_configure_error e \<noteq> None then fail_order p s2
       else place_order e b p (side, pos_side, reduce) s2)" for b
    unfolding execute_live_order_def rej sd option.case Let_def fst_conv snd_conv s1_def [symmetric] c prod.case
    using acc by (simp del: not_None_eq)
  ultimately show ?thesis by (cases err) (simp_all del: not_None_eq)
qed

text \<open>A market with one account and one strategy; the queued order buys two units.\<close>

definition demo_env :: live_env where
  "demo_env = \<lparr>le_context_error = None, le_exchange = ''okx'', le_user = 1, le_credential = 1, le_market = ''swap'',
     le_enabled = True, le_client_error = None, le_sync = (\<lambda>l. l), le_account = Some 0, le_mode = ''both'', le_dust = 1,
     le_opposite = None, le_risk = None, le_position = 0, le_configure_error = None, le_clamp = (\<lambda>q. q),
     le_prepare_fails = False, le_base = (\<lambda>q. q), le_quote = (\<lambda>q. q), le_last = 0, le_by_quote = False, le_executable = (\<lambda>q. q), le_order_mode = ''market'', le_wait = 5,
     le_fallback = True, le_offset = 0, le_recover = (\<lambda>_. (0, 0)), le_leg = sync_leg, le_marking = True, le_posting = Booked,
     le_configured_mode = ''live'', le_notified = False\<rparr>"

text \<open>An exchange that keeps the orders it took, fills half of each and, perhaps, rejects market orders.\<close>

definition demo_adapter :: "bool \<Rightarrow> order_intent list adapter" where
  "demo_adapter accepts = \<lparr>
     ad_market = (\<lambda>i x. if accepts then (Inr \<lparr>lo_exchange = ''okx'', lo_oid = ''9'', lo_filled = 0, lo_avg = 0\<rparr>, x @ [i])
                        else (Inl (Live_Trading_Error ''rejected''), x)),
     ad_limit = (\<lambda>i x. (Inr \<lparr>lo_exchange = ''okx'', lo_oid = ''8'', lo_filled = 0, lo_avg = 0\<rparr>, x @ [i])),
     ad_cancel = (\<lambda>_ _ x. (Inr (), x)),
     ad_wait = (\<lambda>i _ _ x. (Inr (Some \<lparr>fs_filled = max 0 (oi_quantity i) / 2, fs_avg = 10, fs_status = ''open'', fs_fees = []\<rparr>), x)),
     ad_find = None\<rparr>"

definition demo_row :: "string \<Rightarrow> pending_row" where
  "demo_row algo = (sent_row 0 0 No_Response)
     \<lparr>pd_status := ''processing'', pd_oid := [], pd_payload := demo_request\<lparr>rq_algo := algo, rq_limit := 10\<rparr>\<rparr>"

definition demo_floor :: "string \<Rightarrow> order_intent list floor" where
  "demo_floor algo = \<lparr>fl_queue = empty_queue\<lparr>pending := [demo_row algo]\<rparr>, fl_attempts = [], fl_ledger = empty_ledger,
     fl_reserved = [], fl_exchange = []\<rparr>"

lemma live_orders_guarded_witness:
  "let p = demo_row ''market''; s = demo_floor ''market'' in
     execute_live_order demo_env (restrict (order_allowed demo_env p s) [] (demo_adapter True)) p s
       = execute_live_order demo_env (demo_adapter True) p s"
proof -
  have "sizing_ok demo_env" by (simp add: sizing_ok_def demo_env_def)
  moreover have "fills_ok (demo_adapter True)" by (auto simp: fills_ok_def demo_adapter_def)
  moreover have "is_float (order_amount (demo_row ''market''))"
    using is_float_numeral [of "num.Bit0 num.One"]
    by (simp add: order_amount_def demo_row_def sent_row_def new_pending_row_def demo_request_def num_or_def)
  ultimately show ?thesis unfolding Let_def by (rule live_orders_guarded)
qed

section \<open>From the dispatch to the last reconciliation\<close>

text \<open>What the first leg of an order in two legs filled: the total less what the market leg reports.\<close>

definition first_leg :: "execution \<Rightarrow> rat \<Rightarrow> rat" where
  "first_leg ex filled = (case ex_market_leg ex of None \<Rightarrow> 0 | Some (_, m, _) \<Rightarrow> filled - m)"

lemma column_8_near:
  assumes "0 \<le> x" "x < 2 ^ 20"
  shows "\<bar>column 8 x - x\<bar> \<le> 6 / 10 ^ 9" and "\<bar>fl (column 8 x) - column 8 x\<bar> \<le> 1 / 10 ^ 9"
proof -
  have "\<bar>column 8 x - x\<bar> \<le> 1 / (2 * 10 ^ 8) + 2 powi (20 - 52)"
    by (rule column_near) (use assms in \<open>simp_all add: power_int_def\<close>)
  then show c: "\<bar>column 8 x - x\<bar> \<le> 6 / 10 ^ 9" by (simp add: power_int_def power_one_over)
  have "\<bar>fl (column 8 x) - column 8 x\<bar> \<le> 2 powi (21 - 54)"
    by (rule fl_error) (use abs_le_D1 [OF c] column.nonneg [OF assms(1)] assms(2) in \<open>simp_all add: power_int_def\<close>)
  then show "\<bar>fl (column 8 x) - column 8 x\<bar> \<le> 1 / 10 ^ 9" by (simp add: power_int_def power_one_over)
qed

lemma recorded_fill_near:
  assumes f: "is_float filled" "0 \<le> filled" "filled < 2 ^ 20" and fp: "fp_filled f = filled" "lc_pending (fp_leg f) = n" "fp_event f = 0"
    and none: "recorded_quantity n l = 0"
  shows "\<bar>recorded_quantity n (snd (persist_strategy_fill f (q, l))) - filled\<bar> \<le> 6 / 10 ^ 9"
proof (cases "fl (1 / 10 ^ 12) < filled")
  case True
  from column_8_near(1) [OF f(2,3)]
  show ?thesis using True persist_trades [of f n l q] f fp none by simp
next
  case False
  have "\<bar>fl (1 / 10 ^ 12) - 1 / 10 ^ 12\<bar> \<le> 2 powi (- 30 - 54)" by (rule fl_error) (simp_all add: power_int_def power_one_over)
  then have "fl (1 / 10 ^ 12) \<le> 6 / 10 ^ 9" using abs_le_D1 by (fastforce simp: power_int_def power_one_over)
  moreover have "snd (persist_strategy_fill f (q, l)) = l"
    using False f fp by (simp add: persist_strategy_fill_def Let_def case_prod_beta)
  ultimately show ?thesis using False f none by simp
qed

lemma post_fill_rows [simp]: "pending (fst (post_fill w f ql)) = pending (fst ql)"
proof -
  have "pending (fst (persist_strategy_fill f ql)) = pending (fst ql)"
    using persist_rows [of f "fst ql" "snd ql"] by simp
  then show ?thesis by (cases w) (simp_all add: post_fill_def case_prod_beta)
qed

lemma post_fill_booked: "w \<in> {Booked, Booked_Unlogged} \<Longrightarrow> snd (post_fill w f ql) = snd (persist_strategy_fill f ql)"
  by (auto simp: post_fill_def case_prod_beta)

lemma row_recorded:
  assumes row: "row_of n (fl_queue s) = Some p0" and p: "pd_id p = n" and mark: "le_marking e" and fill: "final_fill e p ex = (filled, avg)"
  shows "\<exists>p'. row_of n (fl_queue (record_execution e p ex amount s)) = Some p' \<and> pd_response p' = Phases (ex_market_leg ex)
      \<and> pd_oid p' = ex_oid ex \<and> pd_filled p' = max (pd_filled p0) (column 8 filled)"
proof -
  define r where "r = \<lparr>sr_note = ''live_order_sent'', sr_exchange = le_exchange e, sr_oid = ex_oid ex,
      sr_response = Phases (ex_market_leg ex), sr_filled = filled, sr_avg = avg,
      sr_final = is_final_fill amount filled avg (ex_status ex)\<rparr>"
  have "pending (fl_queue (record_execution e p ex amount s)) = pending (mark_sent n r (fl_queue s))"
    unfolding record_execution_def fill prod.case p r_def [symmetric] Let_def using mark by (simp add: case_prod_beta)
  from row_of_same_rows [OF this] show ?thesis
    using row row_of_id [OF row] by (simp add: mark_sent_def row_of_set_row r_def)
qed

lemma tracked_recorded:
  assumes row: "row_of n (fl_queue s) = Some p0" and p: "pd_id p = n" and mark: "le_marking e" and fill: "final_fill e p ex = (filled, avg)"
  shows "tracked n (fl_queue (record_execution e p ex amount s)) =
     (case ex_market_leg ex of
        None \<Rightarrow> max 0 (fl (max (pd_filled p0) (column 8 filled)))
      | Some (oid, m, _) \<Rightarrow> if oid = py_strip (ex_oid ex) then max 0 m else max 0 (fl (max (pd_filled p0) (column 8 filled))))"
  using row_recorded [OF row p mark fill, of amount]
  by (auto simp: tracked_def row_baseline_def tracked_fill_baseline_def split: option.split)

lemma record_execution_near:
  fixes s :: "'x floor" and amount :: rat
  assumes row: "row_of n (fl_queue s) = Some p0" "pd_filled p0 = 0" and p: "pd_id p = n" "0 < n"
    and none: "recorded_quantity n (fl_ledger s) = 0" and mark: "le_marking e" and post: "le_posting e \<in> {Booked, Booked_Unlogged}"
    and fill: "final_fill e p ex = (filled, avg)" "is_float filled" "0 \<le> filled" "filled < 2 ^ 20" "0 < avg"
    and leg: "\<And>oid m a. ex_market_leg ex = Some (oid, m, a) \<Longrightarrow> oid = py_strip (ex_oid ex) \<and> 0 \<le> m"
  defines "s' \<equiv> record_execution e p ex amount s"
  shows "\<bar>recorded_quantity n (fl_ledger s') - (first_leg ex filled + tracked n (fl_queue s'))\<bar> \<le> 2 / 10 ^ 8"
proof -
  define r where "r = \<lparr>sr_note = ''live_order_sent'', sr_exchange = le_exchange e, sr_oid = ex_oid ex,
      sr_response = Phases (ex_market_leg ex), sr_filled = filled, sr_avg = avg,
      sr_final = is_final_fill amount filled avg (ex_status ex)\<rparr>"
  define q where "q = mark_sent n r (fl_queue s)"
  define f where "f = posted_fill e p ex filled filled avg"
  note tr = tracked_recorded [OF row(1) p(1) mark fill(1), of amount, folded s'_def]
  have rec: "unrecorded_pending_fill n filled (fl_ledger s) = filled"
    using fill(2,3) p none by (simp add: unrecorded_pending_fill_def is_float_def fsub_def)
  have s': "fl_ledger s' = (if 0 < filled then snd (persist_strategy_fill f (q, fl_ledger s)) else fl_ledger s)"
    unfolding s'_def record_execution_def fill(1) prod.case p(1) r_def [symmetric] q_def [symmetric] rec Let_def f_def [symmetric]
    using fill(5) post mark by (simp add: case_prod_beta post_fill_booked)
  note c = column_8_near(1) [OF fill(3,4)] and e = column_8_near(2) [OF fill(3,4)]
  have t: "\<bar>(first_leg ex filled + tracked n (fl_queue s')) - filled\<bar> \<le> 7 / 10 ^ 9"
  proof (cases "ex_market_leg ex")
    case None
    then have "tracked n (fl_queue s') = fl (column 8 filled)" "first_leg ex filled = 0"
      using row(2) fill(3) by (simp_all add: tr first_leg_def column.nonneg fl_nonneg max.absorb2)
    with abs_le_D1 [OF c] abs_le_D2 [OF c] abs_le_D1 [OF e] abs_le_D2 [OF e] show ?thesis
      by (intro abs_leI) simp_all
  next
    case (Some x)
    obtain oid m a where x: "x = (oid, m, a)" by (rule prod_cases3)
    with Some leg have "oid = py_strip (ex_oid ex)" "0 \<le> m" by simp_all
    then have "tracked n (fl_queue s') = m" "first_leg ex filled = filled - m"
      using Some x by (simp_all add: tr first_leg_def)
    then show ?thesis by simp
  qed
  have "\<bar>recorded_quantity n (fl_ledger s') - filled\<bar> \<le> 6 / 10 ^ 9"
    using recorded_fill_near [OF fill(2-4), of f n "fl_ledger s" q] none fill(3) p
    by (auto simp: s' f_def posted_fill_def Let_def)
  from abs_le_D1 [OF this] abs_le_D2 [OF this] abs_le_D1 [OF t] abs_le_D2 [OF t] show ?thesis
    by (intro abs_leI) simp_all
qed

text \<open>C20.  From its dispatch to the last reconciliation an order is accounted for: when an execution with a
  positive average price, of less than \<open>2 ^ 20\<close>, is recorded for the first time, queue and ledger can be
  written and the market leg it carries is the order of the row, the trades of the order come to what
  its finished first leg filled plus the quantity its row tracks on the exchange, over any number of
  later rounds with priced, non-decreasing reports, up to two units of the last place for each posting.
  What happens when the ledger cannot be written is \<open>unposted_dispatch_lost\<close>.\<close>

theorem order_accounted:
  fixes s :: "'x floor" and amount :: rat
  assumes row: "row_of n (fl_queue s) = Some p0" "pd_filled p0 = 0" and p: "pd_id p = n" "0 < n"
    and none: "recorded_quantity n (fl_ledger s) = 0" and mark: "le_marking e" and post: "le_posting e \<in> {Booked, Booked_Unlogged}"
    and fill: "final_fill e p ex = (filled, avg)" "is_float filled" "0 \<le> filled" "filled < 2 ^ 20" "0 < avg"
    and leg: "\<And>oid m a. ex_market_leg ex = Some (oid, m, a) \<Longrightarrow> oid = py_strip (ex_oid ex) \<and> 0 \<le> m"
    and es: "list_all2 priced es cs" "sorted cs"
      "\<forall>c \<in> set cs. tracked n (fl_queue (record_execution e p ex amount s)) \<le> c"
  shows "let s' = record_execution e p ex amount s; (q'', l'') = sync_rounds es retry missing n (fl_queue s', fl_ledger s') in
     \<bar>recorded_quantity n l'' - (first_leg ex filled + tracked n q'')\<bar> \<le> of_nat (length es + 1) * (2 / 10 ^ 8)"
proof -
  let ?s = "record_execution e p ex amount s"
  have "\<bar>recorded_quantity n (fl_ledger ?s) - (first_leg ex filled + tracked n (fl_queue ?s))\<bar> \<le> 2 / 10 ^ 8"
    by (rule record_execution_near [OF row p none mark post fill leg])
  note a = abs_le_D1 [OF this] abs_le_D2 [OF this]
  from sync_rounds_posted [OF es(1,2), of n "(fl_queue ?s, fl_ledger ?s)" retry missing] es(3)
  have "\<bar>(recorded_quantity n (snd (sync_rounds es retry missing n (fl_queue ?s, fl_ledger ?s))) - recorded_quantity n (fl_ledger ?s))
      - (tracked n (fst (sync_rounds es retry missing n (fl_queue ?s, fl_ledger ?s))) - tracked n (fl_queue ?s))\<bar>
      \<le> of_nat (length es) * (2 / 10 ^ 8)" by simp
  from a abs_le_D1 [OF this] abs_le_D2 [OF this] show ?thesis
    unfolding Let_def case_prod_beta of_nat_add of_nat_1 distrib_right mult_1 by (intro abs_leI) simp_all
qed

definition demo_execution :: execution where
  "demo_execution = \<lparr>ex_success = True, ex_exchange = ''okx'', ex_oid = ''77'', ex_filled = 1, ex_avg = 10, ex_status = ''open'',
     ex_error = [], ex_fees = [], ex_market_leg = None\<rparr>"

lemma demo_row_of: "row_of 1 (fl_queue (demo_floor algo)) = Some (demo_row algo)" "pd_filled (demo_row algo) = 0" "pd_id (demo_row algo) = 1"
  "recorded_quantity 1 (fl_ledger (demo_floor algo)) = 0"
  by (simp_all add: row_of_def demo_floor_def demo_row_def sent_row_def new_pending_row_def recorded_quantity_def empty_ledger_def)

lemma demo_final_fill: "final_fill demo_env (demo_row algo) demo_execution = (1, 10)"
  by (simp add: final_fill_def apply_execution_result_def accumulate_fill_def accumulated_avg_def no_fills_def demo_execution_def
      Let_def case_prod_beta fadd_def fmul_def fdiv_def demo_env_def fl_numeral [of "num.Bit0 (num.Bit1 (num.Bit0 num.One))"])

lemma order_accounted_witness:
  "let s' = record_execution demo_env (demo_row ''market'') demo_execution 2 (demo_floor ''market'');
       (q'', l'') = sync_rounds [demo_report (3 / 2) 10, demo_report 2 10] 300 (\<lambda>_. False) 1 (fl_queue s', fl_ledger s') in
     \<bar>recorded_quantity 1 l'' - tracked 1 q''\<bar> \<le> 6 / 10 ^ 8"
proof -
  let ?s = "demo_floor ''market''" and ?p = "demo_row ''market''"
  let ?s' = "record_execution demo_env ?p demo_execution 2 ?s"
  note row = demo_row_of(1-3) [of "''market''"] and none = demo_row_of(4) [of "''market''"] and fill = demo_final_fill [of "''market''"]
  have mark: "le_marking demo_env" and post: "le_posting demo_env \<in> {Booked, Booked_Unlogged}" by (simp_all add: demo_env_def)
  have leg: "ex_market_leg demo_execution = None" by (simp add: demo_execution_def)
  have one: "column 8 1 = 1" using column_8_exact [of 1] dec_of_int [of 8 1] by simp
  have "tracked 1 (fl_queue ?s') = 1"
    using tracked_recorded [OF row(1,3) mark fill, of 2] row(2) leg one by simp
  moreover have "list_all2 priced [demo_report (3 / 2) 10, demo_report 2 10] [3 / 2, 2]" by (simp add: demo_priced)
  ultimately show ?thesis
    using order_accounted [OF row(1,2,3) _ none mark post fill, of "[demo_report (3 / 2) 10, demo_report 2 10]" "[3 / 2, 2]" 2 300 "\<lambda>_. False"] leg
    by (simp add: Let_def case_prod_beta first_leg_def)
qed

text \<open>When the ledger fails as a dispatched order is recorded, the quantity filled at dispatch is never
  posted: its row counts it as tracked, so whatever later rounds report, with prices and a working
  ledger, the trades of the order come to what is filled on top of it only (up to one unit of the
  column for the conversion, and the precision of the rounds).\<close>

theorem unposted_dispatch_lost:
  fixes s :: "'x floor" and amount :: rat
  assumes row: "row_of n (fl_queue s) = Some p0" "pd_filled p0 = 0" and p: "pd_id p = n"
    and fill: "final_fill e p ex = (filled, avg)" "0 \<le> filled" "filled < 2 ^ 20"
    and mark: "le_marking e" and err: "le_posting e = Not_Booked" and leg: "ex_market_leg ex = None"
    and es: "list_all2 priced es cs" "sorted cs"
      "\<forall>c \<in> set cs. tracked n (fl_queue (record_execution e p ex amount s)) \<le> c \<and> c \<le> b"
    and b: "tracked n (fl_queue (record_execution e p ex amount s)) \<le> b"
  shows "let s' = record_execution e p ex amount s; (q'', l'') = sync_rounds es retry missing n (fl_queue s', fl_ledger s') in
     fl_ledger s' = fl_ledger s
     \<and> recorded_quantity n l'' - recorded_quantity n (fl_ledger s) \<le> (b - filled) + 1 / 10 ^ 8 + of_nat (length es) * (2 / 10 ^ 8)"
proof -
  let ?s = "record_execution e p ex amount s"
  have l: "fl_ledger ?s = fl_ledger s"
    unfolding record_execution_def fill(1) using err by (simp add: Let_def case_prod_beta post_fill_def)
  have "tracked n (fl_queue ?s) = fl (column 8 filled)"
    using tracked_recorded [OF row(1) p mark fill(1), of amount] leg row(2) fill(2) by (simp add: column.nonneg fl_nonneg max.absorb2)
  moreover have "recorded_quantity n (snd (sync_rounds es retry missing n (fl_queue ?s, fl_ledger s))) - recorded_quantity n (fl_ledger s)
      \<le> (b - tracked n (fl_queue ?s)) + of_nat (length es) * (2 / 10 ^ 8)"
    using rounds_from [OF es(1,2), of "tracked n (fl_queue ?s)" b n "(fl_queue ?s, fl_ledger s)" retry missing] es(3) b by simp
  ultimately show ?thesis
    unfolding Let_def case_prod_beta l
    using abs_le_D2 [OF column_8_near(1) [OF fill(2,3)]] abs_le_D2 [OF column_8_near(2) [OF fill(2,3)]] by simp
qed

lemma unposted_dispatch_lost_witness:
  "let s' = record_execution (demo_env\<lparr>le_posting := Not_Booked\<rparr>) (demo_row ''market'') demo_execution 2 (demo_floor ''market'');
       (q'', l'') = sync_rounds [demo_report 2 10] 300 (\<lambda>_. False) 1 (fl_queue s', fl_ledger s') in
     recorded_quantity 1 l'' \<le> 1 + 3 / 10 ^ 8"
proof -
  let ?e = "demo_env\<lparr>le_posting := Not_Booked\<rparr>"
  have fill: "final_fill ?e (demo_row ''market'') demo_execution = (1, 10)"
    using demo_final_fill by (simp add: final_fill_def demo_env_def)
  have mark: "le_marking ?e" by (simp add: demo_env_def)
  have one: "column 8 1 = 1" using column_8_exact [of 1] dec_of_int [of 8 1] by simp
  have t: "tracked 1 (fl_queue (record_execution ?e (demo_row ''market'') demo_execution 2 (demo_floor ''market''))) = 1"
    using tracked_recorded [OF demo_row_of(1,3) mark fill, of 2] demo_row_of(2) one by (simp add: demo_execution_def)
  have "list_all2 priced [demo_report 2 10] [2]" by (simp add: demo_priced)
  moreover have "le_posting ?e = Not_Booked" "ex_market_leg demo_execution = None" by (simp_all add: demo_execution_def)
  ultimately show ?thesis
    using unposted_dispatch_lost [OF demo_row_of(1-3) [of "''market''"] fill _ _ mark, of "[demo_report 2 10]" "[2]" 2 2 300 "\<lambda>_. False"]
      demo_row_of(4) [of "''market''"] t unfolding Let_def case_prod_beta by auto
qed

section \<open>Outcomes that go wrong\<close>

lemma failed_not_claimed: "fst (claim_live_sent_order retry missing n (mark_failed n q)) = None"
proof -
  have "pd_status p = ''failed''" if "p \<in> set (pending (mark_failed n q))" "pd_id p = n" for p
  proof -
    have "p \<in> (\<lambda>p. if pd_id p = n then p\<lparr>pd_status := ''failed'', pd_updated := clock q\<rparr> else p) ` set (pending q)"
      using that(1) by (simp add: mark_failed_def)
    then obtain p0 where "p = (if pd_id p0 = n then p0\<lparr>pd_status := ''failed'', pd_updated := clock q\<rparr> else p0)" by (rule imageE)
    with that(2) show ?thesis by (cases "pd_id p0 = n") simp_all
  qed
  then have "\<not> live_syncable retry missing now p" if "p \<in> set (pending (mark_failed n q))" "pd_id p = n" for now p
    using that by (simp add: live_syncable_def)
  then have "find (\<lambda>p. pd_id p = n \<and> live_syncable retry missing now p) (pending (mark_failed n q)) = None" for now
    by (auto simp: find_None_iff)
  then show ?thesis by (simp add: claim_live_sent_order_def Let_def)
qed

text \<open>C24.  When the market order after an incomplete limit order is rejected (the payload leaves the fallback on, as
  the default is), the order fails as a whole: what the limit order filled stays on the exchange, but
  no trade and no position is recorded, and the row is never claimed for reconciliation.\<close>

theorem rejected_fallback_unrecorded:
  assumes size: "order_size e p sides s = ((q, b), s1)" "0 < q"
    and price: "order_price e p (fst sides) = Inr price" "0 < price" and algo: "limit_first e p" "\<not> is_limit p" "le_fallback e"
    and i: "i = order_intent_of e p sides q price"
    and limit: "ad_limit a i (fl_exchange s1) = (Inr r, x1)"
    and part: "ad_wait a i (lo_oid r) (max 0 (le_wait e)) x1 = (Inr (Some f), x2)" "\<not> is_complete (Some f) q" "0 < fsub q (fs_filled f)"
    and cancel: "ad_cancel a i (lo_oid r) x2 = (Inr (), x3)"
    and market: "ad_market a (market_sized b (fallback_intent i (fsub q (fs_filled f)))) x3 = (Inl (Live_Trading_Error m), x4)"
  shows "let s' = place_order e a p sides s in
     fl_exchange s' = x4 \<and> fl_ledger s' = fl_ledger s1
     \<and> fst (claim_live_sent_order retry missing (pd_id p) (fl_queue s')) = None"
proof -
  have oi: "oi_quantity i = q" "oi_price i = price" by (simp_all add: i order_intent_of_def)
  have "market_execute (phase_adapter b a) (fallback_intent i (fsub q (fs_filled f))) 12 x3 = (Inr (rejected m), x4)"
    by (simp add: market_execute_def market)
  then have "\<exists>ex. limit_then_market_execute (phase_adapter b a) i (le_wait e) True (fl_exchange s1) = (Inr ex, x4) \<and> \<not> ex_success ex"
    using price part by (simp add: limit_then_market_execute_def oi limit cancel snap_filled_def both_legs_result_def rejected_def)
  then have "place_order e a p sides s = fail_order p (s1\<lparr>fl_exchange := x4\<rparr>)"
    using size price algo by (auto simp: place_order_def run_executor_def i [symmetric])
  then show ?thesis by (simp add: fail_order_def failed_not_claimed)
qed

lemma demo_strings: "py_lower (py_strip ''maker'') = ''maker''" "py_lower (py_strip ''open'') = ''open''" "py_lower (py_strip ''market'') = ''market''"
  by code_simp+

lemma demo_incomplete: "\<not> is_complete (Some \<lparr>fs_filled = 1, fs_avg = 10, fs_status = ''open'', fs_fees = []\<rparr>) 2"
proof -
  have "3 / 4 \<le> fl (999999 / 1000000)"
    using fl_mono [of "3 / 4" "999999 / 1000000"] fl_representable [of 3 "- 2"] by (simp add: power_int_def power_one_over)
  then have "1 < fmul 2 (fl (999999 / 1000000))"
    using fl_mono [of "3 / 2" "2 * fl (999999 / 1000000)"] fl_representable [of 3 "- 1"] by (simp add: fmul_def power_int_def power_one_over)
  then show ?thesis by (simp add: is_complete_def demo_strings)
qed

lemma rejected_fallback_unrecorded_witness:
  "let s' = place_order demo_env (demo_adapter False) (demo_row ''maker'') (''buy'', ''long'', False) (demo_floor ''maker'') in
     fl_exchange s' = [order_intent_of demo_env (demo_row ''maker'') (''buy'', ''long'', False) 2 10]
     \<and> fl_ledger s' = empty_ledger
     \<and> fst (claim_live_sent_order 300 (\<lambda>_. False) 1 (fl_queue s')) = None"
proof -
  let ?i = "order_intent_of demo_env (demo_row ''maker'') (''buy'', ''long'', False) 2 10" and ?p = "demo_row ''maker''"
  let ?f = "\<lparr>fs_filled = 1, fs_avg = 10, fs_status = ''open'', fs_fees = []\<rparr>"
  have p: "rq_quantity (pd_payload ?p) = 2" "rq_algo (pd_payload ?p) = ''maker''" "rq_limit (pd_payload ?p) = 10" "pd_id ?p = 1"
    by (simp_all add: demo_row_def sent_row_def new_pending_row_def demo_request_def)
  have q: "oi_quantity ?i = 2" by (simp add: order_intent_of_def)
  have "order_amount ?p = 2" by (simp add: order_amount_def p num_or_def)
  then have size: "order_size demo_env ?p (''buy'', ''long'', False) (demo_floor ''maker'') = ((2, None), demo_floor ''maker'')"
    by (simp add: order_size_def spot_size_def bitget_size_def demo_env_def)
  have algo: "limit_first demo_env ?p" "\<not> is_limit ?p" "le_fallback demo_env"
    by (simp_all add: limit_first_def order_mode_of_def is_limit_def p demo_strings) (simp add: demo_env_def)
  have price: "order_price demo_env ?p ''buy'' = Inr 10" using algo by (simp add: order_price_def p)
  have part: "\<not> is_complete (Some ?f) 2" by (rule demo_incomplete)
  have rest: "fsub 2 1 = 1" by (simp add: fsub_def)
  have a: "ad_limit (demo_adapter False) ?i [] = (Inr \<lparr>lo_exchange = ''okx'', lo_oid = ''8'', lo_filled = 0, lo_avg = 0\<rparr>, [?i])"
    "ad_wait (demo_adapter False) ?i oid w [?i] = (Inr (Some ?f), [?i])" "ad_cancel (demo_adapter False) ?i oid [?i] = (Inr (), [?i])"
    "ad_market (demo_adapter False) j [?i] = (Inl (Live_Trading_Error ''rejected''), [?i])" for oid w j
    by (simp_all add: demo_adapter_def q)
  have x: "fl_exchange (demo_floor ''maker'') = []" "fl_ledger (demo_floor ''maker'') = empty_ledger" by (simp_all add: demo_floor_def)
  have "let s' = place_order demo_env (demo_adapter False) ?p (''buy'', ''long'', False) (demo_floor ''maker'') in
     fl_exchange s' = [?i] \<and> fl_ledger s' = fl_ledger (demo_floor ''maker'')
     \<and> fst (claim_live_sent_order 300 (\<lambda>_. False) (pd_id ?p) (fl_queue s')) = None"
    by (rule rejected_fallback_unrecorded [where f = ?f and i = ?i and m = "''rejected''" and ?x1.0 = "[?i]" and ?x2.0 = "[?i]" and ?x3.0 = "[?i]" and r = "\<lparr>lo_exchange = ''okx'', lo_oid = ''8'', lo_filled = 0, lo_avg = 0\<rparr>",
          OF size _ _ _ algo refl]) (simp_all add: price x a part rest)
  then show ?thesis by (simp add: x p)
qed

text \<open>
  The bounds of \<open>order_allowed\<close> hold for each order of its own.  On a spot market that buys by quote amount the
  market order after an incomplete limit order is sized by the whole amount again, not by what the
  limit order left: two units queued at 10, one of them filled, and 20 is spent on top of the 10.
\<close>

definition demo_spot :: live_env where
  "demo_spot = demo_env\<lparr>le_market := ''spot'', le_exchange := ''gate'', le_by_quote := True\<rparr>"

lemma fallback_spends_again:
  "let p = demo_row ''maker''; s = demo_floor ''maker''; i = order_intent_of demo_spot p (''buy'', ''long'', False) 2 10 in
     order_size demo_spot p (''buy'', ''long'', False) s = ((2, Some 20), s)
     \<and> fl_exchange (place_order demo_spot (demo_adapter True) p (''buy'', ''long'', False) s)
         = [i, (fallback_intent i 1)\<lparr>oi_quote := Some 20\<rparr>]"
proof -
  let ?p = "demo_row ''maker''" and ?s = "demo_floor ''maker''" and ?sides = "(''buy'', ''long'', False)"
  let ?i = "order_intent_of demo_spot ?p ?sides 2 10" and ?f = "\<lparr>fs_filled = 1, fs_avg = 10, fs_status = ''open'', fs_fees = []\<rparr>"
  have p: "rq_quantity (pd_payload ?p) = 2" "rq_algo (pd_payload ?p) = ''maker''" "rq_limit (pd_payload ?p) = 10" "pd_id ?p = 1"
    "rq_price (pd_payload ?p) = 10"
    by (simp_all add: demo_row_def sent_row_def new_pending_row_def demo_request_def)
  have amount: "order_amount ?p = 2" "ref_price ?p = 10"
    by (simp_all add: order_amount_def ref_price_def p num_or_def)
  have "fmul 2 10 = 20" by (simp add: fmul_def fl_numeral)
  then have size: "order_size demo_spot ?p ?sides ?s = ((2, Some 20), ?s)"
    by (simp add: order_size_def spot_size_def prepare_spot_live_order_sizes_def spot_price_def normalize_spot_quote_amount_def
        bitget_size_def demo_spot_def demo_env_def amount)
  have algo: "limit_first demo_spot ?p" "\<not> is_limit ?p"
    by (simp_all add: limit_first_def order_mode_of_def is_limit_def p demo_strings)
  then have price: "order_price demo_spot ?p ''buy'' = Inr 10" by (simp add: order_price_def p)
  have i: "oi_quantity ?i = 2" "oi_price ?i = 10" "oi_side ?i = ''buy''" by (simp_all add: order_intent_of_def)
  have part: "\<not> is_complete (Some ?f) 2" "fsub 2 1 = 1" "fl 1 = 1" using demo_incomplete by (simp_all add: fsub_def)
  have x: "fl_exchange ?s = []" by (simp add: demo_floor_def)
  have "\<exists>r. limit_then_market_execute (phase_adapter (Some 20) (demo_adapter True)) ?i 5 True [] = (r, [?i, (fallback_intent ?i 1)\<lparr>oi_quote := Some 20\<rparr>])"
    by (simp add: limit_then_market_execute_def market_execute_def demo_adapter_def i part snap_filled_def market_sized_def fallback_intent_def)
  then have "fl_exchange (place_order demo_spot (demo_adapter True) ?p ?sides ?s) = [?i, (fallback_intent ?i 1)\<lparr>oi_quote := Some 20\<rparr>]"
    using size price algo x
    by (auto simp: place_order_def run_executor_def record_execution_def fail_order_def Let_def case_prod_beta demo_spot_def demo_env_def
        split: sum.split prod.split)
  with size show ?thesis by simp
qed

lemma sort_key_unique_min:
  assumes "r \<in> set xs" and "\<And>y. y \<in> set xs \<Longrightarrow> y \<noteq> r \<Longrightarrow> f r < f y"
  shows "\<exists>ys. sort_key f xs = r # ys"
proof (cases "sort_key f xs")
  case Nil
  then show ?thesis using assms(1) by (metis empty_iff list.set(1) set_sort)
next
  case (Cons y ys)
  then have "f y \<le> f z" if "z \<in> set xs" for z
    using sorted_sort_key [of f xs] that set_sort [of f xs] by auto
  moreover have "y \<in> set xs" using Cons set_sort [of f xs] by (metis list.set_intros(1))
  ultimately have "y = r" using assms by (meson linorder_not_less)
  with Cons show ?thesis by simp
qed

lemma last_attempt_greatest:
  assumes "last_attempt n c t = Some r0" and "r \<in> set t" and "xa_pending r = n" and "xa_client r = c"
  shows "xa_number r \<le> xa_number r0"
proof -
  let ?xs = "sort_key (\<lambda>r. - xa_number r) (filter (\<lambda>r. xa_pending r = n \<and> xa_client r = c) t)"
  obtain rs where xs: "?xs = r0 # rs" using assms(1) by (auto simp: last_attempt_def split: list.splits)
  have "r \<in> set ?xs" using assms by simp
  moreover have "sorted (map (\<lambda>r. - xa_number r) ?xs)" by (rule sorted_sort_key)
  ultimately show ?thesis unfolding xs by auto
qed

text \<open>An attempt that was started is what the next attempt finds.\<close>

lemma started_attempt_found:
  assumes "log_execution_attempt_start n c t = (False, t1)" and "c \<noteq> []"
  shows "log_execution_attempt_start n c t1 = (True, t1)"
proof -
  define number where "number = (case last_attempt n c t of None \<Rightarrow> 1 | Some r \<Rightarrow> (if xa_number r = 0 then 1 else xa_number r) + 1)"
  define r where "r = \<lparr>xa_pending = n, xa_client = c, xa_number = number, xa_status = ''submitted'', xa_oid = []\<rparr>"
  have t1: "t1 = t @ [r]"
    using assms by (auto simp: log_execution_attempt_start_def Let_def number_def r_def split: if_splits)
  have "xa_number y < number" if "y \<in> set t" "xa_pending y = n" "xa_client y = c" for y
  proof (cases "last_attempt n c t")
    case None
    then have "sort_key (\<lambda>r. - xa_number r) (filter (\<lambda>r. xa_pending r = n \<and> xa_client r = c) t) = []"
      by (simp add: last_attempt_def split: list.splits)
    then have "filter (\<lambda>r. xa_pending r = n \<and> xa_client r = c) t = []" by (subst (asm) length_0_conv [symmetric]) simp
    then show ?thesis using that by (auto simp: filter_empty_conv)
  next
    case (Some r0)
    from last_attempt_greatest [OF this that] Some show ?thesis by (simp add: number_def)
  qed
  then have "\<exists>ys. sort_key (\<lambda>r. - xa_number r) (filter (\<lambda>r. xa_pending r = n \<and> xa_client r = c) t1) = r # ys"
    by (intro sort_key_unique_min) (auto simp: t1 r_def)
  then have "last_attempt n c t1 = Some r" by (auto simp: last_attempt_def)
  then show ?thesis using assms(2) by (simp add: log_execution_attempt_start_def r_def)
qed

text \<open>A stale row whose worker is gone is fetched and claimed again.\<close>

lemma stale_row_fetched:
  assumes row: "p \<in> set (pending q)" "pd_id p = n" "pd_status p = ''processing''" "pd_attempts p < pd_max p"
      "pd_updated p < clock q - stale * second" "0 < stale" "length (pending q) \<le> limit"
  shows "\<exists>p' \<in> set (fst (fetch_pending_orders stale limit q)). pd_id p' = n \<and> pd_payload p' = pd_payload p"
    and "fst (mark_processing n (snd (fetch_pending_orders stale limit q)))"
proof -
  define q1 where "q1 = requeue_stale stale (dead_letters q)"
  define p' where "p' = p\<lparr>pd_status := ''pending'', pd_updated := clock q, pd_note := str_or (pd_note p) ''requeued_stale_processing''\<rparr>"
  have f: "fetch_pending_orders stale limit q = (take limit (sort_key (\<lambda>p. - pd_priority p) (sort_key pd_id
         (filter (\<lambda>p. pd_status p = ''pending'' \<and> pd_attempts p < pd_max p) (pending q1)))), q1)"
    using row by (simp add: fetch_pending_orders_def q1_def Let_def)
  have mem: "x \<in> set t \<Longrightarrow> y = (if P x then g x else x) \<Longrightarrow> y \<in> set (upd_where P g t)" for x y :: pending_row and P g t
    by (simp add: upd_where_def)
  have "p \<in> set (pending (dead_letters q))" unfolding dead_letters_def by simp (rule mem [OF row(1)], use row(4) in simp)
  then have p': "p' \<in> set (pending q1)"
    unfolding q1_def requeue_stale_def p'_def by simp (erule mem, use row in \<open>simp add: dead_letters_def\<close>)
  have "length (pending q1) = length (pending q)" by (simp add: q1_def requeue_stale_def dead_letters_def)
  then have "length (filter (\<lambda>p. pd_status p = ''pending'' \<and> pd_attempts p < pd_max p) (pending q1)) \<le> limit"
    using row(7) by (intro order_trans [OF length_filter_le]) simp
  then show "\<exists>p' \<in> set (fst (fetch_pending_orders stale limit q)). pd_id p' = n \<and> pd_payload p' = pd_payload p"
    using p' row by (intro bexI [of _ p']) (simp_all add: f p'_def)
  show "fst (mark_processing n (snd (fetch_pending_orders stale limit q)))"
    using row(2) by (auto simp: f mark_processing_def count_where_def filter_empty_conv p'_def intro!: bexI [OF _ p'])
qed

text \<open>
  When the row of an executed order cannot be marked as sent, the failure is logged and the ledger is
  written all the same, but the row stays \<open>processing\<close>: once it is stale the order is fetched and claimed
  for another dispatch.
\<close>

theorem unmarked_dispatch_reclaimed:
  fixes s :: "'x floor" and amount :: rat
  assumes mark: "\<not> le_marking e" and q: "q = (fl_queue (record_execution e p ex amount s))\<lparr>clock := now\<rparr>"
    and row: "r \<in> set (pending (fl_queue s))" "pd_id r = n" "pd_status r = ''processing''" "pd_attempts r < pd_max r"
      "pd_updated r < now - stale * second" "0 < stale" "length (pending (fl_queue s)) \<le> limit"
  shows "(\<exists>p' \<in> set (fst (fetch_pending_orders stale limit q)). pd_id p' = n \<and> pd_payload p' = pd_payload r)
     \<and> fst (mark_processing n (snd (fetch_pending_orders stale limit q)))"
proof -
  obtain filled avg where fill: "final_fill e p ex = (filled, avg)" by fastforce
  have "pending q = pending (fl_queue s)" "clock q = now"
    unfolding q record_execution_def fill prod.case Let_def using mark by (simp_all add: case_prod_beta)
  with stale_row_fetched [of r q n stale limit] row show ?thesis by simp
qed

text \<open>C23.  A worker that crashes after the exchange took a market order leaves the attempt \<open>submitted\<close> and the row
  \<open>processing\<close>: once the row is stale it is fetched and claimed again, and then everything depends on
  the adapter.  If it can look up orders by client id and finds this one, nothing is sent; if it
  cannot, the order is placed a second time.\<close>

theorem crash_resubmits:
  assumes start: "log_execution_attempt_start n (oi_client i) t = (False, t1)" "oi_client i \<noteq> []"
    and row: "p \<in> set (pending q)" "pd_id p = n" "pd_status p = ''processing''" "pd_attempts p < pd_max p"
      "pd_updated p < clock q - stale * second" "0 < stale" "length (pending q) \<le> limit"
  shows "let (ps, q1) = fetch_pending_orders stale limit q in
     (\<exists>p' \<in> set ps. pd_id p' = n \<and> pd_payload p' = pd_payload p) \<and> fst (mark_processing n q1)
     \<and> (ad_find a = None \<longrightarrow> submit_market a i n t1 x = (market_execute a i 12 x, t1))
     \<and> (\<forall>search oid x'. ad_find a = Some search \<and> search (oi_client i) x = (Inr (Some oid), x')
          \<longrightarrow> submit_market a i n t1 x = ((Inr (recovered oid), x'), t1))"
  using stale_row_fetched [OF row] started_attempt_found [OF start]
  by (simp add: case_prod_beta Let_def submit_market_def reconcile_market_def)

lemma crash_resubmits_witness:
  "let i = order_intent_of demo_env (demo_row ''market'') (''buy'', ''long'', False) 2 0;
       t1 = snd (log_execution_attempt_start 1 (oi_client i) []);
       q = (fl_queue (demo_floor ''market''))\<lparr>clock := 100 * second\<rparr>; x = snd (ad_market (demo_adapter True) i []) in
     fst (mark_processing 1 (snd (fetch_pending_orders 90 50 q)))
     \<and> snd (fst (submit_market (demo_adapter True) i 1 t1 x)) = [i, i]"
proof -
  let ?i = "order_intent_of demo_env (demo_row ''market'') (''buy'', ''long'', False) 2 0" and ?p = "demo_row ''market''"
  let ?q = "(fl_queue (demo_floor ''market''))\<lparr>clock := 100 * second\<rparr>"
  have c: "oi_client ?i \<noteq> []"
  proof -
    have "make_client_order_id ''okx'' 1 1 ''mkt'' \<noteq> []" by code_simp
    moreover have "\<not> is_limit ?p" "\<not> limit_first demo_env ?p"
      by (simp_all add: limit_first_def order_mode_of_def is_limit_def demo_row_def sent_row_def new_pending_row_def demo_strings)
    ultimately show ?thesis
      by (simp add: order_intent_of_def client_order_id_def demo_env_def demo_row_def sent_row_def new_pending_row_def demo_request_def)
  qed
  then obtain t1 where t1: "log_execution_attempt_start 1 (oi_client ?i) [] = (False, t1)"
    by (simp add: log_execution_attempt_start_def last_attempt_def)
  have "?p \<in> set (pending ?q)" "pd_id ?p = 1" "pd_status ?p = ''processing''" "pd_attempts ?p < pd_max ?p"
      "pd_updated ?p < clock ?q - 90 * second" "(0::int) < 90" "length (pending ?q) \<le> 50"
    by (simp_all add: demo_floor_def demo_row_def sent_row_def new_pending_row_def second_def)
  note cr = crash_resubmits [OF t1 c this, of "demo_adapter True" "[?i]"]
  have "ad_find (demo_adapter True) = None" "ad_market (demo_adapter True) ?i [] = (Inr \<lparr>lo_exchange = ''okx'', lo_oid = ''9'', lo_filled = 0, lo_avg = 0\<rparr>, [?i])"
    "snd (market_execute (demo_adapter True) ?i 12 [?i]) = [?i, ?i]"
    by (simp_all add: demo_adapter_def market_execute_def)
  with cr t1 show ?thesis by (simp add: Let_def case_prod_beta)
qed

end
