(* ===== verification/Stream_Safety.thy ===== *)
theory Stream_Safety
  imports Streams Live_Safety
begin

text \<open>
  What private execution streams post: the quantities of the trades of an order against the quantity
  its row shows, alone and together with the dispatch and the reconciliation of the order.
\<close>

section \<open>Quantities of one event\<close>

lemma near_20:
  assumes "0 \<le> x" "x \<le> 2 ^ 20"
  shows "\<bar>column 8 x - x\<bar> \<le> 6 / 10 ^ 9" and "\<bar>fl x - x\<bar> \<le> 1 / 10 ^ 9" and "fl x \<le> 2 ^ 20" and "column 8 x \<le> 2 ^ 20"
proof -
  have t: "column 8 (2 ^ 20) = 2 ^ 20"
    using column_8_exact [of "2 ^ 20"] dec_of_int [of 8 "2 ^ 20"] by simp
  show "\<bar>column 8 x - x\<bar> \<le> 6 / 10 ^ 9"
    using column_8_near(1) [of x] assms t by (cases "x = 2 ^ 20") simp_all
  have f: "fl (2 ^ 20) = 2 ^ 20" using fl_of_int [of "2 ^ 20"] by simp
  have "\<bar>fl x - x\<bar> \<le> 2 powi (21 - 54)" by (rule fl_error) (use assms in \<open>simp_all add: power_int_def\<close>)
  then show "\<bar>fl x - x\<bar> \<le> 1 / 10 ^ 9" by (simp add: power_int_def power_one_over)
  show "fl x \<le> 2 ^ 20" using fl_mono [OF assms(2)] f by simp
  show "column 8 x \<le> 2 ^ 20" using column.mono [OF assms(2), of 8] t by simp
qed

lemma event_split:
  assumes ev: "event_delta e previous = (delta, target)" and prev: "is_float previous" "0 \<le> previous" and "target \<le> 2 ^ 20"
  shows "0 \<le> delta" "previous \<le> target" "delta \<le> 2 ^ 20" "\<bar>target - (previous + delta)\<bar> \<le> 1 / 10 ^ 9" "is_float delta" "is_float target"
proof -
  define qty where "qty = max 0 (fl (xe_quantity e))"
  define cum where "cum = max 0 (fl (xe_cumulative e))"
  have fl: "is_float qty" "is_float cum" "0 \<le> qty" "0 \<le> cum" by (simp_all add: qty_def cum_def is_float_max)
  have pw: "(2::rat) powi - 32 = 1 / 2 ^ 32" "(2::rat) powi - 33 = 1 / 2 ^ 33" "(2::rat) powi 22 = 2 ^ 22" "(2::rat) powi 21 = 2 ^ 21"
    by (simp_all add: power_int_def power_one_over)
  consider (total) "target = max previous cum" "delta = max 0 (fsub target previous)" | (part) "delta = qty" "target = fadd previous qty"
    using ev by (auto simp: event_delta_def Let_def qty_def cum_def max.commute split: if_splits)
  then have "0 \<le> delta \<and> previous \<le> target \<and> delta \<le> 2 ^ 20 \<and> \<bar>target - (previous + delta)\<bar> \<le> 1 / 10 ^ 9 \<and> is_float delta \<and> is_float target"
  proof cases
    case total
    have t: "is_float target" "previous \<le> target" using prev fl by (simp_all add: total is_float_max)
    then have d: "delta = fsub target previous" using fsub_nonneg [of previous target] by (simp add: total)
    have "\<bar>fsub target previous - (target - previous)\<bar> \<le> 1 / 2 ^ 33"
      using fl_error [of "target - previous" 21] assms(4) t prev by (simp add: fsub_def pw)
    from abs_le_D1 [OF this] abs_le_D2 [OF this]
    have "\<bar>target - (previous + delta)\<bar> \<le> 1 / 10 ^ 9" unfolding d by (intro abs_leI) simp_all
    with t d fsub_nonneg [of previous target] fsub_le [OF t(1) prev(2)] assms(4) show ?thesis by auto
  next
    case part
    have "previous \<le> target" "qty \<le> target"
      using fadd_ge [OF prev(1) fl(3)] fadd_ge [OF fl(1) prev(2)] by (simp_all add: part fadd_def add.commute)
    moreover from this have "\<bar>fadd previous qty - (previous + qty)\<bar> \<le> 1 / 2 ^ 32"
      using fl_error [of "previous + qty" 22] assms(4) prev fl by (simp add: fadd_def pw)
    from abs_le_D1 [OF this] abs_le_D2 [OF this] have "\<bar>target - (previous + delta)\<bar> \<le> 1 / 10 ^ 9"
      unfolding part by (intro abs_leI) simp_all
    ultimately show ?thesis using fl part assms(4) by simp
  qed
  then show "0 \<le> delta" "previous \<le> target" "delta \<le> 2 ^ 20" "\<bar>target - (previous + delta)\<bar> \<le> 1 / 10 ^ 9" "is_float delta" "is_float target"
    by simp_all
qed

section \<open>One event\<close>

text \<open>An event that can be projected onto an order's row.\<close>

definition projects :: "stream_env \<Rightarrow> event_row \<Rightarrow> binding \<Rightarrow> pending_row \<Rightarrow> bool" where
  "projects n r b p = (en_client n \<and> bd_owner_type b = ''pending_order'' \<and> num_int_or (bd_pending b) (bd_owner b) = pd_id p
     \<and> 0 < num_int_or (bd_strategy b) (pd_strategy p) \<and> 0 < event_price (ev_data r) p
     \<and> 0 \<le> pd_filled p \<and> pd_filled p \<le> 2 ^ 20 \<and> snd (event_delta (ev_data r) (fl (pd_filled p))) \<le> 2 ^ 20)"

lemma project_row_simps [simp]:
  "pd_id (project_row e p now) = pd_id p"
  "pd_filled (project_row e p now) = max (pd_filled p) (column 8 (snd (event_delta e (fl (pd_filled p)))))"
  "pd_strategy (project_row e p now) = pd_strategy p" "pd_oid (project_row e p now) = pd_oid p"
  "pd_response (project_row e p now) = pd_response p" "pd_payload (project_row e p now) = pd_payload p"
  by (simp_all add: project_row_def Let_def case_prod_beta)

lemma project_row_step:
  assumes row: "row_of k (pj_queue s) = Some p" and pr: "projects n r b p" and fresh: "\<not> already_projected (ev_id r) (pj_ledger s)"
  defines "s' \<equiv> snd (process_pending_order n r b s)"
  shows "row_of k (pj_queue s') = Some (project_row (ev_data r) p (clock (pj_queue s)))"
    and "en_posting n \<Longrightarrow> \<bar>recorded_quantity k (pj_ledger s') - (recorded_quantity k (pj_ledger s) + fst (event_delta (ev_data r) (fl (pd_filled p))))\<bar> \<le> 7 / 10 ^ 9"
    and "pj_bindings s' = project_binding (ev_data r) (bd_id b) (snd (event_delta (ev_data r) (fl (pd_filled p)))) (pj_bindings s)"
    and "\<not> en_posting n \<Longrightarrow> pj_ledger s' = pj_ledger s"
proof -
  have id: "pd_id p = k" using row by (rule row_of_id)
  obtain delta target where ev: "event_delta (ev_data r) (fl (pd_filled p)) = (delta, target)" by fastforce
  define q1 where "q1 = set_row k (\<lambda>p. project_row (ev_data r) p (clock (pj_queue s))) (pj_queue s)"
  have row1: "row_of k q1 = Some (project_row (ev_data r) p (clock (pj_queue s)))"
    unfolding q1_def using row id by (simp add: row_of_set_row)
  have found: "find (\<lambda>p. pd_id p = k) (pending (pj_queue s)) = Some p" using row by (simp add: row_of_def)
  have t: "target \<le> 2 ^ 20" using pr ev by (simp add: projects_def)
  note d = event_split [OF ev is_float_fl _ t]
  have nn: "0 \<le> fl (pd_filled p)" using pr by (simp add: projects_def fl_nonneg)
  define f where "f = stream_post n r b p"
  have f: "fp_filled f = delta" "lc_pending (fp_leg f) = k" "fp_event f = ev_id r"
    using pr id by (simp_all add: f_def stream_post_def Let_def ev projects_def)
  have s': "row_of k (pj_queue s') = row_of k q1
      \<and> pj_ledger s' = (if en_posting n \<and> fl (1 / 10 ^ 12) < delta then snd (persist_strategy_fill f (q1, pj_ledger s)) else pj_ledger s)
      \<and> pj_bindings s' = project_binding (ev_data r) (bd_id b) target (pj_bindings s)"
    using pr id found unfolding s'_def process_pending_order_def Let_def projects_def
    by (auto simp: ev q1_def f_def case_prod_beta apply_late_fee_def row_of_def)
  then show "row_of k (pj_queue s') = Some (project_row (ev_data r) p (clock (pj_queue s)))"
    and "pj_bindings s' = project_binding (ev_data r) (bd_id b) (snd (event_delta (ev_data r) (fl (pd_filled p)))) (pj_bindings s)"
    and "\<not> en_posting n \<Longrightarrow> pj_ledger s' = pj_ledger s"
    using row1 by (simp_all add: ev)
  assume post: "en_posting n"
  show "\<bar>recorded_quantity k (pj_ledger s') - (recorded_quantity k (pj_ledger s) + fst (event_delta (ev_data r) (fl (pd_filled p))))\<bar> \<le> 7 / 10 ^ 9"
  proof (cases "fl (1 / 10 ^ 12) < delta")
    case True
    have "recorded_quantity k (pj_ledger s') = recorded_quantity k (pj_ledger s) + column 8 delta"
      using persist_trades [of f k "pj_ledger s" q1] True f fresh s' d(1) [OF nn] post
      by (auto simp: already_projected_def list_ex_iff)
    with near_20(1) [OF d(1,3) [OF nn]] show ?thesis by (simp add: ev)
  next
    case False
    have "\<bar>fl (1 / 10 ^ 12) - 1 / 10 ^ 12\<bar> \<le> 2 powi (- 30 - 54)" by (rule fl_error) (simp_all add: power_int_def power_one_over)
    then have "fl (1 / 10 ^ 12) \<le> 6 / 10 ^ 9" using abs_le_D1 by (fastforce simp: power_int_def power_one_over)
    with False s' d(1) [OF nn] show ?thesis by (simp add: ev)
  qed
qed

text \<open>What an event of the order \<open>k\<close> has to have: a client of the exchange, a price, a cumulative quantity.\<close>

definition complete_event :: "string \<Rightarrow> stream_env \<Rightarrow> event_row \<Rightarrow> bool" where
  "complete_event oid n r = (let e = ev_data r in
     en_client n \<and> xe_is_cumulative e \<and> 0 < fl (xe_price e) \<and> xe_cumulative e \<le> 2 ^ 20 \<and> xe_oid e = oid)"

definition serves :: "int \<Rightarrow> binding \<Rightarrow> bool" where
  "serves k b = (bd_owner_type b = ''pending_order'' \<and> num_int_or (bd_pending b) (bd_owner b) = k \<and> 0 < bd_strategy b)"

definition bound_to :: "int \<Rightarrow> exec_event \<Rightarrow> binding list \<Rightarrow> bool" where
  "bound_to k e bs = ((\<exists>b \<in> set bs. binds e b) \<and> (\<forall>b \<in> set bs. binds e b \<longrightarrow> serves k b))"

definition row_filled :: "int \<Rightarrow> queue \<Rightarrow> rat" where
  "row_filled k q = (case row_of k q of None \<Rightarrow> 0 | Some p \<Rightarrow> pd_filled p)"

definition streamed :: "int \<Rightarrow> string \<Rightarrow> (event_row \<Rightarrow> stream_env) \<Rightarrow> event_row list \<Rightarrow> projector \<Rightarrow> bool" where
  "streamed k oid env rs s =
     (row_of k (pj_queue s) \<noteq> None \<and> 0 \<le> row_filled k (pj_queue s) \<and> row_filled k (pj_queue s) \<le> 2 ^ 20
      \<and> distinct (map bd_id (pj_bindings s))
      \<and> (\<forall>r \<in> set rs. complete_event oid (env r) r \<and> bound_to k (ev_data r) (pj_bindings s)))"

lemma mark_event_simps [simp]:
  "pj_queue (mark_event_processed i s) = pj_queue s" "pj_ledger (mark_event_processed i s) = pj_ledger s"
  "pj_bindings (mark_event_processed i s) = pj_bindings s"
  "pj_queue (mark_event_failed i s) = pj_queue s" "pj_ledger (mark_event_failed i s) = pj_ledger s"
  "pj_bindings (mark_event_failed i s) = pj_bindings s"
  by (simp_all add: mark_event_processed_def mark_event_failed_def)

lemma find_binding_bound:
  assumes "bound_to k e (pj_bindings s)"
  shows "\<exists>b \<in> set (pj_bindings s). find_binding e s = Some b \<and> binds e b \<and> serves k b"
proof -
  define c where "c = sort_key (\<lambda>b. if bd_oid b = xe_oid e \<and> xe_oid e \<noteq> [] then 0 else (1::int)) (sort_key (\<lambda>b. - bd_id b) (filter (binds e) (pj_bindings s)))"
  have set: "set c = {b \<in> set (pj_bindings s). binds e b}" by (simp add: c_def)
  have f: "find_binding e s = (case c of [] \<Rightarrow> None | b # _ \<Rightarrow> Some b)" by (simp add: find_binding_def c_def)
  obtain b bs where c: "c = b # bs" using assms set by (cases c) (auto simp: bound_to_def)
  then have "b \<in> set (pj_bindings s)" "binds e b" using set by auto
  with assms f c show ?thesis by (auto simp: bound_to_def)
qed

lemma bound_to_projected:
  assumes b: "bound_to k e (pj_bindings s)" and c: "c \<in> set (pj_bindings s)" "serves k c" and ids: "distinct (map bd_id (pj_bindings s))"
    and oid: "xe_oid e' = xe_oid e"
  shows "bound_to k e (project_binding e' (bd_id c) t (pj_bindings s))"
proof -
  let ?g = "\<lambda>b. b\<lparr>bd_observed := max (bd_observed b) (column 12 t), bd_oid := str_or (xe_oid e') (bd_oid b), bd_status := str_or (xe_status e') ''open''\<rparr>"
  let ?f = "\<lambda>b. if bd_id b = bd_id c then ?g b else b"
  have set: "set (project_binding e' (bd_id c) t (pj_bindings s)) = ?f ` set (pj_bindings s)"
    by (simp add: project_binding_def set_upd_where)
  have "serves k (?f b)" if "b \<in> set (pj_bindings s)" "binds e (?f b)" for b
  proof (cases "bd_id b = bd_id c")
    case True
    then have "b = c" using ids that(1) c(1) by (simp add: distinct_map inj_on_def)
    with c(2) show ?thesis by (simp add: serves_def)
  next
    case False
    then show ?thesis using that b by (auto simp: bound_to_def)
  qed
  moreover have "binds e (?f b)" if "binds e b" for b using that oid by (auto simp: binds_def str_or_def)
  ultimately show ?thesis using b unfolding bound_to_def set by blast
qed

lemma process_event_bound:
  fixes n :: stream_env and s :: projector
  assumes "find_binding (ev_data r) s = Some b" and "serves k b" and "\<not> already_projected (ev_id r) (pj_ledger s)"
  defines "s' \<equiv> process_event n r s" and "t \<equiv> snd (process_pending_order n r b s)"
  shows "pj_queue s' = pj_queue t" "pj_ledger s' = pj_ledger t" "pj_bindings s' = pj_bindings t"
  using assms(1-3) by (auto simp: s'_def t_def process_event_def resolve_binding_def serves_def case_prod_beta)

lemma streamed_projects:
  assumes s: "streamed k oid env (r # rs) s" and p: "row_of k (pj_queue s) = Some p"
  shows "\<exists>b \<in> set (pj_bindings s). find_binding (ev_data r) s = Some b \<and> serves k b \<and> projects (env r) r b p"
    and "snd (event_delta (ev_data r) (fl (pd_filled p))) = max (fl (pd_filled p)) (fl (xe_cumulative (ev_data r)))"
proof -
  have fil: "0 \<le> pd_filled p" "pd_filled p \<le> 2 ^ 20" using s p by (simp_all add: streamed_def row_filled_def)
  have e: "complete_event oid (env r) r" and bd: "bound_to k (ev_data r) (pj_bindings s)" using s by (simp_all add: streamed_def)
  have f20: "fl (2 ^ 20) = 2 ^ 20" using fl_of_int [of "2 ^ 20"] by simp
  have "fl (xe_cumulative (ev_data r)) \<le> 2 ^ 20"
    using e fl_mono [of "xe_cumulative (ev_data r)" "2 ^ 20"] f20 by (simp add: complete_event_def Let_def)
  moreover show t: "snd (event_delta (ev_data r) (fl (pd_filled p))) = max (fl (pd_filled p)) (fl (xe_cumulative (ev_data r)))"
    using e fl_nonneg [OF fil(1)] by (auto simp: event_delta_def complete_event_def Let_def)
  ultimately have "snd (event_delta (ev_data r) (fl (pd_filled p))) \<le> 2 ^ 20" using near_20(3) [OF fil] by simp
  then show "\<exists>b \<in> set (pj_bindings s). find_binding (ev_data r) s = Some b \<and> serves k b \<and> projects (env r) r b p"
    using find_binding_bound [OF bd] e fil row_of_id [OF p]
    by (fastforce simp: projects_def complete_event_def serves_def event_price_def num_or_def num_int_or_def Let_def)
qed

lemma streamed_step:
  assumes s: "streamed k oid env (r # rs) s"
  defines "s' \<equiv> process_event (env r) r s"
  shows "streamed k oid env rs s'"
    and "en_posting (env r) \<Longrightarrow> \<bar>(recorded_quantity k (pj_ledger s') - recorded_quantity k (pj_ledger s)) - (row_filled k (pj_queue s') - row_filled k (pj_queue s))\<bar> \<le> 2 / 10 ^ 8"
    and "row_filled k (pj_queue s) \<le> row_filled k (pj_queue s')"
    and "\<not> already_projected (ev_id r) (pj_ledger s) \<Longrightarrow>
      row_filled k (pj_queue s') = max (row_filled k (pj_queue s)) (column 8 (max (fl (row_filled k (pj_queue s))) (fl (xe_cumulative (ev_data r)))))"
    and "\<not> en_posting (env r) \<Longrightarrow> pj_ledger s' = pj_ledger s"
    and "map_option pd_response (row_of k (pj_queue s')) = map_option pd_response (row_of k (pj_queue s))"
proof -
  let ?e = "ev_data r"
  let ?goal = "streamed k oid env rs s'
    \<and> (en_posting (env r) \<longrightarrow> \<bar>(recorded_quantity k (pj_ledger s') - recorded_quantity k (pj_ledger s)) - (row_filled k (pj_queue s') - row_filled k (pj_queue s))\<bar> \<le> 2 / 10 ^ 8)
    \<and> row_filled k (pj_queue s) \<le> row_filled k (pj_queue s')
    \<and> (\<not> already_projected (ev_id r) (pj_ledger s) \<longrightarrow>
         row_filled k (pj_queue s') = max (row_filled k (pj_queue s)) (column 8 (max (fl (row_filled k (pj_queue s))) (fl (xe_cumulative ?e)))))
    \<and> (\<not> en_posting (env r) \<longrightarrow> pj_ledger s' = pj_ledger s)
    \<and> map_option pd_response (row_of k (pj_queue s')) = map_option pd_response (row_of k (pj_queue s))"
  have ?goal
  proof (cases "already_projected (ev_id r) (pj_ledger s)")
    case True
    then have "s' = mark_event_processed (ev_id r) s" by (simp add: s'_def process_event_def)
    with True s show ?thesis by (simp add: streamed_def)
  next
    case False
    obtain p where p: "row_of k (pj_queue s) = Some p" using s by (auto simp: streamed_def)
    have fil: "row_filled k (pj_queue s) = pd_filled p" "0 \<le> pd_filled p" "pd_filled p \<le> 2 ^ 20"
      using s p by (simp_all add: streamed_def row_filled_def)
    have e: "complete_event oid (env r) r" using s by (simp add: streamed_def)
    obtain b where b: "b \<in> set (pj_bindings s)" "find_binding ?e s = Some b" "serves k b" and pr: "projects (env r) r b p"
      using streamed_projects(1) [OF s p] by blast
    obtain delta target where ev: "event_delta ?e (fl (pd_filled p)) = (delta, target)" by fastforce
    have t: "target \<le> 2 ^ 20" "target = max (fl (pd_filled p)) (fl (xe_cumulative ?e))"
      using pr streamed_projects(2) [OF s p] by (simp_all add: projects_def ev)
    define s1 where "s1 = snd (process_pending_order (env r) r b s)"
    note same = process_event_bound [OF b(2,3) False, of "env r", folded s'_def s1_def]
    note st = project_row_step [OF p pr False, folded s1_def, unfolded ev fst_conv snd_conv]
    have row: "row_filled k (pj_queue s') = max (pd_filled p) (column 8 target)" using st(1) by (simp add: same row_filled_def ev)
    note d = event_split [OF ev is_float_fl fl_nonneg [OF fil(2)] t(1)]
    have t0: "0 \<le> target" using d(2) fl_nonneg [OF fil(2)] by linarith
    have bs: "distinct (map bd_id (pj_bindings s'))"
      using s unfolding same st(3) project_binding_def by (subst map_upd_where_same) (simp_all add: streamed_def)
    have "bound_to k (ev_data r') (pj_bindings s')" "complete_event oid (env r') r'" if "r' \<in> set rs" for r'
    proof -
      have r': "bound_to k (ev_data r') (pj_bindings s)" "complete_event oid (env r') r'" using s that by (simp_all add: streamed_def)
      have "xe_oid ?e = xe_oid (ev_data r')" using e r'(2) by (simp add: complete_event_def Let_def)
      moreover have "distinct (map bd_id (pj_bindings s))" using s by (simp add: streamed_def)
      ultimately show "bound_to k (ev_data r') (pj_bindings s')" unfolding same st(3)
        by (intro bound_to_projected [OF r'(1) b(1,3)]) simp_all
      show "complete_event oid (env r') r'" by (rule r'(2))
    qed
    moreover have "row_of k (pj_queue s') \<noteq> None" using st(1) by (simp add: same)
    moreover have "0 \<le> row_filled k (pj_queue s')" "row_filled k (pj_queue s') \<le> 2 ^ 20"
      using fil near_20(4) [OF t0 t(1)] by (simp_all add: row)
    ultimately have "streamed k oid env rs s'" using bs by (simp add: streamed_def)
    moreover have "\<bar>(recorded_quantity k (pj_ledger s') - recorded_quantity k (pj_ledger s)) - (max (pd_filled p) (column 8 target) - pd_filled p)\<bar> \<le> 2 / 10 ^ 8"
      if post: "en_posting (env r)" using abs_le_D1 [OF st(2) [OF post]] abs_le_D2 [OF st(2) [OF post]] abs_le_D1 [OF d(4)] abs_le_D2 [OF d(4)] d(1)
        abs_le_D1 [OF near_20(1) [OF t0 t(1)]] abs_le_D2 [OF near_20(1) [OF t0 t(1)]]
        abs_le_D1 [OF near_20(2) [OF fil(2,3)]] abs_le_D2 [OF near_20(2) [OF fil(2,3)]]
      unfolding same by (intro abs_leI; cases "pd_filled p \<le> column 8 target") (simp_all add: max.absorb1 max.absorb2)
    moreover have "\<not> en_posting (env r) \<Longrightarrow> pj_ledger s' = pj_ledger s" using st(4) by (simp add: same)
    moreover have "map_option pd_response (row_of k (pj_queue s')) = map_option pd_response (row_of k (pj_queue s))"
      using st(1) p by (simp add: same)
    ultimately show ?thesis using t(2) unfolding row fil(1) by simp
  qed
  then show "streamed k oid env rs s'"
    and "en_posting (env r) \<Longrightarrow> \<bar>(recorded_quantity k (pj_ledger s') - recorded_quantity k (pj_ledger s)) - (row_filled k (pj_queue s') - row_filled k (pj_queue s))\<bar> \<le> 2 / 10 ^ 8"
    and "row_filled k (pj_queue s) \<le> row_filled k (pj_queue s')"
    and "\<not> already_projected (ev_id r) (pj_ledger s) \<Longrightarrow>
      row_filled k (pj_queue s') = max (row_filled k (pj_queue s)) (column 8 (max (fl (row_filled k (pj_queue s))) (fl (xe_cumulative ?e))))"
    and "\<not> en_posting (env r) \<Longrightarrow> pj_ledger s' = pj_ledger s"
    and "map_option pd_response (row_of k (pj_queue s')) = map_option pd_response (row_of k (pj_queue s))"
    by simp_all
qed

section \<open>Many events\<close>

lemma events_posted:
  assumes "streamed k oid env rs s" and "\<forall>r \<in> set rs. en_posting (env r)"
  defines "s' \<equiv> process_events env rs s"
  shows "\<bar>(recorded_quantity k (pj_ledger s') - recorded_quantity k (pj_ledger s)) - (row_filled k (pj_queue s') - row_filled k (pj_queue s))\<bar>
      \<le> of_nat (length rs) * (2 / 10 ^ 8)"
    and "row_filled k (pj_queue s) \<le> row_filled k (pj_queue s')"
    and "streamed k oid env [] s'"
    and "map_option pd_response (row_of k (pj_queue s')) = map_option pd_response (row_of k (pj_queue s))"
proof -
  have "\<bar>(recorded_quantity k (pj_ledger (process_events env rs s)) - recorded_quantity k (pj_ledger s))
        - (row_filled k (pj_queue (process_events env rs s)) - row_filled k (pj_queue s))\<bar> \<le> of_nat (length rs) * (2 / 10 ^ 8)
      \<and> row_filled k (pj_queue s) \<le> row_filled k (pj_queue (process_events env rs s))
      \<and> streamed k oid env [] (process_events env rs s)
      \<and> map_option pd_response (row_of k (pj_queue (process_events env rs s))) = map_option pd_response (row_of k (pj_queue s))"
    using assms(1,2)
  proof (induction rs arbitrary: s)
    case Nil
    then show ?case by simp
  next
    case (Cons r rs)
    define t where "t = process_event (env r) r s"
    note st = streamed_step [OF Cons.prems(1), folded t_def]
    have post: "en_posting (env r)" using Cons.prems(2) by simp
    have eq: "process_events env (r # rs) s = process_events env rs t" by (simp add: t_def)
    have "\<forall>r \<in> set rs. en_posting (env r)" using Cons.prems(2) by simp
    note ih = Cons.IH [OF st(1) this]
    have "\<bar>(recorded_quantity k (pj_ledger (process_events env rs t)) - recorded_quantity k (pj_ledger s))
        - (row_filled k (pj_queue (process_events env rs t)) - row_filled k (pj_queue s))\<bar> \<le> of_nat (length (r # rs)) * (2 / 10 ^ 8)"
      using abs_le_D1 [OF st(2) [OF post]] abs_le_D2 [OF st(2) [OF post]] abs_le_D1 [OF conjunct1 [OF ih]] abs_le_D2 [OF conjunct1 [OF ih]]
      unfolding length_Cons of_nat_Suc distrib_right mult_1 by (intro abs_leI) simp_all
    then show ?case using ih st(3,6) unfolding eq by simp
  qed
  then show "\<bar>(recorded_quantity k (pj_ledger s') - recorded_quantity k (pj_ledger s)) - (row_filled k (pj_queue s') - row_filled k (pj_queue s))\<bar>
      \<le> of_nat (length rs) * (2 / 10 ^ 8)"
    and "row_filled k (pj_queue s) \<le> row_filled k (pj_queue s')"
    and "streamed k oid env [] s'"
    and "map_option pd_response (row_of k (pj_queue s')) = map_option pd_response (row_of k (pj_queue s))"
    unfolding s'_def by blast+
qed

text \<open>C25.  The private stream posts what the order's row gains: over any sequence of cumulative events of an order that
  bind to it, replays and late events among them, the trades of the order grow by the growth of the
  filled quantity of its row, up to two units of the last place per event; that quantity never
  decreases, and an event seen for the first time raises it to the event's cumulative quantity.\<close>

theorem stream_posts_in_full:
  assumes "streamed k oid env rs s" and "\<forall>r \<in> set rs. en_posting (env r)"
  shows "let s' = process_events env rs s in
     \<bar>(recorded_quantity k (pj_ledger s') - recorded_quantity k (pj_ledger s)) - (row_filled k (pj_queue s') - row_filled k (pj_queue s))\<bar>
       \<le> of_nat (length rs) * (2 / 10 ^ 8)
     \<and> row_filled k (pj_queue s) \<le> row_filled k (pj_queue s')
     \<and> (\<forall>r rs'. rs = r # rs' \<and> \<not> already_projected (ev_id r) (pj_ledger s) \<longrightarrow>
          column 8 (fl (xe_cumulative (ev_data r))) \<le> row_filled k (pj_queue s'))"
proof -
  have "column 8 (fl (xe_cumulative (ev_data r))) \<le> row_filled k (pj_queue (process_events env rs s))"
    if "rs = r # rs'" "\<not> already_projected (ev_id r) (pj_ledger s)" for r rs'
  proof -
    note s = assms(1) [unfolded that(1)]
    have "column 8 (fl (xe_cumulative (ev_data r))) \<le> row_filled k (pj_queue (process_event (env r) r s))"
      unfolding streamed_step(4) [OF s that(2)] by (intro max.coboundedI2 column.mono) simp
    also have "\<dots> \<le> row_filled k (pj_queue (process_events env rs' (process_event (env r) r s)))"
      using events_posted(2) [OF streamed_step(1) [OF s]] assms(2) that(1) by simp
    finally show ?thesis by (simp add: that(1))
  qed
  with events_posted(1,2) [OF assms] show ?thesis unfolding Let_def by blast
qed

text \<open>An order of two units bought on OKX, its binding and an event of its stream.\<close>

definition demo_binding :: binding where
  "demo_binding = \<lparr>bd_id = 1, bd_credential = 1, bd_exchange = ''okx'', bd_market = ''swap'', bd_owner_type = ''pending_order'',
     bd_owner = 1, bd_strategy = 1, bd_pending = 1, bd_run = 0, bd_intent = 0, bd_symbol = ''BTC/USDT'',
     bd_signal = ''open_long'', bd_client = [], bd_oid = ''77'', bd_observed = 0, bd_status = ''open''\<rparr>"

definition demo_event :: "int \<Rightarrow> rat \<Rightarrow> rat \<Rightarrow> bool \<Rightarrow> event_row" where
  "demo_event i quantity cumulative c = \<lparr>ev_id = i, ev_key = Fill_Key ''okx'' 1 ''swap'' ''77'' ''t'',
     ev_data = \<lparr>xe_exchange = ''okx'', xe_market = ''swap'', xe_symbol = ''BTC/USDT'', xe_oid = ''77'', xe_client = [], xe_fill = ''t'',
       xe_status = ''partial'', xe_price = 1, xe_quantity = quantity, xe_cumulative = cumulative, xe_is_cumulative = c,
       xe_pnl = None, xe_occurred = 0, xe_fees = [], xe_credential = 1\<rparr>,
     ev_received = 0, ev_processed = False, ev_attempts = 0\<rparr>"

definition demo_stream :: "bool \<Rightarrow> stream_env" where
  "demo_stream posting = \<lparr>en_legacy = None, en_client = True, en_leg = sync_leg, en_posting = posting, en_other = True\<rparr>"

definition demo_projector :: "queue \<Rightarrow> ledger \<Rightarrow> projector" where
  "demo_projector q l = \<lparr>pj_events = [], pj_next_event = 9, pj_bindings = [demo_binding], pj_next_binding = 2,
     pj_fee_done = [], pj_queue = q, pj_ledger = l\<rparr>"

lemma demo_binds: "binds (ev_data (demo_event i q c b)) demo_binding"
proof -
  have "py_lower ''okx'' = ''okx''" "py_lower ''swap'' = ''swap''" by code_simp+
  then show ?thesis by (simp add: binds_def demo_event_def demo_binding_def)
qed

lemma demo_serves: "serves 1 demo_binding"
  by (simp add: serves_def demo_binding_def num_int_or_def)

lemma demo_find: "find_binding (ev_data (demo_event i q c b)) (demo_projector qu l) = Some demo_binding"
  by (simp add: find_binding_def demo_projector_def demo_binds)

definition demo_covers :: "event_row \<Rightarrow> bool" where
  "demo_covers r = (\<exists>i q c n. r = (demo_event i q c True)\<lparr>ev_attempts := n\<rparr> \<and> c \<le> 2)"

lemma demo_covered:
  assumes "c \<le> 2" shows "demo_covers ((demo_event i q c True)\<lparr>ev_attempts := n\<rparr>)" "demo_covers (demo_event i q c True)"
proof -
  show c: "demo_covers ((demo_event i q c True)\<lparr>ev_attempts := n\<rparr>)" for n using assms unfolding demo_covers_def by blast
  show "demo_covers (demo_event i q c True)" using c [of 0] by (simp add: demo_event_def)
qed

lemma demo_streamed:
  assumes "\<forall>r \<in> set rs. demo_covers r" and "0 \<le> f" and "f \<le> 2"
    and "\<forall>r. en_client (env r)"
  shows "streamed 1 ''77'' env rs (demo_projector (sent_queue f avg resp) l)"
proof -
  have "complete_event ''77'' (env r) r \<and> bound_to 1 (ev_data r) [demo_binding]" if r: "r \<in> set rs" for r
  proof -
    obtain i q c n where "r = (demo_event i q c True)\<lparr>ev_attempts := n\<rparr>" "c \<le> 2" using assms(1) r by (auto simp: demo_covers_def)
    moreover from this have "c \<le> 2 ^ 20" by (elim order_trans) simp
    ultimately show ?thesis using \<open>\<forall>r. en_client (env r)\<close> demo_binds demo_serves
      by (auto simp: complete_event_def bound_to_def demo_event_def)
  qed
  moreover have "row_filled 1 (sent_queue f avg resp) = f" by (simp add: row_filled_def sent_row_of) (simp add: sent_row_def)
  moreover have "f \<le> 2 ^ 20" using assms(3) by (rule order_trans) simp
  ultimately show ?thesis using assms(2) by (simp add: streamed_def demo_projector_def sent_row_of)
qed

lemma stream_posts_in_full_witness:
  "let s' = process_events (\<lambda>_. demo_stream True) [demo_event 1 1 1 True, demo_event 2 1 2 True, demo_event 1 1 1 True]
              (demo_projector (sent_queue 0 0 (Phases None)) empty_ledger) in
     \<bar>recorded_quantity 1 (pj_ledger s') - row_filled 1 (pj_queue s')\<bar> \<le> 6 / 10 ^ 8 \<and> 1 \<le> row_filled 1 (pj_queue s')"
proof -
  let ?rs = "[demo_event 1 1 1 True, demo_event 2 1 2 True, demo_event 1 1 1 True]"
  let ?s = "demo_projector (sent_queue 0 0 (Phases None)) empty_ledger"
  have "streamed 1 ''77'' (\<lambda>_. demo_stream True) ?rs ?s"
    by (rule demo_streamed) (simp_all add: demo_stream_def demo_covered)
  note th = stream_posts_in_full [OF this]
  have "column 8 (fl 1) = 1" using column_8_exact [of 1] dec_of_int [of 8 1] by simp
  moreover have "xe_cumulative (ev_data (demo_event 1 1 1 True)) = 1" by (simp add: demo_event_def)
  moreover have "\<not> already_projected (ev_id (demo_event 1 1 1 True)) empty_ledger"
    by (simp add: already_projected_def empty_ledger_def)
  moreover have "row_filled 1 (pj_queue ?s) = 0" "recorded_quantity 1 (pj_ledger ?s) = 0" "pj_ledger ?s = empty_ledger"
    by (simp_all add: demo_projector_def row_filled_def sent_row_of recorded_quantity_def empty_ledger_def) (simp add: sent_row_def)
  moreover have "\<forall>r \<in> set ?rs. en_posting (demo_stream True)" by (simp add: demo_stream_def)
  ultimately show ?thesis using th by (simp add: Let_def del: process_events.simps)
qed

section \<open>The stream beside the other posters\<close>

text \<open>An exchange whose stream reports single fills only: a quantity the dispatch of an order has recorded is
  posted a second time when the stream's event for it is projected, the trades of the order come to
  twice its fill.\<close>

theorem noncumulative_event_doubles:
  fixes s :: "'x floor" and amount :: rat
  assumes row: "row_of n (fl_queue s) = Some p0" "pd_filled p0 = 0" and p: "pd_id p = n" "0 < n"
    and none: "recorded_quantity n (fl_ledger s) = 0" and mark: "le_marking e" and post: "le_posting e \<in> {Booked, Booked_Unlogged}"
    and fill: "final_fill e p ex = (filled, avg)" "is_float filled" "0 \<le> filled" "filled \<le> 2 ^ 18" "0 < avg"
    and leg: "ex_market_leg ex = None"
    and t: "pj_queue t = fl_queue (record_execution e p ex amount s)" "pj_ledger t = fl_ledger (record_execution e p ex amount s)"
    and b: "find_binding (ev_data r) t = Some b" "serves n b"
    and env: "en_client g" "en_posting g"
    and r: "0 < fl (xe_price (ev_data r))" "\<not> xe_is_cumulative (ev_data r)" "xe_cumulative (ev_data r) = 0"
      "fl (xe_quantity (ev_data r)) = filled" "\<not> already_projected (ev_id r) (pj_ledger t)"
  shows "\<bar>recorded_quantity n (pj_ledger (process_event g r t)) - 2 * filled\<bar> \<le> 4 / 10 ^ 8"
proof -
  have f20: "filled \<le> 2 ^ 20" "filled < 2 ^ 20" using fill(4) by simp_all
  obtain p1 where p1: "row_of n (pj_queue t) = Some p1" "pd_filled p1 = column 8 filled"
    using row_recorded [OF row(1) p(1) mark fill(1), of amount] row(2) fill(3) t by (auto simp: column.nonneg max.absorb2)
  have tr: "tracked n (pj_queue t) = fl (column 8 filled)"
    using tracked_recorded [OF row(1) p(1) mark fill(1), of amount] leg row(2) fill(3) t by (simp add: column.nonneg fl_nonneg max.absorb2)
  have "\<bar>recorded_quantity n (pj_ledger t) - (first_leg ex filled + tracked n (pj_queue t))\<bar> \<le> 2 / 10 ^ 8"
    unfolding t by (rule record_execution_near [OF row p none mark post fill(1-3) f20(2) fill(5)]) (simp_all add: leg)
  then have rec: "\<bar>recorded_quantity n (pj_ledger t) - fl (column 8 filled)\<bar> \<le> 2 / 10 ^ 8" using leg tr by (simp add: first_leg_def)
  note c = near_20 [OF fill(3) f20(1)]
  have c0: "0 \<le> column 8 filled" using fill(3) by (rule column.nonneg)
  note d = near_20 [OF c0 c(4)]
  have ev: "event_delta (ev_data r) (fl (pd_filled p1)) = (filled, fadd (fl (column 8 filled)) filled)"
    using r fill(3) by (simp add: event_delta_def p1)
  have "fl (column 8 filled) \<le> 2 ^ 19"
    using abs_le_D1 [OF c(1)] abs_le_D1 [OF d(2)] fill(4) by simp
  then have "fadd (fl (column 8 filled)) filled \<le> fl (2 ^ 20)" unfolding fadd_def using fill(4) by (intro fl_mono) simp
  also have "\<dots> = 2 ^ 20" using fl_of_int [of "2 ^ 20"] by simp
  finally have tgt: "fadd (fl (column 8 filled)) filled \<le> 2 ^ 20" .
  have pr: "projects g r b p1"
    using env b(2) r(1) row_of_id [OF p1(1)] p1(2) c0 c(4) tgt
    by (auto simp: projects_def serves_def event_price_def num_or_def num_int_or_def ev [unfolded p1(2)])
  note st = project_row_step(2) [OF p1(1) pr r(5) env(2), unfolded ev fst_conv]
  show ?thesis
    unfolding process_event_bound [OF b r(5)] using abs_le_D1 [OF st] abs_le_D2 [OF st] abs_le_D1 [OF rec] abs_le_D2 [OF rec]
      abs_le_D1 [OF c(1)] abs_le_D2 [OF c(1)] abs_le_D1 [OF d(2)] abs_le_D2 [OF d(2)]
    by (intro abs_leI) simp_all
qed

text \<open>The event ids of the trades a dispatch and a posting leave behind.\<close>

lemma persist_events:
  "tr_event ` set (trades (snd (persist_strategy_fill f (q, l)))) \<subseteq> insert (fp_event f) (tr_event ` set (trades l))"
  by (auto simp: persist_strategy_fill_def Let_def case_prod_beta record_trade_def)

lemma post_fill_events: "tr_event ` set (trades (snd (post_fill w f ql))) \<subseteq> insert (fp_event f) (tr_event ` set (trades (snd ql)))"
  using persist_events [of f "fst ql" "snd ql"] by (cases w) (auto simp: post_fill_def case_prod_beta)

lemma record_events:
  fixes s :: "'x floor" and amount :: rat
  shows "tr_event ` set (trades (fl_ledger (record_execution e p ex amount s))) \<subseteq> insert 0 (tr_event ` set (trades (fl_ledger s)))"
proof -
  obtain filled avg where fill: "final_fill e p ex = (filled, avg)" by fastforce
  have "fp_event (posted_fill e p ex a b c) = 0" for a b c by (simp add: posted_fill_def Let_def)
  then have "tr_event ` set (trades (snd (post_fill (le_posting e) (posted_fill e p ex a b c) ql))) \<subseteq> insert 0 (tr_event ` set (trades (snd ql)))"
    for a b c ql using post_fill_events [of "le_posting e" "posted_fill e p ex a b c" ql] by simp
  from this [where ql = "(q, fl_ledger s)" for q] show ?thesis
    unfolding record_execution_def fill prod.case Let_def by (simp add: case_prod_beta subset_insertI)
qed

lemma noncumulative_event_doubles_witness:
  "let s' = record_execution demo_env (demo_row ''market'') demo_execution 2 (demo_floor ''market'');
       t = demo_projector (fl_queue s') (fl_ledger s') in
     \<bar>recorded_quantity 1 (pj_ledger (process_event (demo_stream True) (demo_event 1 1 0 False) t)) - 2\<bar> \<le> 4 / 10 ^ 8"
proof -
  let ?s' = "record_execution demo_env (demo_row ''market'') demo_execution 2 (demo_floor ''market'')"
  let ?t = "demo_projector (fl_queue ?s') (fl_ledger ?s')"
  note row = demo_row_of(1-3) [of "''market''"] and none = demo_row_of(4) [of "''market''"] and fill = demo_final_fill [of "''market''"]
  have mark: "le_marking demo_env" and post: "le_posting demo_env \<in> {Booked, Booked_Unlogged}"
    and leg: "ex_market_leg demo_execution = None" by (simp_all add: demo_env_def demo_execution_def)
  have t: "pj_queue ?t = fl_queue ?s'" "pj_ledger ?t = fl_ledger ?s'" by (simp_all add: demo_projector_def)
  have "tr_event ` set (trades (fl_ledger ?s')) \<subseteq> {0}"
    using record_events [of demo_env "demo_row ''market''" demo_execution 2 "demo_floor ''market''"]
    by (simp add: demo_floor_def empty_ledger_def)
  then have fresh: "\<not> already_projected (ev_id (demo_event 1 1 0 False)) (pj_ledger ?t)"
    unfolding t(2) by (auto simp: already_projected_def list_ex_iff demo_event_def)
  show ?thesis
    using noncumulative_event_doubles [OF row(1-3) _ none mark post fill _ _ _ _ leg t demo_find demo_serves _ _ _ _ _ _ fresh, of "demo_stream True"]
    by (simp add: demo_stream_def demo_event_def Let_def)
qed

text \<open>C26.  Stream and reconciliation count apart: once a round of reconciliation has stored its report \<open>t\<close>, a partial
  fill up to \<open>c\<close> that the private stream posts is posted again by the next round that reports \<open>c\<close>,
  since the projection moves the filled quantity of the row and not the tracked one.\<close>

theorem stream_and_poll_post_twice:
  assumes s: "streamed k oid env [r] s" and post: "en_posting (env r)" and fresh: "\<not> already_projected (ev_id r) (pj_ledger s)"
    and ready: "sync_ready retry missing k (pj_queue s) p" and sent: "pd_status p = ''sent''" and resp: "pd_response p = Fill_Sync t a"
    and st: "xe_status (ev_data r) \<noteq> ''filled''" and c: "fl (xe_cumulative (ev_data r)) = c" "fl (pd_filled p) \<le> c" "t \<le> c"
    and e: "priced e c"
  shows "let s1 = process_event (env r) r s;
             ql = sync_one_live_sent_order e retry missing k (pj_queue s1, pj_ledger s1) in
     \<bar>(recorded_quantity k (snd ql) - recorded_quantity k (pj_ledger s)) - ((c - pd_filled p) + (c - max 0 t))\<bar> \<le> 6 / 10 ^ 8"
proof -
  have p: "row_of k (pj_queue s) = Some p" using ready by (simp add: sync_ready_def)
  obtain b where b: "find_binding (ev_data r) s = Some b" "serves k b" and pr: "projects (env r) r b p"
    using streamed_projects(1) [OF s p] by blast
  define s1 where "s1 = process_event (env r) r s"
  note same = process_event_bound [OF b fresh, of "env r", folded s1_def]
  have tgt: "snd (event_delta (ev_data r) (fl (pd_filled p))) = c" using streamed_projects(2) [OF s p] c by simp
  then obtain delta where ev: "event_delta (ev_data r) (fl (pd_filled p)) = (delta, c)" by (metis prod.collapse)
  note row = project_row_step [OF p pr fresh, folded same]
  let ?p1 = "project_row (ev_data r) p (clock (pj_queue s))"
  have fil: "0 \<le> pd_filled p" "pd_filled p \<le> 2 ^ 20" "c \<le> 2 ^ 20" using pr ev by (simp_all add: projects_def)
  have p1: "pd_status ?p1 = ''sent''" "pd_exchange ?p1 = pd_exchange p" "pd_symbol ?p1 = pd_symbol p"
    using sent st by (simp_all add: project_row_def Let_def case_prod_beta)
  have "sync_ready retry missing k (pj_queue s1) ?p1"
    using ready row(1) p1 by (simp add: sync_ready_def live_syncable_def syncable_def order_symbol_def)
  note r1 = ready_priced_round [OF this e, of "pj_ledger s1"]
  have tr: "tracked k (pj_queue s1) = max 0 t"
    using row(1) resp by (simp add: tracked_def row_baseline_def tracked_fill_baseline_def)
  have c0: "0 \<le> c" using e by (simp add: priced_def)
  define ql where "ql = sync_one_live_sent_order e retry missing k (pj_queue s1, pj_ledger s1)"
  have "\<bar>(recorded_quantity k (snd ql) - recorded_quantity k (pj_ledger s1)) - (tracked k (fst ql) - tracked k (pj_queue s1))\<bar> \<le> 2 / 10 ^ 8"
    using sync_one_step [OF e, where n = k and q = "pj_queue s1" and l = "pj_ledger s1" and retry = retry and missing = missing] tr c(3) c0 by (simp add: ql_def)
  moreover have "tracked k (fst ql) = c" using r1 tr c(3) c0 by (simp add: ql_def)
  ultimately have poll: "\<bar>(recorded_quantity k (snd ql) - recorded_quantity k (pj_ledger s1)) - (c - max 0 t)\<bar> \<le> 2 / 10 ^ 8" using tr by simp
  note d = event_split [OF ev is_float_fl fl_nonneg [OF fil(1)] fil(3)]
  have rec: "\<bar>recorded_quantity k (pj_ledger s1) - (recorded_quantity k (pj_ledger s) + delta)\<bar> \<le> 7 / 10 ^ 9"
    using row(2) [OF post] by (simp add: ev)
  have "\<bar>(recorded_quantity k (snd ql) - recorded_quantity k (pj_ledger s)) - ((c - pd_filled p) + (c - max 0 t))\<bar> \<le> 6 / 10 ^ 8"
    using abs_le_D1 [OF rec] abs_le_D2 [OF rec] abs_le_D1 [OF poll] abs_le_D2 [OF poll] abs_le_D1 [OF d(4)] abs_le_D2 [OF d(4)]
      abs_le_D1 [OF near_20(2) [OF fil(1,2)]] abs_le_D2 [OF near_20(2) [OF fil(1,2)]]
    by (intro abs_leI) simp_all
  then show ?thesis by (simp add: Let_def ql_def s1_def)
qed

lemma stream_and_poll_post_twice_witness:
  "let s = demo_projector (sent_queue 1 10 (Fill_Sync 1 10)) empty_ledger;
       s1 = process_event (demo_stream True) (demo_event 1 1 2 True) s;
       ql = sync_one_live_sent_order (demo_report 2 10) 300 (\<lambda>_. False) 1 (pj_queue s1, pj_ledger s1) in
     \<bar>recorded_quantity 1 (snd ql) - 2\<bar> \<le> 6 / 10 ^ 8"
proof -
  let ?q = "sent_queue 1 10 (Fill_Sync 1 10)" and ?r = "demo_event 1 1 2 True"
  have s: "streamed 1 ''77'' (\<lambda>_. demo_stream True) [?r] (demo_projector ?q empty_ledger)"
    by (rule demo_streamed) (simp_all add: demo_stream_def demo_covered)
  have fresh: "\<not> already_projected (ev_id ?r) (pj_ledger (demo_projector ?q empty_ledger))"
    by (simp add: already_projected_def demo_projector_def empty_ledger_def)
  have ready: "sync_ready 300 (\<lambda>_. False) 1 (pj_queue (demo_projector ?q empty_ledger)) (sent_row 1 10 (Fill_Sync 1 10))"
    using demo_ready by (simp add: demo_projector_def)
  have row: "pd_status (sent_row 1 10 (Fill_Sync 1 10)) = ''sent''" "pd_response (sent_row 1 10 (Fill_Sync 1 10)) = Fill_Sync 1 10"
    "pd_filled (sent_row 1 10 (Fill_Sync 1 10)) = 1"
    by (simp_all add: sent_row_def)
  have ev: "xe_status (ev_data ?r) \<noteq> ''filled''" "fl (xe_cumulative (ev_data ?r)) = 2"
    using fl_numeral [of "num.Bit0 num.One"] by (simp_all add: demo_event_def)
  have l: "recorded_quantity 1 (pj_ledger (demo_projector ?q empty_ledger)) = 0"
    by (simp add: recorded_quantity_def empty_ledger_def demo_projector_def)
  have "en_posting (demo_stream True)" by (simp add: demo_stream_def)
  then show ?thesis
    using stream_and_poll_post_twice [OF s _ fresh ready row(1,2) ev _ _ demo_priced [of 2 10]] l row(3) by (simp add: Let_def)
qed

text \<open>C27.  The row of an order is committed before its fill is posted: when posting a cumulative event fails, the
  retry finds nothing new, and whatever the stream and later rounds of reconciliation report, the
  trades of the order grow by what is filled on top of the lost quantity only (\<open>b\<close> bounds the reports;
  up to two units of the last place per posting).  The row is one that no round of reconciliation has
  reported on yet and whose dispatch left no market leg behind (\<open>No_Response\<close> or \<open>Phases None\<close>): after a
  round the baseline is the stored report, and the next priced round posts the failed fill.\<close>

theorem failed_projection_lost:
  assumes s: "streamed k oid env (r # rs) s" and err: "\<not> en_posting (env r)" and rs: "\<forall>r \<in> set rs. en_posting (env r)"
    and fresh: "\<not> already_projected (ev_id r) (pj_ledger s)"
    and p: "row_of k (pj_queue s) = Some p" "pd_response p \<in> {No_Response, Phases None}"
    and c: "fl (xe_cumulative (ev_data r)) = c" "0 \<le> c" "fl (pd_filled p) \<le> c"
    and es: "list_all2 priced es cs" "sorted cs"
      "\<forall>x \<in> set cs. tracked k (pj_queue (process_events env (r # rs) s)) \<le> x \<and> x \<le> b"
    and b: "tracked k (pj_queue (process_events env (r # rs) s)) \<le> b"
  shows "let s1 = process_event (env r) r s; s2 = process_events env rs s1;
             ql = sync_rounds es retry missing k (pj_queue s2, pj_ledger s2) in
     pj_ledger s1 = pj_ledger s
     \<and> recorded_quantity k (snd ql) - recorded_quantity k (pj_ledger s) \<le> (b - c) + of_nat (length es + length rs + 1) * (2 / 10 ^ 8)"
proof -
  define s1 where "s1 = process_event (env r) r s"
  define s2 where "s2 = process_events env rs s1"
  note one = streamed_step [OF s, folded s1_def]
  note more = events_posted [OF one(1) rs, folded s2_def]
  have l: "pj_ledger s1 = pj_ledger s" by (rule one(5) [OF err])
  have c20: "c \<le> 2 ^ 20"
  proof -
    have "xe_cumulative (ev_data r) \<le> 2 ^ 20" using s by (simp add: streamed_def complete_event_def Let_def)
    from fl_mono [OF this] c(1) show ?thesis using fl_of_int [of "2 ^ 20"] by simp
  qed
  have "row_filled k (pj_queue s1) = max (row_filled k (pj_queue s)) (column 8 c)"
    using one(4) [OF fresh] p c by (simp add: row_filled_def)
  then have r1: "c - 6 / 10 ^ 9 \<le> row_filled k (pj_queue s1)" using abs_le_D2 [OF near_20(1) [OF c(2) c20]] by simp
  have f2: "0 \<le> row_filled k (pj_queue s2)" "row_filled k (pj_queue s2) \<le> 2 ^ 20" using more(3) by (simp_all add: streamed_def)
  have "map_option pd_response (row_of k (pj_queue s2)) = Some (pd_response p)" using more(4) one(6) p by simp
  then have t2: "tracked k (pj_queue s2) = fl (row_filled k (pj_queue s2))"
    using p(2) f2 by (auto simp: tracked_def row_filled_def row_baseline_def tracked_fill_baseline_def fl_nonneg)
  have s2: "process_events env (r # rs) s = s2" by (simp add: s1_def s2_def)
  have "recorded_quantity k (snd (sync_rounds es retry missing k (pj_queue s2, pj_ledger s2))) - recorded_quantity k (pj_ledger s2)
      \<le> (b - tracked k (pj_queue s2)) + of_nat (length es) * (2 / 10 ^ 8)"
    using rounds_from [OF es(1,2), of "tracked k (pj_queue s2)" b k "(pj_queue s2, pj_ledger s2)" retry missing] es(3) b s2 by simp
  then have "recorded_quantity k (snd (sync_rounds es retry missing k (pj_queue s2, pj_ledger s2))) - recorded_quantity k (pj_ledger s)
      \<le> (b - c) + of_nat (length es + length rs + 1) * (2 / 10 ^ 8)"
    using abs_le_D1 [OF more(1)] r1 abs_le_D2 [OF near_20(2) [OF f2]]
    unfolding t2 l of_nat_add of_nat_1 distrib_right mult_1 by simp
  then show ?thesis using l by (simp add: Let_def s1_def s2_def)
qed

lemma failed_projection_lost_witness:
  "let env = (\<lambda>r. demo_stream (0 < ev_attempts r)); r = demo_event 1 2 2 True;
       s1 = process_event (env r) r (demo_projector (sent_queue 0 0 (Phases None)) empty_ledger);
       s2 = process_events env [r\<lparr>ev_attempts := 1\<rparr>] s1;
       ql = sync_rounds [demo_report 2 10] 300 (\<lambda>_. False) 1 (pj_queue s2, pj_ledger s2) in
     recorded_quantity 1 (snd ql) \<le> 6 / 10 ^ 8"
proof -
  let ?env = "\<lambda>r. demo_stream (0 < ev_attempts r)" and ?r = "demo_event 1 2 2 True"
  let ?r' = "?r\<lparr>ev_attempts := 1\<rparr>" and ?s = "demo_projector (sent_queue 0 0 (Phases None)) empty_ledger"
  have s: "streamed 1 ''77'' ?env [?r, ?r'] ?s"
    by (rule demo_streamed) (simp_all add: demo_stream_def demo_covered)
  have post: "\<not> en_posting (?env ?r)" "\<forall>r \<in> set [?r']. en_posting (?env r)" by (simp_all add: demo_stream_def demo_event_def)
  have l: "pj_ledger ?s = empty_ledger" "pj_queue ?s = sent_queue 0 0 (Phases None)" "recorded_quantity 1 empty_ledger = 0"
    by (simp_all add: demo_projector_def recorded_quantity_def empty_ledger_def)
  have fresh: "\<not> already_projected (ev_id ?r) (pj_ledger ?s)" unfolding l(1) by (simp add: already_projected_def empty_ledger_def)
  have row: "row_of 1 (pj_queue ?s) = Some (sent_row 0 0 (Phases None))" "pd_response (sent_row 0 0 (Phases None)) \<in> {No_Response, Phases None}"
    "pd_filled (sent_row 0 0 (Phases None)) = 0"
    by (simp_all add: l(2) sent_row_of) (simp_all add: sent_row_def)
  have two: "fl 2 = 2" "column 8 2 = 2"
    using fl_numeral [of "num.Bit0 num.One"] column_8_exact [of 2] dec_of_int [of 8 2] by simp_all
  have ev: "fl (xe_cumulative (ev_data ?r)) = 2" "xe_cumulative (ev_data ?r') = 2" using two by (simp_all add: demo_event_def)
  define s1 where "s1 = process_event (?env ?r) ?r ?s"
  note one = streamed_step [OF s, folded s1_def]
  have f1: "row_filled 1 (pj_queue s1) = 2" using one(4) [OF fresh] row ev(1) two by (simp add: row_filled_def)
  define s2 where "s2 = process_event (?env ?r') ?r' s1"
  note step = streamed_step [OF one(1), folded s2_def]
  have "\<not> already_projected (ev_id ?r') (pj_ledger s1)" using one(5) [OF post(1)] fresh by simp
  then have f2: "row_filled 1 (pj_queue s2) = 2" using step(4) f1 ev(2) two by simp
  have "map_option pd_response (row_of 1 (pj_queue s2)) = Some (Phases None)" using step(6) one(6) row(1) by (simp add: sent_row_def)
  then have t: "tracked 1 (pj_queue s2) = 2"
    using f2 two by (auto simp: tracked_def row_filled_def row_baseline_def tracked_fill_baseline_def)
  have s2: "process_events ?env [?r, ?r'] ?s = s2" by (simp add: s1_def s2_def)
  have "list_all2 priced [demo_report 2 10] [2]" by (simp add: demo_priced)
  then show ?thesis
    using failed_projection_lost [OF s post fresh row(1,2) ev(1), of "[demo_report 2 10]" "[2]" 2 300 "\<lambda>_. False"] t l(3) row(3)
    unfolding s2 by (simp add: Let_def l(1))
qed

end
