(* ===== verification/Backtest.thy ===== *)
theory Backtest
  imports Protection "HOL-Library.AList"
begin

text \<open>
  The backtest of Strategy API V2: the market data portal (\<open>services/strategy_v2/data.py\<close>) and the
  simulation broker of \<open>services/strategy_v2/runtime.py\<close>.  A Python dictionary is an association list
  in insertion order.  Market data are finite numbers, symbols are resolved keys of the portal.
\<close>

section \<open>Market data\<close>

record bar =
  br_open :: rat
  br_high :: rat
  br_low :: rat
  br_close :: rat
  br_volume :: rat
  br_suspended :: bool
  br_limit_up :: bool
  br_limit_down :: bool
  br_lot :: rat

text \<open>A frame lists its bars in the order of time; \<open>po_visible\<close> is the last time a strategy may see.\<close>

type_synonym frame = "(int \<times> bar) list"

record portal =
  po_frames :: "(string \<times> frame) list"
  po_visible :: "int option"

definition timestamps :: "portal \<Rightarrow> int list" where
  "timestamps P = sort (remdups (concat (map (\<lambda>(_, f). map fst f) (po_frames P))))"

definition set_clock :: "int \<Rightarrow> bool \<Rightarrow> portal \<Rightarrow> portal" where
  "set_clock now include_current P = P\<lparr>po_visible :=
     (if include_current then Some now
      else case rev (filter (\<lambda>t. t < now) (timestamps P)) of [] \<Rightarrow> None | t # _ \<Rightarrow> Some t)\<rparr>"

definition bar_at :: "portal \<Rightarrow> string \<Rightarrow> int \<Rightarrow> bar option" where
  "bar_at P symbol ts = (case map_of (po_frames P) symbol of None \<Rightarrow> None | Some f \<Rightarrow> map_of f ts)"

definition close_at :: "portal \<Rightarrow> string \<Rightarrow> int \<Rightarrow> rat option" where
  "close_at P symbol ts =
     (case bar_at P symbol ts of
        None \<Rightarrow> None
      | Some bar \<Rightarrow> if 0 < br_close bar then Some (br_close bar) else None)"

definition visible_frame :: "portal \<Rightarrow> string \<Rightarrow> frame" where
  "visible_frame P symbol =
     (case po_visible P of
        None \<Rightarrow> []
      | Some now \<Rightarrow> (case map_of (po_frames P) symbol of None \<Rightarrow> [] | Some f \<Rightarrow> takeWhile (\<lambda>(t, _). t \<le> now) f))"

definition current_close :: "portal \<Rightarrow> string \<Rightarrow> rat \<Rightarrow> rat" where
  "current_close P symbol d =
     (case rev (visible_frame P symbol) of [] \<Rightarrow> d | (_, bar) # _ \<Rightarrow> br_close bar)"

section \<open>Orders and positions\<close>

record bt_position =
  bp_symbol :: string
  bp_amount :: rat
  bp_cost :: rat
  bp_last :: rat
  bp_side :: string

definition market_value :: "bt_position \<Rightarrow> rat" where
  "market_value p = fmul (bp_amount p) (bp_last p)"

definition normalize_position_side :: "string \<Rightarrow> string" where
  "normalize_position_side value =
     (let side = py_lower (py_strip value) in if side \<in> {''long'', ''short''} then side else [])"

definition position_key :: "string \<Rightarrow> string \<Rightarrow> string" where
  "position_key symbol position_side =
     (let side = normalize_position_side position_side in if side \<noteq> [] then symbol @ ''::'' @ side else symbol)"

datatype order_kind = Order_Quantity | Order_Value | Order_Target | Order_Target_Value | Order_Target_Percent

text \<open>The fields that only live execution reads (\<open>maker_wait_sec\<close>, \<open>maker_offset_bps\<close>) are left out.\<close>

record bt_order =
  bo_symbol :: string
  bo_kind :: order_kind
  bo_value :: rat
  bo_reason :: string
  bo_protection :: "pspec option"
  bo_signal :: "int option"
  bo_attempts :: int
  bo_direction :: int
  bo_type :: string
  bo_limit :: rat
  bo_algo :: string
  bo_side :: string
  bo_client :: string

definition is_target :: "bt_order \<Rightarrow> bool" where
  "is_target o' = (bo_kind o' \<in> {Order_Target, Order_Target_Value, Order_Target_Percent})"

definition is_limit_order :: "bt_order \<Rightarrow> bool" where
  "is_limit_order o' = (bo_type o' = ''limit'' \<or> bo_algo o' = ''limit'')"

definition order_key :: "bt_order \<Rightarrow> string" where
  "order_key o' = position_key (bo_symbol o') (bo_side o')"

section \<open>The broker's state\<close>

datatype order_status = Order_Filled | Order_Partial | Order_Deferred | Order_Rejected

type_synonym order_id = "int \<times> int"

text \<open>The fields an event gets while its limit order rests outside the range of the bars.\<close>

record resting =
  re_first :: "int option"
  re_last :: int
  re_last_id :: "order_id option"
  re_count :: int
  re_min :: rat
  re_max :: rat

record order_event =
  oe_id :: order_id
  oe_client :: string
  oe_symbol :: string
  oe_side :: string
  oe_kind :: order_kind
  oe_value :: rat
  oe_reason :: string
  oe_status :: order_status
  oe_status_reason :: string
  oe_signal :: int
  oe_time :: int
  oe_attempt :: int
  oe_requested :: rat
  oe_filled :: rat
  oe_price :: rat
  oe_commission :: rat
  oe_resting :: "resting option"

record bt_execution =
  bx_id :: order_id
  bx_symbol :: string
  bx_time :: int
  bx_buy :: bool
  bx_type :: string
  bx_side :: string
  bx_key :: string
  bx_quantity :: rat
  bx_price :: rat
  bx_notional :: rat
  bx_commission :: rat
  bx_balance :: rat
  bx_reason :: string
  bx_signal :: int
  bx_fill_reference :: string
  bx_reference_price :: rat
  bx_limit_order :: bool
  bx_limit_price :: rat
  bx_status :: order_status
  bx_requested :: rat

record trade_entry =
  te_time :: int
  te_price :: rat
  te_quantity :: rat
  te_commission :: rat
  te_side :: string

record closed_trade =
  cl_symbol :: string
  cl_side :: string
  cl_entry_time :: int
  cl_exit_time :: int
  cl_entry_price :: rat
  cl_exit_price :: rat
  cl_quantity :: rat
  cl_profit :: rat
  cl_gross :: rat
  cl_entry_fee :: rat
  cl_exit_fee :: rat
  cl_balance :: rat
  cl_reason :: string

record rebalance =
  rb_time :: int
  rb_target_weights :: "(string \<times> rat) list"
  rb_actual_weights :: "(string \<times> rat) list"
  rb_cash_before :: rat
  rb_cash_after :: rat
  rb_equity_before :: rat
  rb_equity_after :: rat
  rb_turnover :: rat
  rb_orders :: int
  rb_counts :: "order_status \<Rightarrow> int"

record equity_point =
  ep_time :: int
  ep_value :: rat
  ep_cash :: rat
  ep_gross :: rat
  ep_net :: rat

record liquidation =
  lq_time :: int
  lq_equity :: rat
  lq_deficit :: rat
  lq_closed :: int

record broker =
  bk_start :: rat
  bk_cash :: rat
  bk_total :: rat
  bk_positions :: "(string \<times> bt_position) list"
  bk_leverage :: rat
  bk_commission :: rat
  bk_slippage :: rat
  bk_executions :: "bt_execution list"
  bk_closed :: "closed_trade list"
  bk_entries :: "(string \<times> trade_entry) list"
  bk_protections :: "(string \<times> pstate) list"
  bk_protection_events :: "(string \<times> pdecision) list"
  bk_ledger :: "order_event list"
  bk_resting :: "(string \<times> nat) list"
  bk_rebalances :: "rebalance list"
  bk_snapshots :: "(equity_point \<times> (string \<times> bt_position \<times> rat) list) list"
  bk_equity :: "equity_point list"
  bk_sequence :: int
  bk_bankrupt :: bool
  bk_liquidations :: "liquidation list"
  bk_adjustment :: rat

definition new_broker :: "rat \<Rightarrow> rat \<Rightarrow> rat \<Rightarrow> rat \<Rightarrow> broker" where
  "new_broker capital leverage commission slippage =
     \<lparr>bk_start = capital, bk_cash = capital, bk_total = capital, bk_positions = [],
      bk_leverage = max 1 (num_or leverage 1), bk_commission = max 0 commission, bk_slippage = max 0 slippage,
      bk_executions = [], bk_closed = [], bk_entries = [], bk_protections = [], bk_protection_events = [],
      bk_ledger = [], bk_resting = [], bk_rebalances = [], bk_snapshots = [], bk_equity = [], bk_sequence = 0,
      bk_bankrupt = False, bk_liquidations = [], bk_adjustment = 0\<rparr>"

definition eps12 :: rat where
  "eps12 = fl (1 / 10 ^ 12)"

definition cent :: rat where
  "cent = fl (1 / 100)"

text \<open>\<open>_backtest_time_iso\<close> drops the fraction of the second.\<close>

definition iso_time :: "int \<Rightarrow> int" where
  "iso_time ts = (ts div second) * second"

text \<open>\<open>x / y if y else 0.0\<close>\<close>

definition weight :: "rat \<Rightarrow> rat \<Rightarrow> rat" where
  "weight x y = (if y \<noteq> 0 then fdiv x y else 0)"

definition mark_position :: "portal \<Rightarrow> int \<Rightarrow> bt_position \<Rightarrow> bt_position" where
  "mark_position P ts p =
     (let price = (case close_at P (bp_symbol p) ts of
                     Some c \<Rightarrow> c
                   | None \<Rightarrow> current_close P (bp_symbol p) (bp_last p)) in
      p\<lparr>bp_last := num_or price (num_or (bp_last p) (bp_cost p))\<rparr>)"

text \<open>Returns nothing: the value it returns is \<open>bk_total\<close> of the new state.\<close>

definition mark_to_market :: "portal \<Rightarrow> int \<Rightarrow> broker \<Rightarrow> broker" where
  "mark_to_market P ts b =
     (let ps = map (\<lambda>(k, p). (k, mark_position P ts p)) (bk_positions b) in
      b\<lparr>bk_positions := ps, bk_total := foldl (\<lambda>t (_, p). fadd t (market_value p)) (bk_cash b) ps\<rparr>)"

definition position_of :: "broker \<Rightarrow> bt_order \<Rightarrow> bt_position" where
  "position_of b o' =
     (case map_of (bk_positions b) (order_key o') of
        Some p \<Rightarrow> p
      | None \<Rightarrow> \<lparr>bp_symbol = bo_symbol o', bp_amount = 0, bp_cost = 0, bp_last = 0,
                 bp_side = normalize_position_side (bo_side o')\<rparr>)"

section \<open>Sizing\<close>

definition target_quantity :: "broker \<Rightarrow> bt_order \<Rightarrow> rat \<Rightarrow> rat \<Rightarrow> rat \<Rightarrow> rat" where
  "target_quantity b o' amount price equity =
     (case bo_kind o' of
        Order_Quantity \<Rightarrow> fadd amount (bo_value o')
      | Order_Value \<Rightarrow> fadd amount (fdiv (fmul (bo_value o') (bk_leverage b)) price)
      | Order_Target \<Rightarrow> bo_value o'
      | Order_Target_Value \<Rightarrow> fdiv (fmul (bo_value o') (bk_leverage b)) price
      | Order_Target_Percent \<Rightarrow>
          let value = fmul (fmul equity (bo_value o')) (bk_leverage b) in
          fdiv (if 0 < value then fdiv value (fmul (fadd 1 (bk_slippage b)) (fadd 1 (bk_commission b))) else value) price)"

definition execution_block_reason :: "broker \<Rightarrow> bt_order \<Rightarrow> bar option \<Rightarrow> rat option \<Rightarrow> string" where
  "execution_block_reason b o' bar open_price =
     (case (bar, open_price) of
        (Some br, Some opn) \<Rightarrow>
          if opn \<le> 0 then ''no_price''
          else if br_suspended br then ''suspended''
          else
            let amount = bp_amount (position_of b o');
                delta = fsub (target_quantity b o' amount opn (max (bk_total b) 0)) amount in
            if 0 < delta \<and> br_limit_up br then ''limit_up''
            else if delta < 0 \<and> br_limit_down br then ''limit_down''
            else []
      | _ \<Rightarrow> ''no_price'')"

definition lot_size :: "string \<Rightarrow> bar option \<Rightarrow> rat" where
  "lot_size symbol bar =
     (let explicit = (case bar of None \<Rightarrow> 0 | Some br \<Rightarrow> br_lot br) in
      if 0 < explicit then explicit else if py_startswith symbol ''Crypto:'' then fl (1 / 10 ^ 8) else 1)"

definition copysign :: "rat \<Rightarrow> rat \<Rightarrow> rat" where
  "copysign x y = (if y < 0 then - \<bar>x\<bar> else \<bar>x\<bar>)"

definition round_to_lot :: "rat \<Rightarrow> rat \<Rightarrow> rat" where
  "round_to_lot value lot =
     (if lot \<le> 0 then value
      else let units = \<lfloor>fadd (fdiv \<bar>value\<bar> lot) (fl (1 / 10 ^ 8))\<rfloor> in
           if units \<noteq> 0 then copysign (fmul (fl (of_int units)) lot) value else 0)"

definition liquidity_cap :: "bar option \<Rightarrow> rat \<Rightarrow> rat option" where
  "liquidity_cap bar lot =
     (let volume = (case bar of None \<Rightarrow> 0 | Some br \<Rightarrow> br_volume br) in
      if volume \<le> 0 then None
      else let units = \<lfloor>fadd (fdiv (fmul volume (fl (1 / 10))) lot) (fl (1 / 10 ^ 10))\<rfloor> in
           Some (if units \<noteq> 0 then fmul (fl (of_int units)) lot else 0))"

definition gross_value :: "string \<Rightarrow> broker \<Rightarrow> rat" where
  "gross_value exclude b = py_sum (map (\<lambda>(_, p). \<bar>market_value p\<bar>) (filter (\<lambda>(k, _). k \<noteq> exclude) (bk_positions b)))"

definition direction_of :: "rat \<Rightarrow> int" where
  "direction_of x = (if 0 < x then 1 else if x < 0 then - 1 else 0)"

definition cash_cap :: "broker \<Rightarrow> rat \<Rightarrow> rat \<Rightarrow> rat" where
  "cash_cap b fill_price equity =
     (let floor' = fmul (- equity) (fsub (bk_leverage b) 1);
          spendable = max 0 (fsub (bk_cash b) floor') in
      fdiv spendable (max (fmul fill_price (fadd 1 (bk_commission b))) eps12))"

definition target_cap :: "broker \<Rightarrow> rat \<Rightarrow> rat \<Rightarrow> string \<Rightarrow> rat" where
  "target_cap b fill_price equity key =
     fdiv (max 0 (fsub (fmul equity (bk_leverage b)) (gross_value key b))) (max fill_price eps12)"

definition feasible_delta :: "broker \<Rightarrow> rat \<Rightarrow> rat \<Rightarrow> rat \<Rightarrow> rat \<Rightarrow> rat \<Rightarrow> string \<Rightarrow> rat \<times> string" where
  "feasible_delta b delta amount fill_price equity lot key =
     (let cap = cash_cap b fill_price equity;
          short = (0 < delta \<and> cap < delta);
          f1 = (if short then cap else delta);
          r1 = (if short then ''insufficient_cash'' else []);
          most = target_cap b fill_price equity key;
          desired = fadd amount f1;
          over = (fadd most eps12 < \<bar>desired\<bar>);
          f2 = (if over then fsub (copysign most desired) amount else f1);
          r2 = (if over then ''position_limit'' else r1) in
      if direction_of delta \<noteq> 0 \<and> direction_of f2 \<notin> {0, direction_of delta} then (0, str_or r2 ''position_limit'')
      else (round_to_lot f2 lot, r2))"

section \<open>Whether and how an order fills\<close>

definition limit_fill :: "rat \<Rightarrow> rat \<Rightarrow> rat \<Rightarrow> rat \<Rightarrow> rat \<Rightarrow> (rat \<times> string) option" where
  "limit_fill delta opn high low limit =
     (if 0 < delta \<and> opn \<le> limit then Some (opn, ''gap_open'')
      else if 0 < delta \<and> low \<le> limit then Some (limit, ''limit'')
      else if delta < 0 \<and> limit \<le> opn then Some (opn, ''gap_open'')
      else if delta < 0 \<and> limit \<le> high then Some (limit, ''limit'')
      else None)"

definition order_fill :: "broker \<Rightarrow> bt_order \<Rightarrow> bar option \<Rightarrow> rat \<Rightarrow> rat \<Rightarrow> (rat \<times> string) option" where
  "order_fill b o' bar opn delta =
     (if is_limit_order o'
      then limit_fill delta opn (num_or (case bar of None \<Rightarrow> 0 | Some br \<Rightarrow> br_high br) opn)
             (num_or (case bar of None \<Rightarrow> 0 | Some br \<Rightarrow> br_low br) opn) (bo_limit o')
      else Some (fmul opn (if 0 < delta then fadd 1 (bk_slippage b) else fsub 1 (bk_slippage b)), ''bar_open''))"

text \<open>What \<open>execute\<close> decides for an order that is not blocked: the quantities are what was asked for.\<close>

record fill_terms =
  ft_delta :: rat
  ft_requested :: rat
  ft_price :: rat
  ft_reference :: string
  ft_constraint :: string
  ft_lot :: rat
  ft_thin :: bool

datatype fill_plan = Refused string rat | Rests rat | Fills fill_terms

definition sizing_price :: "bt_order \<Rightarrow> rat \<Rightarrow> rat" where
  "sizing_price o' opn = (if is_limit_order o' \<and> 0 < bo_limit o' then bo_limit o' else opn)"

definition wanted_quantity :: "broker \<Rightarrow> bt_order \<Rightarrow> rat \<Rightarrow> rat" where
  "wanted_quantity b o' opn = target_quantity b o' (bp_amount (position_of b o')) (sizing_price o' opn) (bk_total b)"

definition forced_liquidation :: "bt_order \<Rightarrow> bool" where
  "forced_liquidation o' = (bo_reason o' = ''margin_liquidation'')"

definition already_met :: "broker \<Rightarrow> bt_order \<Rightarrow> rat \<Rightarrow> bool" where
  "already_met b o' opn =
     (let amount = bp_amount (position_of b o'); target = wanted_quantity b o' opn; delta = fsub target amount;
          closes = (is_target o' \<and> \<bar>target\<bar> \<le> eps12 \<and> eps12 < \<bar>amount\<bar>) in
      bo_direction o' \<noteq> 0 \<and> direction_of delta \<noteq> bo_direction o'
      \<or> \<bar>delta\<bar> \<le> eps12 \<or> \<bar>fmul delta (sizing_price o' opn)\<bar> < cent \<and> \<not> closes)"

definition fill_quantity :: "broker \<Rightarrow> bt_order \<Rightarrow> bar option \<Rightarrow> rat \<Rightarrow> rat \<Rightarrow> string \<Rightarrow> fill_plan" where
  "fill_quantity b o' bar requested price reference =
     (let lot = lot_size (bo_symbol o') bar; d1 = round_to_lot requested lot;
          thin = (if forced_liquidation o' then None else liquidity_cap bar lot);
          d2 = (case thin of None \<Rightarrow> d1 | Some cap \<Rightarrow> if cap < \<bar>d1\<bar> then copysign cap d1 else d1);
          (d3, constraint) = (if forced_liquidation o' then (d2, [])
             else feasible_delta b d2 (bp_amount (position_of b o')) price (bk_total b) lot (order_key o')) in
      if \<bar>d1\<bar> < fsub lot eps12 then Refused ''minimum_trade_unit'' \<bar>requested\<bar>
      else if \<bar>d3\<bar> < fsub lot eps12 then Refused (str_or constraint ''position_limit'') \<bar>requested\<bar>
      else Fills \<lparr>ft_delta = d3, ft_requested = requested, ft_price = price, ft_reference = reference,
                   ft_constraint = constraint, ft_lot = lot,
                   ft_thin = (case thin of None \<Rightarrow> False | Some cap \<Rightarrow> cap < \<bar>requested\<bar>)\<rparr>)"

definition plan_fill :: "broker \<Rightarrow> bt_order \<Rightarrow> bar option \<Rightarrow> rat \<Rightarrow> fill_plan" where
  "plan_fill b o' bar opn =
     (let requested = fsub (wanted_quantity b o' opn) (bp_amount (position_of b o')) in
      if already_met b o' opn then Refused ''target_already_met'' 0
      else if is_limit_order o' \<and> bo_limit o' \<le> 0 then Refused ''limit_price_required'' \<bar>requested\<bar>
      else case order_fill b o' bar opn requested of
        None \<Rightarrow> Rests \<bar>requested\<bar>
      | Some (price, reference) \<Rightarrow> fill_quantity b o' bar requested price reference)"

section \<open>Booking a fill\<close>

definition next_average_cost :: "rat \<Rightarrow> rat \<Rightarrow> rat \<Rightarrow> rat \<Rightarrow> rat" where
  "next_average_cost old cost delta price =
     (let new = fadd old delta in
      if \<bar>new\<bar> \<le> eps12 then 0
      else if old = 0 \<or> 0 < fmul old delta then fdiv (fadd (fmul old cost) (fmul delta price)) new
      else if fmul old new < 0 then price
      else cost)"

definition execution_identity :: "rat \<Rightarrow> rat \<Rightarrow> rat \<Rightarrow> string \<times> string" where
  "execution_identity old target delta =
     (if 0 \<le> old \<and> 0 \<le> target then
        (if 0 < delta then (if \<bar>old\<bar> \<le> eps12 then ''open_long'' else ''add_long'', ''long'')
         else (if \<bar>target\<bar> \<le> eps12 then ''close_long'' else ''reduce_long'', ''long''))
      else if old \<le> 0 \<and> target \<le> 0 then
        (if delta < 0 then (if \<bar>old\<bar> \<le> eps12 then ''open_short'' else ''add_short'', ''short'')
         else (if \<bar>target\<bar> \<le> eps12 then ''close_short'' else ''reduce_short'', ''short''))
      else (if 0 < target then ''reverse_to_long'' else ''reverse_to_short'', if 0 < target then ''long'' else ''short''))"

text \<open>The protection of a leg that stays open; the side of a state is the side of its leg.\<close>

definition side_of :: "rat \<Rightarrow> string" where
  "side_of amount = (if 0 < amount then ''long'' else ''short'')"

definition protect_leg :: "bt_order \<Rightarrow> int \<Rightarrow> bt_position \<Rightarrow> rat \<Rightarrow> (string \<times> pstate) list \<Rightarrow> (string \<times> pstate) list" where
  "protect_leg o' ts p price protections =
     (let key = order_key o'; side = side_of (bp_amount p); existing = map_of protections key;
          changed = (case existing of None \<Rightarrow> False | Some s \<Rightarrow> pt_side s \<noteq> side);
          spec = (case bo_protection o' of Some sp \<Rightarrow> Some sp | None \<Rightarrow> map_option pt_spec existing) in
      if bo_protection o' = None \<and> \<not> changed then protections
      else case spec of
        None \<Rightarrow> protections
      | Some sp \<Rightarrow> (case (existing, changed) of
          (Some s, False) \<Rightarrow> AList.update key (apply_scale_in (bp_cost p) price (Some sp) (Some ts) s) protections
        | _ \<Rightarrow> AList.update key (open_state (bo_symbol o') side (bp_cost p) sp ts) protections))"

definition fill_fee :: "broker \<Rightarrow> fill_terms \<Rightarrow> rat" where
  "fill_fee b t = fmul \<bar>fmul (ft_delta t) (ft_price t)\<bar> (bk_commission b)"

definition filled_position :: "broker \<Rightarrow> bt_order \<Rightarrow> fill_terms \<Rightarrow> bt_position" where
  "filled_position b o' t =
     (let p = position_of b o' in
      p\<lparr>bp_amount := fadd (bp_amount p) (ft_delta t),
        bp_cost := next_average_cost (bp_amount p) (bp_cost p) (ft_delta t) (ft_price t), bp_last := ft_price t\<rparr>)"

definition book_fill :: "int \<Rightarrow> bt_order \<Rightarrow> fill_terms \<Rightarrow> broker \<Rightarrow> broker" where
  "book_fill ts o' t b =
     (let key = order_key o'; p = filled_position b o' t;
          cash = fsub (fsub (bk_cash b) (fmul (ft_delta t) (ft_price t))) (fill_fee b t);
          b1 = (if \<bar>bp_amount p\<bar> \<le> eps12
                then b\<lparr>bk_positions := AList.delete key (bk_positions b), bk_protections := AList.delete key (bk_protections b)\<rparr>
                else b\<lparr>bk_positions := AList.update key p (bk_positions b),
                        bk_protections := protect_leg o' ts p (ft_price t) (bk_protections b)\<rparr>) in
      b1\<lparr>bk_cash := cash, bk_total := fadd cash (py_sum (map (\<lambda>(_, p). market_value p) (bk_positions b1)))\<rparr>)"

text \<open>A fill is partial when what remains could still be traded.\<close>

definition remaining_quantity :: "fill_terms \<Rightarrow> rat" where
  "remaining_quantity t = max 0 (fsub \<bar>ft_requested t\<bar> \<bar>ft_delta t\<bar>)"

definition fill_status :: "fill_terms \<Rightarrow> order_status" where
  "fill_status t =
     (if ft_lot t \<le> fadd (remaining_quantity t) eps12 \<and> cent \<le> fadd (fmul (remaining_quantity t) (ft_price t)) eps12
      then Order_Partial else Order_Filled)"

definition fill_reason :: "bt_order \<Rightarrow> fill_terms \<Rightarrow> string" where
  "fill_reason o' t =
     (if fill_status t = Order_Partial
      then str_or (ft_constraint t) (if ft_thin t then ''insufficient_liquidity'' else ''partial_fill'')
      else if forced_liquidation o' then ''margin_liquidation'' else ''filled'')"

definition fill_execution :: "broker \<Rightarrow> broker \<Rightarrow> order_id \<Rightarrow> int \<Rightarrow> bt_order \<Rightarrow> rat \<Rightarrow> fill_terms \<Rightarrow> bt_execution" where
  "fill_execution b b1 i ts o' opn t =
     (let old = bp_amount (position_of b o'); (kind, side) = execution_identity old (fadd old (ft_delta t)) (ft_delta t) in
      \<lparr>bx_id = i, bx_symbol = bo_symbol o', bx_time = iso_time ts, bx_buy = (0 < ft_delta t), bx_type = kind,
       bx_side = str_or (normalize_position_side (bo_side o')) side, bx_key = order_key o', bx_quantity = \<bar>ft_delta t\<bar>,
       bx_price = ft_price t, bx_notional = \<bar>fmul (ft_delta t) (ft_price t)\<bar>, bx_commission = fill_fee b t,
       bx_balance = bk_total b1, bx_reason = bo_reason o', bx_signal = iso_time (case bo_signal o' of None \<Rightarrow> ts | Some s \<Rightarrow> s),
       bx_fill_reference = ft_reference t, bx_reference_price = opn, bx_limit_order = is_limit_order o',
       bx_limit_price = (if is_limit_order o' then bo_limit o' else 0), bx_status = fill_status t,
       bx_requested = \<bar>ft_requested t\<bar>\<rparr>)"

text \<open>\<open>_record_closed_trade\<close>\<close>

definition close_entry :: "bt_execution \<Rightarrow> rat \<Rightarrow> rat \<Rightarrow> rat \<Rightarrow> rat \<Rightarrow> rat \<Rightarrow> broker \<Rightarrow> broker" where
  "close_entry x old cost target closing close_fee b =
     (let key = bx_key x;
          entry = (case map_of (bk_entries b) key of
             Some e \<Rightarrow> e
           | None \<Rightarrow> \<lparr>te_time = bx_time x, te_price = cost, te_quantity = \<bar>old\<bar>, te_commission = 0, te_side = side_of old\<rparr>);
          quantity = max (te_quantity entry) closing;
          entry_fee = fdiv (fmul (te_commission entry) closing) quantity;
          entry_price = num_or (te_price entry) cost;
          gross = fmul (fmul (fsub (bx_price x) entry_price) closing) (if 0 < old then 1 else - 1);
          trade = \<lparr>cl_symbol = key, cl_side = str_or (te_side entry) (side_of old), cl_entry_time = te_time entry,
             cl_exit_time = bx_time x, cl_entry_price = entry_price, cl_exit_price = bx_price x, cl_quantity = closing,
             cl_profit = fsub (fsub gross entry_fee) close_fee, cl_gross = gross, cl_entry_fee = entry_fee,
             cl_exit_fee = close_fee, cl_balance = bx_balance x, cl_reason = str_or (bx_reason x) ''strategy''\<rparr>;
          remaining = max 0 (fsub quantity closing) in
      b\<lparr>bk_closed := bk_closed b @ [trade],
        bk_entries := (if eps12 < remaining \<and> 0 \<le> fmul old target
          then AList.update key (entry\<lparr>te_quantity := remaining, te_commission := max 0 (fsub (te_commission entry) entry_fee)\<rparr>) (bk_entries b)
          else AList.delete key (bk_entries b))\<rparr>)"

definition open_entry :: "bt_execution \<Rightarrow> rat \<Rightarrow> rat \<Rightarrow> rat \<Rightarrow> broker \<Rightarrow> broker" where
  "open_entry x target opening open_fee b =
     (let key = bx_key x; side = side_of target;
          fresh = \<lparr>te_time = bx_time x, te_price = bx_price x, te_quantity = opening, te_commission = open_fee, te_side = side\<rparr>;
          entry = (case map_of (bk_entries b) key of
             None \<Rightarrow> fresh
           | Some e \<Rightarrow> if te_side e \<noteq> side then fresh
               else let combined = fadd (te_quantity e) opening in
                 e\<lparr>te_price := fdiv (fadd (fmul (num_or (te_price e) (bx_price x)) (te_quantity e)) (fmul (bx_price x) opening)) combined,
                   te_quantity := combined, te_commission := fadd (te_commission e) open_fee\<rparr>) in
      b\<lparr>bk_entries := AList.update key entry (bk_entries b)\<rparr>)"

definition record_closed_trade :: "bt_execution \<Rightarrow> rat \<Rightarrow> rat \<Rightarrow> rat \<Rightarrow> broker \<Rightarrow> broker" where
  "record_closed_trade x old cost target b =
     (let delta = (if bx_buy x then bx_quantity x else - bx_quantity x);
          closing = (if fmul old delta < 0 then min \<bar>old\<bar> \<bar>delta\<bar> else 0);
          opening = max 0 (fsub \<bar>delta\<bar> closing);
          close_fee = fdiv (fmul (bx_commission x) closing) (max \<bar>delta\<bar> eps12);
          open_fee = fsub (bx_commission x) close_fee;
          b1 = (if eps12 < closing then close_entry x old cost target closing close_fee b else b) in
      if eps12 < opening then open_entry x target opening open_fee b1 else b1)"

section \<open>The ledger of order events\<close>

definition order_event_of ::
  "order_id \<Rightarrow> bt_order \<Rightarrow> int \<Rightarrow> order_status \<Rightarrow> string \<Rightarrow> rat \<Rightarrow> rat \<Rightarrow> rat \<Rightarrow> rat \<Rightarrow> order_event" where
  "order_event_of i o' ts status reason requested filled price commission =
     \<lparr>oe_id = i, oe_client = bo_client o', oe_symbol = bo_symbol o', oe_side = normalize_position_side (bo_side o'),
      oe_kind = bo_kind o', oe_value = bo_value o', oe_reason = bo_reason o', oe_status = status, oe_status_reason = reason,
      oe_signal = iso_time (case bo_signal o' of None \<Rightarrow> ts | Some s \<Rightarrow> s), oe_time = iso_time ts, oe_attempt = bo_attempts o' + 1,
      oe_requested = requested, oe_filled = filled, oe_price = price, oe_commission = commission, oe_resting = None\<rparr>"

definition rests :: "order_event \<Rightarrow> bool" where
  "rests e = (oe_status e = Order_Deferred \<and> oe_status_reason e = ''limit_not_reached'')"

text \<open>One more poll of a resting order, added to the event of its resting period.\<close>

definition poll_again :: "order_event \<Rightarrow> order_event \<Rightarrow> order_event" where
  "poll_again new e =
     (let requested = oe_requested new;
          r = (case oe_resting e of
             None \<Rightarrow> \<lparr>re_first = None, re_last = oe_time new, re_last_id = Some (oe_id new), re_count = 2,
                      re_min = requested, re_max = requested\<rparr>
           | Some r \<Rightarrow> r\<lparr>re_last := oe_time new, re_last_id := Some (oe_id new), re_count := (if re_count r = 0 then 1 else re_count r) + 1,
                       re_min := min (num_or (re_min r) requested) requested,
                       re_max := max (num_or (re_max r) requested) requested\<rparr>) in
      e\<lparr>oe_requested := requested, oe_resting := Some r\<rparr>)"

definition first_poll :: "order_event \<Rightarrow> order_event" where
  "first_poll e = e\<lparr>oe_resting := Some \<lparr>re_first = Some (oe_time e), re_last = oe_time e, re_last_id = None, re_count = 1,
     re_min = oe_requested e, re_max = oe_requested e\<rparr>\<rparr>"

definition append_order_event :: "order_event \<Rightarrow> bool \<Rightarrow> broker \<Rightarrow> nat \<times> broker" where
  "append_order_event e coalesce b =
     (let reference = py_strip (oe_client e); n = length (bk_ledger b) in
      if coalesce \<and> reference \<noteq> [] then
        (case map_of (bk_resting b) reference of
           Some i \<Rightarrow>
             if i < n \<and> rests (bk_ledger b ! i)
             then (i, b\<lparr>bk_ledger := (bk_ledger b)[i := poll_again e (bk_ledger b ! i)]\<rparr>)
             else (n, b\<lparr>bk_ledger := bk_ledger b @ [first_poll e], bk_resting := AList.update reference n (bk_resting b)\<rparr>)
         | None \<Rightarrow> (n, b\<lparr>bk_ledger := bk_ledger b @ [first_poll e], bk_resting := AList.update reference n (bk_resting b)\<rparr>))
      else (n, b\<lparr>bk_ledger := bk_ledger b @ [e],
                 bk_resting := (if reference \<noteq> [] then AList.delete reference (bk_resting b) else bk_resting b)\<rparr>))"

definition release_resting :: "string list \<Rightarrow> broker \<Rightarrow> broker" where
  "release_resting references b = b\<lparr>bk_resting := foldl (\<lambda>t r. AList.delete (py_strip r) t) (bk_resting b) references\<rparr>"

section \<open>Executing a batch\<close>

text \<open>
  What one order of a batch leaves behind: the orders to try again, the index of its event and, when
  the order got as far as that, the weight it aims at.
\<close>

definition refuse_order :: "order_id \<Rightarrow> bt_order \<Rightarrow> int \<Rightarrow> order_status \<Rightarrow> string \<Rightarrow> rat \<Rightarrow> broker \<Rightarrow> nat \<times> broker" where
  "refuse_order i o' ts status reason requested b =
     append_order_event (order_event_of i o' ts status reason requested 0 0 0) False b"

definition retry_order :: "bt_order \<Rightarrow> rat \<Rightarrow> fill_terms \<Rightarrow> bt_order" where
  "retry_order o' opn t =
     (let value = (case bo_kind o' of
             Order_Quantity \<Rightarrow> copysign (remaining_quantity t) (ft_requested t)
           | Order_Value \<Rightarrow> copysign (fmul (remaining_quantity t) (sizing_price o' opn)) (ft_requested t)
           | _ \<Rightarrow> bo_value o') in
      o'\<lparr>bo_value := value, bo_attempts := (if is_limit_order o' then bo_attempts o' else bo_attempts o' + 1),
         bo_direction := (if 0 < ft_requested t then 1 else - 1)\<rparr>)"

definition fill_order :: "order_id \<Rightarrow> int \<Rightarrow> bt_order \<Rightarrow> rat \<Rightarrow> fill_terms \<Rightarrow> broker \<Rightarrow> bt_order list \<times> nat \<times> broker" where
  "fill_order i ts o' opn t b =
     (let p = position_of b o'; b1 = book_fill ts o' t b; x = fill_execution b b1 i ts o' opn t;
          (n, b2) = append_order_event (order_event_of i o' ts (fill_status t) (fill_reason o' t) \<bar>ft_requested t\<bar>
                      \<bar>ft_delta t\<bar> (ft_price t) (fill_fee b t)) False (b1\<lparr>bk_executions := bk_executions b1 @ [x]\<rparr>);
          b3 = record_closed_trade x (bp_amount p) (bp_cost p) (fadd (bp_amount p) (ft_delta t)) b2 in
      (if fill_status t = Order_Partial \<and> (is_limit_order o' \<or> bo_attempts o' < 4) then [retry_order o' opn t] else [], n, b3))"

definition execute_open_order ::
  "portal \<Rightarrow> int \<Rightarrow> order_id \<Rightarrow> bt_order \<Rightarrow> bar option \<Rightarrow> rat \<Rightarrow> broker \<Rightarrow> bt_order list \<times> nat \<times> (string \<times> rat) option \<times> broker" where
  "execute_open_order P ts i o' bar opn b =
     (let b1 = mark_to_market P ts b;
          w = (order_key o', weight (fmul (wanted_quantity b1 o' opn) (sizing_price o' opn)) (bk_total b1)) in
      case plan_fill b1 o' bar opn of
        Refused reason requested \<Rightarrow>
          let (n, b2) = refuse_order i o' ts Order_Rejected reason requested b1 in ([], n, Some w, b2)
      | Rests requested \<Rightarrow>
          let (n, b2) = append_order_event (order_event_of i o' ts Order_Deferred ''limit_not_reached'' requested 0 (bo_limit o') 0) True b1
          in ([o'], n, Some w, b2)
      | Fills t \<Rightarrow> let (ds, n, b2) = fill_order i ts o' opn t b1 in (ds, n, Some w, b2))"

text \<open>
  \<open>overrides\<close> are prices that replace the open; a forced liquidation of the broker always has one.  (A
  strategy's own order that carries its reason and meets no bar raises a \<open>TypeError\<close> in the code.)
\<close>

definition open_price :: "portal \<Rightarrow> int \<Rightarrow> (string \<Rightarrow> rat option) \<Rightarrow> bt_order \<Rightarrow> rat option" where
  "open_price P ts overrides o' =
     (case overrides (bo_symbol o') of Some x \<Rightarrow> Some x | None \<Rightarrow> map_option br_open (bar_at P (bo_symbol o') ts))"

definition execute_order ::
  "portal \<Rightarrow> int \<Rightarrow> (string \<Rightarrow> rat option) \<Rightarrow> bt_order \<Rightarrow> broker \<Rightarrow> bt_order list \<times> nat \<times> (string \<times> rat) option \<times> broker" where
  "execute_order P ts overrides o' b0 =
     (let b = b0\<lparr>bk_sequence := bk_sequence b0 + 1\<rparr>; i = (ts, bk_sequence b);
          bar = bar_at P (bo_symbol o') ts;
          opn = open_price P ts overrides o';
          blocked = (if forced_liquidation o' then [] else execution_block_reason b o' bar opn) in
      if blocked \<noteq> [] then
        (if 4 \<le> bo_attempts o'
         then let (n, b1) = refuse_order i o' ts Order_Rejected blocked 0 b in ([], n, None, b1)
         else let (n, b1) = refuse_order i o' ts Order_Deferred blocked 0 b in ([o'\<lparr>bo_attempts := bo_attempts o' + 1\<rparr>], n, None, b1))
      else execute_open_order P ts i o' bar (case opn of None \<Rightarrow> 0 | Some x \<Rightarrow> x) b)"

fun execute_orders ::
  "portal \<Rightarrow> int \<Rightarrow> (string \<Rightarrow> rat option) \<Rightarrow> bt_order list \<Rightarrow> broker \<Rightarrow> bt_order list \<times> nat list \<times> (string \<times> rat) list \<times> broker" where
  "execute_orders P ts overrides [] b = ([], [], [], b)"
| "execute_orders P ts overrides (o' # os) b =
     (let (ds, n, w, b1) = execute_order P ts overrides o' b;
          (ds', ns, ws, b2) = execute_orders P ts overrides os b1 in
      (ds @ ds', n # ns, (case w of None \<Rightarrow> ws | Some kw \<Rightarrow> kw # ws), b2))"

definition record_rebalance ::
  "portal \<Rightarrow> int \<Rightarrow> rat \<Rightarrow> rat \<Rightarrow> (string \<times> rat) list \<Rightarrow> nat list \<Rightarrow> broker \<Rightarrow> broker" where
  "record_rebalance P ts equity_before cash_before weights ns b =
     (let b1 = mark_to_market P ts b; events = map (\<lambda>n. bk_ledger b1 ! n) ns;
          turnover = py_sum (map (\<lambda>e. fmul (oe_filled e) (oe_price e)) events);
          r = \<lparr>rb_time = iso_time ts, rb_target_weights = foldl (\<lambda>m (k, w). AList.update k w m) [] weights,
               rb_actual_weights = map (\<lambda>(k, p). (k, weight (market_value p) (bk_total b1))) (bk_positions b1),
               rb_cash_before = cash_before, rb_cash_after = bk_cash b1, rb_equity_before = equity_before,
               rb_equity_after = bk_total b1, rb_turnover = weight turnover equity_before, rb_orders = int (length events),
               rb_counts = (\<lambda>st. int (length (filter (\<lambda>e. oe_status e = st) events)))\<rparr> in
      b1\<lparr>bk_rebalances := bk_rebalances b1 @ [r]\<rparr>)"

definition execute_batch ::
  "portal \<Rightarrow> int \<Rightarrow> (string \<Rightarrow> rat option) \<Rightarrow> bt_order list \<Rightarrow> broker \<Rightarrow> bt_order list \<times> broker" where
  "execute_batch P ts overrides orders b =
     (if orders = [] then ([], b)
      else let b1 = mark_to_market P ts b;
               (ds, ns, ws, b2) = execute_orders P ts overrides orders b1 in
           (ds, record_rebalance P ts (bk_total b1) (bk_cash b1) ws ns b2))"

section \<open>Liquidation, protection, equity\<close>

definition plain_order :: "string \<Rightarrow> string \<Rightarrow> int \<Rightarrow> string \<Rightarrow> bt_order" where
  "plain_order symbol reason ts side =
     \<lparr>bo_symbol = symbol, bo_kind = Order_Target, bo_value = 0, bo_reason = reason, bo_protection = None,
      bo_signal = Some ts, bo_attempts = 0, bo_direction = 0, bo_type = ''market'', bo_limit = 0, bo_algo = ''market'',
      bo_side = side, bo_client = []\<rparr>"

definition liquidation_price :: "portal \<Rightarrow> int \<Rightarrow> bt_position \<Rightarrow> rat" where
  "liquidation_price P ts p =
     (case close_at P (bp_symbol p) ts of Some c \<Rightarrow> c | None \<Rightarrow> num_or (bp_last p) (bp_cost p))"

definition liquidate_if_insolvent :: "portal \<Rightarrow> int \<Rightarrow> broker \<Rightarrow> bool \<times> broker" where
  "liquidate_if_insolvent P ts b0 =
     (if bk_bankrupt b0 then (True, b0)
      else
        let b = mark_to_market P ts b0 in
        if 0 < bk_total b then (False, b)
        else
          let priced = filter (\<lambda>(_, p). 0 < liquidation_price P ts p) (bk_positions b);
              orders = map (\<lambda>(_, p). plain_order (bp_symbol p) ''margin_liquidation'' ts (bp_side p)) priced;
              overrides = foldl (\<lambda>m (_, p). m(bp_symbol p \<mapsto> liquidation_price P ts p)) (\<lambda>_. None) priced;
              b1 = snd (execute_batch P ts overrides orders b);
              deficit = max 0 (- bk_cash b1);
              b2 = (if deficit \<noteq> 0
                    then b1\<lparr>bk_adjustment := fadd (bk_adjustment b1) deficit, bk_cash := fadd (bk_cash b1) deficit\<rparr> else b1);
              b3 = mark_to_market P ts b2 in
          (True, b3\<lparr>bk_total := max 0 (bk_total b3), bk_bankrupt := True,
             bk_liquidations := bk_liquidations b3 @ [\<lparr>lq_time = iso_time ts, lq_equity = bk_total b, lq_deficit = deficit,
                                                       lq_closed = int (length orders)\<rparr>]\<rparr>))"

fun reason_name :: "exit_reason \<Rightarrow> string" where
  "reason_name Stop_Loss = ''stop_loss''"
| "reason_name Trailing_Stop = ''trailing_stop''"
| "reason_name Take_Profit = ''take_profit''"
| "reason_name Time_Limit = ''time_limit''"

definition protect_position :: "portal \<Rightarrow> int \<Rightarrow> string \<Rightarrow> pstate \<Rightarrow> broker \<Rightarrow> pdecision list \<times> broker" where
  "protect_position P ts key s b =
     (case map_of (bk_positions b) key of
        None \<Rightarrow> ([], b\<lparr>bk_protections := AList.delete key (bk_protections b)\<rparr>)
      | Some p \<Rightarrow> (case bar_at P (bp_symbol p) ts of
          None \<Rightarrow> ([], b)
        | Some bar \<Rightarrow>
            let (d, s1) = evaluate_bar Conservative (s\<lparr>pt_entry := bp_cost p\<rparr>) ts (br_open bar) (br_high bar) (br_low bar);
                b1 = b\<lparr>bk_protections := AList.update key s1 (bk_protections b)\<rparr> in
            (case d of
               None \<Rightarrow> ([], b1)
             | Some d \<Rightarrow>
                 let b2 = snd (execute_batch P ts [bp_symbol p \<mapsto> dc_price d]
                                 [plain_order (bp_symbol p) (reason_name (dc_reason d)) ts (bp_side p)] b1) in
                 if length (bk_executions b2) = length (bk_executions b1)
                 then ([], if bk_ledger b2 \<noteq> [] \<and> oe_status_reason (last (bk_ledger b2)) = ''target_already_met''
                           then b2\<lparr>bk_protections := AList.delete key (bk_protections b2)\<rparr> else b2)
                 else ([d], b2\<lparr>bk_protection_events := bk_protection_events b2 @ [(bp_symbol p, d)]\<rparr>))))"

text \<open>The loop runs over the protections as they were at its start; each round changes only its own.\<close>

fun protect_positions :: "portal \<Rightarrow> int \<Rightarrow> (string \<times> pstate) list \<Rightarrow> broker \<Rightarrow> pdecision list \<times> broker" where
  "protect_positions P ts [] b = ([], b)"
| "protect_positions P ts ((key, s) # rest) b =
     (let (ds, b1) = protect_position P ts key s b; (ds', b2) = protect_positions P ts rest b1 in (ds @ ds', b2))"

definition process_protections :: "portal \<Rightarrow> int \<Rightarrow> broker \<Rightarrow> pdecision list \<times> broker" where
  "process_protections P ts b = protect_positions P ts (bk_protections b) b"

definition round8 :: "rat \<Rightarrow> rat" where
  "round8 x = fl (of_int (rne (x * 10 ^ 8)) / 10 ^ 8)"

definition record_equity :: "portal \<Rightarrow> int \<Rightarrow> broker \<Rightarrow> broker" where
  "record_equity P ts b0 =
     (let b = mark_to_market P ts b0; value = bk_total b;
          e = \<lparr>ep_time = iso_time ts, ep_value = round8 value, ep_cash = round8 (bk_cash b),
               ep_gross = weight (py_sum (map (\<lambda>(_, p). \<bar>market_value p\<bar>) (bk_positions b))) value,
               ep_net = weight (py_sum (map (\<lambda>(_, p). market_value p) (bk_positions b))) value\<rparr> in
      b\<lparr>bk_equity := bk_equity b @ [e],
        bk_snapshots := bk_snapshots b @ [(e, map (\<lambda>(k, p). (k, p, weight (market_value p) value)) (bk_positions b))]\<rparr>)"

section \<open>The run\<close>

definition same_target :: "bt_order \<Rightarrow> bt_order \<Rightarrow> bool" where
  "same_target o' x = (bo_symbol x = bo_symbol o' \<and> normalize_position_side (bo_side x) = normalize_position_side (bo_side o')
     \<and> is_target x)"

fun merge_pending :: "bt_order list \<Rightarrow> bt_order list \<Rightarrow> bt_order list" where
  "merge_pending current [] = current"
| "merge_pending current (o' # os) =
     merge_pending ((if is_target o' then filter (\<lambda>x. \<not> same_target o' x) current else current) @ [o']) os"

definition remove_cancelled :: "string list \<Rightarrow> bt_order list \<Rightarrow> broker \<Rightarrow> bt_order list \<times> broker" where
  "remove_cancelled cancelled orders b =
     (if cancelled = [] then (orders, b)
      else (filter (\<lambda>x. bo_client x \<notin> set cancelled) orders, release_resting cancelled b))"

text \<open>
  The user's code is a parameter: a handler sees the time, the market and the broker, keeps a state of
  its own and returns the orders it queued and the ids it cancelled.  A run aborts when it raises.
  A schedule is the test whether it is due, given the previous bar and the present one.
\<close>

type_synonym 's handler = "int \<Rightarrow> portal \<Rightarrow> broker \<Rightarrow> 's \<Rightarrow> bt_order list \<times> string list \<times> 's"

record 's strategy =
  sg_before :: "'s handler"
  sg_scheduled :: "((int option \<Rightarrow> int \<Rightarrow> bool) \<times> 's handler) list"
  sg_rebalance :: "'s handler option"
  sg_data :: "'s handler"
  sg_after :: "'s handler"

record 's run_state =
  rn_broker :: broker
  rn_portal :: portal
  rn_pending :: "bt_order list"
  rn_state :: 's
  rn_previous :: "int option"

text \<open>Calling a handler: cancelled orders leave the pending list, the queued ones are returned.\<close>

definition call_handler :: "'s handler \<Rightarrow> int \<Rightarrow> 's run_state \<Rightarrow> bt_order list \<times> 's run_state" where
  "call_handler h ts r =
     (let (orders, cancelled, st) = h ts (rn_portal r) (rn_broker r) (rn_state r);
          (pending, b) = remove_cancelled cancelled (rn_pending r) (rn_broker r) in
      (orders, r\<lparr>rn_broker := b, rn_pending := pending, rn_state := st\<rparr>))"

fun call_handlers :: "'s handler list \<Rightarrow> int \<Rightarrow> 's run_state \<Rightarrow> bt_order list \<times> 's run_state" where
  "call_handlers [] ts r = ([], r)"
| "call_handlers (h # hs) ts r =
     (let (orders, r1) = call_handler h ts r; (orders', r2) = call_handlers hs ts r1 in (orders @ orders', r2))"

definition opening_handlers :: "'s strategy \<Rightarrow> int option \<Rightarrow> int \<Rightarrow> 's handler list" where
  "opening_handlers g previous ts =
     sg_before g # map snd (filter (\<lambda>(due, _). due previous ts) (sg_scheduled g))
       @ (case sg_rebalance g of None \<Rightarrow> [] | Some h \<Rightarrow> if sg_scheduled g = [] then [h] else [])"

text \<open>The part of a bar before its close: fills of pending orders, protections, the opening handlers and their orders.\<close>

definition run_open :: "'s strategy \<Rightarrow> int \<Rightarrow> 's run_state \<Rightarrow> 's run_state" where
  "run_open g ts r =
     (let P = set_clock ts False (rn_portal r);
          (pending, b1) = execute_batch P ts (\<lambda>_. None) (rn_pending r) (rn_broker r);
          b2 = snd (process_protections P ts b1);
          (opening, r3) = call_handlers (opening_handlers g (rn_previous r) ts) ts
                            (r\<lparr>rn_portal := P, rn_broker := b2, rn_pending := pending\<rparr>);
          (deferred, b4) = execute_batch P ts (\<lambda>_. None) opening (rn_broker r3) in
      r3\<lparr>rn_broker := b4, rn_pending := merge_pending (rn_pending r3) deferred\<rparr>)"

definition run_close :: "'s strategy \<Rightarrow> int \<Rightarrow> 's run_state \<Rightarrow> 's run_state" where
  "run_close g ts r =
     (let P = set_clock ts True (rn_portal r);
          (insolvent, b1) = liquidate_if_insolvent P ts (rn_broker r); r1 = r\<lparr>rn_portal := P, rn_broker := b1\<rparr> in
      if insolvent then r1\<lparr>rn_broker := record_equity P ts b1, rn_pending := []\<rparr>
      else
        let (o1, r2) = call_handler (sg_data g) ts r1; r3 = r2\<lparr>rn_pending := merge_pending (rn_pending r2) o1\<rparr>;
            (o2, r4) = call_handler (sg_after g) ts r3; r5 = r4\<lparr>rn_pending := merge_pending (rn_pending r4) o2\<rparr> in
        r5\<lparr>rn_broker := record_equity P ts (rn_broker r5)\<rparr>)"

definition run_bar :: "'s strategy \<Rightarrow> int \<Rightarrow> 's run_state \<Rightarrow> 's run_state" where
  "run_bar g ts r =
     (if bk_bankrupt (rn_broker r)
      then let P = set_clock ts True (rn_portal r) in
           r\<lparr>rn_portal := P, rn_broker := record_equity P ts (rn_broker r), rn_previous := Some ts\<rparr>
      else (run_close g ts (run_open g ts r))\<lparr>rn_previous := Some ts\<rparr>)"

definition run_bars_of :: "'s strategy \<Rightarrow> int list \<Rightarrow> 's run_state \<Rightarrow> 's run_state" where
  "run_bars_of g ts r = foldl (\<lambda>r t. run_bar g t r) r ts"

definition backtest :: "'s strategy \<Rightarrow> 's \<Rightarrow> portal \<Rightarrow> broker \<Rightarrow> int option \<Rightarrow> int option \<Rightarrow> 's run_state option" where
  "backtest g st P b start stop =
     (let ts = filter (\<lambda>t. (case start of None \<Rightarrow> True | Some a \<Rightarrow> a \<le> t) \<and> (case stop of None \<Rightarrow> True | Some z \<Rightarrow> t \<le> z))
                 (timestamps P) in
      if ts = [] then None
      else Some (run_bars_of g ts \<lparr>rn_broker = b, rn_portal = P, rn_pending = [], rn_state = st, rn_previous = None\<rparr>))"

text \<open>The runner's broker; a strategy that asks for more leverage than its manifest allows is refused.\<close>

definition runner_broker :: "rat \<Rightarrow> bool \<Rightarrow> rat \<Rightarrow> bool \<Rightarrow> rat \<Rightarrow> rat \<Rightarrow> rat \<Rightarrow> string + broker" where
  "runner_broker capital enabled leverage allowed most commission slippage =
     (let requested = (if enabled then max 1 (num_or leverage 1) else 1) in
      if 1 < requested \<and> \<not> allowed then Inl ''strategyV2.leverageNotAllowed''
      else if most < requested then Inl ''strategyV2.leverageExceedsStrategyLimit''
      else Inr (new_broker capital requested commission slippage))"

section \<open>The audit of a run\<close>

text \<open>\<open>_reconcile\<close>: the executions replayed from the starting cash.\<close>

definition tolerance :: "rat \<Rightarrow> rat" where
  "tolerance expected = max (fl (1 / 10 ^ 8)) (fmul \<bar>expected\<bar> (fl (1 / 10 ^ 9)))"

definition signed_quantity :: "bt_execution \<Rightarrow> rat" where
  "signed_quantity x = (if bx_buy x then bx_quantity x else - bx_quantity x)"

definition fee_mismatch :: "broker \<Rightarrow> bt_execution \<Rightarrow> bool" where
  "fee_mismatch b x =
     (let expected = fmul (bx_notional x) (bk_commission b) in tolerance expected < \<bar>fsub (bx_commission x) expected\<bar>)"

definition expected_price :: "broker \<Rightarrow> bt_execution \<Rightarrow> rat" where
  "expected_price b x =
     (if str_or (bx_fill_reference x) ''bar_open'' = ''limit'' then bx_limit_price x
      else if str_or (bx_fill_reference x) ''bar_open'' = ''gap_open'' then bx_reference_price x
      else fmul (bx_reference_price x) (if bx_buy x then fadd 1 (bk_slippage b) else fsub 1 (bk_slippage b)))"

definition fill_mismatch :: "broker \<Rightarrow> bt_execution \<Rightarrow> bool" where
  "fill_mismatch b x =
     (bx_reference_price x \<le> 0 \<or> tolerance (expected_price b x) < \<bar>fsub (bx_price x) (expected_price b x)\<bar>)"

definition timing_mismatch :: "bt_execution \<Rightarrow> bool" where
  "timing_mismatch x = (bx_time x < bx_signal x)"

definition replayed_cash :: "broker \<Rightarrow> rat" where
  "replayed_cash b = foldl (\<lambda>cash x. fsub cash (fadd (fmul (signed_quantity x) (bx_price x)) (bx_commission x)))
     (bk_start b) (bk_executions b)"

definition replayed_quantity :: "string \<Rightarrow> broker \<Rightarrow> rat" where
  "replayed_quantity key b = foldl (\<lambda>q x. if bx_key x = key then fadd q (signed_quantity x) else q) 0 (bk_executions b)"

definition position_mismatch :: "broker \<Rightarrow> string \<Rightarrow> bool" where
  "position_mismatch b key =
     (fl (1 / 10 ^ 8) < \<bar>fsub (replayed_quantity key b) (case map_of (bk_positions b) key of None \<Rightarrow> 0 | Some p \<Rightarrow> bp_amount p)\<bar>)"

definition ledger_equity :: "broker \<Rightarrow> rat" where
  "ledger_equity b = fadd (fadd (replayed_cash b) (bk_adjustment b)) (py_sum (map (\<lambda>(_, p). market_value p) (bk_positions b)))"

definition audit_passed :: "broker \<Rightarrow> bool" where
  "audit_passed b =
     (\<not> list_ex (fee_mismatch b) (bk_executions b) \<and> \<not> list_ex (fill_mismatch b) (bk_executions b)
      \<and> \<not> list_ex timing_mismatch (bk_executions b)
      \<and> \<not> list_ex (position_mismatch b) (map bx_key (bk_executions b) @ map fst (bk_positions b))
      \<and> \<bar>fsub (ledger_equity b) (bk_total b)\<bar> \<le> fl (1 / 10 ^ 6))"

end
