(* ===== verification/Schedule.thy ===== *)
theory Schedule
  imports Backtest
begin

text \<open>
  Schedules of strategies: \<open>_schedule_due\<close> of \<open>services/strategy_v2/runtime.py\<close>.  Times are microseconds of
  the schedule's own clock, without shifts; a day is 24 hours, months are those of the calendar.  The
  locale \<open>periods\<close> is the contract of a schedule: one moment in each period of time.
\<close>

section \<open>The calendar\<close>

definition day_of :: "int \<Rightarrow> int" where
  "day_of ts = ts div day"

text \<open>Days and months count from 1 January 1970, a Thursday; Monday is 0.\<close>

definition weekday :: "int \<Rightarrow> int" where
  "weekday d = (d + 3) mod 7"

definition leap_year :: "int \<Rightarrow> bool" where
  "leap_year y = (y mod 4 = 0 \<and> (y mod 100 \<noteq> 0 \<or> y mod 400 = 0))"

definition days_before_year :: "int \<Rightarrow> int" where
  "days_before_year y = 365 * (y - 1970) + ((y - 1) div 4 - (y - 1) div 100 + (y - 1) div 400) - 477"

definition days_before_month :: "bool \<Rightarrow> int \<Rightarrow> int" where
  "days_before_month leap k =
     [0, 31, 59, 90, 120, 151, 181, 212, 243, 273, 304, 334] ! nat k + (if leap \<and> 1 < k then 1 else 0)"

definition month_start :: "int \<Rightarrow> int" where
  "month_start m = (let y = 1970 + m div 12 in days_before_year y + days_before_month (leap_year y) (m mod 12))"

definition month_days :: "int \<Rightarrow> int" where
  "month_days m = month_start (m + 1) - month_start m"

lemma year_days: "days_before_year (y + 1) = days_before_year y + (if leap_year y then 366 else 365)"
proof -
  have step: "y div n = (y - 1) div n + (if y mod n = 0 then 1 else 0)" if "0 < n" for n :: int
  proof -
    have m: "0 \<le> y mod n" "y mod n < n" "y = n * (y div n) + y mod n" using that by simp_all
    show ?thesis
    proof (cases "y mod n = 0")
      case True
      then have "y - 1 = n * (y div n - 1) + (n - 1)" using m(3) by (simp add: right_diff_distrib del: mult_div_mod_eq)
      from int_div_pos_eq [OF this] have "(y - 1) div n = y div n - 1" using that by simp
      then show ?thesis using True by simp
    next
      case False
      then have "(y - 1) div n = y div n" using that m by (intro int_div_pos_eq [where r = "y mod n - 1"]) auto
      then show ?thesis using False by simp
    qed
  qed
  have nest: "y mod 100 = 0 \<Longrightarrow> y mod 4 = 0" "y mod 400 = 0 \<Longrightarrow> y mod 100 = 0"
    using mod_mod_cancel [of 4 100 y] mod_mod_cancel [of 100 400 y] by simp_all
  have next_year: "days_before_year (y + 1) = days_before_year y + 365
      + (if y mod 4 = 0 then 1 else 0) - (if y mod 100 = 0 then 1 else 0) + (if y mod 400 = 0 then 1 else 0)"
  proof -
    define f where "f n = (y - 1) div n" for n
    define g where "g n = y div n" for n
    have before: "days_before_year y = 365 * (y - 1970) + (f 4 - f 100 + f 400) - 477" by (simp add: days_before_year_def f_def)
    have after: "days_before_year (y + 1) = 365 * (y - 1969) + (g 4 - g 100 + g 400) - 477"
      unfolding days_before_year_def g_def by (simp only: add_diff_cancel_right') simp
    have g: "g n = f n + (if y mod n = 0 then 1 else 0)" if "0 < n" for n unfolding f_def g_def by (rule step [OF that])
    have "g 4 = f 4 + (if y mod 4 = 0 then 1 else 0)" "g 100 = f 100 + (if y mod 100 = 0 then 1 else 0)"
      "g 400 = f 400 + (if y mod 400 = 0 then 1 else 0)" by (rule g; simp)+
    then show ?thesis unfolding before after by (simp only:) (simp add: algebra_simps)
  qed
  define a b c where "a = (y mod 4 = 0)" and "b = (y mod 100 = 0)" and "c = (y mod 400 = 0)"
  have "b \<Longrightarrow> a" "c \<Longrightarrow> b" unfolding a_def b_def c_def by (fact nest)+
  moreover have "leap_year y = (a \<and> (\<not> b \<or> c))" unfolding leap_year_def a_def b_def c_def ..
  ultimately show ?thesis using next_year [folded a_def b_def c_def] by (cases a; cases b; cases c; simp)
qed

lemma month_cases:
  fixes m :: int
  obtains "m mod 12 = 0" | "m mod 12 = 1" | "m mod 12 = 2" | "m mod 12 = 3" | "m mod 12 = 4" | "m mod 12 = 5"
  | "m mod 12 = 6" | "m mod 12 = 7" | "m mod 12 = 8" | "m mod 12 = 9" | "m mod 12 = 10" | "m mod 12 = 11"
proof -
  have "k \<in> {0, 1, 2, 3, 4, 5, 6, 7, 8, 9, 10, 11}" if "0 \<le> k" "k < 12" for k :: int using that by simp presburger
  from this [of "m mod 12"] show thesis using that by auto
qed

lemma month_days_bounds: "28 \<le> month_days m" "month_days m \<le> 31"
proof -
  have same: "(m + 1) div 12 = m div 12" "(m + 1) mod 12 = m mod 12 + 1" if "m mod 12 \<noteq> 11"
  proof -
    have "m mod 12 < 12" "0 \<le> m mod 12" by simp_all
    then have "m mod 12 + 1 < 12" "0 \<le> m mod 12 + 1" using that by linarith+
    moreover have "m + 1 = 12 * (m div 12) + (m mod 12 + 1)" by simp
    ultimately show "(m + 1) div 12 = m div 12" "(m + 1) mod 12 = m mod 12 + 1"
      by (metis int_div_pos_eq, metis int_mod_pos_eq)
  qed
  have over: "(m + 1) div 12 = m div 12 + 1" "(m + 1) mod 12 = 0" if "m mod 12 = 11"
  proof -
    have e: "m + 1 = 12 * (m div 12 + 1) + 0" using that mult_div_mod_eq [of 12 m] by (simp only: distrib_left)
    show "(m + 1) div 12 = m div 12 + 1" by (rule int_div_pos_eq [OF e]) simp_all
    show "(m + 1) mod 12 = 0" by (rule int_mod_pos_eq [OF e]) simp_all
  qed
  have "28 \<le> month_days m \<and> month_days m \<le> 31"
  proof (cases "m mod 12 = 11")
    case True
    have "1971 + m div 12 = (1970 + m div 12) + 1" by simp
    then show ?thesis
      using True year_days [of "1970 + m div 12"]
      by (auto simp: month_days_def month_start_def Let_def over days_before_month_def add.assoc)
  next
    case False
    then show ?thesis
      by (cases rule: month_cases [of m]) (simp_all add: month_days_def month_start_def Let_def same days_before_month_def)
  qed
  then show "28 \<le> month_days m" "month_days m \<le> 31" by simp_all
qed

lemma month_start_less [simp]: "month_start m < month_start (m + 1)"
  using month_days_bounds(1) [of m] by (simp add: month_days_def)

function month_from :: "int \<Rightarrow> int \<Rightarrow> int" where
  "month_from m d = (if month_start (m + 1) \<le> d then month_from (m + 1) d else m)"
  by auto
termination
  by (relation "measure (\<lambda>(m, d). nat (d - month_start m))") (simp, simp add: nat_mono_iff less_le_trans [OF month_start_less])

declare month_from.simps [simp del]

text \<open>The search starts at a month that is not later.\<close>

definition month_of :: "int \<Rightarrow> int" where
  "month_of d = month_from (d div (if 0 \<le> d then 31 else 28)) d"

lemma month_from_bounds: "month_start m \<le> d \<Longrightarrow> month_start (month_from m d) \<le> d \<and> d < month_start (month_from m d + 1)"
proof (induction m d rule: month_from.induct)
  case (1 m d)
  show ?case
  proof (cases "month_start (m + 1) \<le> d")
    case True
    then show ?thesis using 1 by (simp add: month_from.simps [of m d])
  next
    case False
    then show ?thesis using 1 by (simp add: month_from.simps [of m d])
  qed
qed

lemma month_start_0 [simp]: "month_start 0 = 0"
  by code_simp

lemma month_start_bounds:
  "month_start (int n) \<le> 31 * int n" "28 * int n \<le> - month_start (- int n)"
proof -
  show "month_start (int n) \<le> 31 * int n"
  proof (induction n)
    case (Suc n)
    then show ?case using month_days_bounds(2) [of "int n"] by (simp add: month_days_def add.commute)
  qed simp
  show "28 * int n \<le> - month_start (- int n)"
  proof (induction n)
    case (Suc n)
    have "- int (Suc n) + 1 = - int n" by simp
    then show ?case using Suc month_days_bounds(1) [of "- int (Suc n)"] by (simp add: month_days_def)
  qed simp
qed

lemma month_of_bounds: "month_start (month_of d) \<le> d" "d < month_start (month_of d + 1)"
proof -
  let ?m = "d div (if 0 \<le> d then 31 else 28)"
  have "month_start ?m \<le> d"
  proof (cases "0 \<le> d")
    case True
    then have "?m = int (nat ?m)" by (simp add: pos_imp_zdiv_nonneg_iff)
    then have "month_start ?m \<le> 31 * ?m" using month_start_bounds(1) [of "nat ?m"] by simp
    also have "\<dots> \<le> d" using True mult_div_mod_eq [of 31 d] pos_mod_sign [of 31 d] by simp
    finally show ?thesis .
  next
    case False
    define k where "k = nat (- (d div 28))"
    have m: "d div 28 = - int k" using False by (simp add: k_def div_nonpos_pos_le0)
    have "month_start (- int k) \<le> - (28 * int k)" using month_start_bounds(2) [of k] by simp
    also have "\<dots> \<le> d" using mult_div_mod_eq [of 28 d] pos_mod_sign [of 28 d] unfolding m by simp
    finally show ?thesis using False m by simp
  qed
  then show "month_start (month_of d) \<le> d" "d < month_start (month_of d + 1)"
    unfolding month_of_def using month_from_bounds by blast+
qed

lemma month_start_mono: "m \<le> n \<Longrightarrow> month_start m \<le> month_start n"
proof -
  have "month_start m \<le> month_start (m + int k)" for k
  proof (induction k)
    case (Suc k)
    have e: "m + int (Suc k) = (m + int k) + 1" by simp
    show ?case unfolding e by (rule order_trans [OF Suc less_imp_le [OF month_start_less]])
  qed simp
  from this [of "nat (n - m)"] show "m \<le> n \<Longrightarrow> month_start m \<le> month_start n" by simp
qed

lemma month_of_eq: "month_start m \<le> d \<Longrightarrow> d < month_start (m + 1) \<Longrightarrow> month_of d = m"
proof (rule ccontr)
  assume d: "month_start m \<le> d" "d < month_start (m + 1)" and ne: "month_of d \<noteq> m"
  show False
  proof (cases "month_of d < m")
    case True
    then have "month_start (month_of d + 1) \<le> month_start m" by (intro month_start_mono) simp
    then show False using d(1) month_of_bounds(2) [of d] by simp
  next
    case False
    then have "month_start (m + 1) \<le> month_start (month_of d)" using ne by (intro month_start_mono) simp
    then show False using d(2) month_of_bounds(1) [of d] by simp
  qed
qed

lemma month_of_mono: "c \<le> d \<Longrightarrow> month_of c \<le> month_of d"
proof (rule ccontr)
  assume "c \<le> d" "\<not> month_of c \<le> month_of d"
  then have "month_start (month_of d + 1) \<le> month_start (month_of c)" by (intro month_start_mono) simp
  then show False using \<open>c \<le> d\<close> month_of_bounds(2) [of d] month_of_bounds(1) [of c] by simp
qed

section \<open>When a schedule is due\<close>

text \<open>The offset is the parsed \<open>time\<close> (\<open>None\<close> for an empty string); a missing day of the week or month is 0.\<close>

record schedule =
  sc_frequency :: string
  sc_weekday :: int
  sc_monthday :: int
  sc_offset :: "int option"

definition is_intraday :: "string \<Rightarrow> bool" where
  "is_intraday frequency =
     (let f = py_lower (py_strip (str_or frequency ''1d'')) in py_endswith f ''m'' \<or> py_endswith f ''h'')"

definition scheduled_day :: "schedule \<Rightarrow> int \<Rightarrow> int option" where
  "scheduled_day sc d =
     (if sc_frequency sc = ''weekly''
      then let target = max 1 (min 7 (if sc_weekday sc = 0 then 1 else sc_weekday sc)) - 1 in Some (d + (target - weekday d))
      else if sc_frequency sc = ''monthly''
      then let m = month_of d; target = max 1 (if sc_monthday sc = 0 then 1 else sc_monthday sc) in
           Some (month_start m + min target (month_days m) - 1)
      else if sc_frequency sc = ''daily'' then Some d else None)"

definition scheduled_at :: "schedule \<Rightarrow> string \<Rightarrow> int \<Rightarrow> int option" where
  "scheduled_at sc bars d =
     map_option (\<lambda>x. x * day + (case sc_offset sc of None \<Rightarrow> 0 | Some t \<Rightarrow> if is_intraday bars then t else 0)) (scheduled_day sc d)"

definition schedule_due :: "schedule \<Rightarrow> string \<Rightarrow> int option \<Rightarrow> int \<Rightarrow> bool" where
  "schedule_due sc bars previous current =
     (case scheduled_at sc bars (day_of current) of
        None \<Rightarrow> False
      | Some t \<Rightarrow>
          if current < t then False
          else case previous of
            None \<Rightarrow> True
          | Some p \<Rightarrow>
              if sc_frequency sc = ''daily'' \<and> \<not> is_intraday bars then day_of current \<noteq> day_of p
              else p < t \<and> t \<le> current)"

text \<open>The bars at which a run finds a schedule due.\<close>

fun due_bars :: "(int option \<Rightarrow> int \<Rightarrow> bool) \<Rightarrow> int option \<Rightarrow> int list \<Rightarrow> int list" where
  "due_bars due previous [] = []"
| "due_bars due previous (t # ts) = (if due previous t then [t] else []) @ due_bars due (Some t) ts"

section \<open>One moment in each period\<close>

locale periods =
  fixes period :: "int \<Rightarrow> int" and moment :: "int \<Rightarrow> int"
  assumes forward: "s \<le> t \<Longrightarrow> period s \<le> period t"
    and inside: "period (moment w) = w"
begin

definition due :: "int option \<Rightarrow> int \<Rightarrow> bool" where
  "due previous t =
     (moment (period t) \<le> t \<and> (case previous of None \<Rightarrow> True | Some p \<Rightarrow> p < moment (period t)))"

lemma due_at: "due (Some p) t = (moment (period t) \<le> t \<and> p < moment (period t))" "due None t = (moment (period t) \<le> t)"
  by (simp_all add: due_def)

lemma due_later:
  assumes "sorted_wrt (<) (p # ts)"
  shows "filter (\<lambda>t. period t = w) (due_bars due (Some p) ts)
    = (if moment w \<le> p then [] else take 1 (filter (\<lambda>t. period t = w \<and> moment w \<le> t) ts))"
  using assms
proof (induction ts arbitrary: p)
  case (Cons t ts)
  have IH: "filter (\<lambda>t. period t = w) (due_bars due (Some t) ts)
      = (if moment w \<le> t then [] else take 1 (filter (\<lambda>t. period t = w \<and> moment w \<le> t) ts))"
    using Cons by auto
  have pt: "p < t" using Cons.prems by simp
  show ?case
  proof (cases "period t = w")
    case True
    then show ?thesis using IH pt by (auto simp: due_at)
  next
    case False
    have "filter (\<lambda>u. period u = w \<and> moment w \<le> u) ts = []" if "moment w \<le> t"
    proof -
      have "w < period t" using forward [OF that] inside [of w] False by simp
      then have "period u \<noteq> w" if "u \<in> set ts" for u
        using that Cons.prems forward [of t u] by auto
      then show ?thesis by (auto simp: filter_empty_conv)
    qed
    then show ?thesis using IH pt False by (auto simp: due_at)
  qed
qed simp

lemma due_once:
  assumes "sorted_wrt (<) ts"
  shows "filter (\<lambda>t. period t = w) (due_bars due None ts) = take 1 (filter (\<lambda>t. period t = w \<and> moment w \<le> t) ts)"
proof (cases ts)
  case (Cons t rest)
  have rest: "filter (\<lambda>t. period t = w) (due_bars due (Some t) rest)
      = (if moment w \<le> t then [] else take 1 (filter (\<lambda>t. period t = w \<and> moment w \<le> t) rest))"
    using assms Cons by (intro due_later) simp
  show ?thesis
  proof (cases "period t = w")
    case True
    then show ?thesis using rest by (auto simp: Cons due_at)
  next
    case False
    have "filter (\<lambda>u. period u = w \<and> moment w \<le> u) rest = []" if "moment w \<le> t"
    proof -
      have "w < period t" using forward [OF that] inside [of w] False by simp
      then have "period u \<noteq> w" if "u \<in> set rest" for u
        using that assms Cons forward [of t u] by auto
      then show ?thesis by (auto simp: filter_empty_conv)
    qed
    then show ?thesis using rest False by (auto simp: Cons due_at)
  qed
qed simp

end

text \<open>A time of the day, whatever the number.\<close>

definition clock :: "int \<Rightarrow> int" where
  "clock t = t mod day"

definition week_of :: "int \<Rightarrow> int" where
  "week_of d = (d + 3) div 7"

definition week_day :: "int \<Rightarrow> int \<Rightarrow> int" where
  "week_day k w = 7 * w - 3 + k mod 7"

definition month_day :: "int \<Rightarrow> int \<Rightarrow> int" where
  "month_day k m = month_start m + min (max 1 k) (month_days m) - 1"

lemma clock_bounds: "0 \<le> clock t" "clock t < day" and clock_id: "0 \<le> t \<Longrightarrow> t < day \<Longrightarrow> clock t = t"
  by (simp_all add: clock_def day_def)

lemma day_of_moment [simp]: "day_of (d * day + clock t) = d"
  using clock_bounds [of t] by (simp add: day_of_def day_def)

lemma day_of_mono: "s \<le> t \<Longrightarrow> day_of s \<le> day_of t"
  by (simp add: day_of_def day_def zdiv_mono1)

lemma before_day: "p < d * day \<longleftrightarrow> day_of p < d"
proof -
  have pos: "0 < day" by (simp add: day_def)
  have p: "p = day * day_of p + p mod day" "0 \<le> p mod day" "p mod day < day" using pos by (simp_all add: day_of_def)
  show ?thesis
  proof
    assume "p < d * day"
    moreover have "day_of p * day \<le> p" using p(1,2) by (simp only: mult.commute [of "day_of p"])
    ultimately have "day_of p * day < d * day" by (rule le_less_trans [rotated])
    then show "day_of p < d" using pos by simp
  next
    assume "day_of p < d"
    then have "(day_of p + 1) * day \<le> d * day" by (intro mult_right_mono) (simp_all add: less_imp_le [OF pos])
    moreover have "p < day_of p * day + day" using p(1,3) by (simp only: mult.commute [of "day_of p"])
    ultimately show "p < d * day" unfolding distrib_right mult_1_left by linarith
  qed
qed

lemma week_of_week_day [simp]: "week_of (week_day k w) = w"
proof -
  have "0 \<le> k mod 7" "k mod 7 < 7" by simp_all
  moreover have "week_day k w + 3 = 7 * w + k mod 7" by (simp add: week_day_def)
  ultimately show ?thesis unfolding week_of_def by (intro int_div_pos_eq)
qed

lemma week_of_mono: "c \<le> d \<Longrightarrow> week_of c \<le> week_of d"
  by (simp add: week_of_def zdiv_mono1)

lemma month_of_month_day [simp]: "month_of (month_day k m) = m"
proof (rule month_of_eq)
  show "month_start m \<le> month_day k m" using month_days_bounds(1) [of m] by (simp add: month_day_def)
  have "month_start (m + 1) = month_start m + month_days m" by (simp add: month_days_def)
  then show "month_day k m < month_start (m + 1)" unfolding month_day_def by linarith
qed

interpretation daily: periods day_of "\<lambda>d. d * day + clock t" for t
  by unfold_locales (simp_all add: day_of_mono)

interpretation weekly: periods "\<lambda>s. week_of (day_of s)" "\<lambda>w. week_day k w * day + clock t" for k t
  by unfold_locales (simp_all add: week_of_mono day_of_mono)

interpretation monthly: periods "\<lambda>s. month_of (day_of s)" "\<lambda>m. month_day k m * day + clock t" for k t
  by unfold_locales (simp_all add: month_of_mono day_of_mono)

section \<open>Schedules are due once in a period\<close>

text \<open>The period of a schedule and its moment there, as the number of a day and a time.\<close>

definition schedule_period :: "schedule \<Rightarrow> int \<Rightarrow> int" where
  "schedule_period sc s =
     (if sc_frequency sc = ''weekly'' then week_of (day_of s)
      else if sc_frequency sc = ''monthly'' then month_of (day_of s) else day_of s)"

definition schedule_time :: "schedule \<Rightarrow> string \<Rightarrow> int" where
  "schedule_time sc bars = (case sc_offset sc of None \<Rightarrow> 0 | Some t \<Rightarrow> if is_intraday bars then t else 0)"

definition schedule_moment :: "schedule \<Rightarrow> string \<Rightarrow> int \<Rightarrow> int" where
  "schedule_moment sc bars w =
     (if sc_frequency sc = ''weekly'' then week_day (max 1 (min 7 (if sc_weekday sc = 0 then 1 else sc_weekday sc)) - 1) w
      else if sc_frequency sc = ''monthly'' then month_day (if sc_monthday sc = 0 then 1 else sc_monthday sc) w else w) * day
     + schedule_time sc bars"

lemma scheduled_moment:
  assumes "sc_frequency sc \<in> {''daily'', ''weekly'', ''monthly''}"
  shows "scheduled_at sc bars (day_of s) = Some (schedule_moment sc bars (schedule_period sc s))"
proof -
  have week: "d + (k - weekday d) = week_day k (week_of d)" if "0 \<le> k" "k < 7" for k d :: int
  proof -
    have "d + 3 = 7 * week_of d + weekday d" by (simp add: week_of_def weekday_def)
    then show ?thesis using that by (simp add: week_day_def)
  qed
  have target: "0 \<le> max 1 (min 7 (k :: int)) - 1" "max 1 (min 7 k) - 1 < 7" for k by auto
  from assms show ?thesis
    by (auto simp: scheduled_at_def scheduled_day_def Let_def schedule_moment_def schedule_period_def schedule_time_def
        month_day_def week [OF target])
qed

lemma due_bars_cong:
  assumes "\<And>t. f None t = g None t" and "\<And>p t. p < t \<Longrightarrow> f (Some p) t = g (Some p) t" and "sorted_wrt (<) ts"
    and "\<forall>p. previous = Some p \<longrightarrow> (\<forall>t \<in> set ts. p < t)"
  shows "due_bars f previous ts = due_bars g previous ts"
  using assms(3,4)
proof (induction ts arbitrary: previous)
  case (Cons t ts)
  then show ?case using assms(1,2) by (cases previous) auto
qed simp

lemma schedule_due_moment:
  assumes "sc_frequency sc \<in> {''daily'', ''weekly'', ''monthly''}" and "0 \<le> schedule_time sc bars" "schedule_time sc bars < day"
  shows "schedule_due sc bars None t = (schedule_moment sc bars (schedule_period sc t) \<le> t)"
    and "p < t \<Longrightarrow> schedule_due sc bars (Some p) t
      = (schedule_moment sc bars (schedule_period sc t) \<le> t \<and> p < schedule_moment sc bars (schedule_period sc t))"
proof -
  show "schedule_due sc bars None t = (schedule_moment sc bars (schedule_period sc t) \<le> t)"
    by (simp add: schedule_due_def scheduled_moment [OF assms(1)] not_less)
  assume "p < t"
  have "day_of t \<noteq> day_of p \<longleftrightarrow> p < day_of t * day"
  proof -
    have "p < day_of t * day \<longleftrightarrow> day_of p < day_of t"
      by (rule before_day)
    then show ?thesis using day_of_mono [of p t] \<open>p < t\<close> by auto
  qed
  moreover have "schedule_moment sc bars (schedule_period sc t) = day_of t * day"
    if "sc_frequency sc = ''daily''" "\<not> is_intraday bars"
    using that by (simp add: schedule_moment_def schedule_period_def schedule_time_def split: option.split)
  ultimately show "schedule_due sc bars (Some p) t
      = (schedule_moment sc bars (schedule_period sc t) \<le> t \<and> p < schedule_moment sc bars (schedule_period sc t))"
    by (auto simp: schedule_due_def scheduled_moment [OF assms(1)] not_less)
qed

text \<open>C28.  A schedule is due once in each of its periods: over the bars of a run, in their order, the bars of
  a day, a week or a month at which a daily, weekly or monthly schedule is due are exactly the first
  one that is not before its moment in that period, and none when there is no such bar: a month whose
  last trading day comes before the day asked for is left out.\<close>

theorem schedule_due_once:
  assumes "sc_frequency sc \<in> {''daily'', ''weekly'', ''monthly''}"
    and "0 \<le> schedule_time sc bars" and "schedule_time sc bars < day" and "sorted_wrt (<) ts"
  shows "filter (\<lambda>t. schedule_period sc t = w) (due_bars (schedule_due sc bars) None ts)
    = take 1 (filter (\<lambda>t. schedule_period sc t = w \<and> schedule_moment sc bars w \<le> t) ts)"
proof -
  let ?due = "\<lambda>previous t. schedule_moment sc bars (schedule_period sc t) \<le> t
    \<and> (case previous of None \<Rightarrow> True | Some p \<Rightarrow> p < schedule_moment sc bars (schedule_period sc t))"
  have c: "clock (schedule_time sc bars) = schedule_time sc bars" by (rule clock_id [OF assms(2,3)])
  have "periods (schedule_period sc) (schedule_moment sc bars)"
    using daily.periods_axioms [of "schedule_time sc bars"] weekly.periods_axioms [where t = "schedule_time sc bars"]
      monthly.periods_axioms [where t = "schedule_time sc bars"] assms(1)
    unfolding c by (auto simp: schedule_period_def [abs_def] schedule_moment_def [abs_def])
  from periods.due_once [OF this assms(4)] show ?thesis
    using due_bars_cong [of "schedule_due sc bars" ?due ts None] schedule_due_moment [OF assms(1-3)] assms(4)
    unfolding periods.due_def [OF \<open>periods (schedule_period sc) (schedule_moment sc bars)\<close>, abs_def] by simp
qed

text \<open>The trading days around the end of August 2025 (the 31st was a Sunday), and a schedule on the 31st.\<close>

definition month_end :: schedule where
  "month_end = \<lparr>sc_frequency = ''monthly'', sc_weekday = 0, sc_monthday = 31, sc_offset = None\<rparr>"

definition august_bars :: "int list" where
  "august_bars = map (\<lambda>d. d * day) [20328, 20329, 20332, 20333]"

lemma schedule_due_once_witness:
  "filter (\<lambda>t. schedule_period month_end t = 667) (due_bars (schedule_due month_end ''1d'') None august_bars) = []"
proof -
  have "filter (\<lambda>t. schedule_period month_end t = 667) (due_bars (schedule_due month_end ''1d'') None august_bars)
      = take 1 (filter (\<lambda>t. schedule_period month_end t = 667 \<and> schedule_moment month_end ''1d'' 667 \<le> t) august_bars)"
    by (rule schedule_due_once) (simp_all add: month_end_def schedule_time_def august_bars_def day_def)
  also have "\<dots> = []" by code_simp
  finally show ?thesis .
qed

end
