(* ===== verification/Live_Session.thy ===== *)
theory Live_Session
  imports Schedule
begin

text \<open>
  The session of a live strategy: \<open>StrategyV2LiveSession\<close> of \<open>services/strategy_v2/runtime.py\<close> and a cycle of
  the loop of \<open>services/trading_executor.py\<close> that drives it.  The code of the strategy is a parameter, as in
  the backtest; what it keeps for itself (its own state, order statuses, exit reasons) is the type
  \<open>'u\<close>.  Symbols of the account are resolved by a parameter, equity and prices are given.
\<close>

section \<open>State\<close>

text \<open>\<open>_protection_exit_pending\<close> is a set; here the list of its elements.\<close>

record session =
  ls_positions :: "(string \<times> bt_position) list"
  ls_specs :: "(string \<times> pspec) list"
  ls_states :: "(string \<times> pstate) list"
  ls_pending :: "string list"
  ls_total :: rat
  ls_now :: "int option"
  ls_processed :: "int option"
  ls_check :: "int option"

definition new_session :: "rat \<Rightarrow> session" where
  "new_session capital =
     \<lparr>ls_positions = [], ls_specs = [], ls_states = [], ls_pending = [], ls_total = capital, ls_now = None,
      ls_processed = None, ls_check = None\<rparr>"

text \<open>A position as the executor reads it from the ledger.\<close>

record raw_position =
  rp_amount :: rat
  rp_side :: string
  rp_position_side :: string
  rp_cost :: rat
  rp_last :: rat

section \<open>Synchronizing positions\<close>

text \<open>\<open>rpartition('::')\<close>: the text before and after the last separator.\<close>

fun split_last :: "string \<Rightarrow> (string \<times> string) option" where
  "split_last [] = None"
| "split_last (c # cs) =
     (case split_last cs of
        Some (a, b) \<Rightarrow> Some (c # a, b)
      | None \<Rightarrow> if take 2 (c # cs) = ''::'' then Some ([], drop 2 (c # cs)) else None)"

definition split_leg :: "string \<Rightarrow> string \<times> string" where
  "split_leg key =
     (case split_last key of
        None \<Rightarrow> (key, [])
      | Some (a, b) \<Rightarrow> let side = normalize_position_side b in if side \<noteq> [] then (a, side) else (key, []))"

definition synced_position :: "(string \<Rightarrow> string option) \<Rightarrow> string \<Rightarrow> raw_position \<Rightarrow> bt_position" where
  "synced_position resolve key raw =
     (let (source, suffix) = split_leg key;
          symbol = (case resolve source of None \<Rightarrow> source | Some s \<Rightarrow> s);
          short = (py_lower (py_strip (str_or (rp_side raw) ''long'')) = ''short'' \<and> 0 < rp_amount raw) in
      \<lparr>bp_symbol = symbol, bp_amount = (if short then - rp_amount raw else rp_amount raw), bp_cost = rp_cost raw,
       bp_last = rp_last raw, bp_side = str_or suffix (normalize_position_side (rp_position_side raw))\<rparr>)"

definition synced_positions ::
  "(string \<Rightarrow> string option) \<Rightarrow> (string \<times> raw_position) list \<Rightarrow> (string \<times> bt_position) list" where
  "synced_positions resolve positions =
     foldl (\<lambda>t (key, raw). let p = synced_position resolve key raw in AList.update (position_key (bp_symbol p) (bp_side p)) p t)
       [] positions"

definition cost_moved :: "rat \<Rightarrow> rat \<Rightarrow> bool" where
  "cost_moved cost entry = (max eps12 (fmul \<bar>entry\<bar> (fl (1 / 10 ^ 10))) < \<bar>fsub cost entry\<bar>)"

definition sync_state :: "int \<Rightarrow> session \<Rightarrow> string \<Rightarrow> bt_position \<Rightarrow> (string \<times> pstate) list \<Rightarrow> (string \<times> pstate) list" where
  "sync_state now s key p states =
     (case map_of (ls_specs s) key of
        None \<Rightarrow> states
      | Some spec \<Rightarrow>
          if \<bar>bp_amount p\<bar> \<le> eps12 \<or> bp_cost p \<le> 0 then states
          else let side = side_of (bp_amount p);
                   opened = open_state key side (bp_cost p) spec (case ls_now s of None \<Rightarrow> now | Some t \<Rightarrow> t) in
            (case map_of states key of
               None \<Rightarrow> AList.update key opened states
             | Some st \<Rightarrow>
                 if pt_side st \<noteq> side then AList.update key opened states
                 else if cost_moved (bp_cost p) (pt_entry st)
                 then AList.update key (apply_scale_in (bp_cost p) (num_or (bp_last p) (bp_cost p)) (Some spec) (ls_now s) st) states
                 else states))"

definition drop_flat :: "session \<Rightarrow> session" where
  "drop_flat s =
     (let gone = (\<lambda>k. k \<in> set (ls_pending s) \<and> k \<notin> fst ` set (ls_positions s)) in
      s\<lparr>ls_pending := filter (\<lambda>k. \<not> gone k) (ls_pending s), ls_specs := filter (\<lambda>(k, _). \<not> gone k) (ls_specs s),
        ls_states := filter (\<lambda>(k, _). \<not> gone k) (ls_states s)\<rparr>)"

definition synchronize_positions ::
  "(string \<Rightarrow> string option) \<Rightarrow> int \<Rightarrow> (string \<times> raw_position) list \<Rightarrow> rat \<Rightarrow> session \<Rightarrow> session" where
  "synchronize_positions resolve now positions equity s =
     (let synced = synced_positions resolve positions;
          states = foldl (\<lambda>t (k, p). sync_state now s k p t) (ls_states s) synced in
      (drop_flat (s\<lparr>ls_positions := synced, ls_states := states\<rparr>))\<lparr>ls_total := equity\<rparr>)"

section \<open>Protection\<close>

definition exit_order :: "string \<Rightarrow> exit_reason \<Rightarrow> string \<Rightarrow> bt_order" where
  "exit_order symbol reason side = (plain_order symbol (reason_name reason) 0 side)\<lparr>bo_signal := None\<rparr>"

definition leg_price :: "(string \<Rightarrow> rat option) \<Rightarrow> string \<Rightarrow> bt_position \<Rightarrow> rat option" where
  "leg_price prices key p = (case prices (bp_symbol p) of Some x \<Rightarrow> Some x | None \<Rightarrow> prices key)"

definition evaluate_leg :: "(string \<Rightarrow> rat option) \<Rightarrow> int \<Rightarrow> string \<Rightarrow> pstate \<Rightarrow> session \<Rightarrow> bt_order list \<times> session" where
  "evaluate_leg prices ts key st s =
     (if key \<in> set (ls_pending s) then ([], s)
      else case map_of (ls_positions s) key of
        None \<Rightarrow> ([], s)
      | Some p \<Rightarrow>
          if \<bar>bp_amount p\<bar> \<le> eps12 then ([], s)
          else case leg_price prices key p of
            None \<Rightarrow> ([], s)
          | Some price \<Rightarrow>
              let (d, st1) = evaluate_price Conservative st ts price; s1 = s\<lparr>ls_states := AList.update key st1 (ls_states s)\<rparr> in
              (case d of
                 None \<Rightarrow> ([], s1)
               | Some d \<Rightarrow> ([exit_order (bp_symbol p) (dc_reason d) (bp_side p)], s1\<lparr>ls_pending := List.insert key (ls_pending s1)\<rparr>)))"

fun evaluate_legs :: "(string \<Rightarrow> rat option) \<Rightarrow> int \<Rightarrow> (string \<times> pstate) list \<Rightarrow> session \<Rightarrow> bt_order list \<times> session" where
  "evaluate_legs prices ts [] s = ([], s)"
| "evaluate_legs prices ts ((key, st) # rest) s =
     (let (os, s1) = evaluate_leg prices ts key st s; (os', s2) = evaluate_legs prices ts rest s1 in (os @ os', s2))"

definition evaluate_protections :: "(string \<Rightarrow> rat option) \<Rightarrow> int \<Rightarrow> session \<Rightarrow> bt_order list \<times> session" where
  "evaluate_protections prices ts s = evaluate_legs prices ts (ls_states s) s"

definition release_protection_exit :: "string \<Rightarrow> string \<Rightarrow> session \<Rightarrow> session" where
  "release_protection_exit symbol side s = s\<lparr>ls_pending := filter (\<lambda>k. k \<noteq> position_key symbol side) (ls_pending s)\<rparr>"

definition zero_target :: "bt_order \<Rightarrow> bool" where
  "zero_target o' = (is_target o' \<and> \<bar>bo_value o'\<bar> \<le> eps12)"

definition capture_intent :: "session \<Rightarrow> bt_order \<Rightarrow> session" where
  "capture_intent s o' =
     (let s1 = (case bo_protection o' of None \<Rightarrow> s | Some sp \<Rightarrow> s\<lparr>ls_specs := AList.update (order_key o') sp (ls_specs s)\<rparr>) in
      if zero_target o' then s1\<lparr>ls_pending := List.insert (order_key o') (ls_pending s1)\<rparr> else s1)"

definition capture_protection_intents :: "bt_order list \<Rightarrow> session \<Rightarrow> session" where
  "capture_protection_intents orders s = foldl capture_intent s orders"

section \<open>Saving and restoring\<close>

record snapshot =
  sn_specs :: "(string \<times> fields \<times> json option) list"
  sn_states :: "(string \<times> pmeta) list"
  sn_pending :: "string list"

definition protection_snapshot :: "session \<Rightarrow> snapshot" where
  "protection_snapshot s =
     \<lparr>sn_specs = map (\<lambda>(k, sp). (k, spec_metadata sp, Some (JBool (sp_rebase sp)))) (ls_specs s),
      sn_states = map (\<lambda>(k, st). (k, state_metadata st)) (ls_states s), sn_pending = ls_pending s\<rparr>"

definition restore_protection_snapshot :: "int \<Rightarrow> snapshot \<Rightarrow> session \<Rightarrow> session" where
  "restore_protection_snapshot now n s =
     s\<lparr>ls_specs := List.map_filter (\<lambda>(k, f, r). map_option (Pair k) (spec_from_value f (\<lambda>_. None) None r)) (sn_specs n),
       ls_states := List.map_filter (\<lambda>(k, m). map_option (Pair k) (state_from_metadata m now)) (sn_states n),
       ls_pending := remdups (sn_pending n)\<rparr>"

section \<open>A bar of the strategy\<close>

text \<open>A handler sees the time, the market, the positions and the equity.\<close>

type_synonym 'u hook = "int \<Rightarrow> portal \<Rightarrow> (string \<times> bt_position) list \<Rightarrow> rat \<Rightarrow> 'u \<Rightarrow> bt_order list \<times> 'u"

record 'u program =
  pg_before :: "'u hook"
  pg_schedules :: "(schedule \<times> 'u hook) list"
  pg_rebalance :: "'u hook option"
  pg_data :: "'u hook"
  pg_equity :: "(int \<Rightarrow> (string \<times> bt_position) list \<Rightarrow> rat \<Rightarrow> 'u \<Rightarrow> bt_order list \<times> string \<times> 'u) option"
  pg_release :: "'u \<Rightarrow> 'u"

fun call_hooks :: "'u hook list \<Rightarrow> int \<Rightarrow> portal \<Rightarrow> session \<Rightarrow> 'u \<Rightarrow> bt_order list \<times> 'u" where
  "call_hooks [] now P s u = ([], u)"
| "call_hooks (h # hs) now P s u =
     (let (os, u1) = h now P (ls_positions s) (ls_total s) u; (os', u2) = call_hooks hs now P s u1 in (os @ os', u2))"

definition due_hooks :: "'u program \<Rightarrow> int option \<Rightarrow> int \<Rightarrow> 'u hook list" where
  "due_hooks g previous tick =
     (case previous of
        None \<Rightarrow> []
      | Some p \<Rightarrow> if p < tick then map snd (filter (\<lambda>(sc, _). schedule_due sc ''1m'' (Some p) tick) (pg_schedules g)) else [])"

text \<open>What \<open>context.current_dt\<close> ends up as.\<close>

definition context_time :: "bool \<Rightarrow> int \<Rightarrow> int \<Rightarrow> session \<Rightarrow> int option" where
  "context_time advanced ts tick s =
     (if advanced then Some ts
      else case ls_check s of None \<Rightarrow> ls_now s | Some p \<Rightarrow> if p < tick then Some tick else ls_now s)"

text \<open>\<open>process\<close>: \<open>None\<close> when there is no market data.\<close>

definition process_bar ::
  "'u program \<Rightarrow> (string \<times> frame) list \<Rightarrow> int \<Rightarrow> session \<Rightarrow> 'u \<Rightarrow> (bt_order list \<times> int \<times> session \<times> 'u) option" where
  "process_bar g frames tick s u =
     (let P0 = \<lparr>po_frames = frames, po_visible = None\<rparr> in
      case rev (timestamps P0) of
        [] \<Rightarrow> None
      | ts # _ \<Rightarrow>
          let advanced = (case ls_processed s of None \<Rightarrow> True | Some p \<Rightarrow> p < ts);
              new_day = (case ls_processed s of None \<Rightarrow> True | Some p \<Rightarrow> day_of ts \<noteq> day_of p);
              P = set_clock ts True P0;
              (o1, u1) = call_hooks (if advanced \<and> new_day then [pg_before g] else []) ts P s u;
              (o2, u2) = call_hooks (due_hooks g (ls_check s) tick) tick P s u1;
              (o3, u3) = call_hooks (if advanced
                           then (case pg_rebalance g of None \<Rightarrow> [] | Some h \<Rightarrow> if pg_schedules g = [] then [h] else []) @ [pg_data g]
                           else []) ts P s u2;
              s1 = capture_protection_intents (o1 @ o2 @ o3)
                     (s\<lparr>ls_check := Some tick, ls_now := context_time advanced ts tick s\<rparr>) in
          Some (o1 @ o2 @ o3, ts, (if advanced then s1\<lparr>ls_processed := Some ts\<rparr> else s1), u3))"

section \<open>A cycle of the executor\<close>

text \<open>
  What a cycle of the loop reads: the positions of the ledger, the equity computed from them, the live
  prices, the time, whether it is time to look at the bars, the bars and the clock of the schedules.
\<close>

record cycle =
  cy_positions :: "(string \<times> raw_position) list"
  cy_equity :: rat
  cy_prices :: "(string \<times> rat) list"
  cy_now :: int
  cy_poll :: bool
  cy_frames :: "(string \<times> frame) list"
  cy_clock :: int

definition mark_key :: "string \<Rightarrow> string" where
  "mark_key key = (case split_last key of Some (a, b) \<Rightarrow> if b \<in> {''long'', ''short''} then a else key | None \<Rightarrow> key)"

definition prices_fresh :: "cycle \<Rightarrow> bool" where
  "prices_fresh c = (cy_prices c \<noteq> [] \<and>
     (\<forall>(key, raw) \<in> set (cy_positions c). eps12 < \<bar>rp_amount raw\<bar> \<longrightarrow>
        (case map_of (cy_prices c) (mark_key key) of None \<Rightarrow> False | Some x \<Rightarrow> x \<noteq> 0)))"

text \<open>A refused exit of a leg that is flat counts as submitted.\<close>

definition equity_submitted :: "cycle \<Rightarrow> (bt_order \<Rightarrow> bool) \<Rightarrow> bt_order \<Rightarrow> bool" where
  "equity_submitted c submit o' =
     (submit o' \<or> zero_target o' \<and>
        (let raw = (case map_of (cy_positions c) (order_key o') of Some r \<Rightarrow> Some r | None \<Rightarrow> map_of (cy_positions c) (bo_symbol o')) in
         case raw of None \<Rightarrow> True | Some r \<Rightarrow> \<bar>rp_amount r\<bar> \<le> eps12))"

definition equity_risk ::
  "'u program \<Rightarrow> cycle \<Rightarrow> session \<Rightarrow> 'u \<Rightarrow> bt_order list \<times> string \<times> session \<times> 'u" where
  "equity_risk g c s u =
     (case pg_equity g of
        Some h \<Rightarrow>
          if prices_fresh c
          then let (orders, reason, u1) = h (cy_now c) (ls_positions s) (ls_total s) u in
               (orders, (if py_strip reason = [] \<and> orders \<noteq> [] then py_strip (bo_reason (hd orders)) else py_strip reason),
                capture_protection_intents orders (s\<lparr>ls_now := Some (cy_now c)\<rparr>), u1)
          else ([], [], s, u)
      | None \<Rightarrow> ([], [], s, u))"

definition release_refused :: "(bt_order \<Rightarrow> bool) \<Rightarrow> bt_order list \<Rightarrow> session \<Rightarrow> session" where
  "release_refused submit orders s =
     foldl (\<lambda>s o'. if submit o' then s else release_protection_exit (bo_symbol o') (bo_side o') s) s orders"

text \<open>
  The orders a cycle hands to \<open>_execute_strategy_v2_intent\<close> (\<open>submit\<close> is what that returns), whether the
  strategy stops, and what is saved.  \<open>None\<close>: no market data, nothing is saved.
\<close>

definition run_cycle ::
  "'u program \<Rightarrow> (string \<Rightarrow> string option) \<Rightarrow> (bt_order \<Rightarrow> bool) \<Rightarrow> cycle \<Rightarrow> session \<Rightarrow> 'u \<Rightarrow>
    bt_order list \<times> (bool \<times> snapshot) option \<times> session \<times> 'u" where
  "run_cycle g resolve submit c s u =
     (let s1 = synchronize_positions resolve (cy_now c) (cy_positions c) (cy_equity c) s;
          (eq, reason, s2, u2) = equity_risk g c s1 u;
          failed = list_ex (\<lambda>o'. \<not> equity_submitted c submit o') eq;
          u3 = (if reason \<noteq> [] \<and> failed then pg_release g u2 else u2);
          (exits, s4) = (if reason \<noteq> [] then ([], s2) else evaluate_protections (map_of (cy_prices c)) (cy_now c) s2);
          s5 = release_refused submit exits s4 in
      if reason = [] \<and> cy_poll c
      then (case process_bar g (cy_frames c) (cy_clock c) s5 u3 of
              None \<Rightarrow> (eq @ exits, None, s5, u3)
            | Some (orders, ts, s6, u4) \<Rightarrow>
                (eq @ exits @ filter (\<lambda>o'. order_key o' \<notin> set (ls_pending s5)) orders,
                 Some (False, protection_snapshot s6), s6, u4))
      else (eq @ exits, Some (reason \<noteq> [] \<and> \<not> failed, protection_snapshot s5), s5, u3))"

text \<open>Several cycles, with the answers of the queue in each; the run ends when the strategy stops.\<close>

fun run_cycles ::
  "'u program \<Rightarrow> (string \<Rightarrow> string option) \<Rightarrow> ((bt_order \<Rightarrow> bool) \<times> cycle) list \<Rightarrow> session \<Rightarrow> 'u \<Rightarrow> bt_order list \<times> session \<times> 'u" where
  "run_cycles g resolve [] s u = ([], s, u)"
| "run_cycles g resolve ((submit, c) # cs) s u =
     (let (os, saved, s1, u1) = run_cycle g resolve submit c s u in
      case saved of
        Some (True, n) \<Rightarrow> (os, s1, u1)
      | _ \<Rightarrow> let (os', s2, u2) = run_cycles g resolve cs s1 u1 in (os @ os', s2, u2))"

end
