(* ===== verification/Backtest_Safety.thy ===== *)
theory Backtest_Safety
  imports Backtest
begin

text \<open>
  Invariants of the simulation broker over whole runs, and what its orders do.  The locale
  \<open>broker_invariant\<close> lists what a property of the broker needs of its primitives; that every batch,
  liquidation, protection round and bar keeps it is proved once, inside.
\<close>

section \<open>Well-formed books\<close>

definition book_ok :: "broker \<Rightarrow> bool" where
  "book_ok b =
     (distinct (map fst (bk_positions b)) \<and> distinct (map fst (bk_protections b))
      \<and> (\<forall>k p. map_of (bk_positions b) k = Some p \<longrightarrow>
           k = position_key (bp_symbol p) (bp_side p) \<and> normalize_position_side (bp_side p) = bp_side p \<and> eps12 < \<bar>bp_amount p\<bar>)
      \<and> (\<forall>k s. map_of (bk_protections b) k = Some s \<longrightarrow>
           (\<exists>p. map_of (bk_positions b) k = Some p \<and> pt_side s = side_of (bp_amount p))))"

definition same_book :: "broker \<Rightarrow> broker \<Rightarrow> bool" where
  "same_book b b' =
     (bk_positions b' = bk_positions b \<and> bk_protections b' = bk_protections b \<and> bk_executions b' = bk_executions b
      \<and> bk_leverage b' = bk_leverage b \<and> bk_commission b' = bk_commission b \<and> bk_slippage b' = bk_slippage b)"

lemma same_book_refl [simp]: "same_book b b"
  by (simp add: same_book_def)

lemma same_book_trans: "same_book b c \<Longrightarrow> same_book c d \<Longrightarrow> same_book b d"
  by (simp add: same_book_def)

lemma book_ok_same: "same_book b b' \<Longrightarrow> book_ok b' = book_ok b"
  by (simp add: same_book_def book_ok_def)

lemma mark_position_simps [simp]:
  "bp_symbol (mark_position P ts p) = bp_symbol p" "bp_amount (mark_position P ts p) = bp_amount p"
  "bp_cost (mark_position P ts p) = bp_cost p" "bp_side (mark_position P ts p) = bp_side p"
  by (simp_all add: mark_position_def Let_def)

lemma mark_to_market_simps [simp]:
  "bk_protections (mark_to_market P ts b) = bk_protections b" "bk_executions (mark_to_market P ts b) = bk_executions b"
  "bk_ledger (mark_to_market P ts b) = bk_ledger b" "bk_cash (mark_to_market P ts b) = bk_cash b"
  "bk_leverage (mark_to_market P ts b) = bk_leverage b" "bk_commission (mark_to_market P ts b) = bk_commission b"
  "bk_slippage (mark_to_market P ts b) = bk_slippage b" "bk_resting (mark_to_market P ts b) = bk_resting b"
  "bk_bankrupt (mark_to_market P ts b) = bk_bankrupt b"
  "map fst (bk_positions (mark_to_market P ts b)) = map fst (bk_positions b)"
  by (simp_all add: mark_to_market_def Let_def comp_def case_prod_beta)

lemma map_of_mark:
  "map_of (bk_positions (mark_to_market P ts b)) k = map_option (mark_position P ts) (map_of (bk_positions b) k)"
proof -
  have "map_of (map (\<lambda>(k, p). (k, f p)) xs) k = map_option f (map_of xs k)" for f :: "bt_position \<Rightarrow> bt_position" and xs
    by (induction xs) auto
  then show ?thesis by (simp add: mark_to_market_def Let_def)
qed

lemma position_of_mark [simp]: "bp_amount (position_of (mark_to_market P ts b) o') = bp_amount (position_of b o')"
  by (auto simp: position_of_def map_of_mark split: option.split)

lemma book_ok_mark: "book_ok b \<Longrightarrow> book_ok (mark_to_market P ts b)"
  unfolding book_ok_def by (auto simp: map_of_mark) (metis mark_position_simps(2))

lemma side_strings: "py_strip ''long'' = ''long''" "py_lower ''long'' = ''long''" "py_strip ''short'' = ''short''" "py_lower ''short'' = ''short''"
  by code_simp+

lemma normalize_idem [simp]: "normalize_position_side (normalize_position_side s) = normalize_position_side s"
proof -
  have "normalize_position_side s \<in> {[], ''long'', ''short''}" by (simp add: normalize_position_side_def Let_def)
  then show ?thesis by (auto simp: normalize_position_side_def side_strings)
qed

lemma position_key_normalize [simp]: "position_key symbol (normalize_position_side s) = position_key symbol s"
  by (simp add: position_key_def)

lemma side_of_lower [simp]: "py_lower (side_of x) = side_of x"
  by (simp add: side_of_def side_strings)

section \<open>Fills\<close>

lemma pt_side_simps [simp]:
  "pt_side (open_state symbol side entry spec opened) = py_lower side"
  "pt_side (apply_scale_in entry fill sp scaled_at s) = pt_side s"
  by (simp_all add: open_state_def apply_scale_in_def Let_def)

lemma evaluate_bar_side [simp]: "pt_side (snd (evaluate_bar mode s ts opn high low)) = pt_side s"
proof -
  have "pt_side (snd (trailing_trigger s)) = pt_side s" by (simp add: trailing_trigger_def Let_def)
  then have "pt_side (snd (bar_candidates s ts opn h l)) = pt_side s" for h l
    by (simp add: bar_candidates_def Let_def case_prod_beta)
  then show ?thesis by (simp add: evaluate_bar_def Let_def case_prod_beta split: option.split)
qed

lemma protect_leg_other: "k \<noteq> order_key o' \<Longrightarrow> map_of (protect_leg o' ts p price ps) k = map_of ps k"
  by (auto simp: protect_leg_def Let_def AList.update_conv' split: option.split bool.split)

lemma protect_leg_keys: "distinct (map fst ps) \<Longrightarrow> distinct (map fst (protect_leg o' ts p price ps))"
  by (auto simp: protect_leg_def Let_def intro: AList.distinct_update split: option.split bool.split)

lemma protect_leg_side:
  assumes "map_of (protect_leg o' ts p price ps) (order_key o') = Some s"
  shows "pt_side s = side_of (bp_amount p)"
  using assms
  by (cases "map_of ps (order_key o')")
    (auto simp: protect_leg_def Let_def AList.update_conv' split: option.splits if_splits bool.splits)

lemma position_of_key:
  assumes "book_ok b"
  shows "position_key (bp_symbol (position_of b o')) (bp_side (position_of b o')) = order_key o'"
    and "normalize_position_side (bp_side (position_of b o')) = bp_side (position_of b o')"
  using assms by (auto simp: position_of_def book_ok_def order_key_def split: option.split)

lemma filled_position_simps [simp]:
  "bp_symbol (filled_position b o' t) = bp_symbol (position_of b o')" "bp_side (filled_position b o' t) = bp_side (position_of b o')"
  "bp_amount (filled_position b o' t) = fadd (bp_amount (position_of b o')) (ft_delta t)"
  by (simp_all add: filled_position_def Let_def)

lemma book_fill_simps [simp]:
  "bk_executions (book_fill ts o' t b) = bk_executions b" "bk_leverage (book_fill ts o' t b) = bk_leverage b"
  "bk_commission (book_fill ts o' t b) = bk_commission b" "bk_slippage (book_fill ts o' t b) = bk_slippage b"
  "bk_ledger (book_fill ts o' t b) = bk_ledger b"
  by (simp_all add: book_fill_def Let_def)

lemma book_fill_positions:
  "map_of (bk_positions (book_fill ts o' t b)) k =
     (if k = order_key o' then (if \<bar>bp_amount (filled_position b o' t)\<bar> \<le> eps12 then None else Some (filled_position b o' t))
      else map_of (bk_positions b) k)"
  by (auto simp: book_fill_def Let_def AList.update_conv' AList.delete_conv')

lemma book_fill_protections:
  "map_of (bk_protections (book_fill ts o' t b)) k =
     (if \<bar>bp_amount (filled_position b o' t)\<bar> \<le> eps12 then (if k = order_key o' then None else map_of (bk_protections b) k)
      else map_of (protect_leg o' ts (filled_position b o' t) (ft_price t) (bk_protections b)) k)"
  by (auto simp: book_fill_def Let_def AList.delete_conv')

lemma book_ok_fill:
  assumes ok: "book_ok b"
  shows "book_ok (book_fill ts o' t b)"
proof -
  let ?b = "book_fill ts o' t b" and ?p = "filled_position b o' t"
  have "distinct (map fst (bk_positions ?b))" "distinct (map fst (bk_protections ?b))"
    using ok by (auto simp: book_fill_def Let_def book_ok_def intro!: AList.distinct_update AList.distinct_delete protect_leg_keys)
  moreover have "k = position_key (bp_symbol p) (bp_side p) \<and> normalize_position_side (bp_side p) = bp_side p \<and> eps12 < \<bar>bp_amount p\<bar>"
    if "map_of (bk_positions ?b) k = Some p" for k p
    using that ok position_of_key [OF ok, of o'] by (auto simp: book_fill_positions book_ok_def split: if_splits)
  moreover have "\<exists>p. map_of (bk_positions ?b) k = Some p \<and> pt_side s = side_of (bp_amount p)"
    if s: "map_of (bk_protections ?b) k = Some s" for k s
  proof (cases "k = order_key o'")
    case True
    then have "\<not> \<bar>bp_amount ?p\<bar> \<le> eps12" using s by (auto simp: book_fill_protections split: if_splits)
    then show ?thesis using True s protect_leg_side [where o' = o' and ts = ts and p = ?p and price = "ft_price t" and ps = "bk_protections b" and s = s]
      by (simp add: book_fill_positions book_fill_protections)
  next
    case False
    then have "map_of (bk_protections b) k = Some s"
      using s by (simp add: book_fill_protections protect_leg_other split: if_splits)
    then show ?thesis using ok False by (auto simp: book_ok_def book_fill_positions)
  qed
  ultimately show ?thesis unfolding book_ok_def by blast
qed

lemma book_ok_protection:
  assumes "book_ok b"
  shows "book_ok (b\<lparr>bk_protections := AList.delete key (bk_protections b)\<rparr>)"
    and "map_of (bk_protections b) key = Some s \<Longrightarrow> pt_side s1 = pt_side s \<Longrightarrow>
      book_ok (b\<lparr>bk_protections := AList.update key s1 (bk_protections b)\<rparr>)"
  using assms by (auto simp: book_ok_def AList.update_conv' AList.delete_conv' intro!: AList.distinct_update AList.distinct_delete split: if_splits)

section \<open>What only the books of the run see\<close>

lemma same_append [simp]: "same_book b (snd (append_order_event e c b))"
  by (auto simp: append_order_event_def same_book_def Let_def split: option.split)

lemma same_refuse [simp]: "same_book b (snd (refuse_order i o' ts st reason requested b))"
  by (simp add: refuse_order_def)

lemma same_close_entry [simp]: "same_book b (close_entry x old cost target closing fee b)"
  unfolding close_entry_def Let_def same_book_def by simp

lemma same_open_entry [simp]: "same_book b (open_entry x target opening fee b)"
  unfolding open_entry_def Let_def same_book_def by simp

lemma same_if: "same_book b x \<Longrightarrow> same_book b y \<Longrightarrow> same_book b (if c then x else y)"
  by simp

lemma same_closed [simp]: "same_book b (record_closed_trade x old cost target b)"
  unfolding record_closed_trade_def Let_def
  by (intro same_if same_book_trans [OF _ same_open_entry] same_close_entry same_book_refl)

lemma same_rebalance: "same_book (mark_to_market P ts b) (record_rebalance P ts e c ws ns b)"
  by (simp add: record_rebalance_def same_book_def Let_def)

lemma same_equity: "same_book (mark_to_market P ts b) (record_equity P ts b)"
  by (simp add: record_equity_def same_book_def Let_def)

lemma same_remove_cancelled [simp]: "same_book b (snd (remove_cancelled cs os b))"
  by (simp add: remove_cancelled_def release_resting_def same_book_def)

lemma same_fill_order:
  "same_book ((book_fill ts o' t b)\<lparr>bk_executions := bk_executions b @ [fill_execution b (book_fill ts o' t b) i ts o' opn t]\<rparr>)
     (snd (snd (fill_order i ts o' opn t b)))"
  unfolding fill_order_def Let_def book_fill_simps case_prod_beta snd_conv
  by (rule same_book_trans [OF same_append same_closed])

text \<open>A forced liquidation comes with a price.\<close>

definition priced_order :: "(string \<Rightarrow> rat option) \<Rightarrow> bt_order \<Rightarrow> bool" where
  "priced_order overrides o' = (forced_liquidation o' \<longrightarrow> (\<exists>x. overrides (bo_symbol o') = Some x \<and> 0 < x))"

text \<open>An order is refused, deferred, or executed at a positive price.\<close>

lemma execute_order_cases:
  assumes "priced_order overrides o'"
  obtains (blocked) "same_book b (snd (snd (snd (execute_order P ts overrides o' b))))"
  | (executed) opn where "open_price P ts overrides o' = Some opn" "0 < opn"
      "execute_order P ts overrides o' b =
         execute_open_order P ts (ts, bk_sequence b + 1) o' (bar_at P (bo_symbol o') ts) opn (b\<lparr>bk_sequence := bk_sequence b + 1\<rparr>)"
proof -
  let ?b = "b\<lparr>bk_sequence := bk_sequence b + 1\<rparr>" and ?bar = "bar_at P (bo_symbol o') ts"
  define blocked where "blocked = (if forced_liquidation o' then [] else execution_block_reason ?b o' ?bar (open_price P ts overrides o'))"
  have same: "same_book b ?b" by (simp add: same_book_def)
  have eq: "execute_order P ts overrides o' b =
      (if blocked \<noteq> [] then
        (if 4 \<le> bo_attempts o'
         then let (n, b1) = refuse_order (ts, bk_sequence b + 1) o' ts Order_Rejected blocked 0 ?b in ([], n, None, b1)
         else let (n, b1) = refuse_order (ts, bk_sequence b + 1) o' ts Order_Deferred blocked 0 ?b in ([o'\<lparr>bo_attempts := bo_attempts o' + 1\<rparr>], n, None, b1))
       else execute_open_order P ts (ts, bk_sequence b + 1) o' ?bar (case open_price P ts overrides o' of None \<Rightarrow> 0 | Some x \<Rightarrow> x) ?b)"
    by (simp add: execute_order_def Let_def blocked_def)
  show thesis
  proof (cases "blocked = []")
    case False
    then have "same_book b (snd (snd (snd (execute_order P ts overrides o' b))))"
      using same_book_trans [OF same same_refuse]
      by (simp add: eq Let_def case_prod_beta)
    then show thesis by (rule that(1))
  next
    case True
    have "\<exists>opn. open_price P ts overrides o' = Some opn \<and> 0 < opn"
    proof (cases "forced_liquidation o'")
      case True
      then show ?thesis using assms by (auto simp: priced_order_def open_price_def)
    next
      case False
      then show ?thesis using \<open>blocked = []\<close>
        by (auto simp: blocked_def execution_block_reason_def not_le split: option.splits if_splits)
    qed
    then obtain opn where opn: "open_price P ts overrides o' = Some opn" "0 < opn" by blast
    moreover have "execute_order P ts overrides o' b = execute_open_order P ts (ts, bk_sequence b + 1) o' ?bar opn ?b"
      using True opn by (simp add: eq)
    ultimately show thesis by (rule that(2))
  qed
qed

text \<open>An executed order leaves the books, or fills.\<close>

lemma execute_open_cases:
  obtains (idle) "same_book (mark_to_market P ts b) (snd (snd (snd (execute_open_order P ts i o' bar opn b))))"
  | (fills) t where "plan_fill (mark_to_market P ts b) o' bar opn = Fills t"
      "snd (snd (snd (execute_open_order P ts i o' bar opn b))) = snd (snd (fill_order i ts o' opn t (mark_to_market P ts b)))"
proof (cases "plan_fill (mark_to_market P ts b) o' bar opn")
  case (Fills t)
  then show thesis by (intro that(2)) (simp_all add: execute_open_order_def Let_def case_prod_beta)
qed (rule that(1), simp add: execute_open_order_def Let_def case_prod_beta)+

text \<open>Orders touch the protection of their own leg only.\<close>

lemma fill_order_protection_other:
  "k \<noteq> order_key o' \<Longrightarrow> map_of (bk_protections (snd (snd (fill_order i ts o' opn t b)))) k = map_of (bk_protections b) k"
  using same_fill_order [where ts = ts and o' = o' and t = t and b = b and i = i and opn = opn] by (auto simp: same_book_def book_fill_protections protect_leg_other)

lemma execute_order_protection_other:
  assumes k: "k \<noteq> order_key o'" and pr: "priced_order overrides o'"
  shows "map_of (bk_protections (snd (snd (snd (execute_order P ts overrides o' b))))) k = map_of (bk_protections b) k"
  using pr
proof (cases rule: execute_order_cases [where P = P and ts = ts and b = b])
  case blocked
  then show ?thesis by (simp add: same_book_def)
next
  case (executed opn)
  let ?b = "b\<lparr>bk_sequence := bk_sequence b + 1\<rparr>"
  show ?thesis unfolding executed(3)
    by (cases rule: execute_open_cases [of P ts ?b "(ts, bk_sequence b + 1)" o' "bar_at P (bo_symbol o') ts" opn])
      (simp_all add: same_book_def fill_order_protection_other [OF k])
qed

lemma execute_one_protection_other:
  assumes k: "k \<noteq> order_key o'" and pr: "priced_order overrides o'"
  shows "map_of (bk_protections (snd (execute_batch P ts overrides [o'] b))) k = map_of (bk_protections b) k"
  using execute_order_protection_other [OF k pr, where P = P and ts = ts and b = "mark_to_market P ts b"] same_rebalance
  by (simp add: execute_batch_def Let_def case_prod_beta same_book_def)

section \<open>Orders to try again\<close>

text \<open>A deferred order is the order itself but for its value, its direction and the number of its attempts.\<close>

definition retries :: "bt_order \<Rightarrow> bt_order \<Rightarrow> bool" where
  "retries o' d =
     ((\<exists>v n k. d = o'\<lparr>bo_value := v, bo_attempts := n, bo_direction := k\<rparr>)
      \<and> (bo_attempts d = bo_attempts o' \<and> is_limit_order o' \<or> bo_attempts o' < 4 \<and> bo_attempts d = bo_attempts o' + 1))"

lemma retries_simps:
  assumes "retries o' d"
  shows "bo_symbol d = bo_symbol o'" "bo_reason d = bo_reason o'" "bo_side d = bo_side o'" "bo_kind d = bo_kind o'"
    "bo_client d = bo_client o'" "is_limit_order d = is_limit_order o'"
  using assms by (auto simp: retries_def is_limit_order_def)

lemma order_same_fields: "o' = o'\<lparr>bo_value := bo_value o', bo_attempts := bo_attempts o', bo_direction := bo_direction o'\<rparr>"
  by simp

lemma retry_order_retries:
  assumes "is_limit_order o' \<or> bo_attempts o' < 4"
  shows "retries o' (retry_order o' opn t)"
proof -
  have "\<exists>v n k. retry_order o' opn t = o'\<lparr>bo_value := v, bo_attempts := n, bo_direction := k\<rparr>"
    unfolding retry_order_def Let_def by (intro exI, rule refl)
  moreover have "bo_attempts (retry_order o' opn t) = (if is_limit_order o' then bo_attempts o' else bo_attempts o' + 1)"
    by (simp add: retry_order_def Let_def)
  ultimately show ?thesis using assms unfolding retries_def by (simp split: if_splits)
qed

lemma attempts_retries: "bo_attempts o' < 4 \<Longrightarrow> retries o' (o'\<lparr>bo_attempts := bo_attempts o' + 1\<rparr>)"
  unfolding retries_def by (intro conjI exI [of _ "bo_value o'"] exI [of _ "bo_attempts o' + 1"] exI [of _ "bo_direction o'"]) simp_all

lemma limit_retries: "is_limit_order o' \<Longrightarrow> retries o' o'"
  unfolding retries_def using order_same_fields [of o'] by blast

lemma fill_order_deferred: "d \<in> set (fst (fill_order i ts o' opn t b)) \<Longrightarrow> retries o' d"
  by (auto simp: fill_order_def Let_def case_prod_beta intro: retry_order_retries split: if_splits)

lemma rests_limit: "plan_fill b o' bar opn = Rests requested \<Longrightarrow> is_limit_order o'"
  by (auto simp: plan_fill_def order_fill_def fill_quantity_def Let_def case_prod_beta split: if_splits option.splits)

lemma execute_open_deferred: "d \<in> set (fst (execute_open_order P ts i o' bar opn b)) \<Longrightarrow> retries o' d"
  by (auto simp: execute_open_order_def Let_def case_prod_beta intro: fill_order_deferred limit_retries rests_limit split: fill_plan.splits)

lemma execute_order_deferred:
  assumes "d \<in> set (fst (execute_order P ts overrides o' b))"
  shows "retries o' d"
  using assms unfolding execute_order_def Let_def
  by (auto simp: case_prod_beta intro: execute_open_deferred attempts_retries split: if_splits)

lemma execute_orders_deferred:
  "d \<in> set (fst (execute_orders P ts overrides orders b)) \<Longrightarrow> \<exists>o' \<in> set orders. retries o' d"
  by (induction orders arbitrary: b) (auto simp: case_prod_beta dest: execute_order_deferred)

lemma execute_batch_deferred:
  "d \<in> set (fst (execute_batch P ts overrides orders b)) \<Longrightarrow> \<exists>o' \<in> set orders. retries o' d"
  by (auto simp: execute_batch_def Let_def case_prod_beta dest: execute_orders_deferred split: if_splits)

lemma set_merge_pending: "set (merge_pending current incoming) \<subseteq> set current \<union> set incoming"
proof (induction incoming arbitrary: current)
  case (Cons o' incoming)
  show ?case using Cons.IH [of "(if is_target o' then filter (\<lambda>x. \<not> same_target o' x) current else current) @ [o']"]
    by (auto split: if_splits)
qed simp

text \<open>Conditions on orders that a run keeps: of the queued orders, the deferred ones and so the pending ones.\<close>

definition order_condition :: "(bt_order \<Rightarrow> bool) \<Rightarrow> bool" where
  "order_condition C = (\<forall>o' d. C o' \<longrightarrow> retries o' d \<longrightarrow> C d)"

definition queues_only :: "(bt_order \<Rightarrow> bool) \<Rightarrow> 's handler \<Rightarrow> bool" where
  "queues_only C h = (\<forall>ts P b st. \<forall>o' \<in> set (fst (h ts P b st)). C o')"

definition strategy_queues :: "(bt_order \<Rightarrow> bool) \<Rightarrow> 's strategy \<Rightarrow> bool" where
  "strategy_queues C g = (queues_only C (sg_before g) \<and> (\<forall>dh \<in> set (sg_scheduled g). queues_only C (snd dh))
     \<and> (\<forall>h. sg_rebalance g = Some h \<longrightarrow> queues_only C h) \<and> queues_only C (sg_data g) \<and> queues_only C (sg_after g))"

lemma opening_queues: "strategy_queues C g \<Longrightarrow> \<forall>h \<in> set (opening_handlers g previous ts). queues_only C h"
  by (auto simp: strategy_queues_def opening_handlers_def split: option.splits if_splits)

lemma execute_batch_condition:
  "order_condition C \<Longrightarrow> \<forall>o' \<in> set orders. C o' \<Longrightarrow> \<forall>d \<in> set (fst (execute_batch P ts overrides orders b)). C d"
  using execute_batch_deferred unfolding order_condition_def by blast

lemma merge_pending_condition:
  "\<forall>o' \<in> set current. C o' \<Longrightarrow> \<forall>o' \<in> set incoming. C o' \<Longrightarrow> \<forall>o' \<in> set (merge_pending current incoming). C o'"
  using set_merge_pending [of current incoming] by blast

text \<open>A handler changes nothing the books see, and the pending orders only lose some.\<close>

lemma call_handler_effects:
  shows "same_book (rn_broker r) (rn_broker (snd (call_handler h ts r)))"
    and "rn_portal (snd (call_handler h ts r)) = rn_portal r"
    and "set (rn_pending (snd (call_handler h ts r))) \<subseteq> set (rn_pending r)"
  using same_remove_cancelled by (auto simp: call_handler_def case_prod_beta remove_cancelled_def)

lemma call_handler_queues: "queues_only C h \<Longrightarrow> \<forall>o' \<in> set (fst (call_handler h ts r)). C o'"
  by (auto simp: call_handler_def case_prod_beta queues_only_def)

lemma call_handlers_effects:
  shows "same_book (rn_broker r) (rn_broker (snd (call_handlers hs ts r)))
    \<and> rn_portal (snd (call_handlers hs ts r)) = rn_portal r
    \<and> set (rn_pending (snd (call_handlers hs ts r))) \<subseteq> set (rn_pending r)
    \<and> ((\<forall>h \<in> set hs. queues_only C h) \<longrightarrow> (\<forall>o' \<in> set (fst (call_handlers hs ts r)). C o'))"
proof (induction hs arbitrary: r)
  case (Cons h hs)
  note one = call_handler_effects [where r = r and h = h and ts = ts] call_handler_queues [where r = r and h = h and ts = ts and C = C]
  from Cons.IH [of "snd (call_handler h ts r)"] show ?case
    using one same_book_trans [OF one(1)] by (simp add: case_prod_beta) blast
qed simp

lemma set_clock_frames [simp]: "po_frames (set_clock ts c P) = po_frames P"
  by (simp add: set_clock_def)

definition unforced :: "bt_order \<Rightarrow> bool" where
  "unforced o' = (\<not> forced_liquidation o')"

lemma unforced_condition: "order_condition unforced"
  by (auto simp: order_condition_def unforced_def forced_liquidation_def retries_simps)

lemma unforced_priced: "unforced o' \<Longrightarrow> priced_order overrides o'"
  by (simp add: unforced_def priced_order_def)

section \<open>Invariants of the broker\<close>

locale broker_invariant =
  fixes I :: "broker \<Rightarrow> bool" and market :: "(string \<times> frame) list"
  assumes wf: "I b \<Longrightarrow> book_ok b"
    and mark: "I b \<Longrightarrow> I (mark_to_market P ts b)"
    and same: "same_book b b' \<Longrightarrow> I b \<Longrightarrow> I b'"
    and fill: "I b \<Longrightarrow> po_frames P = market \<Longrightarrow> 0 < opn \<Longrightarrow> plan_fill b o' (bar_at P (bo_symbol o') ts) opn = Fills t \<Longrightarrow>
      I ((book_fill ts o' t b)\<lparr>bk_executions := bk_executions b @ [fill_execution b (book_fill ts o' t b) i ts o' opn t]\<rparr>)"
    and protect: "I b \<Longrightarrow> map_of (bk_protections b) key = Some s \<Longrightarrow> pt_side s1 = pt_side s \<Longrightarrow>
      I (b\<lparr>bk_protections := AList.update key s1 (bk_protections b)\<rparr>)"
    and drop: "I b \<Longrightarrow> I (b\<lparr>bk_protections := AList.delete key (bk_protections b)\<rparr>)"
begin

lemma execute_order:
  assumes b: "I b" and P: "po_frames P = market" and pr: "priced_order overrides o'"
  shows "I (snd (snd (snd (execute_order P ts overrides o' b))))"
  using pr
proof (cases rule: execute_order_cases [where P = P and ts = ts and b = b])
  case blocked
  then show ?thesis using b by (rule same)
next
  case (executed opn)
  let ?b = "b\<lparr>bk_sequence := bk_sequence b + 1\<rparr>"
  have b1: "I (mark_to_market P ts ?b)" by (rule mark [OF same [OF _ b]]) (simp add: same_book_def)
  show ?thesis unfolding executed(3)
  proof (cases rule: execute_open_cases [of P ts ?b "(ts, bk_sequence b + 1)" o' "bar_at P (bo_symbol o') ts" opn])
    case idle
    then show "I (snd (snd (snd (execute_open_order P ts (ts, bk_sequence b + 1) o' (bar_at P (bo_symbol o') ts) opn ?b))))"
      using b1 by (rule same)
  next
    case (fills t)
    show "I (snd (snd (snd (execute_open_order P ts (ts, bk_sequence b + 1) o' (bar_at P (bo_symbol o') ts) opn ?b))))"
      unfolding fills(2) by (rule same [OF same_fill_order fill [OF b1 P executed(2) fills(1)]])
  qed
qed

lemma execute_orders:
  assumes "I b" and "po_frames P = market" and "\<forall>o' \<in> set orders. priced_order overrides o'"
  shows "I (snd (snd (snd (execute_orders P ts overrides orders b))))"
  using assms
proof (induction orders arbitrary: b)
  case (Cons o' orders)
  then show ?case using execute_order [where b = b and P = P and overrides = overrides and o' = o' and ts = ts] by (simp add: case_prod_beta)
qed simp

lemma execute_batch:
  assumes "I b" and "po_frames P = market" and "\<forall>o' \<in> set orders. priced_order overrides o'"
  shows "I (snd (execute_batch P ts overrides orders b))"
  using assms execute_orders [OF mark [OF assms(1)] assms(2,3)]
  by (auto simp: execute_batch_def Let_def case_prod_beta intro: same [OF same_rebalance mark])

lemma protect_position:
  assumes b: "I b" and P: "po_frames P = market" and s: "map_of (bk_protections b) key = Some s"
  shows "I (snd (protect_position P ts key s b))"
    and "k \<noteq> key \<Longrightarrow> map_of (bk_protections (snd (protect_position P ts key s b))) k = map_of (bk_protections b) k"
proof -
  have "I (snd (protect_position P ts key s b))
    \<and> (k \<noteq> key \<longrightarrow> map_of (bk_protections (snd (protect_position P ts key s b))) k = map_of (bk_protections b) k)"
  proof (cases "map_of (bk_positions b) key")
    case None
    then show ?thesis using drop [OF b] by (simp add: protect_position_def AList.delete_conv')
  next
    case (Some p)
    show ?thesis
    proof (cases "bar_at P (bp_symbol p) ts")
      case None
      then show ?thesis using Some b by (simp add: protect_position_def)
    next
      case (Some bar)
      let ?ev = "evaluate_bar Conservative (s\<lparr>pt_entry := bp_cost p\<rparr>) ts (br_open bar) (br_high bar) (br_low bar)"
      define b1 where "b1 = b\<lparr>bk_protections := AList.update key (snd ?ev) (bk_protections b)\<rparr>"
      have b1: "I b1" unfolding b1_def by (rule protect [OF b s]) simp
      have other1: "k \<noteq> key \<Longrightarrow> map_of (bk_protections b1) k = map_of (bk_protections b) k"
        by (simp add: b1_def AList.update_conv')
      show ?thesis
      proof (cases "fst ?ev")
        case None
        then have "snd (protect_position P ts key s b) = b1"
          using \<open>map_of (bk_positions b) key = Some p\<close> Some by (simp add: protect_position_def b1_def Let_def case_prod_beta)
        then show ?thesis using b1 other1 by simp
      next
        case (Some d)
        let ?o = "plain_order (bp_symbol p) (reason_name (dc_reason d)) ts (bp_side p)"
        define b2 where "b2 = snd (execute_batch P ts [bp_symbol p \<mapsto> dc_price d] [?o] b1)"
        have key: "order_key ?o = key"
          using wf [OF b] \<open>map_of (bk_positions b) key = Some p\<close> unfolding book_ok_def by (simp add: order_key_def plain_order_def)
        have "\<not> forced_liquidation ?o" by (cases "dc_reason d") (simp_all add: forced_liquidation_def plain_order_def)
        then have pr: "priced_order [bp_symbol p \<mapsto> dc_price d] ?o" by (simp add: priced_order_def)
        have b2: "I b2" unfolding b2_def using pr by (intro execute_batch [OF b1 P]) simp
        have other2: "k \<noteq> key \<Longrightarrow> map_of (bk_protections b2) k = map_of (bk_protections b) k"
          using execute_one_protection_other [OF _ pr, where k = k and P = P and ts = ts and b = b1] key other1 by (simp add: b2_def)
        define r where "r = snd (protect_position P ts key s b)"
        have "r = (if length (bk_executions b2) = length (bk_executions b1)
                   then (if bk_ledger b2 \<noteq> [] \<and> oe_status_reason (last (bk_ledger b2)) = ''target_already_met''
                         then b2\<lparr>bk_protections := AList.delete key (bk_protections b2)\<rparr> else b2)
                   else b2\<lparr>bk_protection_events := bk_protection_events b2 @ [(bp_symbol p, d)]\<rparr>)"
          using \<open>map_of (bk_positions b) key = Some p\<close> \<open>bar_at P (bp_symbol p) ts = Some bar\<close> Some
          by (simp add: r_def protect_position_def b2_def b1_def Let_def case_prod_beta)
        then have "r \<in> {b2, b2\<lparr>bk_protections := AList.delete key (bk_protections b2)\<rparr>,
            b2\<lparr>bk_protection_events := bk_protection_events b2 @ [(bp_symbol p, d)]\<rparr>}" by (auto split: if_splits)
        moreover have "I (b2\<lparr>bk_protection_events := bk_protection_events b2 @ [(bp_symbol p, d)]\<rparr>)"
          by (rule same [OF _ b2]) (simp add: same_book_def)
        ultimately show ?thesis using b2 drop [OF b2] other2 unfolding r_def by (auto simp: AList.delete_conv')
      qed
    qed
  qed
  then show "I (snd (protect_position P ts key s b))"
    and "k \<noteq> key \<Longrightarrow> map_of (bk_protections (snd (protect_position P ts key s b))) k = map_of (bk_protections b) k" by blast+
qed

lemma protect_positions:
  assumes "I b" and "po_frames P = market" and "distinct (map fst ps)"
    and "\<forall>(key, s) \<in> set ps. map_of (bk_protections b) key = Some s"
  shows "I (snd (protect_positions P ts ps b))"
  using assms
proof (induction ps arbitrary: b)
  case (Cons a ps)
  obtain key s where a: "a = (key, s)" by fastforce
  have s: "map_of (bk_protections b) key = Some s" using Cons.prems(4) a by simp
  have "map_of (bk_protections (snd (protect_position P ts key s b))) key' = Some s'" if "(key', s') \<in> set ps" for key' s'
  proof -
    have "key' \<noteq> key" using Cons.prems(3) that by (force simp: a)
    moreover have "map_of (bk_protections b) key' = Some s'" using Cons.prems(4) that by auto
    ultimately show ?thesis using protect_position(2) [OF Cons.prems(1,2) s, of key'] by simp
  qed
  then have "\<forall>(key', s') \<in> set ps. map_of (bk_protections (snd (protect_position P ts key s b))) key' = Some s'" by auto
  with Cons.IH [OF protect_position(1) [OF Cons.prems(1,2) s] Cons.prems(2)] Cons.prems(3)
  show ?case by (simp add: a case_prod_beta)
qed simp

lemma process_protections:
  assumes "I b" and "po_frames P = market"
  shows "I (snd (process_protections P ts b))"
proof -
  have d: "distinct (map fst (bk_protections b))" using wf [OF assms(1)] by (simp add: book_ok_def)
  then have "\<forall>(key, s) \<in> set (bk_protections b). map_of (bk_protections b) key = Some s" by auto
  with protect_positions [OF assms d] show ?thesis by (simp add: process_protections_def)
qed

lemma liquidate:
  assumes "I b" and P: "po_frames P = market"
  shows "I (snd (liquidate_if_insolvent P ts b))"
proof (cases "bk_bankrupt b \<or> 0 < bk_total (mark_to_market P ts b)")
  case True
  then show ?thesis using assms mark by (auto simp: liquidate_if_insolvent_def Let_def)
next
  case False
  define m where "m = mark_to_market P ts b"
  define ps where "ps = filter (\<lambda>(_, p). 0 < liquidation_price P ts p) (bk_positions m)"
  define orders where "orders = map (\<lambda>(_, p). plain_order (bp_symbol p) ''margin_liquidation'' ts (bp_side p)) ps"
  define overrides where "overrides = foldl (\<lambda>m (_, p). m(bp_symbol p \<mapsto> liquidation_price P ts p)) (\<lambda>_. None) ps"
  have pos: "(x :: rat) > 0" if "foldl (\<lambda>m (_, p). m(bp_symbol p \<mapsto> liquidation_price P ts p)) m0 qs sym = Some x"
      "\<forall>(k, p) \<in> set qs. 0 < liquidation_price P ts p" "\<forall>x. m0 sym = Some x \<longrightarrow> 0 < x" for m0 qs x sym
    using that by (induction qs arbitrary: m0) (auto split: if_splits)
  have dom: "foldl (\<lambda>m (_, p). m(bp_symbol p \<mapsto> liquidation_price P ts p)) m0 qs sym \<noteq> None"
    if "m0 sym \<noteq> None \<or> (\<exists>(k, p) \<in> set qs. bp_symbol p = sym)" for m0 qs sym
    using that
  proof (induction qs arbitrary: m0)
    case (Cons kp qs)
    obtain k p where "kp = (k, p)" by fastforce
    then show ?case using Cons.prems Cons.IH [of "m0(bp_symbol p \<mapsto> liquidation_price P ts p)"] by auto
  qed simp
  have "priced_order overrides o'" if mem: "o' \<in> set orders" for o'
  proof -
    obtain k p where "(k, p) \<in> set ps" "bo_symbol o' = bp_symbol p" using mem unfolding orders_def by (force simp: plain_order_def)
    then have "overrides (bo_symbol o') \<noteq> None" unfolding overrides_def by (intro dom) auto
    then obtain x where x: "overrides (bo_symbol o') = Some x" by blast
    then have "0 < x" unfolding overrides_def by (rule pos) (auto simp: ps_def)
    with x show ?thesis by (simp add: priced_order_def)
  qed
  then have b1: "I (snd (execute_batch P ts overrides orders m))"
    using mark [OF \<open>I b\<close>] P by (intro execute_batch) (simp_all add: m_def)
  define b1 where "b1 = snd (execute_batch P ts overrides orders m)"
  define b2 where "b2 = (if max 0 (- bk_cash b1) \<noteq> 0
      then b1\<lparr>bk_adjustment := fadd (bk_adjustment b1) (max 0 (- bk_cash b1)), bk_cash := fadd (bk_cash b1) (max 0 (- bk_cash b1))\<rparr> else b1)"
  have "I b2" using same [of b1 b2] b1 by (simp add: b1_def b2_def same_book_def)
  then have "I (mark_to_market P ts b2)" by (rule mark)
  moreover have "same_book (mark_to_market P ts b2) (snd (liquidate_if_insolvent P ts b))"
    using False unfolding liquidate_if_insolvent_def m_def [symmetric] Let_def ps_def [symmetric] orders_def [symmetric]
      overrides_def [symmetric] b1_def [symmetric] b2_def [symmetric]
    by (simp add: same_book_def)
  ultimately show ?thesis using same by blast
qed

definition run_ok :: "(bt_order \<Rightarrow> bool) \<Rightarrow> 's run_state \<Rightarrow> bool" where
  "run_ok C r = (I (rn_broker r) \<and> po_frames (rn_portal r) = market \<and> (\<forall>o' \<in> set (rn_pending r). unforced o' \<and> C o'))"

lemma run_open:
  assumes r: "run_ok C r" and g: "strategy_queues (\<lambda>o'. unforced o' \<and> C o') g" and C: "order_condition C"
  shows "run_ok C (run_open g ts r)"
proof -
  let ?C = "\<lambda>o'. unforced o' \<and> C o'"
  have cond: "order_condition ?C" using C unforced_condition unfolding order_condition_def by blast
  define P where "P = set_clock ts False (rn_portal r)"
  have P: "po_frames P = market" using r by (simp add: P_def run_ok_def)
  define e1 where "e1 = execute_batch P ts (\<lambda>_. None) (rn_pending r) (rn_broker r)"
  have pend: "\<forall>o' \<in> set (rn_pending r). ?C o'" using r by (simp add: run_ok_def)
  have e1: "I (snd e1)" "\<forall>o' \<in> set (fst e1). ?C o'"
    unfolding e1_def using r P pend execute_batch_condition [OF cond pend]
    by (auto simp: run_ok_def intro!: execute_batch unforced_priced)
  define b2 where "b2 = snd (process_protections P ts (snd e1))"
  have b2: "I b2" unfolding b2_def by (rule process_protections [OF e1(1) P])
  define r2 where "r2 = r\<lparr>rn_portal := P, rn_broker := b2, rn_pending := fst e1\<rparr>"
  define c where "c = call_handlers (opening_handlers g (rn_previous r) ts) ts r2"
  note eff = call_handlers_effects [where r = r2 and hs = "opening_handlers g (rn_previous r) ts" and ts = ts and C = ?C, folded c_def]
  have c: "I (rn_broker (snd c))" "rn_portal (snd c) = P" "\<forall>o' \<in> set (rn_pending (snd c)). ?C o'" "\<forall>o' \<in> set (fst c). ?C o'"
    using eff same [of b2] b2 e1(2) opening_queues [OF g] by (auto simp: r2_def)
  define e4 where "e4 = execute_batch P ts (\<lambda>_. None) (fst c) (rn_broker (snd c))"
  have e4: "I (snd e4)" "\<forall>o' \<in> set (fst e4). ?C o'"
    unfolding e4_def using c P execute_batch_condition [OF cond c(4)] by (auto intro!: execute_batch unforced_priced)
  have "run_open g ts r = (snd c)\<lparr>rn_broker := snd e4, rn_pending := merge_pending (rn_pending (snd c)) (fst e4)\<rparr>"
    unfolding run_open_def Let_def P_def [symmetric] e1_def [symmetric] case_prod_beta b2_def [symmetric] r2_def [symmetric]
      c_def [symmetric] e4_def [symmetric] ..
  then show ?thesis using e4 c(2) P merge_pending_condition [OF c(3) e4(2)] by (simp add: run_ok_def)
qed

lemma call_ok:
  assumes r: "run_ok C r" and h: "queues_only (\<lambda>o'. unforced o' \<and> C o') h"
  shows "run_ok C (snd (call_handler h ts r))" "\<forall>o' \<in> set (fst (call_handler h ts r)). unforced o' \<and> C o'"
  using call_handler_effects [where r = r and h = h and ts = ts] call_handler_queues [OF h, where r = r and ts = ts] r same [of "rn_broker r"]
  unfolding run_ok_def by auto

lemma merge_ok:
  assumes "run_ok C r" and "\<forall>o' \<in> set orders. unforced o' \<and> C o'"
  shows "run_ok C (r\<lparr>rn_pending := merge_pending (rn_pending r) orders\<rparr>)"
proof -
  have "\<forall>o' \<in> set (rn_pending r). unforced o' \<and> C o'" using assms(1) by (simp add: run_ok_def)
  from merge_pending_condition [OF this assms(2)] show ?thesis using assms(1) by (simp add: run_ok_def)
qed

lemma run_close:
  assumes r: "run_ok C r" and g: "strategy_queues (\<lambda>o'. unforced o' \<and> C o') g"
  shows "run_ok C (run_close g ts r)"
proof -
  define P where "P = set_clock ts True (rn_portal r)"
  define l where "l = liquidate_if_insolvent P ts (rn_broker r)"
  have l: "I (snd l)" unfolding l_def by (rule liquidate) (use r in \<open>simp_all add: run_ok_def P_def\<close>)
  define r1 where "r1 = r\<lparr>rn_portal := P, rn_broker := snd l\<rparr>"
  have r1: "run_ok C r1" using r l by (simp add: r1_def run_ok_def P_def)
  have eq: "I b \<Longrightarrow> I (record_equity P ts b)" for b by (rule same [OF same_equity mark])
  define r3 where "r3 = (snd (call_handler (sg_data g) ts r1))\<lparr>rn_pending := merge_pending (rn_pending (snd (call_handler (sg_data g) ts r1))) (fst (call_handler (sg_data g) ts r1))\<rparr>"
  have r3: "run_ok C r3" unfolding r3_def using g by (intro merge_ok call_ok [OF r1]) (simp_all add: strategy_queues_def)
  define r5 where "r5 = (snd (call_handler (sg_after g) ts r3))\<lparr>rn_pending := merge_pending (rn_pending (snd (call_handler (sg_after g) ts r3))) (fst (call_handler (sg_after g) ts r3))\<rparr>"
  have r5: "run_ok C r5" unfolding r5_def using g by (intro merge_ok call_ok [OF r3]) (simp_all add: strategy_queues_def)
  have "run_close g ts r = (if fst l then r1\<lparr>rn_broker := record_equity P ts (snd l), rn_pending := []\<rparr>
      else r5\<lparr>rn_broker := record_equity P ts (rn_broker r5)\<rparr>)"
    unfolding run_close_def Let_def P_def [symmetric] l_def [symmetric] case_prod_beta r1_def [symmetric] r3_def [symmetric] r5_def [symmetric] ..
  then show ?thesis using r1 r5 eq l by (auto simp: run_ok_def)
qed

lemma run_bars_of:
  assumes "run_ok C r" and "strategy_queues (\<lambda>o'. unforced o' \<and> C o') g" and "order_condition C"
  shows "run_ok C (run_bars_of g ts r)"
  using assms(1)
proof (induction ts arbitrary: r)
  case (Cons t ts)
  have "run_ok C (run_bar g t r)"
  proof (cases "bk_bankrupt (rn_broker r)")
    case True
    then show ?thesis using Cons.prems same [OF same_equity mark] by (auto simp: run_bar_def Let_def run_ok_def)
  next
    case False
    then show ?thesis
      using run_close [OF run_open [OF Cons.prems assms(2,3)] assms(2)] by (simp add: run_bar_def run_ok_def)
  qed
  with Cons.IH show ?case by (simp add: run_bars_of_def)
qed (simp add: run_bars_of_def)

end

section \<open>Whole runs\<close>

definition start_run :: "portal \<Rightarrow> broker \<Rightarrow> 's \<Rightarrow> 's run_state" where
  "start_run P b st = \<lparr>rn_broker = b, rn_portal = P, rn_pending = [], rn_state = st, rn_previous = None\<rparr>"

lemma backtest_runs:
  "backtest g st P b start stop = Some r \<Longrightarrow> \<exists>ts. ts \<noteq> [] \<and> sorted ts \<and> set ts \<subseteq> set (timestamps P) \<and> r = run_bars_of g ts (start_run P b st)"
  unfolding backtest_def Let_def start_run_def
  by (split if_split_asm, simp) (rule exI, rule conjI, assumption, auto simp: timestamps_def sorted_wrt_filter)

lemma book_ok_new: "book_ok (new_broker capital leverage commission slippage)"
  by (simp add: book_ok_def new_broker_def)

lemma book_ok_executions: "book_ok (b\<lparr>bk_executions := xs\<rparr>) = book_ok b"
  by (simp add: book_ok_def)

interpretation book: broker_invariant book_ok market for market
  by unfold_locales
    (simp_all add: book_ok_mark book_ok_same book_ok_executions book_ok_fill book_ok_protection)

text \<open>C33.  Every book a run reaches is well formed: whatever the strategy does at its handlers, after any
  number of bars each position stands under the key of its own symbol and side, no key twice, its side
  is normalised, its amount is not a residue, and every protection belongs to a position that is still
  held and has the side of that position, also after partial closes, reversals and liquidations.\<close>

theorem run_keeps_book:
  assumes "strategy_queues unforced g"
  shows "book_ok (rn_broker (run_bars_of g ts (start_run P (new_broker capital leverage commission slippage) st)))"
proof -
  have "book.run_ok (po_frames P) (\<lambda>_. True) (start_run P (new_broker capital leverage commission slippage) st)"
    by (simp add: book.run_ok_def start_run_def book_ok_new)
  with assms have "book.run_ok (po_frames P) (\<lambda>_. True)
      (run_bars_of g ts (start_run P (new_broker capital leverage commission slippage) st))"
    by (intro book.run_bars_of) (simp_all add: order_condition_def)
  then show ?thesis by (simp add: book.run_ok_def)
qed

text \<open>A strategy that buys a share before the first bar of a day.\<close>

definition one_share :: "string \<Rightarrow> unit strategy" where
  "one_share s = \<lparr>sg_before = (\<lambda>ts P b st. ([(plain_order s ''entry'' ts [])\<lparr>bo_kind := Order_Quantity, bo_value := 1\<rparr>], [], st)),
     sg_scheduled = [], sg_rebalance = None, sg_data = (\<lambda>ts P b st. ([], [], st)), sg_after = (\<lambda>ts P b st. ([], [], st))\<rparr>"

lemma one_share_queues: "strategy_queues (\<lambda>o'. unforced o' \<and> bo_attempts o' = 0) (one_share s)"
  by (simp add: strategy_queues_def queues_only_def one_share_def unforced_def forced_liquidation_def plain_order_def)

lemma run_keeps_book_witness:
  "book_ok (rn_broker (run_bars_of (one_share ''A'') [0]
     (start_run \<lparr>po_frames = [], po_visible = None\<rparr> (new_broker 1000 1 0 0) ())))"
  by (rule run_keeps_book) (simp add: strategy_queues_def queues_only_def one_share_def unforced_def forced_liquidation_def plain_order_def)

end
