(* ===== verification/Backtest_Audit.thy ===== *)
theory Backtest_Audit
  imports Backtest_Safety
begin

text \<open>
  What the audit of a run (\<open>_reconcile\<close>) finds, and the orders that make it fail: fees, fill prices and
  positions are replayed from the executions.  Also the sizing of orders and the list of pending orders.
\<close>

section \<open>Rounding to lots\<close>

definition least_lot :: rat where
  "least_lot = fl (1 / 10 ^ 8)"

lemma fl_power: "n < 1000 \<Longrightarrow> fl (1 / 2 ^ n) = 1 / 2 ^ n"
proof -
  assume "n < 1000"
  moreover have "(2::rat) powi (- int n) = 1 / 2 ^ n" by (simp add: power_int_minus divide_inverse)
  ultimately show ?thesis using fl_representable [of 1 "- int n"] by simp
qed

lemma least_lot_bounds: "1 / 2 ^ 27 \<le> least_lot" "least_lot \<le> 1 / 2"
  and eps12_bounds: "0 \<le> eps12" "eps12 \<le> 1 / 2 ^ 39"
  and lot_slack_bounds: "0 \<le> fl (1 / 10 ^ 10)" "fl (1 / 10 ^ 10) \<le> 1 / 8"
proof -
  show "1 / 2 ^ 27 \<le> least_lot" unfolding least_lot_def by (rule fl.above) (use fl_power [of 27] in simp_all)
  show "least_lot \<le> 1 / 2" unfolding least_lot_def by (rule fl.below) (use fl_power [of 1] in simp_all)
  show "fl (1 / 10 ^ 10) \<le> 1 / 8" by (rule fl.below) (use fl_power [of 3] in simp_all)
  show "eps12 \<le> 1 / 2 ^ 39" unfolding eps12_def by (rule fl.below) (use fl_power [of 39] in simp_all)
  show "0 \<le> eps12" "0 \<le> fl (1 / 10 ^ 10)" unfolding eps12_def by (rule fl_nonneg; simp)+
qed

lemma least_lot_pos: "0 < least_lot"
  by (rule less_le_trans [OF _ least_lot_bounds(1)]) simp

lemma lot_above_eps: "least_lot \<le> lot \<Longrightarrow> 0 < fsub lot eps12"
proof -
  assume "least_lot \<le> lot"
  then have "1 / 2 ^ 28 \<le> lot - eps12" using least_lot_bounds(1) eps12_bounds by simp
  then have "1 / 2 ^ 28 \<le> fsub lot eps12" unfolding fsub_def by (intro fl.above) (use fl_power [of 28] in simp_all)
  then show "0 < fsub lot eps12" by (rule less_le_trans [rotated]) simp
qed

lemma below_one_lot: "fsub 1 eps12 \<le> 1"
  by (rule fsub_le) (simp_all add: eps12_bounds)

text \<open>The slack added before flooring does not reach the next whole number.\<close>

lemma floor_slack:
  assumes "\<bar>k\<bar> < 2 ^ 50" and "0 \<le> slack" and "slack \<le> 1 / 2"
  shows "\<lfloor>fadd (of_int k) slack\<rfloor> = k"
proof -
  have "fl (of_int k + 1 / 2) = of_int k + 1 / 2"
    using fl_representable [of "2 * k + 1" "- 1"] assms(1) by (simp add: power_int_minus field_simps)
  then have "fadd (of_int k) slack \<le> of_int k + 1 / 2" unfolding fadd_def by (rule fl.below) (use assms(3) in simp)
  moreover have "of_int k \<le> fadd (of_int k) slack"
    using assms(1,2) by (intro fadd_ge) (simp_all add: is_float_def fl_of_int)
  ultimately show ?thesis by (simp add: floor_eq_iff)
qed

lemma copysign_simps [simp]: "\<bar>copysign x y\<bar> = \<bar>x\<bar>" "copysign 0 y = 0"
  and copysign_nonneg: "0 \<le> y \<Longrightarrow> copysign x y = \<bar>x\<bar>" and copysign_neg: "y < 0 \<Longrightarrow> copysign x y = - \<bar>x\<bar>"
  by (simp_all add: copysign_def)

lemma round_to_lot_whole:
  assumes "\<bar>k\<bar> < 2 ^ 50"
  shows "round_to_lot (of_int k) 1 = of_int k"
proof -
  have i: "fl (of_int \<bar>k\<bar>) = of_int \<bar>k\<bar>" using assms by (intro fl_of_int) simp
  then have "fdiv \<bar>of_int k\<bar> 1 = of_int \<bar>k\<bar>" by (simp add: fdiv_def)
  moreover have "\<lfloor>fadd (of_int \<bar>k\<bar>) (fl (1 / 10 ^ 8))\<rfloor> = \<bar>k\<bar>"
    using assms least_lot_bounds least_lot_pos by (intro floor_slack) (simp_all add: least_lot_def)
  ultimately show ?thesis using i by (auto simp: round_to_lot_def Let_def fmul_def copysign_def)
qed

lemma round_to_lot_0 [simp]: "round_to_lot 0 lot = 0"
proof -
  have "\<lfloor>fl (1 / 10 ^ 8)\<rfloor> = 0" using least_lot_bounds least_lot_pos by (simp add: floor_eq_iff least_lot_def)
  then show ?thesis by (simp add: round_to_lot_def Let_def fdiv_def)
qed

lemma round_to_lot_sign:
  assumes "0 < lot"
  shows "0 \<le> v \<Longrightarrow> 0 \<le> round_to_lot v lot" "v \<le> 0 \<Longrightarrow> round_to_lot v lot \<le> 0"
proof -
  show "0 \<le> v \<Longrightarrow> 0 \<le> round_to_lot v lot" by (simp add: round_to_lot_def Let_def copysign_nonneg)
  show "round_to_lot v lot \<le> 0" if "v \<le> 0"
    using that round_to_lot_0 [of lot] by (cases "v = 0") (simp, simp add: round_to_lot_def Let_def copysign_neg)
qed

lemma liquidity_cap_nonneg: "0 < lot \<Longrightarrow> liquidity_cap bar lot = Some cap \<Longrightarrow> 0 \<le> cap"
proof -
  assume lot: "0 < lot" and cap: "liquidity_cap bar lot = Some cap"
  define volume where "volume = (case bar of None \<Rightarrow> 0 | Some br \<Rightarrow> br_volume br)"
  have v: "0 < volume" using cap unfolding liquidity_cap_def volume_def Let_def by (auto split: if_splits)
  have "0 \<le> fadd (fdiv (fmul volume (fl (1 / 10))) lot) (fl (1 / 10 ^ 10))"
    using v lot by (intro fadd_nonneg fdiv_nonneg fmul_nonneg fl_nonneg) simp_all
  then have "0 \<le> \<lfloor>fadd (fdiv (fmul volume (fl (1 / 10))) lot) (fl (1 / 10 ^ 10))\<rfloor>" by simp
  then show "0 \<le> cap"
    using cap v lot unfolding liquidity_cap_def volume_def [symmetric] Let_def
    by (auto split: if_splits intro!: fmul_nonneg fl_nonneg)
qed

lemma feasible_delta_sign:
  assumes "0 < lot"
  shows "0 < d \<Longrightarrow> 0 \<le> fst (feasible_delta b d amount price equity lot key)"
    "d < 0 \<Longrightarrow> fst (feasible_delta b d amount price equity lot key) \<le> 0"
  using round_to_lot_sign [OF assms]
  by (auto simp: feasible_delta_def Let_def direction_of_def split: if_splits)

section \<open>What fills\<close>

lemma fill_quantity_fields:
  assumes "fill_quantity b o' bar requested price reference = Fills t"
  shows "ft_price t = price" "ft_reference t = reference" "ft_requested t = requested" "ft_lot t = lot_size (bo_symbol o') bar"
  using assms by (auto simp: fill_quantity_def Let_def case_prod_beta split: if_splits)

text \<open>An order fills in its own direction when the bar trades at least one lot, or says nothing of its volume.\<close>

lemma fill_quantity_sign:
  assumes f: "fill_quantity b o' bar requested price reference = Fills t"
    and lot: "least_lot \<le> lot_size (bo_symbol o') bar"
    and cap: "liquidity_cap bar (lot_size (bo_symbol o') bar) \<noteq> Some 0"
  shows "ft_delta t \<noteq> 0" "0 < ft_delta t \<longleftrightarrow> 0 < requested"
proof -
  let ?lot = "lot_size (bo_symbol o') bar"
  have pos: "0 < ?lot" using lot least_lot_pos by simp
  define d1 where "d1 = round_to_lot requested ?lot"
  define thin where "thin = (if forced_liquidation o' then None else liquidity_cap bar ?lot)"
  define d2 where "d2 = (case thin of None \<Rightarrow> d1 | Some cap \<Rightarrow> if cap < \<bar>d1\<bar> then copysign cap d1 else d1)"
  define d3 where "d3 = (if forced_liquidation o' then d2
    else fst (feasible_delta b d2 (bp_amount (position_of b o')) price (bk_total b) ?lot (order_key o')))"
  have t: "ft_delta t = d3" "\<not> \<bar>d1\<bar> < fsub ?lot eps12" "\<not> \<bar>d3\<bar> < fsub ?lot eps12"
    using f unfolding fill_quantity_def Let_def d1_def [symmetric] thin_def [symmetric] d2_def [symmetric]
    by (auto simp: d3_def case_prod_beta split: if_splits)
  have nz: "d1 \<noteq> 0" "d3 \<noteq> 0" using t(2,3) lot_above_eps [OF lot] by auto
  have d1: "0 < requested \<and> 0 < d1 \<or> requested < 0 \<and> d1 < 0"
    using nz(1) round_to_lot_sign [OF pos, of requested] unfolding d1_def by (cases "requested = 0") force+
  have cap': "0 < c" if "thin = Some c" for c
    using that cap liquidity_cap_nonneg [OF pos, of bar c] unfolding thin_def by (auto split: if_splits simp: less_le)
  have d2: "0 < d2 \<longleftrightarrow> 0 < d1" "d2 \<noteq> 0"
    using nz(1) cap' unfolding d2_def by (auto simp: copysign_def split: option.split)
  have "0 < d3 \<longleftrightarrow> 0 < d2"
    using feasible_delta_sign [OF pos, of d2 b "bp_amount (position_of b o')" price "bk_total b" "order_key o'"] nz(2) d2(2)
    unfolding d3_def by (cases "0 < d2") (auto split: if_splits)
  then show "ft_delta t \<noteq> 0" "0 < ft_delta t \<longleftrightarrow> 0 < requested" using t(1) nz(2) d2(1) d1 by auto
qed

lemma plan_fill_cases:
  assumes "plan_fill b o' bar opn = Fills t"
  obtains requested price reference where "order_fill b o' bar opn requested = Some (price, reference)"
    "fill_quantity b o' bar requested price reference = Fills t"
    "requested = fsub (wanted_quantity b o' opn) (bp_amount (position_of b o'))" "\<not> (is_limit_order o' \<and> bo_limit o' \<le> 0)"
  using assms by (auto simp: plan_fill_def Let_def split: if_splits option.splits)

lemma order_fill_cases:
  assumes "order_fill b o' bar opn d = Some (price, reference)"
  obtains (market) "price = fmul opn (if 0 < d then fadd 1 (bk_slippage b) else fsub 1 (bk_slippage b))" "reference = ''bar_open''"
  | (gap) "price = opn" "reference = ''gap_open''"
  | (limit) "price = bo_limit o'" "reference = ''limit''" "is_limit_order o'"
  using assms by (auto simp: order_fill_def limit_fill_def split: if_splits)

section \<open>The audit\<close>

text \<open>No lot is finer than the code's own smallest, and a bar that trades at all trades a lot of room for an order.\<close>

definition trades_lots :: "(string \<times> frame) list \<Rightarrow> bool" where
  "trades_lots frames = (\<forall>(s, f) \<in> set frames. \<forall>(t, bar) \<in> set f.
     least_lot \<le> lot_size s (Some bar) \<and> liquidity_cap (Some bar) (lot_size s (Some bar)) \<noteq> Some 0)"

lemma bar_at_bar: "bar_at P s ts = Some bar \<Longrightarrow> \<exists>f. (s, f) \<in> set (po_frames P) \<and> (ts, bar) \<in> set f"
  by (auto simp: bar_at_def split: option.splits dest!: map_of_SomeD)

lemma trades_lots_bar:
  assumes "trades_lots (po_frames P)"
  shows "least_lot \<le> lot_size s (bar_at P s ts)" "liquidity_cap (bar_at P s ts) (lot_size s (bar_at P s ts)) \<noteq> Some 0"
proof -
  have "least_lot \<le> 1" unfolding least_lot_def by (rule fl.below) simp_all
  then have "least_lot \<le> lot_size s None" by (simp add: lot_size_def least_lot_def)
  moreover have "liquidity_cap None l = None" for l by (simp add: liquidity_cap_def)
  ultimately show "least_lot \<le> lot_size s (bar_at P s ts)" "liquidity_cap (bar_at P s ts) (lot_size s (bar_at P s ts)) \<noteq> Some 0"
    using assms bar_at_bar [of P s ts] by (cases "bar_at P s ts"; fastforce simp: trades_lots_def)+
qed

definition priced_right :: "(string \<times> frame) list \<Rightarrow> broker \<Rightarrow> bool" where
  "priced_right frames b =
     (trades_lots frames \<and> book_ok b \<and> (\<forall>x \<in> set (bk_executions b). \<not> fee_mismatch b x \<and> \<not> fill_mismatch b x))"

lemma tolerance_nonneg: "\<not> tolerance e < 0"
  using fl_nonneg [of "1 / 10 ^ 8"] by (simp add: tolerance_def max_def)

text \<open>What a book keeps when it keeps its executions and its rates.\<close>

lemma priced_right_keep:
  assumes "priced_right frames b" and "book_ok b'"
    and "bk_executions b' = bk_executions b" and "bk_commission b' = bk_commission b" and "bk_slippage b' = bk_slippage b"
  shows "priced_right frames b'"
proof -
  have "fee_mismatch b' = fee_mismatch b" "fill_mismatch b' = fill_mismatch b"
    using assms(4,5) by (simp_all add: fun_eq_iff fee_mismatch_def fill_mismatch_def expected_price_def)
  then show ?thesis using assms(1-3) by (simp add: priced_right_def)
qed

lemma priced_right_ok: "priced_right frames b \<Longrightarrow> book_ok b"
  by (simp add: priced_right_def)

lemma fill_execution_simps [simp]:
  "bx_buy (fill_execution b b1 i ts o' opn t) = (0 < ft_delta t)" "bx_price (fill_execution b b1 i ts o' opn t) = ft_price t"
  "bx_notional (fill_execution b b1 i ts o' opn t) = \<bar>fmul (ft_delta t) (ft_price t)\<bar>"
  "bx_commission (fill_execution b b1 i ts o' opn t) = fill_fee b t"
  "bx_fill_reference (fill_execution b b1 i ts o' opn t) = ft_reference t"
  "bx_reference_price (fill_execution b b1 i ts o' opn t) = opn"
  "bx_limit_price (fill_execution b b1 i ts o' opn t) = (if is_limit_order o' then bo_limit o' else 0)"
  "bx_quantity (fill_execution b b1 i ts o' opn t) = \<bar>ft_delta t\<bar>" "bx_key (fill_execution b b1 i ts o' opn t) = order_key o'"
  by (simp_all add: fill_execution_def Let_def case_prod_beta)

lemma fill_price_expected:
  assumes lots: "trades_lots (po_frames P)" and t: "plan_fill b o' (bar_at P (bo_symbol o') ts) opn = Fills t"
  shows "expected_price b (fill_execution b b1 i ts o' opn t) = ft_price t"
proof (rule plan_fill_cases [OF t])
  fix requested price reference
  assume f: "order_fill b o' (bar_at P (bo_symbol o') ts) opn requested = Some (price, reference)"
    and q: "fill_quantity b o' (bar_at P (bo_symbol o') ts) requested price reference = Fills t"
  note fields = fill_quantity_fields [OF q] fill_quantity_sign(2) [OF q trades_lots_bar [OF lots]]
  from f show ?thesis by (cases rule: order_fill_cases) (auto simp: expected_price_def str_or_def fields)
qed

lemma priced_right_fill:
  assumes ok: "priced_right (po_frames P) b" and opn: "0 < opn"
    and t: "plan_fill b o' (bar_at P (bo_symbol o') ts) opn = Fills t"
  shows "priced_right (po_frames P) ((book_fill ts o' t b)\<lparr>bk_executions := bk_executions b @ [fill_execution b (book_fill ts o' t b) i ts o' opn t]\<rparr>)"
proof -
  let ?x = "fill_execution b (book_fill ts o' t b) i ts o' opn t"
  let ?b = "(book_fill ts o' t b)\<lparr>bk_executions := bk_executions b @ [?x]\<rparr>"
  have same: "fee_mismatch ?b x = fee_mismatch b x" "fill_mismatch ?b x = fill_mismatch b x" for x
    by (simp_all add: fee_mismatch_def fill_mismatch_def expected_price_def)
  have lots: "trades_lots (po_frames P)" using ok by (simp add: priced_right_def)
  have "\<not> fill_mismatch b ?x"
    using opn tolerance_nonneg fill_price_expected [OF lots t] by (simp add: fill_mismatch_def)
  moreover have "\<not> fee_mismatch b ?x"
    using tolerance_nonneg by (simp add: fee_mismatch_def fill_fee_def)
  ultimately show ?thesis
    using ok book_ok_fill [of b ts o' t] unfolding priced_right_def by (simp add: same book_ok_executions)
qed

interpretation priced: broker_invariant "priced_right market" market for market
proof unfold_locales
  show "priced_right market b \<Longrightarrow> book_ok b" for b by (rule priced_right_ok)
  show "priced_right market (mark_to_market P ts b)" if b: "priced_right market b" for b P ts
    by (rule priced_right_keep [OF b book_ok_mark [OF priced_right_ok [OF b]]]) simp_all
  show "priced_right market b'" if s: "same_book b b'" and b: "priced_right market b" for b b'
    using book_ok_same [OF s] priced_right_ok [OF b] s by (intro priced_right_keep [OF b]) (simp_all add: same_book_def)
  show "priced_right market ((book_fill ts o' t b)\<lparr>bk_executions := bk_executions b @ [fill_execution b (book_fill ts o' t b) i ts o' opn t]\<rparr>)"
    if "priced_right market b" "po_frames P = market" "0 < opn" "plan_fill b o' (bar_at P (bo_symbol o') ts) opn = Fills t"
    for b P opn o' ts t i
    using that priced_right_fill by blast
  show "priced_right market (b\<lparr>bk_protections := AList.update key s1 (bk_protections b)\<rparr>)"
    if b: "priced_right market b" and k: "map_of (bk_protections b) key = Some s" "pt_side s1 = pt_side s" for b key s s1
    by (rule priced_right_keep [OF b book_ok_protection(2) [OF priced_right_ok [OF b] k]]) simp_all
  show "priced_right market (b\<lparr>bk_protections := AList.delete key (bk_protections b)\<rparr>)" if b: "priced_right market b" for b key
    by (rule priced_right_keep [OF b book_ok_protection(1) [OF priced_right_ok [OF b]]]) simp_all
qed

text \<open>C34.  The audit of a run never finds a wrong fee or a wrong fill price, whatever the strategy does, as
  long as no lot is finer than the code's smallest and no bar trades so little that an order may take
  nothing of it: every fill is booked at the price and with the fee that \<open>_reconcile\<close> computes from the
  open of its bar, the slippage, the limit and the commission.\<close>

theorem audit_finds_fills_right:
  assumes "strategy_queues unforced g" and "trades_lots (po_frames P)"
    and "backtest g st P (new_broker capital leverage commission slippage) start stop = Some r"
  shows "\<not> list_ex (fee_mismatch (rn_broker r)) (bk_executions (rn_broker r))
    \<and> \<not> list_ex (fill_mismatch (rn_broker r)) (bk_executions (rn_broker r))"
proof -
  let ?b = "new_broker capital leverage commission slippage"
  obtain ts where r: "r = run_bars_of g ts (start_run P ?b st)" using backtest_runs [OF assms(3)] by blast
  have "priced.run_ok (po_frames P) (\<lambda>_. True) (start_run P ?b st)"
    using assms(2) book_ok_new [of capital leverage commission slippage]
    by (simp add: priced.run_ok_def start_run_def priced_right_def) (simp add: new_broker_def)
  with assms(1) have "priced.run_ok (po_frames P) (\<lambda>_. True) r"
    unfolding r by (intro priced.run_bars_of) (simp_all add: order_condition_def)
  then show ?thesis by (auto simp: priced.run_ok_def priced_right_def list_ex_iff)
qed

definition flat_bar :: bar where
  "flat_bar = \<lparr>br_open = 100, br_high = 101, br_low = 99, br_close = 100, br_volume = 1000,
     br_suspended = False, br_limit_up = False, br_limit_down = False, br_lot = 1\<rparr>"

definition flat_market :: portal where
  "flat_market = \<lparr>po_frames = [(''A'', [(0, flat_bar), (86400000000, flat_bar)])], po_visible = None\<rparr>"

text \<open>Sizes of the cap for whole lots.\<close>

lemma liquidity_cap_whole:
  assumes "0 < br_volume br" and "fmul (br_volume br) (fl (1 / 10)) = of_int k" and "\<bar>k\<bar> < 2 ^ 50"
  shows "liquidity_cap (Some br) 1 = Some (of_int k)"
proof -
  have i: "fl (of_int k) = of_int k" using assms(3) by (intro fl_of_int) simp
  then have "\<lfloor>fadd (fdiv (of_int k) 1) (fl (1 / 10 ^ 10))\<rfloor> = k"
    using floor_slack [OF assms(3) lot_slack_bounds(1)] lot_slack_bounds(2) by (simp add: fdiv_def)
  then show ?thesis using assms i by (simp add: liquidity_cap_def fmul_def)
qed

lemma flat_market_trades: "trades_lots (po_frames flat_market)"
proof -
  have "fmul 1000 (fl (1 / 10)) = of_int 100" by code_simp
  then have "liquidity_cap (Some flat_bar) 1 = Some 100"
    using liquidity_cap_whole [of flat_bar 100] by (simp add: flat_bar_def)
  moreover have "lot_size s (Some flat_bar) = 1" for s by (simp add: lot_size_def flat_bar_def)
  ultimately show ?thesis using least_lot_bounds by (simp add: trades_lots_def flat_market_def)
qed

lemma flat_backtest: "\<exists>r. backtest (one_share ''A'') () flat_market (new_broker 1000 1 0 0) None None = Some r"
  by (simp add: backtest_def Let_def timestamps_def flat_market_def)

lemma audit_finds_fills_right_witness:
  "\<exists>r. backtest (one_share ''A'') () flat_market (new_broker 1000 1 0 0) None None = Some r
     \<and> \<not> list_ex (fee_mismatch (rn_broker r)) (bk_executions (rn_broker r))"
proof -
  obtain r where r: "backtest (one_share ''A'') () flat_market (new_broker 1000 1 0 0) None None = Some r"
    using flat_backtest by blast
  have "strategy_queues unforced (one_share ''A'')"
    using one_share_queues [of "''A''"] by (auto simp: strategy_queues_def queues_only_def)
  from audit_finds_fills_right [OF this flat_market_trades r] r show ?thesis by blast
qed

section \<open>Orders that turn round\<close>

lemma target_cap_nonneg: "0 \<le> target_cap b price equity key"
  by (simp add: target_cap_def fdiv_nonneg le_max_iff_disj eps12_def fl_nonneg)

text \<open>The position limit, once the wanted position is above it, decides alone.\<close>

lemma feasible_over:
  assumes over: "fadd (target_cap b price equity key) eps12 < \<bar>fadd amount d\<bar>" and long: "0 \<le> fadd amount d" and d: "d \<le> 0"
    and dir: "d = 0 \<or> fsub (target_cap b price equity key) amount \<le> 0"
  shows "feasible_delta b d amount price equity lot key =
    (round_to_lot (fsub (target_cap b price equity key) amount) lot, ''position_limit'')"
proof -
  have "copysign (target_cap b price equity key) (fadd amount d) = target_cap b price equity key"
    using target_cap_nonneg [of b price equity key] long by (simp add: copysign_nonneg)
  then show ?thesis using over d dir
    by (auto simp: feasible_delta_def Let_def direction_of_def)
qed

text \<open>C36.  A purchase becomes a sale: on a bar whose volume leaves no lot to an order, and with a position
  that the price of the fill puts above the position limit, an order to buy sells the whole excess.
  The cap by volume makes the wanted quantity zero, and the guard that \<open>a risk cap never turns an
  incremental buy into a sell\<close> compares directions only when the quantity is not zero.\<close>

theorem thin_bar_turns_buy_into_sale:
  assumes "\<not> forced_liquidation o'" and "0 < requested"
    and "liquidity_cap bar (lot_size (bo_symbol o') bar) = Some 0"
    and "fsub (lot_size (bo_symbol o') bar) eps12 \<le> \<bar>round_to_lot requested (lot_size (bo_symbol o') bar)\<bar>"
    and "0 < fsub (lot_size (bo_symbol o') bar) eps12" and "0 < lot_size (bo_symbol o') bar"
    and "is_float (bp_amount (position_of b o'))"
    and "fadd (target_cap b price (bk_total b) (order_key o')) eps12 < bp_amount (position_of b o')"
    and "fsub (lot_size (bo_symbol o') bar) eps12 \<le>
      \<bar>round_to_lot (fsub (target_cap b price (bk_total b) (order_key o')) (bp_amount (position_of b o'))) (lot_size (bo_symbol o') bar)\<bar>"
  shows "\<exists>t. fill_quantity b o' bar requested price reference = Fills t
    \<and> ft_delta t = round_to_lot (fsub (target_cap b price (bk_total b) (order_key o')) (bp_amount (position_of b o'))) (lot_size (bo_symbol o') bar)
    \<and> ft_delta t < 0 \<and> \<not> bx_buy (fill_execution b b1 i ts o' opn t)"
proof -
  let ?lot = "lot_size (bo_symbol o') bar" and ?amount = "bp_amount (position_of b o')"
  let ?most = "target_cap b price (bk_total b) (order_key o')"
  define d1 where "d1 = round_to_lot requested ?lot"
  define d where "d = round_to_lot (fsub ?most ?amount) ?lot"
  have "?most \<le> fadd ?most eps12"
    unfolding target_cap_def fdiv_def by (rule fadd_ge) (simp_all add: eps12_def fl_nonneg)
  then have am: "?most < ?amount" "0 < ?amount" using assms(8) target_cap_nonneg [of b price "bk_total b" "order_key o'"] by auto
  have nz: "d1 \<noteq> 0" "d \<noteq> 0" using assms(4,5,9) by (auto simp: d1_def d_def)
  have neg: "d < 0"
    using round_to_lot_sign(2) [OF assms(6), of "fsub ?most ?amount"] am(1) nz(2) fsub_nonpos [of ?most ?amount] by (simp add: d_def)
  have f: "feasible_delta b 0 ?amount price (bk_total b) ?lot (order_key o') = (d, ''position_limit'')"
    unfolding d_def by (rule feasible_over) (use assms(7,8) am in simp_all)
  have "fill_quantity b o' bar requested price reference = Fills \<lparr>ft_delta = d, ft_requested = requested, ft_price = price,
      ft_reference = reference, ft_constraint = ''position_limit'', ft_lot = ?lot, ft_thin = (0 < \<bar>requested\<bar>)\<rparr>"
    using assms(1,3,4,9) nz(1) by (simp add: fill_quantity_def Let_def f d1_def [symmetric] d_def [symmetric] not_less)
  then show ?thesis using neg by (simp add: d_def)
qed

text \<open>A hundred shares, all the cash in them, marked at 100; a bar opens at 125 with a volume of five.\<close>

definition full_book :: broker where
  "full_book = (new_broker 10000 1 0 0)\<lparr>bk_cash := 0, bk_total := 10000,
     bk_positions := [(''A'', \<lparr>bp_symbol = ''A'', bp_amount = 100, bp_cost = 100, bp_last = 100, bp_side = []\<rparr>)]\<rparr>"

definition thin_bar :: bar where
  "thin_bar = flat_bar\<lparr>br_open := 125, br_high := 125, br_volume := 5\<rparr>"

definition buy_one :: bt_order where
  "buy_one = (plain_order ''A'' ''more'' 0 [])\<lparr>bo_kind := Order_Quantity, bo_value := 1\<rparr>"

lemma full_book_limits:
  "lot_size ''A'' (Some thin_bar) = 1" "bp_amount (position_of full_book buy_one) = 100" "order_key buy_one = ''A''"
  "\<not> forced_liquidation buy_one" "bo_symbol buy_one = ''A''" "bk_total full_book = 10000"
  "target_cap full_book 125 10000 ''A'' = 80" "fadd 80 eps12 \<le> 81" "fsub 80 100 = (- 20 :: rat)"
  "round_to_lot 1 1 = 1" "round_to_lot (- 1) 1 = - 1" "round_to_lot (- 20) 1 = - 20" "fsub 1 eps12 \<le> 20" "0 < fsub 1 eps12"
proof -
  show "lot_size ''A'' (Some thin_bar) = 1" "bp_amount (position_of full_book buy_one) = 100" "order_key buy_one = ''A''"
    "\<not> forced_liquidation buy_one" "bo_symbol buy_one = ''A''" "bk_total full_book = 10000"
    "target_cap full_book 125 10000 ''A'' = 80" "fsub 80 100 = (- 20 :: rat)"
    by code_simp+
  have "fadd 80 eps12 \<le> fadd 80 1" by (rule fadd_mono) (use eps12_bounds in simp_all)
  then show "fadd 80 eps12 \<le> 81" by (simp add: fadd_def fl_numeral)
  show "round_to_lot 1 1 = 1" "round_to_lot (- 1) 1 = - 1" "round_to_lot (- 20) 1 = - 20"
    using round_to_lot_whole [of 1] round_to_lot_whole [of "- 1"] round_to_lot_whole [of "- 20"] by simp_all
  show "fsub 1 eps12 \<le> 20" using below_one_lot by simp
  show "0 < fsub 1 eps12" using least_lot_bounds by (intro lot_above_eps) simp
qed

lemma thin_bar_turns_buy_into_sale_witness:
  "\<exists>t. fill_quantity full_book buy_one (Some thin_bar) 1 125 ''bar_open'' = Fills t \<and> ft_delta t = - 20"
proof -
  have half: "fmul 5 (fl (1 / 10)) = 1 / 2" "fdiv (1 / 2) 1 = 1 / 2" and "fl (1 / 2) = 1 / 2" and five: "fl (5 / 8) = 5 / 8" by code_simp+
  then have "1 / 2 \<le> fadd (1 / 2) (fl (1 / 10 ^ 10))" using lot_slack_bounds by (intro fadd_ge) (simp_all add: is_float_def)
  moreover have "fadd (1 / 2) (fl (1 / 10 ^ 10)) \<le> 5 / 8"
    unfolding fadd_def by (rule fl.below [OF five]) (use lot_slack_bounds in simp)
  ultimately have "\<lfloor>fadd (1 / 2) (fl (1 / 10 ^ 10))\<rfloor> = 0" by (simp add: floor_eq_iff)
  then have cap: "liquidity_cap (Some thin_bar) 1 = Some 0"
    by (simp add: liquidity_cap_def thin_bar_def half)
  have hundred: "is_float 100" by (rule is_float_numeral) simp
  from thin_bar_turns_buy_into_sale [where o' = buy_one and requested = 1 and bar = "Some thin_bar" and b = full_book and price = 125 and reference = "''bar_open''"]
  show ?thesis using below_one_lot hundred full_book_limits(8)
    by (simp add: full_book_limits(1-7,9-) cap) blast
qed

text \<open>An order to sell one share, on a bar that trades fifty, sells twenty: four times what the bar may give.\<close>

lemma reduction_beyond_request:
  "\<exists>t. fill_quantity full_book (buy_one\<lparr>bo_value := - 1\<rparr>) (Some (thin_bar\<lparr>br_volume := 50\<rparr>)) (- 1) 125 ''bar_open'' = Fills t
     \<and> ft_delta t = - 20 \<and> liquidity_cap (Some (thin_bar\<lparr>br_volume := 50\<rparr>)) 1 = Some 5"
proof -
  let ?o = "buy_one\<lparr>bo_value := - 1\<rparr>" and ?bar = "Some (thin_bar\<lparr>br_volume := 50\<rparr>)"
  have "fmul 50 (fl (1 / 10)) = of_int 5" by code_simp
  then have cap: "liquidity_cap ?bar 1 = Some 5" using liquidity_cap_whole [of "thin_bar\<lparr>br_volume := 50\<rparr>" 5] by simp
  have o: "forced_liquidation ?o = False" "lot_size ''A'' ?bar = 1" "order_key ?o = ''A''" "bp_amount (position_of full_book ?o) = 100"
    by code_simp+
  have "fadd 100 (- 1) = (99 :: rat)" by code_simp
  then have "feasible_delta full_book (- 1) 100 125 10000 1 ''A'' = (- 20, ''position_limit'')"
    using feasible_over [of full_book 125 10000 "''A''" 100 "- 1" 1] full_book_limits by simp
  then show ?thesis using below_one_lot by (simp add: fill_quantity_def Let_def cap o full_book_limits not_less)
qed

text \<open>C37.  What is left of a partially filled order by value is multiplied by the leverage a second time:
  the order tried again keeps the money value of the missing quantity, which already had the leverage
  in it, and sizing multiplies by the leverage once more.  At leverage \<open>L\<close> the retry of \<open>q\<close> missing units
  aims at \<open>L * q\<close> of them.\<close>

theorem leveraged_remainder_multiplied:
  assumes "bo_kind o' = Order_Value" and "0 < ft_requested t" and "0 < price" and "sizing_price o' price = price"
    and "is_float (remaining_quantity t * price)" and "is_float (remaining_quantity t * price * bk_leverage b)"
    and "is_float (bk_leverage b * remaining_quantity t)"
  shows "target_quantity b (retry_order o' price t) amount price equity = fadd amount (bk_leverage b * remaining_quantity t)"
proof -
  have "0 \<le> remaining_quantity t" by (simp add: remaining_quantity_def)
  then have "bo_value (retry_order o' price t) = remaining_quantity t * price"
    using assms by (simp add: retry_order_def Let_def copysign_nonneg fmul_def fl_float)
  moreover have "bo_kind (retry_order o' price t) = Order_Value" using assms(1) by (simp add: retry_order_def Let_def)
  ultimately show ?thesis using assms(3,6,7) by (simp add: target_quantity_def fmul_def fdiv_def fl_float mult.commute)
qed

text \<open>A thousand of money at leverage three and a price of 100 is thirty shares; ten fill, and the retry wants sixty.\<close>

lemma leveraged_remainder_multiplied_witness:
  "target_quantity (new_broker 10000 3 0 0)
     (retry_order (buy_one\<lparr>bo_kind := Order_Value, bo_value := 1000\<rparr>) 100
        \<lparr>ft_delta = 10, ft_requested = 30, ft_price = 100, ft_reference = ''bar_open'', ft_constraint = [], ft_lot = 1, ft_thin = True\<rparr>)
     10 100 10000 = 70"
proof -
  let ?t = "\<lparr>ft_delta = 10, ft_requested = 30, ft_price = 100, ft_reference = ''bar_open'', ft_constraint = [], ft_lot = 1, ft_thin = True\<rparr>"
  have r: "remaining_quantity ?t = 20" and l: "bk_leverage (new_broker 10000 3 0 0) = 3" and f: "fadd 10 60 = 70" "fl 2000 = 2000" "fl 6000 = 6000" "fl 60 = 60"
    "sizing_price (buy_one\<lparr>bo_kind := Order_Value, bo_value := 1000\<rparr>) 100 = 100"
    by code_simp+
  have "target_quantity (new_broker 10000 3 0 0) (retry_order (buy_one\<lparr>bo_kind := Order_Value, bo_value := 1000\<rparr>) 100 ?t) 10 100 10000
      = fadd 10 (bk_leverage (new_broker 10000 3 0 0) * remaining_quantity ?t)"
    by (rule leveraged_remainder_multiplied) (simp_all only: r l, simp_all add: is_float_def f)
  then show ?thesis by (simp add: r l f)
qed

section \<open>Limits, retries, pending targets\<close>

text \<open>A limit order fills exactly when the bar reaches its limit, at the better of the open and the
  limit: a purchase when the low does not stay above the limit, a sale when the high does not stay
  below it, and the price is never worse than the limit nor outside the bar.\<close>

theorem limit_order_fills_when_reached:
  assumes "is_limit_order o'" and "0 < br_low br" and "br_low br \<le> opn" and "opn \<le> br_high br"
  shows "map_option fst (order_fill b o' (Some br) opn d) =
    (if 0 < d \<and> br_low br \<le> bo_limit o' then Some (min opn (bo_limit o'))
     else if d < 0 \<and> bo_limit o' \<le> br_high br then Some (max opn (bo_limit o')) else None)"
  using assms by (auto simp: order_fill_def limit_fill_def num_or_def min_def max_def)

lemma limit_order_fills_when_reached_witness:
  "map_option fst (order_fill full_book (buy_one\<lparr>bo_type := ''limit'', bo_limit := 99\<rparr>) (Some flat_bar) 100 1) = Some 99"
  by (subst limit_order_fills_when_reached) (simp_all add: is_limit_order_def flat_bar_def)

text \<open>C35.  No order is tried for ever without its price being reached: an order of the strategy waits with at most
  four attempts behind it, and one that is not a limit order is either dropped by a batch or comes
  out of it with one attempt more.\<close>

theorem attempts_bounded:
  assumes "strategy_queues (\<lambda>o'. unforced o' \<and> bo_attempts o' = 0) g"
  shows "(\<forall>o' \<in> set (rn_pending (run_bars_of g ts (start_run P (new_broker capital leverage commission slippage) st))).
      0 \<le> bo_attempts o' \<and> bo_attempts o' \<le> 4)
    \<and> (\<forall>d \<in> set (fst (execute_batch P' t overrides [o'] b)). \<not> is_limit_order o' \<longrightarrow> bo_attempts d = bo_attempts o' + 1)"
proof
  let ?C = "\<lambda>o'. 0 \<le> bo_attempts o' \<and> bo_attempts o' \<le> 4"
  let ?r = "start_run P (new_broker capital leverage commission slippage) st"
  have C: "order_condition ?C" by (auto simp: order_condition_def retries_def)
  have "strategy_queues (\<lambda>o'. unforced o' \<and> ?C o') g"
    using assms by (fastforce simp: strategy_queues_def queues_only_def)
  moreover have "book.run_ok (po_frames P) ?C ?r" by (simp add: book.run_ok_def start_run_def book_ok_new)
  ultimately have "book.run_ok (po_frames P) ?C (run_bars_of g ts ?r)" using C by (intro book.run_bars_of)
  then show "\<forall>o' \<in> set (rn_pending (run_bars_of g ts ?r)). ?C o'" by (simp add: book.run_ok_def)
  show "\<forall>d \<in> set (fst (execute_batch P' t overrides [o'] b)). \<not> is_limit_order o' \<longrightarrow> bo_attempts d = bo_attempts o' + 1"
    using execute_batch_deferred [where orders = "[o']" and P = P' and ts = t and overrides = overrides and b = b]
    by (auto simp: retries_def)
qed

lemma attempts_bounded_witness:
  "list_all (\<lambda>o'. bo_attempts o' \<le> 4) (rn_pending (run_bars_of (one_share ''A'') [0, 1] (start_run flat_market (new_broker 1000 1 0 0) ())))"
  using attempts_bounded [OF one_share_queues [of "''A''"]] unfolding list_all_iff by blast

section \<open>What sizing sees\<close>

text \<open>Orders executed at the open of a bar are sized with its close: while the strategy sees only bars
  before \<open>ts\<close>, marking to market sets every held position that has a positive close at \<open>ts\<close> to that close,
  and the equity by which percent targets and limits are computed is made of these values.\<close>

theorem sizing_sees_the_close:
  assumes "map_of (bk_positions b) key = Some p" and "close_at P (bp_symbol p) ts = Some c"
  shows "map_option bp_last (map_of (bk_positions (mark_to_market (set_clock ts False P) ts b)) key) = Some c
    \<and> (\<forall>(t, bar) \<in> set (visible_frame (set_clock ts False P) (bp_symbol p)). t < ts)"
proof
  have "c \<noteq> 0" using assms(2) by (auto simp: close_at_def split: option.splits if_splits)
  then show "map_option bp_last (map_of (bk_positions (mark_to_market (set_clock ts False P) ts b)) key) = Some c"
    using assms by (simp add: map_of_mark mark_position_def close_at_def bar_at_def Let_def num_or_def)
  have vis: "now < ts" if v: "po_visible (set_clock ts False P) = Some now" for now
  proof -
    obtain xs where "filter (\<lambda>t. t < ts) (timestamps P) = xs @ [now]"
      using v by (auto simp: set_clock_def split: list.splits)
    then have "now \<in> set (filter (\<lambda>t. t < ts) (timestamps P))" by simp
    then show ?thesis by simp
  qed
  have "t < ts" if m: "(t, bar) \<in> set (visible_frame (set_clock ts False P) (bp_symbol p))" for t bar
  proof (cases "po_visible (set_clock ts False P)")
    case None
    then show ?thesis using m by (simp add: visible_frame_def)
  next
    case (Some now)
    then have "t \<le> now" using m by (auto simp: visible_frame_def split: option.splits dest!: set_takeWhileD)
    with vis [OF Some] show ?thesis by simp
  qed
  then show "\<forall>(t, bar) \<in> set (visible_frame (set_clock ts False P) (bp_symbol p)). t < ts" by blast
qed

lemma sizing_sees_the_close_witness:
  "map_option bp_last (map_of (bk_positions (mark_to_market (set_clock 0 False flat_market) 0
     (full_book\<lparr>bk_positions := [(''A'', \<lparr>bp_symbol = ''A'', bp_amount = 100, bp_cost = 100, bp_last = 50, bp_side = []\<rparr>)]\<rparr>))) ''A'') = Some 100"
proof -
  let ?p = "\<lparr>bp_symbol = ''A'', bp_amount = 100, bp_cost = 100, bp_last = 50, bp_side = []\<rparr>"
  have "map_of (bk_positions (full_book\<lparr>bk_positions := [(''A'', ?p)]\<rparr>)) ''A'' = Some ?p"
    and "close_at flat_market (bp_symbol ?p) 0 = Some 100"
    by (simp_all add: close_at_def bar_at_def flat_market_def flat_bar_def)
  from sizing_sees_the_close [OF this] show ?thesis by blast
qed

end
