(* ===== verification/Session_Safety.thy ===== *)
theory Session_Safety
  imports Live_Session Backtest_Audit
begin

text \<open>
  What the live session keeps: protection follows the positions, survives a restart, and where it is
  lost: after an exit that the queue refused, after closing and reopening in one bar, and after a leg
  that was closed by quantity.
\<close>

section \<open>Synchronizing\<close>

definition keyed :: "(string \<times> bt_position) list \<Rightarrow> bool" where
  "keyed ps = (distinct (map fst ps) \<and> (\<forall>k p. map_of ps k = Some p \<longrightarrow> k = position_key (bp_symbol p) (bp_side p)))"

lemma keyed_update: "keyed ps \<Longrightarrow> keyed (AList.update (position_key (bp_symbol p) (bp_side p)) p ps)"
  by (auto simp: keyed_def AList.update_conv' AList.distinct_update)

lemma keyed_synced [simp]: "keyed (synced_positions resolve positions)"
proof -
  have "keyed (foldl (\<lambda>t (key, raw). let p = synced_position resolve key raw in AList.update (position_key (bp_symbol p) (bp_side p)) p t) ps xs)"
    if "keyed ps" for ps xs
    using that by (induction xs arbitrary: ps) (auto simp: Let_def keyed_update)
  from this [of "[]" positions] show ?thesis by (simp add: synced_positions_def keyed_def [of "[]"])
qed

lemma keyed_map: "keyed ps \<Longrightarrow> map_of ps k = Some p \<Longrightarrow> position_key (bp_symbol p) (bp_side p) = k"
  by (simp add: keyed_def)

lemma sync_state_other: "k' \<noteq> k \<Longrightarrow> map_of (sync_state now s k p t) k' = map_of t k'"
  by (auto simp: sync_state_def Let_def AList.update_conv' split: option.split)

lemma sync_state_cong: "map_of t k = map_of t' k \<Longrightarrow> map_of (sync_state now s k p t) k = map_of (sync_state now s k p t') k"
  by (auto simp: sync_state_def Let_def AList.update_conv' split: option.split)

lemma sync_states_map:
  assumes "distinct (map fst xs)"
  shows "map_of (foldl (\<lambda>t (k, p). sync_state now s k p t) t xs) k =
    (case map_of xs k of None \<Rightarrow> map_of t k | Some p \<Rightarrow> map_of (sync_state now s k p t) k)"
  using assms
proof (induction xs arbitrary: t)
  case (Cons a xs)
  obtain k' p' where a: "a = (k', p')" by fastforce
  show ?case
  proof (cases "k = k'")
    case True
    then have "map_of xs k = None" using Cons.prems by (simp add: a map_of_eq_None_iff)
    then show ?thesis using Cons True by (simp add: a)
  next
    case False
    then show ?thesis
      using Cons sync_state_other [of k k' now s p' t] sync_state_cong [of "sync_state now s k' p' t" k t]
      by (auto simp: a split: option.split)
  qed
qed simp

lemma synchronize_simps [simp]:
  "ls_positions (synchronize_positions resolve now positions equity s) = synced_positions resolve positions"
  "ls_now (synchronize_positions resolve now positions equity s) = ls_now s"
  by (simp_all add: synchronize_positions_def drop_flat_def Let_def)

lemma map_of_dropped: "map_of (filter (\<lambda>(k, _). P k) xs) k = (if P k then map_of xs k else None)"
  by (induction xs) auto

definition gone :: "(string \<Rightarrow> string option) \<Rightarrow> (string \<times> raw_position) list \<Rightarrow> session \<Rightarrow> string \<Rightarrow> bool" where
  "gone resolve positions s k = (k \<in> set (ls_pending s) \<and> k \<notin> fst ` set (synced_positions resolve positions))"

lemma synchronize_maps:
  "set (ls_pending (synchronize_positions resolve now positions equity s)) = {k \<in> set (ls_pending s). \<not> gone resolve positions s k}"
  "map_of (ls_specs (synchronize_positions resolve now positions equity s)) k =
    (if gone resolve positions s k then None else map_of (ls_specs s) k)"
  "map_of (ls_states (synchronize_positions resolve now positions equity s)) k =
    (if gone resolve positions s k then None
     else case map_of (synced_positions resolve positions) k of None \<Rightarrow> map_of (ls_states s) k
       | Some p \<Rightarrow> map_of (sync_state now s k p (ls_states s)) k)"
  using keyed_synced [of resolve positions]
  by (simp_all add: synchronize_positions_def drop_flat_def Let_def gone_def map_of_dropped sync_states_map keyed_def)

lemma held_not_gone: "map_of (synced_positions resolve positions) k = Some p \<Longrightarrow> \<not> gone resolve positions s k"
  by (force simp: gone_def dest: map_of_SomeD)

text \<open>C29.  Protection follows the positions of the ledger: after every synchronization each held leg for
  which the strategy asked for protection has a protection state of its own side, whose entry price is
  the average cost of the leg, up to the tolerance of the code, also after the leg turned round or was
  scaled.\<close>

theorem held_legs_protected:
  assumes "map_of (synced_positions resolve positions) k = Some p" and "eps12 < \<bar>bp_amount p\<bar>" and "0 < bp_cost p"
    and "map_of (ls_specs s) k = Some spec"
  shows "\<exists>st. map_of (ls_states (synchronize_positions resolve now positions equity s)) k = Some st
    \<and> pt_side st = side_of (bp_amount p) \<and> \<not> cost_moved (bp_cost p) (pt_entry st)"
proof -
  have same: "\<not> cost_moved x x" for x
    by (simp add: cost_moved_def not_less le_max_iff_disj eps12_def fl_nonneg)
  have entry: "pt_entry (apply_scale_in (bp_cost p) fill sp t st) = bp_cost p" for fill sp t st
    using assms(3) by (simp add: apply_scale_in_def Let_def)
  have opened: "pt_entry (open_state k' side c sp t) = c" "pt_side (open_state k' side c sp t) = py_lower side" for k' side c sp t
    by (simp_all add: open_state_def)
  show ?thesis
    using assms held_not_gone [OF assms(1)]
    by (cases "map_of (ls_states s) k")
      (auto simp: synchronize_maps sync_state_def Let_def AList.update_conv' same entry opened)
qed

text \<open>Two units of A at 100.\<close>

definition two_units :: "(string \<times> raw_position) list" where
  "two_units = [(''A'', \<lparr>rp_amount = 2, rp_side = ''long'', rp_position_side = [], rp_cost = 100, rp_last = 100\<rparr>)]"

definition held_position :: bt_position where
  "held_position = \<lparr>bp_symbol = ''A'', bp_amount = 2, bp_cost = 100, bp_last = 100, bp_side = []\<rparr>"

lemma two_units_synced: "synced_positions Some two_units = [(''A'', held_position)]"
  by code_simp

lemma eps12_below: "eps12 < 1"
  by (rule le_less_trans [OF eps12_bounds(2)]) simp

lemma held_legs_protected_witness:
  "\<exists>st. map_of (ls_states (synchronize_positions Some 0 two_units 1000 ((new_session 1000)\<lparr>ls_specs := [(''A'', demo_spec)]\<rparr>))) ''A'' = Some st
     \<and> pt_side st = ''long''"
proof -
  have "map_of (synced_positions Some two_units) ''A'' = Some held_position" by (simp add: two_units_synced)
  moreover have "eps12 < \<bar>bp_amount held_position\<bar>" "0 < bp_cost held_position" using eps12_below by (simp_all add: held_position_def)
  moreover have "map_of (ls_specs ((new_session 1000)\<lparr>ls_specs := [(''A'', demo_spec)]\<rparr>)) ''A'' = Some demo_spec" by simp
  ultimately show ?thesis
    using held_legs_protected [of Some two_units "''A''" held_position "(new_session 1000)\<lparr>ls_specs := [(''A'', demo_spec)]\<rparr>" demo_spec 0 1000]
    by (auto simp: side_of_def held_position_def)
qed

section \<open>Pending exits\<close>

lemma evaluate_leg_keeps:
  "ls_positions (snd (evaluate_leg prices ts key st s)) = ls_positions s"
  "set (ls_pending s) \<subseteq> set (ls_pending (snd (evaluate_leg prices ts key st s)))"
  "k \<noteq> key \<Longrightarrow> k \<in> set (ls_pending (snd (evaluate_leg prices ts key st s))) \<longleftrightarrow> k \<in> set (ls_pending s)"
  by (auto simp: evaluate_leg_def Let_def case_prod_beta split: option.split)

lemma evaluate_leg_orders:
  assumes "keyed (ls_positions s)" and "o' \<in> set (fst (evaluate_leg prices ts key st s))"
  shows "order_key o' = key" "key \<notin> set (ls_pending s)" "bo_signal o' = None"
  using assms keyed_map [OF assms(1)]
  by (auto simp: evaluate_leg_def Let_def case_prod_beta exit_order_def order_key_def plain_order_def split: if_splits option.splits)

lemma evaluate_legs_keeps:
  "ls_positions (snd (evaluate_legs prices ts sts s)) = ls_positions s"
  "set (ls_pending s) \<subseteq> set (ls_pending (snd (evaluate_legs prices ts sts s)))"
proof (induction sts arbitrary: s)
  case (Cons a sts)
  case 1
  show ?case using Cons(1) by (cases a) (simp add: case_prod_beta evaluate_leg_keeps)
  case 2
  show ?case using Cons(2) evaluate_leg_keeps(2) by (cases a) (simp add: case_prod_beta, blast)
qed simp_all

lemma evaluate_legs_orders:
  assumes "keyed (ls_positions s)" and "o' \<in> set (fst (evaluate_legs prices ts sts s))"
  shows "order_key o' \<notin> set (ls_pending s) \<and> bo_signal o' = None"
  using assms
proof (induction sts arbitrary: s)
  case (Cons a sts)
  obtain key st where a: "a = (key, st)" by fastforce
  let ?s = "snd (evaluate_leg prices ts key st s)"
  have "o' \<in> set (fst (evaluate_leg prices ts key st s)) \<or> o' \<in> set (fst (evaluate_legs prices ts sts ?s))"
    using Cons.prems(2) by (simp add: a case_prod_beta)
  then show ?case
  proof
    assume "o' \<in> set (fst (evaluate_leg prices ts key st s))"
    from evaluate_leg_orders [OF Cons.prems(1) this] show ?thesis by simp
  next
    assume "o' \<in> set (fst (evaluate_legs prices ts sts ?s))"
    from Cons.IH [OF _ this] show ?thesis
      using Cons.prems(1) evaluate_leg_keeps(1,2) [where prices = prices and ts = ts and key = key and st = st and s = s] by auto
  qed
qed simp

lemma release_refused_keeps:
  "k \<in> set (ls_pending s) \<Longrightarrow> \<forall>o' \<in> set orders. order_key o' \<noteq> k \<Longrightarrow> k \<in> set (ls_pending (release_refused submit orders s))"
proof (induction orders arbitrary: s)
  case (Cons o' orders)
  have "k \<in> set (ls_pending (if submit o' then s else release_protection_exit (bo_symbol o') (bo_side o') s))"
    using Cons.prems by (auto simp: release_protection_exit_def order_key_def)
  from Cons.IH [OF this] Cons.prems(2) show ?case by (simp add: release_refused_def)
qed (simp add: release_refused_def)

lemma capture_keeps: "set (ls_pending s) \<subseteq> set (ls_pending (capture_protection_intents orders s))"
proof (induction orders arbitrary: s)
  case (Cons o' orders)
  have "set (ls_pending s) \<subseteq> set (ls_pending (capture_intent s o'))" by (auto simp: capture_intent_def Let_def split: option.split)
  with Cons.IH [of "capture_intent s o'"] show ?case by (auto simp: capture_protection_intents_def)
qed (simp add: capture_protection_intents_def)

lemma capture_pending: "o' \<in> set orders \<Longrightarrow> zero_target o' \<Longrightarrow> order_key o' \<in> set (ls_pending (capture_protection_intents orders s))"
proof (induction orders arbitrary: s)
  case (Cons a orders)
  show ?case
  proof (cases "o' = a")
    case True
    have "order_key o' \<in> set (ls_pending (capture_intent s o'))" using Cons.prems(2) by (simp add: capture_intent_def Let_def)
    then show ?thesis using capture_keeps [of "capture_intent s a" orders] True by (auto simp: capture_protection_intents_def)
  next
    case False
    then show ?thesis using Cons by (simp add: capture_protection_intents_def)
  qed
qed simp

lemma process_bar_pending:
  assumes "process_bar g frames tick s u = Some (orders, ts, s1, u1)"
  shows "set (ls_pending s) \<subseteq> set (ls_pending s1)"
    and "o' \<in> set orders \<Longrightarrow> zero_target o' \<Longrightarrow> order_key o' \<in> set (ls_pending s1)"
proof -
  obtain ts' rest where ts: "rev (timestamps \<lparr>po_frames = frames, po_visible = None\<rparr>) = ts' # rest"
    using assms by (cases "rev (timestamps \<lparr>po_frames = frames, po_visible = None\<rparr>)") (simp_all add: process_bar_def)
  define advanced where "advanced = (case ls_processed s of None \<Rightarrow> True | Some p \<Rightarrow> p < ts')"
  define s0 where "s0 = s\<lparr>ls_check := Some tick, ls_now := context_time advanced ts' tick s\<rparr>"
  have "s1 = (if advanced then (capture_protection_intents orders s0)\<lparr>ls_processed := Some ts'\<rparr> else capture_protection_intents orders s0)"
    using assms unfolding process_bar_def Let_def ts case_prod_beta list.case advanced_def [symmetric] s0_def [symmetric] by auto
  then have s0: "ls_pending s0 = ls_pending s" "ls_pending s1 = ls_pending (capture_protection_intents orders s0)"
    by (simp_all add: s0_def)
  show "set (ls_pending s) \<subseteq> set (ls_pending s1)" using capture_keeps [of s0 orders] by (simp add: s0)
  show "o' \<in> set orders \<Longrightarrow> zero_target o' \<Longrightarrow> order_key o' \<in> set (ls_pending s1)"
    using capture_pending by (simp add: s0)
qed

text \<open>The equity rule of the strategy keeps the positions, and adds to the pending exits at most.\<close>

lemma capture_positions [simp]: "ls_positions (capture_protection_intents orders s) = ls_positions s"
proof (induction orders arbitrary: s)
  case (Cons o' orders)
  have "ls_positions (capture_intent s o') = ls_positions s" by (simp add: capture_intent_def Let_def split: option.split)
  with Cons [of "capture_intent s o'"] show ?case by (simp add: capture_protection_intents_def)
qed (simp add: capture_protection_intents_def)

lemma equity_risk_keeps:
  assumes "equity_risk g c s u = (eq, reason, s2, u2)"
  shows "ls_positions s2 = ls_positions s" "set (ls_pending s) \<subseteq> set (ls_pending s2)"
    and "o' \<in> set eq \<Longrightarrow> zero_target o' \<Longrightarrow> order_key o' \<in> set (ls_pending s2)"
  using assms capture_keeps [of "s\<lparr>ls_now := Some (cy_now c)\<rparr>" eq] capture_pending [of o' eq "s\<lparr>ls_now := Some (cy_now c)\<rparr>"]
  by (auto simp: equity_risk_def Let_def case_prod_beta split: option.splits if_splits)

text \<open>A cycle in its parts.\<close>

lemma run_cycle_parts:
  obtains s1 eq reason s2 u2 u3 exits s4 s5 final where
    "s1 = synchronize_positions resolve (cy_now c) (cy_positions c) (cy_equity c) s"
    "equity_risk g c s1 u = (eq, reason, s2, u2)"
    "(if reason \<noteq> [] then ([], s2) else evaluate_protections (map_of (cy_prices c)) (cy_now c) s2) = (exits, s4)"
    "s5 = release_refused submit exits s4"
    "run_cycle g resolve submit c s u =
      (if reason = [] \<and> cy_poll c
       then (case process_bar g (cy_frames c) (cy_clock c) s5 u3 of
               None \<Rightarrow> (eq @ exits, None, s5, u3)
             | Some (orders, ts, s6, u4) \<Rightarrow>
                 (eq @ exits @ filter (\<lambda>o'. order_key o' \<notin> set (ls_pending s5)) orders, Some (False, protection_snapshot s6), s6, u4))
       else (eq @ exits, Some (final, protection_snapshot s5), s5, u3))"
proof -
  define s1 where "s1 = synchronize_positions resolve (cy_now c) (cy_positions c) (cy_equity c) s"
  obtain eq reason s2 u2 where q: "equity_risk g c s1 u = (eq, reason, s2, u2)" by (metis prod_cases4)
  obtain exits s4 where e: "(if reason \<noteq> [] then ([], s2) else evaluate_protections (map_of (cy_prices c)) (cy_now c) s2) = (exits, s4)"
    by fastforce
  show thesis
    by (rule that [OF s1_def q e refl])
      (unfold run_cycle_def Let_def s1_def [symmetric] q prod.case e, rule refl)
qed

definition holds_leg :: "(string \<Rightarrow> string option) \<Rightarrow> string \<Rightarrow> cycle \<Rightarrow> bool" where
  "holds_leg resolve k c = (map_of (synced_positions resolve (cy_positions c)) k \<noteq> None)"

text \<open>The orders of the equity rule, in a cycle and over several.\<close>

definition rule_orders :: "'u program \<Rightarrow> (string \<Rightarrow> string option) \<Rightarrow> cycle \<Rightarrow> session \<Rightarrow> 'u \<Rightarrow> bt_order list" where
  "rule_orders g resolve c s u =
     fst (equity_risk g c (synchronize_positions resolve (cy_now c) (cy_positions c) (cy_equity c) s) u)"

fun rule_orders_of :: "'u program \<Rightarrow> (string \<Rightarrow> string option) \<Rightarrow> ((bt_order \<Rightarrow> bool) \<times> cycle) list \<Rightarrow> session \<Rightarrow> 'u \<Rightarrow> bt_order list" where
  "rule_orders_of g resolve [] s u = []"
| "rule_orders_of g resolve ((submit, c) # cs) s u =
     (case run_cycle g resolve submit c s u of
        (_, Some (True, _), _, _) \<Rightarrow> rule_orders g resolve c s u
      | (_, _, s1, u1) \<Rightarrow> rule_orders g resolve c s u @ rule_orders_of g resolve cs s1 u1)"

lemma no_rule_no_orders: "pg_equity g = None \<Longrightarrow> rule_orders_of g resolve cs s u = []"
proof (induction cs arbitrary: s u)
  case (Cons a cs)
  obtain submit c where a: "a = (submit, c)" by fastforce
  obtain os saved s1 u1 where r: "run_cycle g resolve submit c s u = (os, saved, s1, u1)" by (metis prod_cases4)
  have "rule_orders g resolve c s u = []" using Cons.prems by (simp add: rule_orders_def equity_risk_def)
  then show ?case using Cons by (auto simp: a r split: option.split bool.split)
qed simp

lemma filter_nothing: "\<forall>x \<in> set xs. f x \<noteq> k \<Longrightarrow> filter (\<lambda>x. f x = k) xs = []"
  by (simp add: filter_empty_conv)

lemma cycle_blocks:
  assumes held: "holds_leg resolve k c" and k: "k \<in> set (ls_pending s)"
    and r: "run_cycle g resolve submit c s u = (orders, saved, s', u')"
  shows "filter (\<lambda>x. order_key x = k) orders = filter (\<lambda>x. order_key x = k) (rule_orders g resolve c s u)"
    and "k \<in> set (ls_pending s')"
proof -
  obtain s1 eq reason s2 u2 u3 exits s4 s5 final where p: "s1 = synchronize_positions resolve (cy_now c) (cy_positions c) (cy_equity c) s"
    "equity_risk g c s1 u = (eq, reason, s2, u2)"
    "(if reason \<noteq> [] then ([], s2) else evaluate_protections (map_of (cy_prices c)) (cy_now c) s2) = (exits, s4)"
    "s5 = release_refused submit exits s4"
    "run_cycle g resolve submit c s u =
      (if reason = [] \<and> cy_poll c
       then (case process_bar g (cy_frames c) (cy_clock c) s5 u3 of
               None \<Rightarrow> (eq @ exits, None, s5, u3)
             | Some (orders, ts, s6, u4) \<Rightarrow>
                 (eq @ exits @ filter (\<lambda>o'. order_key o' \<notin> set (ls_pending s5)) orders, Some (False, protection_snapshot s6), s6, u4))
       else (eq @ exits, Some (final, protection_snapshot s5), s5, u3))"
    by (rule run_cycle_parts)
  note q = equity_risk_keeps [OF p(2)]
  have rule: "rule_orders g resolve c s u = eq" by (simp add: rule_orders_def p(1) [symmetric] p(2))
  have "\<not> gone resolve (cy_positions c) s k" using held held_not_gone by (auto simp: holds_leg_def)
  then have "k \<in> set (ls_pending s1)" using k by (simp add: p(1) synchronize_maps)
  then have k2: "k \<in> set (ls_pending s2)" using q(2) by blast
  have key: "keyed (ls_positions s2)" using q(1) by (simp add: p(1))
  have ex: "\<forall>o' \<in> set exits. order_key o' \<noteq> k"
    using evaluate_legs_orders [OF key, where prices = "map_of (cy_prices c)" and ts = "cy_now c" and sts = "ls_states s2"] p(3) k2
    by (auto simp: evaluate_protections_def split: if_splits)
  have "k \<in> set (ls_pending s4)"
    using evaluate_legs_keeps(2) [of s2 "map_of (cy_prices c)" "cy_now c" "ls_states s2"] p(3) k2
    by (auto simp: evaluate_protections_def split: if_splits)
  then have k5: "k \<in> set (ls_pending s5)" unfolding p(4) using ex by (rule release_refused_keeps)
  note none = filter_nothing [where f = order_key, OF ex]
  have "filter (\<lambda>x. order_key x = k) (filter (\<lambda>o'. order_key o' \<notin> set (ls_pending s5)) os) = []" for os
    using k5 by (auto simp: filter_empty_conv)
  then show "filter (\<lambda>x. order_key x = k) orders = filter (\<lambda>x. order_key x = k) (rule_orders g resolve c s u)"
    using r p(5) none unfolding rule by (auto split: if_splits option.splits)
  show "k \<in> set (ls_pending s')"
    using r p(5) k5 process_bar_pending(1) [of g "cy_frames c" "cy_clock c" s5 u3] by (fastforce split: if_splits option.splits)
qed

lemma cycles_block:
  assumes "\<forall>x \<in> set cs. holds_leg resolve k (snd x)" and "k \<in> set (ls_pending s)"
    and "run_cycles g resolve cs s u = (orders, s', u')"
  shows "filter (\<lambda>x. order_key x = k) orders = filter (\<lambda>x. order_key x = k) (rule_orders_of g resolve cs s u) \<and> k \<in> set (ls_pending s')"
  using assms
proof (induction cs arbitrary: s u orders s' u')
  case (Cons a cs)
  obtain submit c where a: "a = (submit, c)" by fastforce
  obtain os saved s1 u1 where r: "run_cycle g resolve submit c s u = (os, saved, s1, u1)" by (metis prod_cases4)
  have held: "holds_leg resolve k c" using Cons.prems(1) by (auto simp: a)
  note one = cycle_blocks [OF held Cons.prems(2) r]
  obtain os' s2 u2 where rest: "run_cycles g resolve cs s1 u1 = (os', s2, u2)" by (metis prod_cases3)
  have "\<forall>x \<in> set cs. holds_leg resolve k (snd x)" using Cons.prems(1) by simp
  from Cons.IH [OF this one(2) rest] show ?case
    using Cons.prems(3) one by (auto simp: a r rest split: option.splits bool.splits)
qed simp

text \<open>C31.  A pending exit closes a leg to every further order but those of the equity rule: once a cycle has
  handed over an order of the strategy or of its equity rule that takes the leg to zero, whether the
  queue accepted or refused it, the only orders for the leg that later cycles hand over, as long as the
  ledger holds it, are those of the equity rule (\<open>_equity_risk_exit\<close>), which is not held back by a
  pending exit; neither the exit again nor a stop loss follows.  What is saved keeps it so over a
  restart.  (An exit of the protection is released when it is refused.)\<close>

theorem pending_exit_closes_leg:
  assumes "run_cycle g resolve submit c s u = (orders, saved, s1, u1)"
    and "o' \<in> set orders" and "zero_target o'" and "bo_signal o' \<noteq> None"
    and "\<forall>x \<in> set cs. holds_leg resolve (order_key o') (snd x)"
    and "run_cycles g resolve cs s1 u1 = (later, s2, u2)"
  shows "filter (\<lambda>x. order_key x = order_key o') later
      = filter (\<lambda>x. order_key x = order_key o') (rule_orders_of g resolve cs s1 u1)
    \<and> order_key o' \<in> set (ls_pending (restore_protection_snapshot now (protection_snapshot s2) fresh))"
proof -
  obtain s1' eq reason s2' u2' u3 exits s4 s5 final where p: "s1' = synchronize_positions resolve (cy_now c) (cy_positions c) (cy_equity c) s"
    "equity_risk g c s1' u = (eq, reason, s2', u2')"
    "(if reason \<noteq> [] then ([], s2') else evaluate_protections (map_of (cy_prices c)) (cy_now c) s2') = (exits, s4)"
    "s5 = release_refused submit exits s4"
    "run_cycle g resolve submit c s u =
      (if reason = [] \<and> cy_poll c
       then (case process_bar g (cy_frames c) (cy_clock c) s5 u3 of
               None \<Rightarrow> (eq @ exits, None, s5, u3)
             | Some (orders, ts, s6, u4) \<Rightarrow>
                 (eq @ exits @ filter (\<lambda>o'. order_key o' \<notin> set (ls_pending s5)) orders, Some (False, protection_snapshot s6), s6, u4))
       else (eq @ exits, Some (final, protection_snapshot s5), s5, u3))"
    by (rule run_cycle_parts)
  note q = equity_risk_keeps [OF p(2)]
  have "keyed (ls_positions s2')" using q(1) by (simp add: p(1))
  note legs = evaluate_legs_orders [OF this, where prices = "map_of (cy_prices c)" and ts = "cy_now c" and sts = "ls_states s2'"]
  have ex: "order_key x \<notin> set (ls_pending s2') \<and> bo_signal x = None" if "x \<in> set exits" for x
    using legs [of x] p(3) that by (auto simp: evaluate_protections_def split: if_splits)
  have "set (ls_pending s2') \<subseteq> set (ls_pending s4)"
    using evaluate_legs_keeps(2) [of s2' "map_of (cy_prices c)" "cy_now c" "ls_states s2'"] p(3)
    by (auto simp: evaluate_protections_def split: if_splits)
  note grow = this
  have rule: "order_key o' \<in> set (ls_pending s5)" if "o' \<in> set eq"
    unfolding p(4)
  proof (rule release_refused_keeps)
    note k = q(3) [OF that assms(3)]
    show "order_key o' \<in> set (ls_pending s4)" using k grow by blast
    show "\<forall>x \<in> set exits. order_key x \<noteq> order_key o'" using k ex by metis
  qed
  have not_exit: "o' \<notin> set exits"
  proof
    assume "o' \<in> set exits"
    from ex [OF this] assms(4) show False by simp
  qed
  have "order_key o' \<in> set (ls_pending s1)"
  proof (cases "reason = [] \<and> cy_poll c")
    case False
    have "orders = eq @ exits" "s1 = s5" using assms(1) [unfolded p(5) if_not_P [OF False]] by simp_all
    then show ?thesis using assms(2) not_exit rule by simp
  next
    case True
    note r = assms(1) [unfolded p(5) if_P [OF True]]
    show ?thesis
    proof (cases "process_bar g (cy_frames c) (cy_clock c) s5 u3")
      case None
      then have "orders = eq @ exits" "s1 = s5" using r by simp_all
      then show ?thesis using assms(2) not_exit rule by simp
    next
      case (Some x)
      obtain os ts s6 u4 where x: "x = (os, ts, s6, u4)" by (rule prod_cases4)
      then have "set orders \<subseteq> set eq \<union> set exits \<union> set os" "s1 = s6" using r Some by auto
      then show ?thesis
        using assms(2,3) not_exit rule process_bar_pending [OF Some [unfolded x]] by blast
    qed
  qed
  from cycles_block [OF assms(5) this assms(6)] show ?thesis
    by (simp add: restore_protection_snapshot_def protection_snapshot_def)
qed

text \<open>A strategy that takes A to zero at every bar, and a queue that refuses its order.\<close>

definition exiting :: "unit program" where
  "exiting = \<lparr>pg_before = (\<lambda>t P ps e u. ([], u)), pg_schedules = [], pg_rebalance = None,
     pg_data = (\<lambda>t P ps e u. ([plain_order ''A'' ''exit'' t []], u)), pg_equity = None, pg_release = (\<lambda>u. u)\<rparr>"

definition held_cycle :: cycle where
  "held_cycle = \<lparr>cy_positions = two_units, cy_equity = 1000, cy_prices = [(''A'', 1)], cy_now = 0, cy_poll = True,
     cy_frames = po_frames flat_market, cy_clock = 0\<rparr>"

lemma first_exit: "fst (run_cycle exiting Some (\<lambda>_. False) held_cycle (new_session 1000) ()) = [plain_order ''A'' ''exit'' 86400000000 []]"
proof -
  let ?s = "(new_session 1000)\<lparr>ls_positions := [(''A'', held_position)]\<rparr>"
  have s: "synchronize_positions Some 0 two_units 1000 (new_session 1000) = ?s" by code_simp
  have e: "evaluate_protections ps t ?s = ([], ?s)" for ps t by (simp add: evaluate_protections_def new_session_def)
  have "map_option fst (process_bar exiting (po_frames flat_market) 0 ?s ()) = Some [plain_order ''A'' ''exit'' 86400000000 []]"
    by code_simp
  moreover have p: "ls_pending (new_session 1000) = []" by (simp add: new_session_def)
  ultimately obtain ts s1 u1 where "process_bar exiting (po_frames flat_market) 0 ?s () = Some ([plain_order ''A'' ''exit'' 86400000000 []], ts, s1, u1)"
    by auto
  then show ?thesis
    by (simp add: run_cycle_def equity_risk_def exiting_def [THEN arg_cong, of pg_equity] held_cycle_def s e release_refused_def p)
qed

lemma pending_exit_closes_leg_witness:
  "list_all (\<lambda>x. order_key x \<noteq> ''A'')
     (case run_cycle exiting Some (\<lambda>_. False) held_cycle (new_session 1000) () of
        (orders, saved, s1, u1) \<Rightarrow> fst (run_cycles exiting Some [(\<lambda>_. True, held_cycle)] s1 u1))"
proof -
  obtain orders saved s1 u1 where r: "run_cycle exiting Some (\<lambda>_. False) held_cycle (new_session 1000) () = (orders, saved, s1, u1)"
    by (metis prod_cases4)
  obtain later s2 u2 where l: "run_cycles exiting Some [(\<lambda>_. True, held_cycle)] s1 u1 = (later, s2, u2)" by (metis prod_cases3)
  let ?o = "plain_order ''A'' ''exit'' 86400000000 []"
  have "?o \<in> set orders" using first_exit r by simp
  moreover have "order_key ?o = ''A''" by code_simp
  ultimately have o: "?o \<in> set orders" "zero_target ?o" "bo_signal ?o \<noteq> None" "order_key ?o = ''A''" "pg_equity exiting = None"
    using eps12_bounds by (simp_all add: zero_target_def is_target_def plain_order_def exiting_def)
  have "\<forall>x \<in> set [(\<lambda>_ :: bt_order. True, held_cycle)]. holds_leg Some (order_key ?o) (snd x)"
    by (simp add: holds_leg_def held_cycle_def two_units_synced o)
  from pending_exit_closes_leg [OF r o(1-3) this l] no_rule_no_orders [OF o(5)]
  have "filter (\<lambda>x. order_key x = ''A'') later = []" by (simp only: o(4)) simp
  then show ?thesis by (simp only: r l prod.case fst_conv list_all_iff filter_empty_conv)
qed

section \<open>Saving and restoring\<close>

definition session_ok :: "session \<Rightarrow> bool" where
  "session_ok s =
     ((\<forall>(k, sp) \<in> set (ls_specs s). spec_ok sp)
      \<and> (\<forall>(k, st) \<in> set (ls_states s). spec_ok (pt_spec st) \<and> 0 < pt_entry st \<and> 0 < pt_low st
          \<and> pt_low st \<le> pt_entry st \<and> pt_entry st \<le> pt_high st \<and> pt_side st \<in> {''long'', ''short''})
      \<and> distinct (ls_pending s))"

lemma map_filter_back: "\<forall>x \<in> set xs. f (g x) = Some x \<Longrightarrow> List.map_filter f (map g xs) = xs"
  by (induction xs) simp_all

lemma state_restored:
  assumes "spec_ok (pt_spec st)" "0 < pt_entry st" "0 < pt_low st" "pt_low st \<le> pt_entry st" "pt_entry st \<le> pt_high st"
    "pt_side st \<in> {''long'', ''short''}"
  shows "state_from_metadata (state_metadata st) now = Some st"
proof -
  have "py_lower (pt_side st) = pt_side st" "pt_side st \<noteq> []" using assms(6) by (auto simp: side_strings)
  then show ?thesis
    using assms spec_metadata_roundtrip [OF assms(1)]
    by (simp add: state_from_metadata_def state_metadata_def number_def opt_str_def open_state_def Let_def max_absorb2 min_absorb2 str_or_def)
qed

text \<open>C30.  A restart loses nothing of the protection: restoring what was saved gives back the specifications,
  the states with their high and low marks and the pending exits, into whatever session, at whatever
  time, for every session whose states contain their entry between their marks.\<close>

theorem session_roundtrip:
  assumes "session_ok s"
  shows "ls_specs (restore_protection_snapshot now (protection_snapshot s) fresh) = ls_specs s
    \<and> ls_states (restore_protection_snapshot now (protection_snapshot s) fresh) = ls_states s
    \<and> ls_pending (restore_protection_snapshot now (protection_snapshot s) fresh) = ls_pending s"
  using assms spec_metadata_roundtrip state_restored
  unfolding restore_protection_snapshot_def protection_snapshot_def session_ok_def
  by (auto intro!: map_filter_back)

text \<open>A session with a held leg, its protection and a pending exit.\<close>

definition saved_session :: session where
  "saved_session = (new_session 1000)\<lparr>ls_specs := [(''A'', demo_spec)],
     ls_states := [(''A'', open_state ''A'' ''long'' 100 demo_spec 0)], ls_pending := [''A'']\<rparr>"

lemma session_roundtrip_witness:
  "ls_states (restore_protection_snapshot 9 (protection_snapshot saved_session) (new_session 0)) = [(''A'', open_state ''A'' ''long'' 100 demo_spec 0)]"
proof -
  have "session_ok saved_session"
    by (simp add: session_ok_def saved_session_def new_session_def open_state_def side_strings demo_spec_def spec_ok_def spec_enabled_def)
  from session_roundtrip [OF this, of 9 "new_session 0"] show ?thesis by (simp add: saved_session_def)
qed

section \<open>Legs that lose their protection\<close>

lemma evaluate_legs_none:
  assumes "keyed (ls_positions s)" and "k \<in> set (ls_pending s) \<or> k \<notin> fst ` set sts"
  shows "\<forall>o' \<in> set (fst (evaluate_legs prices ts sts s)). order_key o' \<noteq> k"
  using assms
proof (induction sts arbitrary: s)
  case (Cons a sts)
  obtain key st where a: "a = (key, st)" by fastforce
  let ?s = "snd (evaluate_leg prices ts key st s)"
  have "order_key o' \<noteq> k" if "o' \<in> set (fst (evaluate_leg prices ts key st s))" for o'
    using evaluate_leg_orders [OF Cons.prems(1) that] Cons.prems(2) by (auto simp: a)
  moreover have "\<forall>o' \<in> set (fst (evaluate_legs prices ts sts ?s)). order_key o' \<noteq> k"
    using Cons.prems evaluate_leg_keeps(1,2) [where prices = prices and ts = ts and key = key and st = st and s = s]
    by (intro Cons.IH) (auto simp: a)
  ultimately show ?case by (auto simp: a case_prod_beta)
qed simp

text \<open>C32.  Closing and reopening a leg in one bar leaves it without protection.  When the orders of a bar
  contain the exit of a leg, then, whatever else is queued (an entry with a stop, say), whatever the
  ledger shows when the positions are next read, with the leg or without it, and once it holds the
  leg, live prices trigger no exit of it: either the exit is still pending, or dropping it took the
  specification of the entry with it.\<close>

theorem reopened_leg_unprotected:
  assumes "out \<in> set orders" and "zero_target out"
    and "s1 = capture_protection_intents orders s"
    and "s2 = synchronize_positions resolve t1 positions1 e1 s1"
    and "s3 = synchronize_positions resolve t2 positions2 e2 s2"
    and "map_of (synced_positions resolve positions2) (order_key out) = Some p"
  shows "\<forall>x \<in> set (fst (evaluate_protections prices ts s3)). order_key x \<noteq> order_key out"
proof -
  let ?k = "order_key out"
  have k: "?k \<in> set (ls_pending s1)" using capture_pending [OF assms(1,2)] by (simp add: assms(3))
  have "?k \<in> set (ls_pending s3) \<or> ?k \<notin> fst ` set (ls_states s3)"
  proof (cases "gone resolve positions1 s1 ?k")
    case True
    then have s2: "map_of (ls_specs s2) ?k = None" "map_of (ls_states s2) ?k = None" by (simp_all add: assms(4) synchronize_maps)
    then have "map_of (ls_states s3) ?k = None"
      using assms(6) held_not_gone [OF assms(6)] by (simp add: assms(5) synchronize_maps sync_state_def)
    then show ?thesis by (simp add: map_of_eq_None_iff)
  next
    case False
    then have "?k \<in> set (ls_pending s2)" using k by (simp add: assms(4) synchronize_maps)
    then show ?thesis using held_not_gone [OF assms(6)] by (simp add: assms(5) synchronize_maps)
  qed
  then show ?thesis
    unfolding evaluate_protections_def by (intro evaluate_legs_none) (simp_all add: assms(5))
qed

lemma reopened_leg_unprotected_witness:
  "list_all (\<lambda>x. order_key x \<noteq> ''A'')
     (fst (evaluate_protections (\<lambda>_. Some 1) 5 (synchronize_positions Some 2 two_units 1000 (synchronize_positions Some 1 [] 1000
        (capture_protection_intents [plain_order ''A'' ''exit'' 0 [], buy_one\<lparr>bo_protection := Some demo_spec\<rparr>] (new_session 1000))))))"
proof -
  let ?out = "plain_order ''A'' ''exit'' 0 []"
  have k: "order_key ?out = ''A''" by code_simp
  have "map_of (synced_positions Some two_units) (order_key ?out) = Some held_position" by (simp add: two_units_synced k)
  moreover have "zero_target ?out" using eps12_bounds by (simp add: zero_target_def is_target_def plain_order_def)
  ultimately show ?thesis
    using reopened_leg_unprotected [of ?out "[?out, buy_one\<lparr>bo_protection := Some demo_spec\<rparr>]", OF _ _ refl refl refl] k
    by (simp add: list_all_iff)
qed

lemma evaluate_legs_fires:
  assumes "keyed (ls_positions s)" and "map_of sts k = Some st" and "k \<notin> set (ls_pending s)"
    and "map_of (ls_positions s) k = Some p" and "eps12 < \<bar>bp_amount p\<bar>" and "leg_price prices k p = Some x"
    and "fst (evaluate_price Conservative st ts x) = Some d"
  shows "\<exists>o' \<in> set (fst (evaluate_legs prices ts sts s)). order_key o' = k"
  using assms(1-4)
proof (induction sts arbitrary: s)
  case (Cons a sts)
  obtain key st' where a: "a = (key, st')" by fastforce
  show ?case
  proof (cases "key = k")
    case True
    then have "fst (evaluate_leg prices ts key st' s) = [exit_order (bp_symbol p) (dc_reason d) (bp_side p)]"
      using Cons.prems assms(5-7) by (simp add: a evaluate_leg_def Let_def case_prod_beta)
    then show ?thesis
      using keyed_map [OF Cons.prems(1,4)] by (simp add: a case_prod_beta exit_order_def order_key_def plain_order_def)
  next
    case False
    have "\<exists>o' \<in> set (fst (evaluate_legs prices ts sts (snd (evaluate_leg prices ts key st' s)))). order_key o' = k"
      using Cons.prems False evaluate_leg_keeps(1,3) [where prices = prices and ts = ts and key = key and st = st' and s = s]
      by (intro Cons.IH) (auto simp: a)
    then show ?thesis by (auto simp: a case_prod_beta)
  qed
qed simp

text \<open>A leg closed by quantity leaves its trailing stop behind.  Its state is dropped only with a pending
  exit; when the leg is closed by another order and opened again on the same side, with a
  specification that does not rebase, the armed trailing stop of the old position with its old high is
  applied to the new one: any price that lies below the old high by the trailing distance, the price
  of the new entry included, closes it at once.\<close>

theorem reentry_meets_old_trailing_stop:
  assumes "map_of (ls_states s) k = Some st" and "map_of (ls_specs s) k = Some sp" and "k \<notin> set (ls_pending s)"
    and "pt_side st = ''long''" and "pt_active st" and "0 < sp_trail sp" and "\<not> sp_rebase sp"
    and "s1 = synchronize_positions resolve t1 positions1 e1 s" and "map_of (synced_positions resolve positions1) k = None"
    and "s2 = synchronize_positions resolve t2 positions2 e2 s1" and "map_of (synced_positions resolve positions2) k = Some p"
    and "eps12 < bp_amount p" and "0 < bp_cost p" and "cost_moved (bp_cost p) (pt_entry st)"
    and "leg_price prices k p = Some x" and "0 < x" and "x \<le> fmul (max (pt_high st) x) (fsub 1 (sp_trail sp))"
  shows "\<exists>o' \<in> set (fst (evaluate_protections prices ts s2)). order_key o' = k"
proof -
  have ng1: "\<not> gone resolve positions1 s k" using assms(3) by (simp add: gone_def)
  then have s1: "map_of (ls_states s1) k = Some st" "map_of (ls_specs s1) k = Some sp" "k \<notin> set (ls_pending s1)"
    using assms(1-3,9) by (simp_all add: assms(8) synchronize_maps)
  have pos: "0 < bp_amount p" using assms(12) eps12_bounds by simp
  define st2 where "st2 = st\<lparr>pt_entry := bp_cost p, pt_spec := sp\<rparr>"
  have "apply_scale_in (bp_cost p) fill (Some sp) t st = st2" for fill t
    using assms(5,7,13) by (simp add: apply_scale_in_def Let_def st2_def)
  then have "map_of (sync_state t2 s1 k p (ls_states s1)) k = Some st2"
    using s1 assms(4,12-14) pos by (simp add: sync_state_def Let_def side_of_def AList.update_conv')
  then have s2: "map_of (ls_states s2) k = Some st2" "k \<notin> set (ls_pending s2)"
    using held_not_gone [OF assms(11)] assms(11) s1(3) by (simp_all add: assms(10) synchronize_maps)
  have "fst (evaluate_price Conservative st2 ts x) \<noteq> None"
    using assms(4-6,16,17)
    by (simp add: evaluate_price_def price_candidates_def trailing_trigger_def Let_def is_long_def st2_def choose_exit_def
        split: list.split)
  then obtain d where d: "fst (evaluate_price Conservative st2 ts x) = Some d" by blast
  show ?thesis
    unfolding evaluate_protections_def
    by (rule evaluate_legs_fires [OF _ s2 _ _ assms(15) d]) (use assms(11,12) pos in \<open>simp_all add: assms(10)\<close>)
qed

text \<open>A leg with an armed stop an eighth below a high of 128, closed and bought again at 100.\<close>

definition trailing_spec :: pspec where
  "trailing_spec = demo_spec\<lparr>sp_trail := 1 / 8, sp_rebase := False\<rparr>"

definition trailed :: session where
  "trailed = (new_session 1000)\<lparr>ls_specs := [(''A'', trailing_spec)],
     ls_states := [(''A'', (open_state ''A'' ''long'' 8 trailing_spec 0)\<lparr>pt_high := 128, pt_active := True\<rparr>)]\<rparr>"

lemma reentry_meets_old_trailing_stop_witness:
  "\<exists>o' \<in> set (fst (evaluate_protections (\<lambda>_. Some 100) 5 (synchronize_positions Some 2 two_units 1000 (synchronize_positions Some 1 [] 1000 trailed)))).
     order_key o' = ''A''"
proof -
  let ?st = "(open_state ''A'' ''long'' 8 trailing_spec 0)\<lparr>pt_high := 128, pt_active := True\<rparr>"
  have "fl (1 / 10 ^ 10) * 8 \<le> 1" using lot_slack_bounds by simp
  then have "fmul 8 (fl (1 / 10 ^ 10)) \<le> 1" unfolding fmul_def by (intro fl.below) (simp_all add: mult.commute)
  moreover have "fsub 100 8 = 92" by code_simp
  ultimately have moved: "cost_moved (bp_cost held_position) (pt_entry ?st)"
    using eps12_below by (simp add: cost_moved_def held_position_def open_state_def)
  have trigger: "fmul 128 (fsub 1 (1 / 8)) = 112" by code_simp
  have "map_of (ls_states trailed) ''A'' = Some ?st" "map_of (ls_specs trailed) ''A'' = Some trailing_spec"
    "''A'' \<notin> set (ls_pending trailed)" "pt_side ?st = ''long''" "pt_active ?st" "0 < sp_trail trailing_spec" "\<not> sp_rebase trailing_spec"
    by (simp_all add: trailed_def new_session_def open_state_def side_strings trailing_spec_def)
  moreover have "map_of (synced_positions Some []) ''A'' = None" by (simp add: synced_positions_def)
  moreover have "map_of (synced_positions Some two_units) ''A'' = Some held_position" by (simp add: two_units_synced)
  moreover have "eps12 < bp_amount held_position" "0 < bp_cost held_position" using eps12_below by (simp_all add: held_position_def)
  moreover have "leg_price (\<lambda>_. Some 100) ''A'' held_position = Some 100" by (simp add: leg_price_def)
  moreover have "(0 :: rat) < 100" by simp
  moreover have "100 \<le> fmul (max (pt_high ?st) 100) (fsub 1 (sp_trail trailing_spec))" by (simp add: trailing_spec_def trigger)
  ultimately show ?thesis
    using moved by (intro reentry_meets_old_trailing_stop [OF _ _ _ _ _ _ _ refl _ refl, where k = "''A''" and x = 100])
qed

end
