(* ===== verification/Agent_Auth.thy ===== *)
theory Agent_Auth
  imports Py_Float
begin

text \<open>
  The gateway for external agents, \<open>utils/agent_auth.py\<close>: scoped tokens with their issue and
  revocation (\<open>services/agent_token_service.py\<close>), the two rate limiters, the idempotency table and
  the decorator \<open>agent_required\<close>, which every route of \<open>routes/agent_v1\<close> runs behind.

  The decorator is two transactions around the route, \<open>admit\<close> and \<open>settle\<close>, so that requests can
  overlap; \<open>agent_call\<close> is one request on its own.  \<open>sha\<close> stands for SHA-256, \<open>bucket_of\<close> for
  Python's \<open>hash\<close> of strings.  A reply is its status with what \<open>get_json(silent=True)\<close> reads from its
  body, \<open>JNull\<close> when that is nothing.
\<close>

section \<open>Scopes and lists\<close>

definition all_scopes :: "string list" where
  "all_scopes = [''R'', ''W'', ''B'', ''N'', ''C'', ''T'']"

text \<open>What \<open>scopes\<close> may be in a request: absent, a text with commas, a list.\<close>

datatype raw_scopes = No_Scopes | Scope_Text string | Scope_List "string list"

definition known_scopes :: "string list \<Rightarrow> string set" where
  "known_scopes items =
     set (filter (\<lambda>p. p \<in> set all_scopes) (map (\<lambda>p. py_upper (py_strip p)) (filter (\<lambda>p. py_strip p \<noteq> []) items)))"

fun parse_scopes :: "raw_scopes \<Rightarrow> string set" where
  "parse_scopes No_Scopes = {''R''}"
| "parse_scopes (Scope_Text raw) = known_scopes (split_on (CHR '','') raw)"
| "parse_scopes (Scope_List raw) = known_scopes raw"

definition parse_csv_list :: "string \<Rightarrow> string list" where
  "parse_csv_list raw =
     (let items = filter (\<lambda>p. p \<noteq> []) (map py_strip (split_on (CHR '','') raw)) in
      if raw = [] \<or> items = [] then [''*''] else items)"

definition list_matches :: "string \<Rightarrow> string list \<Rightarrow> bool" where
  "list_matches item allowlist =
     (if allowlist = [] \<or> ''*'' \<in> set allowlist then True
      else list_ex (\<lambda>a. py_upper (py_strip item) = py_upper (py_strip a)) allowlist)"

text \<open>\<open>','.join(items)\<close>\<close>

fun comma_join :: "string list \<Rightarrow> string" where
  "comma_join [] = []"
| "comma_join [s] = s"
| "comma_join (s # t # ts) = s @ '','' @ comma_join (t # ts)"

section \<open>Tokens\<close>

record token =
  tk_id :: int
  tk_user :: int
  tk_name :: string
  tk_hash :: string
  tk_scopes :: string
  tk_markets :: string
  tk_instruments :: string
  tk_paper :: bool
  tk_rate :: int
  tk_max_order :: rat
  tk_max_daily :: rat
  tk_status :: string
  tk_expires :: "int option"
  tk_used :: "int option"

text \<open>
  The body of a request for a token.  \<open>None\<close> is an absent key, for the number of days and for the
  rate also a false value; the floats are what \<open>float()\<close> makes of the value, or \<open>None\<close> inside when it
  raises.
\<close>

record issue_body =
  ib_name :: string
  ib_scopes :: raw_scopes
  ib_markets :: string
  ib_instruments :: string
  ib_paper :: bool
  ib_ack :: bool
  ib_rate :: "int option"
  ib_order :: "rat option option"
  ib_daily :: "rat option option"
  ib_days :: "int option"

datatype issue_error = Issue_Error string int

text \<open>\<open>_positive_env_float\<close>, \<open>value\<close> being the parsed variable.\<close>

definition positive_env_float :: "rat option \<Rightarrow> rat \<Rightarrow> rat" where
  "positive_env_float value fallback = (case value of None \<Rightarrow> fallback | Some v \<Rightarrow> if 0 < v then v else fallback)"

definition normalize_expiry :: "int option \<Rightarrow> int \<Rightarrow> int option" where
  "normalize_expiry days now =
     (case days of None \<Rightarrow> None | Some d \<Rightarrow> if d \<le> 0 then None else Some (now + d * day))"

record parsed_issue =
  pi_name :: string
  pi_scopes :: "string set"
  pi_markets :: "string list"
  pi_instruments :: "string list"
  pi_paper :: bool
  pi_rate :: int
  pi_order :: rat
  pi_daily :: rat
  pi_expires :: "int option"

definition limit_or :: "rat option option \<Rightarrow> rat \<Rightarrow> rat option" where
  "limit_or given fallback = (case given of None \<Rightarrow> Some fallback | Some v \<Rightarrow> v)"

definition parse_issue_body :: "rat option \<Rightarrow> rat option \<Rightarrow> bool \<Rightarrow> int \<Rightarrow> issue_body \<Rightarrow> issue_error + parsed_issue" where
  "parse_issue_body env_order env_daily allow_c now b =
     (let name = str_or (py_strip (ib_name b)) (''agent-'' @ int_str (now div second));
          asked = (let s = parse_scopes (ib_scopes b) in if s = {} then {''R''} else s);
          scopes = (if allow_c then asked else asked - {''C''});
          rate = (case ib_rate b of None \<Rightarrow> 60 | Some r \<Rightarrow> if r = 0 then 60 else r) in
      if \<not> allow_c \<and> ''C'' \<in> asked then Inl (Issue_Error ''C-scope (credentials) tokens can only be issued by an administrator.'' 403)
      else if ''T'' \<in> scopes \<and> \<not> ib_paper b \<and> \<not> ib_ack b then Inl (Issue_Error ''ack_live_trading_risk'' 400)
      else if rate < 1 \<or> 6000 < rate then Inl (Issue_Error ''rate_limit_per_min must be between 1 and 6000.'' 400)
      else case (limit_or (ib_order b) (positive_env_float env_order 1000),
                 limit_or (ib_daily b) (positive_env_float env_daily 5000)) of
        (Some order, Some daily) \<Rightarrow>
          if order \<le> 0 \<or> daily \<le> 0 then Inl (Issue_Error ''Trading notional limits must be positive.'' 400)
          else if daily < order then Inl (Issue_Error ''max_daily_notional must be at least max_order_notional.'' 400)
          else Inr \<lparr>pi_name = name, pi_scopes = scopes, pi_markets = parse_csv_list (ib_markets b),
                    pi_instruments = parse_csv_list (ib_instruments b), pi_paper = ib_paper b, pi_rate = rate,
                    pi_order = order, pi_daily = daily, pi_expires = normalize_expiry (ib_days b) now\<rparr>
      | _ \<Rightarrow> Inl (Issue_Error ''Trading notional limits must be numeric.'' 400))"

text \<open>\<open>sorted(scopes)\<close> of known scopes.\<close>

definition scope_text :: "string set \<Rightarrow> string" where
  "scope_text scopes = comma_join (filter (\<lambda>s. s \<in> scopes) [''B'', ''C'', ''N'', ''R'', ''T'', ''W''])"

section \<open>Rate limits\<close>

record decision =
  dc_allowed :: bool
  dc_limit :: int
  dc_remaining :: int
  dc_reset :: int

text \<open>\<open>_rate_state\<close> maps the hash of a key to the times of its accepted requests.\<close>

definition minute :: int where
  "minute = 60 * second"

definition memory_rate_limit ::
  "(string \<Rightarrow> int) \<Rightarrow> string \<Rightarrow> int \<Rightarrow> int \<Rightarrow> (int \<Rightarrow> int list) \<Rightarrow> decision \<times> (int \<Rightarrow> int list)" where
  "memory_rate_limit bucket_of key limit now rates =
     (let k = bucket_of key; bucket = filter (\<lambda>t. now - minute \<le> t) (rates k); lim = max 1 limit in
      if lim \<le> int (length bucket) then
        (\<lparr>dc_allowed = False, dc_limit = lim, dc_remaining = 0,
          dc_reset = (if bucket = [] then 60 else max 1 ((hd bucket + minute - now) div second))\<rparr>,
         rates(k := bucket))
      else
        let bucket' = bucket @ [now] in
        (\<lparr>dc_allowed = True, dc_limit = lim, dc_remaining = max 0 (limit - int (length bucket')),
          dc_reset = max 1 ((hd bucket' + minute - now) div second)\<rparr>,
         rates(k := bucket')))"

text \<open>
  The counter of a key in a minute of the clock: \<open>INCR\<close>, and \<open>EXPIRE\<close> after 65 seconds when it is new;
  \<open>counts\<close> has the value and the time it expires.  \<open>TTL\<close> rounds to seconds.
\<close>

definition redis_incr :: "string \<times> int \<Rightarrow> int \<Rightarrow> (string \<times> int \<Rightarrow> (int \<times> int) option) \<Rightarrow> (int \<times> int) \<times> (string \<times> int \<Rightarrow> (int \<times> int) option)" where
  "redis_incr k now counts =
     (let entry = (case counts k of
            Some (n, e) \<Rightarrow> if now < e then (n + 1, e) else (1, now + 65 * second)
          | None \<Rightarrow> (1, now + 65 * second)) in
      (entry, counts(k \<mapsto> entry)))"

definition redis_rate_limit ::
  "string \<Rightarrow> int \<Rightarrow> int \<Rightarrow> (string \<times> int \<Rightarrow> (int \<times> int) option) \<Rightarrow> decision \<times> (string \<times> int \<Rightarrow> (int \<times> int) option)" where
  "redis_rate_limit key limit now counts =
     (let lim = max 1 limit; ((n, e), counts') = redis_incr (key, now div minute) now counts in
      (\<lparr>dc_allowed = (n \<le> lim), dc_limit = lim, dc_remaining = max 0 (lim - n),
        dc_reset = max 1 ((e - now + second div 2) div second)\<rparr>, counts'))"

record limiter =
  lm_rates :: "int \<Rightarrow> int list"
  lm_counts :: "string \<times> int \<Rightarrow> (int \<times> int) option"

text \<open>Where the counters live: configured for memory, in Redis, or in memory because Redis fails.\<close>

datatype backend = In_Memory | In_Redis | Redis_Down

definition rate_limit_one :: "(string \<Rightarrow> int) \<Rightarrow> backend \<Rightarrow> string \<Rightarrow> int \<Rightarrow> int \<Rightarrow> limiter \<Rightarrow> decision \<times> limiter" where
  "rate_limit_one bucket_of store key limit now l =
     (let lim = max 1 limit in
      if store = In_Redis then
        let (d, counts) = redis_rate_limit key lim now (lm_counts l) in (d, l\<lparr>lm_counts := counts\<rparr>)
      else
        let (d, rates) = memory_rate_limit bucket_of key lim now (lm_rates l) in (d, l\<lparr>lm_rates := rates\<rparr>))"

definition check_rate_limit ::
  "(string \<Rightarrow> int) \<Rightarrow> backend \<Rightarrow> int option \<Rightarrow> int \<Rightarrow> int \<Rightarrow> int \<Rightarrow> int \<Rightarrow> limiter \<Rightarrow> decision \<times> limiter" where
  "check_rate_limit bucket_of store tenant_env token_id user_id limit now l =
     (let (d, l1) = rate_limit_one bucket_of store (''token:'' @ int_str token_id) limit now l in
      if \<not> dc_allowed d then (d, l1)
      else
        let tenant_limit = (case tenant_env of None \<Rightarrow> 600 | Some n \<Rightarrow> max 1 n);
            (t, l2) = rate_limit_one bucket_of store (''tenant:'' @ int_str user_id) tenant_limit now l1 in
        (if dc_allowed t then d else t, l2))"

section \<open>Requests and the idempotency table\<close>

record agent_request =
  ar_method :: string
  ar_path :: string
  ar_query :: string
  ar_data :: string
  ar_authorization :: string
  ar_key :: string

record reply =
  rp_status :: int
  rp_body :: json

record idem_row =
  id_token :: int
  id_method :: string
  id_route :: string
  id_key :: string
  id_hash :: string
  id_status :: string
  id_reply :: reply
  id_updated :: int

datatype reservation_state = Reserved | In_Progress | Mismatch | Completed idem_row

definition request_fingerprint :: "(string \<Rightarrow> string) \<Rightarrow> agent_request \<Rightarrow> string" where
  "request_fingerprint sha r =
     sha (py_upper (ar_method r) @ [CHR 0x0A] @ ar_path r @ [CHR 0x0A] @ ar_query r @ [CHR 0x0A] @ ar_data r)"

text \<open>The primary key of the table: token, method, route and idempotency key.\<close>

type_synonym idem_id = "int \<times> string \<times> string \<times> string"

definition idem_id :: "int \<Rightarrow> agent_request \<Rightarrow> string \<Rightarrow> idem_id" where
  "idem_id token_id r key = (token_id, py_upper (ar_method r), ar_path r, key)"

definition row_id :: "idem_row \<Rightarrow> idem_id" where
  "row_id x = (id_token x, id_method x, id_route x, id_key x)"

definition no_reply :: reply where
  "no_reply = \<lparr>rp_status = 0, rp_body = JNull\<rparr>"

definition new_idem_row :: "idem_id \<Rightarrow> string \<Rightarrow> int \<Rightarrow> idem_row" where
  "new_idem_row i h now =
     \<lparr>id_token = fst i, id_method = fst (snd i), id_route = fst (snd (snd i)), id_key = snd (snd (snd i)),
      id_hash = h, id_status = ''started'', id_reply = no_reply, id_updated = now\<rparr>"

text \<open>\<open>AGENT_IDEMPOTENCY_IN_PROGRESS_TTL_SEC\<close>, the parsed variable.\<close>

definition stale_after :: "int option \<Rightarrow> int" where
  "stale_after env = (case env of None \<Rightarrow> 900 | Some n \<Rightarrow> max 60 n)"

definition takes_over :: "idem_id \<Rightarrow> int \<Rightarrow> int \<Rightarrow> idem_row \<Rightarrow> bool" where
  "takes_over i stale now x = (row_id x = i \<and> id_status x = ''started'' \<and> id_updated x < now - stale * second)"

definition reserve_idempotency ::
  "idem_id \<Rightarrow> string \<Rightarrow> int \<Rightarrow> int \<Rightarrow> idem_row list \<Rightarrow> reservation_state \<times> idem_row list" where
  "reserve_idempotency i h stale now table =
     (case find (\<lambda>x. row_id x = i) table of
        None \<Rightarrow> (Reserved, table @ [new_idem_row i h now])
      | Some row \<Rightarrow>
          if id_hash row = h \<and> id_status row = ''started'' \<and> 0 < count_where (takes_over i stale now) table
          then (Reserved, upd_where (takes_over i stale now) (\<lambda>x. x\<lparr>id_updated := now\<rparr>) table)
          else if id_hash row \<noteq> h then (Mismatch, table)
          else if id_status row = ''completed'' then (Completed row, table)
          else (In_Progress, table))"

definition complete_idempotency :: "idem_id \<Rightarrow> reply \<Rightarrow> int \<Rightarrow> idem_row list \<Rightarrow> idem_row list" where
  "complete_idempotency i r now table =
     upd_where (\<lambda>x. row_id x = i) (\<lambda>x. x\<lparr>id_status := ''completed'', id_reply := r, id_updated := now\<rparr>) table"


section \<open>The decorator\<close>

record audit_row =
  au_user :: int
  au_token :: "int option"
  au_route :: string
  au_method :: string
  au_scope :: string
  au_status :: int
  au_key :: string

record gate =
  gt_tokens :: "token list"
  gt_limiter :: limiter
  gt_idem :: "idem_row list"
  gt_audit :: "audit_row list"

text \<open>
  What a request meets: the time (\<open>ge_offset\<close> is the distance of the server's local clock, which a naive
  \<open>datetime.now\<close> reads, from the UTC of the database), environment variables, the rate limiter's
  backend and whether the idempotency table can be reached before and after the route.
\<close>

record gate_env =
  ge_sha :: "string \<Rightarrow> string"
  ge_bucket :: "string \<Rightarrow> int"
  ge_now :: int
  ge_offset :: int
  ge_backend :: backend
  ge_tenant :: "int option"
  ge_stale :: "int option"
  ge_reserve_fails :: bool
  ge_complete_fails :: bool

text \<open>\<open>str.split()\<close>\<close>

fun py_words :: "string \<Rightarrow> string \<Rightarrow> string list" where
  "py_words w [] = (if w = [] then [] else [rev w])"
| "py_words w (c # s) =
     (if is_space c then (if w = [] then py_words [] s else rev w # py_words [] s) else py_words (c # w) s)"

definition extract_bearer :: "agent_request \<Rightarrow> string option" where
  "extract_bearer r =
     (case py_words [] (ar_authorization r) of
        [scheme, raw] \<Rightarrow> if py_lower scheme = ''bearer'' then Some raw else None
      | _ \<Rightarrow> None)"

definition lookup_token :: "(string \<Rightarrow> string) \<Rightarrow> string \<Rightarrow> token list \<Rightarrow> token option" where
  "lookup_token sha raw tokens = find (\<lambda>t. tk_hash t = sha raw) tokens"

definition err :: "int \<Rightarrow> string \<Rightarrow> reply" where
  "err status msg = \<lparr>rp_status = status, rp_body = JObj [(''message'', JStr msg)]\<rparr>"

text \<open>\<open>g.agent_token\<close> is set from the scope check on; before it the log names no token.\<close>

definition audit :: "token option \<Rightarrow> string \<Rightarrow> agent_request \<Rightarrow> int \<Rightarrow> 'w gate_scheme \<Rightarrow> 'w gate_scheme" where
  "audit tok scope r status g =
     g\<lparr>gt_audit := gt_audit g @ [\<lparr>au_user = (case tok of None \<Rightarrow> 0 | Some t \<Rightarrow> tk_user t),
        au_token = map_option tk_id tok, au_route = ar_path r, au_method = ar_method r, au_scope = scope,
        au_status = status, au_key = ar_key r\<rparr>]\<rparr>"

datatype admission = Refused reply | Replayed reply | Admitted token

definition needs_idempotency :: "string \<Rightarrow> agent_request \<Rightarrow> bool" where
  "needs_idempotency scope r =
     (py_upper (ar_method r) \<notin> {''GET'', ''HEAD'', ''OPTIONS''} \<and> scope \<in> {''W'', ''B'', ''N'', ''T''})"

definition expired :: "gate_env \<Rightarrow> token \<Rightarrow> bool" where
  "expired e t = (case tk_expires t of None \<Rightarrow> False | Some x \<Rightarrow> x < ge_now e + ge_offset e)"

text \<open>The checks of the token, before the rate limit: the reply of a refusal and the token the log names.\<close>

definition authenticate :: "gate_env \<Rightarrow> string \<Rightarrow> agent_request \<Rightarrow> token list \<Rightarrow> (reply \<times> token option) + token" where
  "authenticate e scope r tokens =
     (case extract_bearer r of
        None \<Rightarrow> Inl (err 401 ''Missing or malformed agent token'', None)
      | Some raw \<Rightarrow>
          if \<not> py_startswith raw ''qd_agent_'' then Inl (err 401 ''Missing or malformed agent token'', None)
          else case lookup_token (ge_sha e) raw tokens of
            None \<Rightarrow> Inl (err 401 ''Unknown agent token'', None)
          | Some t \<Rightarrow>
              if tk_status t \<noteq> ''active'' then Inl (err 401 (''Token is '' @ tk_status t), None)
              else if expired e t then Inl (err 401 ''Token expired'', None)
              else if scope \<notin> parse_scopes (Scope_Text (tk_scopes t))
                then Inl (err 403 (''Token lacks required scope: '' @ scope), Some t)
              else Inr t)"

text \<open>The idempotency part, for a request that has passed the rate limit.\<close>

definition reserve_call :: "gate_env \<Rightarrow> token \<Rightarrow> agent_request \<Rightarrow> idem_row list \<Rightarrow> admission \<times> idem_row list" where
  "reserve_call e t r table =
     (let key = py_strip (ar_key r) in
      if key = [] then (Refused (err 400 ''Idempotency-Key header is required for mutating agent calls''), table)
      else if 120 < length key then (Refused (err 400 ''Idempotency-Key exceeds 120 characters''), table)
      else if ge_reserve_fails e then (Refused (err 503 ''Idempotency service unavailable; request was not executed''), table)
      else
        let (st, table') = reserve_idempotency (idem_id (tk_id t) r key) (request_fingerprint (ge_sha e) r)
              (stale_after (ge_stale e)) (ge_now e) table in
        (case st of
           Reserved \<Rightarrow> Admitted t
         | Mismatch \<Rightarrow> Refused (err 409 ''Idempotency-Key was already used with a different request'')
         | In_Progress \<Rightarrow> Refused (err 409 ''An identical request with this Idempotency-Key is still in progress'')
         | Completed row \<Rightarrow> Replayed \<lparr>rp_status = (if rp_status (id_reply row) = 0 then 200 else rp_status (id_reply row)),
                               rp_body = rp_body (id_reply row)\<rparr>, table'))"

definition admit :: "gate_env \<Rightarrow> string \<Rightarrow> agent_request \<Rightarrow> 'w gate_scheme \<Rightarrow> admission \<times> 'w gate_scheme" where
  "admit e scope r g =
     (case authenticate e scope r (gt_tokens g) of
        Inl (rp, tok) \<Rightarrow> (Refused rp, audit tok scope r (rp_status rp) g)
      | Inr t \<Rightarrow>
          let (d, l) = check_rate_limit (ge_bucket e) (ge_backend e) (ge_tenant e) (tk_id t) (tk_user t)
                 (if tk_rate t = 0 then 60 else tk_rate t) (ge_now e) (gt_limiter g);
              g1 = g\<lparr>gt_limiter := l\<rparr> in
          if \<not> dc_allowed d then (Refused (err 429 ''Rate limit exceeded for this token''), audit (Some t) scope r 429 g1)
          else if \<not> needs_idempotency scope r then (Admitted t, g1)
          else
            let (a, table) = reserve_call e t r (gt_idem g1); g2 = g1\<lparr>gt_idem := table\<rparr> in
            (a, case a of Admitted _ \<Rightarrow> g2
                | Refused rp \<Rightarrow> audit (Some t) scope r (rp_status rp) g2
                | Replayed rp \<Rightarrow> audit (Some t) scope r (rp_status rp) g2))"

definition touch_token_last_used :: "int \<Rightarrow> int \<Rightarrow> token list \<Rightarrow> token list" where
  "touch_token_last_used i now tokens = upd_where (\<lambda>t. tk_id t = i) (\<lambda>t. t\<lparr>tk_used := Some now\<rparr>) tokens"

text \<open>What follows the route, at the time \<open>now\<close>.\<close>

definition settle :: "gate_env \<Rightarrow> string \<Rightarrow> agent_request \<Rightarrow> token \<Rightarrow> reply \<Rightarrow> int \<Rightarrow> 'w gate_scheme \<Rightarrow> 'w gate_scheme" where
  "settle e scope r t rp now g =
     (let g1 = (if needs_idempotency scope r \<and> \<not> ge_complete_fails e
            then g\<lparr>gt_idem := complete_idempotency (idem_id (tk_id t) r (py_strip (ar_key r))) rp now (gt_idem g)\<rparr> else g) in
      audit (Some t) scope r (rp_status rp) (g1\<lparr>gt_tokens := touch_token_last_used (tk_id t) now (gt_tokens g1)\<rparr>))"

text \<open>A route takes the token and the request; what it raises becomes a reply.\<close>

type_synonym 'w route = "token \<Rightarrow> agent_request \<Rightarrow> 'w gate_scheme \<Rightarrow> (string + reply) \<times> 'w gate_scheme"

definition reply_of :: "string + reply \<Rightarrow> reply" where
  "reply_of res = (case res of Inl _ \<Rightarrow> err 500 ''Internal server error'' | Inr rp \<Rightarrow> rp)"

definition agent_call :: "gate_env \<Rightarrow> string \<Rightarrow> 'w route \<Rightarrow> agent_request \<Rightarrow> int \<Rightarrow> 'w gate_scheme \<Rightarrow> reply \<times> 'w gate_scheme" where
  "agent_call e scope fn r later g =
     (case admit e scope r g of
        (Refused rp, g1) \<Rightarrow> (rp, g1)
      | (Replayed rp, g1) \<Rightarrow> (rp, g1)
      | (Admitted t, g1) \<Rightarrow>
          let (res, g2) = fn t r g1; rp = reply_of res in (rp, settle e scope r t rp later g2))"

section \<open>Issue and revocation\<close>

text \<open>\<open>body\<close> is the random part of the token; only its hash is kept.\<close>

definition issue_agent_token ::
  "(string \<Rightarrow> string) \<Rightarrow> rat option \<Rightarrow> rat option \<Rightarrow> int \<Rightarrow> issue_body \<Rightarrow> bool \<Rightarrow> string \<Rightarrow> int \<Rightarrow> int \<Rightarrow> 'w gate_scheme
   \<Rightarrow> (issue_error + string) \<times> 'w gate_scheme" where
  "issue_agent_token sha env_order env_daily user b allow_c body n now g =
     (case parse_issue_body env_order env_daily allow_c now b of
        Inl x \<Rightarrow> (Inl x, g)
      | Inr p \<Rightarrow>
          let full = ''qd_agent_'' @ body in
          (Inr full, g\<lparr>gt_tokens := gt_tokens g @ [\<lparr>tk_id = n, tk_user = user, tk_name = pi_name p, tk_hash = sha full,
             tk_scopes = scope_text (pi_scopes p), tk_markets = comma_join (pi_markets p),
             tk_instruments = comma_join (pi_instruments p), tk_paper = pi_paper p, tk_rate = pi_rate p,
             tk_max_order = column 8 (pi_order p), tk_max_daily = column 8 (pi_daily p),
             tk_status = ''active'', tk_expires = pi_expires p, tk_used = None\<rparr>]\<rparr>))"

definition revoke_agent_token :: "int \<Rightarrow> int \<Rightarrow> 'w gate_scheme \<Rightarrow> bool \<times> 'w gate_scheme" where
  "revoke_agent_token user n g =
     (let mine = (\<lambda>t. tk_id t = n \<and> tk_user t = user) in
      (0 < count_where mine (gt_tokens g), g\<lparr>gt_tokens := upd_where mine (\<lambda>t. t\<lparr>tk_status := ''revoked''\<rparr>) (gt_tokens g)\<rparr>))"

definition market_allowed :: "token \<Rightarrow> string \<Rightarrow> bool" where
  "market_allowed t market = list_matches market (parse_csv_list (tk_markets t))"

definition instrument_allowed :: "token \<Rightarrow> string \<Rightarrow> bool" where
  "instrument_allowed t symbol = list_matches symbol (parse_csv_list (tk_instruments t))"

end
