(* ===== verification/Agent_Jobs.thy ===== *)
theory Agent_Jobs
  imports Agent_Auth
begin

text \<open>
  The jobs of the agent gateway: \<open>utils/agent_jobs.py\<close> (the table \<open>qd_agent_jobs\<close>, the buffers of
  progress events of a process, the stream of a job) and \<open>tasks/agent_jobs.py\<close> (the Celery task).
  The runner of a job, those that cancel it and those that stream it interleave by single statements,
  which are the steps \<open>job_op\<close>; the operations are compositions of them.  The times of a row are left out.  A progress snapshot
  is compared as a JSON value where the code compares its serialization with sorted keys.
\<close>

section \<open>Rows\<close>

record job_row =
  jr_id :: string
  jr_user :: int
  jr_token :: "int option"
  jr_kind :: string
  jr_status :: string
  jr_request :: json
  jr_result :: "json option"
  jr_error :: string
  jr_progress :: "json option"
  jr_key :: "string option"

text \<open>An event of the buffer of a job: number, data, whether it is the last.\<close>

record event =
  ev_seq :: int
  ev_data :: json
  ev_terminal :: bool

record jobs =
  jb_rows :: "job_row list"
  jb_rings :: "string \<Rightarrow> event list option"

text \<open>
  The unique index on token, kind and idempotency key; rows without a token or a key are not in it.
  Job numbers are unique too.
\<close>

definition job_clash :: "int option \<Rightarrow> string \<Rightarrow> string option \<Rightarrow> job_row \<Rightarrow> bool" where
  "job_clash tok kind key r =
     (tok \<noteq> None \<and> key \<noteq> None \<and> jr_token r = tok \<and> jr_kind r = kind \<and> jr_key r = key)"

text \<open>The insertion of \<open>submit_job\<close> and of \<open>record_completed_job\<close>; \<open>None\<close> is the violation of the index.\<close>

definition insert_job ::
  "string \<Rightarrow> json option \<Rightarrow> string \<Rightarrow> int \<Rightarrow> int option \<Rightarrow> string \<Rightarrow> json \<Rightarrow> string option \<Rightarrow> job_row list \<Rightarrow> job_row list option" where
  "insert_job status result jid user tok kind req key rows =
     (if list_ex (\<lambda>r. jr_id r = jid \<or> job_clash tok kind key r) rows then None
      else Some (rows @ [\<lparr>jr_id = jid, jr_user = user, jr_token = tok, jr_kind = kind, jr_status = status,
                  jr_request = req, jr_result = result, jr_error = [], jr_progress = None, jr_key = key\<rparr>]))"

definition submit_job :: "string \<Rightarrow> int \<Rightarrow> int option \<Rightarrow> string \<Rightarrow> json \<Rightarrow> string option \<Rightarrow> job_row list \<Rightarrow> job_row list option" where
  "submit_job = insert_job ''queued'' None"

definition record_completed_job :: "string \<Rightarrow> int \<Rightarrow> int option \<Rightarrow> string \<Rightarrow> json \<Rightarrow> json \<Rightarrow> string option \<Rightarrow> job_row list \<Rightarrow> job_row list option" where
  "record_completed_job jid user tok kind req result = insert_job ''succeeded'' (Some result) jid user tok kind req"

definition get_job_for_worker :: "string \<Rightarrow> job_row list \<Rightarrow> job_row option" where
  "get_job_for_worker jid rows = find (\<lambda>r. jr_id r = jid) rows"

definition get_job :: "string \<Rightarrow> int \<Rightarrow> job_row list \<Rightarrow> job_row option" where
  "get_job jid user rows = find (\<lambda>r. jr_id r = jid \<and> jr_user r = user) rows"

definition list_jobs :: "int \<Rightarrow> string \<Rightarrow> int \<Rightarrow> job_row list \<Rightarrow> job_row list" where
  "list_jobs user kind limit rows =
     take (nat (max 1 (min (if limit = 0 then 50 else limit) 200)))
       (rev (filter (\<lambda>r. jr_user r = user \<and> (kind = [] \<or> jr_kind r = kind)) rows))"

definition count_active_jobs :: "int \<Rightarrow> int option \<Rightarrow> job_row list \<Rightarrow> int" where
  "count_active_jobs user tok rows =
     count_where (\<lambda>r. jr_user r = user \<and> (tok = None \<or> jr_token r = tok) \<and> jr_status r \<in> {''queued'', ''running''}) rows"

text \<open>Updates tell whether they changed a row.\<close>

definition update_jobs :: "(job_row \<Rightarrow> bool) \<Rightarrow> (job_row \<Rightarrow> job_row) \<Rightarrow> job_row list \<Rightarrow> bool \<times> job_row list" where
  "update_jobs p f rows = (0 < count_where p rows, upd_where p f rows)"

definition set_status :: "string \<Rightarrow> string \<Rightarrow> job_row list \<Rightarrow> bool \<times> job_row list" where
  "set_status jid status =
     update_jobs (\<lambda>r. jr_id r = jid \<and> (status = ''running'' \<longrightarrow> jr_status r \<noteq> ''cancelled'')) (\<lambda>r. r\<lparr>jr_status := status\<rparr>)"

definition set_result :: "string \<Rightarrow> json \<Rightarrow> job_row list \<Rightarrow> bool \<times> job_row list" where
  "set_result jid result =
     update_jobs (\<lambda>r. jr_id r = jid \<and> jr_status r \<noteq> ''cancelled'') (\<lambda>r. r\<lparr>jr_status := ''succeeded'', jr_result := Some result\<rparr>)"

definition set_failure :: "string \<Rightarrow> string \<Rightarrow> job_row list \<Rightarrow> bool \<times> job_row list" where
  "set_failure jid msg =
     update_jobs (\<lambda>r. jr_id r = jid \<and> jr_status r \<noteq> ''cancelled'') (\<lambda>r. r\<lparr>jr_status := ''failed'', jr_error := take 6000 msg\<rparr>)"

section \<open>Progress\<close>

definition phase :: "string \<Rightarrow> json" where
  "phase p = JObj [(''phase'', JStr p)]"

definition ring_of :: "string \<Rightarrow> jobs \<Rightarrow> event list" where
  "ring_of jid s = (case jb_rings s jid of None \<Rightarrow> [] | Some ring \<Rightarrow> ring)"

text \<open>\<open>deque(maxlen=200)\<close>\<close>

definition ring_append :: "event list \<Rightarrow> event \<Rightarrow> event list" where
  "ring_append ring e = (let r = ring @ [e] in drop (length r - 200) r)"

text \<open>The number is read before the lock of the buffer is taken, so it is a step of its own.\<close>

definition next_seq :: "string \<Rightarrow> jobs \<Rightarrow> int" where
  "next_seq jid s = (let ring = ring_of jid s in if ring = [] then 1 else ev_seq (last ring) + 1)"

definition append_event :: "string \<Rightarrow> int \<Rightarrow> json \<Rightarrow> bool \<Rightarrow> jobs \<Rightarrow> jobs" where
  "append_event jid n data terminal s =
     s\<lparr>jb_rings := (jb_rings s)(jid \<mapsto> ring_append (ring_of jid s) \<lparr>ev_seq = n, ev_data = data, ev_terminal = terminal\<rparr>)\<rparr>"

definition persist_progress :: "string \<Rightarrow> json \<Rightarrow> jobs \<Rightarrow> jobs" where
  "persist_progress jid data s =
     s\<lparr>jb_rows := upd_where (\<lambda>r. jr_id r = jid) (\<lambda>r. r\<lparr>jr_progress := Some data\<rparr>) (jb_rows s)\<rparr>"

definition publish_progress :: "string \<Rightarrow> json \<Rightarrow> bool \<Rightarrow> jobs \<Rightarrow> jobs" where
  "publish_progress jid data terminal s = persist_progress jid data (append_event jid (next_seq jid s) data terminal s)"

definition gc_job_state :: "string \<Rightarrow> jobs \<Rightarrow> jobs" where
  "gc_job_state jid s = s\<lparr>jb_rings := (jb_rings s)(jid := None)\<rparr>"

text \<open>
  A turn of the loop of \<open>stream_progress\<close>: what it yields, and the cursor it goes on with, unless it has
  ended.  The cursor has the last number and the last data that were yielded.
\<close>

record cursor =
  cu_seq :: int
  cu_last :: "json option"

fun yield_pending :: "event list \<Rightarrow> cursor \<Rightarrow> event list \<times> cursor option" where
  "yield_pending [] c = ([], Some c)"
| "yield_pending (e # es) c =
     (if ev_terminal e then ([e], None)
      else let (ys, c') = yield_pending es \<lparr>cu_seq = ev_seq e, cu_last = Some (ev_data e)\<rparr> in (e # ys, c'))"

definition final_status :: "string \<Rightarrow> bool" where
  "final_status st = (st \<in> {''succeeded'', ''failed'', ''cancelled''})"

definition yield_persisted :: "job_row option \<Rightarrow> cursor \<Rightarrow> event list \<times> cursor option" where
  "yield_persisted row c =
     (let snapshot = (case row of None \<Rightarrow> JObj [] | Some r \<Rightarrow> (case jr_progress r of None \<Rightarrow> JNull | Some p \<Rightarrow> p));
          terminal = (case row of None \<Rightarrow> False | Some r \<Rightarrow> final_status (jr_status r));
          status = (case row of None \<Rightarrow> [] | Some r \<Rightarrow> jr_status r);
          n = cu_seq c + 1 in
      if json_truthy snapshot \<and> cu_last c \<noteq> Some snapshot then
        ([\<lparr>ev_seq = n, ev_data = snapshot, ev_terminal = terminal\<rparr>],
         if terminal then None else Some \<lparr>cu_seq = n, cu_last = Some snapshot\<rparr>)
      else if terminal then
        ([\<lparr>ev_seq = n, ev_data = phase (str_or status ''failed''), ev_terminal = True\<rparr>], None)
      else ([], Some c))"

definition stream_turn :: "string \<Rightarrow> cursor \<Rightarrow> jobs \<Rightarrow> event list \<times> cursor option \<times> jobs" where
  "stream_turn jid c s =
     (case yield_pending (filter (\<lambda>e. cu_seq c < ev_seq e) (ring_of jid s)) c of
        (ys, None) \<Rightarrow> (ys, None, gc_job_state jid s)
      | (ys, Some c1) \<Rightarrow>
          (case yield_persisted (get_job_for_worker jid (jb_rows s)) c1 of
             (zs, None) \<Rightarrow> (ys @ zs, None, gc_job_state jid s)
           | (zs, Some c2) \<Rightarrow> (ys @ zs, Some c2, s)))"

section \<open>Running and cancelling\<close>

definition on_rows :: "(job_row list \<Rightarrow> bool \<times> job_row list) \<Rightarrow> jobs \<Rightarrow> bool \<times> jobs" where
  "on_rows f s = (let (b, rows) = f (jb_rows s) in (b, s\<lparr>jb_rows := rows\<rparr>))"

definition supports_kind :: "string \<Rightarrow> bool" where
  "supports_kind kind = (kind \<in> {''backtest'', ''python_strategy'', ''flow_strategy''})"

text \<open>
  The Celery task up to the call of the runner, which gets the request, and what follows it.  An error
  of the runner is \<open>Inl\<close>.
\<close>

datatype task_start = No_Such_Job | Already_Done | Unsupported string | Run string json

definition start_agent_job :: "string \<Rightarrow> jobs \<Rightarrow> task_start \<times> jobs" where
  "start_agent_job jid s =
     (case get_job_for_worker jid (jb_rows s) of
        None \<Rightarrow> (No_Such_Job, s)
      | Some row \<Rightarrow>
          if jr_status row \<in> {''succeeded'', ''cancelled''} then (Already_Done, s)
          else if \<not> supports_kind (jr_kind row) then (Unsupported (jr_kind row), s)
          else (Run (jr_kind row) (jr_request row),
                publish_progress jid (phase ''running'') False (snd (on_rows (set_status jid ''running'') s))))"

definition finish_agent_job :: "string \<Rightarrow> string + json \<Rightarrow> jobs \<Rightarrow> jobs" where
  "finish_agent_job jid outcome s =
     (case outcome of
        Inr result \<Rightarrow>
          let (changed, s1) = on_rows (set_result jid result) s in
          publish_progress jid (phase (if changed then ''succeeded'' else ''cancelled'')) True s1
      | Inl msg \<Rightarrow>
          let (changed, s1) = on_rows (set_failure jid msg) s in
          publish_progress jid (if changed then JObj [(''phase'', JStr ''failed''), (''error'', JStr (take 500 msg))] else phase ''cancelled'') True s1)"

text \<open>The local runner: \<open>_run\<close> of \<open>submit_job\<close> up to the runner; \<open>False\<close> when it returns.\<close>

definition start_local_job :: "string \<Rightarrow> jobs \<Rightarrow> bool \<times> jobs" where
  "start_local_job jid s =
     (let s1 = snd (on_rows (set_status jid ''running'') s) in
      case get_job_for_worker jid (jb_rows s1) of
        Some row \<Rightarrow> if jr_status row = ''cancelled'' then (False, s1)
                    else (True, publish_progress jid (phase ''running'') False s1)
      | None \<Rightarrow> (True, publish_progress jid (phase ''running'') False s1))"

definition cancellable :: "string \<Rightarrow> int \<Rightarrow> job_row \<Rightarrow> bool" where
  "cancellable jid user r = (jr_id r = jid \<and> jr_user r = user \<and> jr_status r \<in> {''queued'', ''running''})"

definition cancel_row :: "string \<Rightarrow> int \<Rightarrow> job_row list \<Rightarrow> bool \<times> job_row list" where
  "cancel_row jid user =
     update_jobs (cancellable jid user) (\<lambda>r. r\<lparr>jr_status := ''cancelled'', jr_progress := Some (phase ''cancelled'')\<rparr>)"

definition cancel_job :: "string \<Rightarrow> int \<Rightarrow> jobs \<Rightarrow> job_row option \<times> jobs" where
  "cancel_job jid user s =
     (let (changed, s1) = on_rows (cancel_row jid user) s in
      if changed then (get_job jid user (jb_rows s1), publish_progress jid (phase ''cancelled'') True s1)
      else (get_job jid user (jb_rows s1), s1))"

text \<open>\<open>POST /jobs/<id>/cancel\<close>: the status of the reply.\<close>

definition cancel_user_job :: "string \<Rightarrow> int \<Rightarrow> jobs \<Rightarrow> int \<times> jobs" where
  "cancel_user_job jid user s =
     (let (row, s1) = cancel_job jid user s in
      (case row of None \<Rightarrow> 404 | Some r \<Rightarrow> if jr_status r \<noteq> ''cancelled'' then 409 else 200, s1))"

text \<open>The statements on rows and buffers, which interleave in any order.\<close>

datatype job_op =
    Submit string int "int option" string json "string option"
  | Record_Completed string int "int option" string json json "string option"
  | Set_Running string
  | Set_Result string json
  | Set_Failure string string
  | Cancel_Row string int
  | Append_Event string int json bool
  | Persist string json
  | Collect string

definition keep_or :: "job_row list option \<Rightarrow> jobs \<Rightarrow> jobs" where
  "keep_or rows s = (case rows of None \<Rightarrow> s | Some r \<Rightarrow> s\<lparr>jb_rows := r\<rparr>)"

fun job_step :: "job_op \<Rightarrow> jobs \<Rightarrow> jobs" where
  "job_step (Submit jid user tok kind req key) s = keep_or (submit_job jid user tok kind req key (jb_rows s)) s"
| "job_step (Record_Completed jid user tok kind req res key) s =
     keep_or (record_completed_job jid user tok kind req res key (jb_rows s)) s"
| "job_step (Set_Running jid) s = snd (on_rows (set_status jid ''running'') s)"
| "job_step (Set_Result jid res) s = snd (on_rows (set_result jid res) s)"
| "job_step (Set_Failure jid msg) s = snd (on_rows (set_failure jid msg) s)"
| "job_step (Cancel_Row jid user) s = snd (on_rows (cancel_row jid user) s)"
| "job_step (Append_Event jid n data terminal) s = append_event jid n data terminal s"
| "job_step (Persist jid data) s = persist_progress jid data s"
| "job_step (Collect jid) s = gc_job_state jid s"

definition no_jobs :: jobs where
  "no_jobs = \<lparr>jb_rows = [], jb_rings = (\<lambda>_. None)\<rparr>"

end
