(* ===== verification/Agent_Job_Safety.thy ===== *)
theory Agent_Job_Safety
  imports Agent_Jobs
begin

text \<open>
  The jobs of the agent gateway under any interleaving of statements: a cancelled job stays cancelled and
  keeps its result, a stream of a finished job ends with a terminal event whatever the client has seen,
  and how a client that reconnects misses events.
\<close>

section \<open>Operations are sequences of statements\<close>

definition some_steps :: "jobs \<Rightarrow> jobs \<Rightarrow> bool" where
  "some_steps s s' \<longleftrightarrow> (\<exists>ops. s' = fold job_step ops s)"

lemma some_steps_refl [intro, simp]: "some_steps s s"
  unfolding some_steps_def by (rule exI [of _ "[]"]) simp

lemma some_steps_step: "some_steps s s' \<Longrightarrow> some_steps s (job_step op s')"
  unfolding some_steps_def
proof (elim exE)
  fix ops assume "s' = fold job_step ops s"
  then show "\<exists>ops. job_step op s' = fold job_step ops s" by (intro exI [of _ "ops @ [op]"]) simp
qed

lemma publish_some_steps: "some_steps s s' \<Longrightarrow> some_steps s (publish_progress jid data terminal s')"
  using some_steps_step [OF some_steps_step [of s s' "Append_Event jid (next_seq jid s') data terminal"], of "Persist jid data"]
  by (simp add: publish_progress_def)

lemma operations_are_steps:
  "some_steps s (snd (start_agent_job jid s))" "some_steps s (snd (start_local_job jid s))"
  "some_steps s (finish_agent_job jid outcome s)" "some_steps s (snd (cancel_job jid user s))"
  "some_steps s (snd (snd (stream_turn jid c s)))"
proof -
  have r: "some_steps s (snd (on_rows (set_status jid ''running'') s))"
    using some_steps_step [OF some_steps_refl, of s "Set_Running jid"] by simp
  have o: "some_steps s (snd (on_rows (set_result jid res) s))" "some_steps s (snd (on_rows (set_failure jid msg) s))"
    "some_steps s (snd (on_rows (cancel_row jid user) s))" "some_steps s (gc_job_state jid s)" for res msg
    using some_steps_step [OF some_steps_refl, of s "Set_Result jid res"] some_steps_step [OF some_steps_refl, of s "Set_Failure jid msg"]
      some_steps_step [OF some_steps_refl, of s "Cancel_Row jid user"] some_steps_step [OF some_steps_refl, of s "Collect jid"]
    by simp_all
  show "some_steps s (snd (start_agent_job jid s))"
    using r by (auto simp: start_agent_job_def intro!: publish_some_steps split: option.split)
  show "some_steps s (snd (start_local_job jid s))"
    using r by (auto simp: start_local_job_def Let_def intro!: publish_some_steps split: option.split)
  show "some_steps s (finish_agent_job jid outcome s)"
    using o by (auto simp: finish_agent_job_def case_prod_unfold Let_def intro!: publish_some_steps split: sum.split)
  show "some_steps s (snd (cancel_job jid user s))"
    using o by (auto simp: cancel_job_def case_prod_unfold Let_def intro!: publish_some_steps)
  show "some_steps s (snd (snd (stream_turn jid c s)))"
    using o by (auto simp: stream_turn_def split: prod.split option.split)
qed

section \<open>Cancelled is final\<close>

definition cancelled_as :: "job_row \<Rightarrow> jobs \<Rightarrow> bool" where
  "cancelled_as r s = (\<exists>p. get_job_for_worker (jr_id r) (jb_rows s) = Some (r\<lparr>jr_progress := p\<rparr>))"

lemma find_upd_where_keeps:
  assumes "find p t = Some r" and "\<And>x. q x \<Longrightarrow> p (f x) = p x"
  shows "find p (upd_where q f t) = Some (if q r then f r else r)"
  using assms by (induction t) (auto split: if_splits)

lemma cancelled_as_rows:
  assumes "cancelled_as r s" and "\<And>x. q x \<Longrightarrow> jr_id (f x) = jr_id x"
    and "\<And>p. q (r\<lparr>jr_progress := p\<rparr>) \<Longrightarrow> \<exists>p'. f (r\<lparr>jr_progress := p\<rparr>) = r\<lparr>jr_progress := p'\<rparr>"
  shows "cancelled_as r (s\<lparr>jb_rows := upd_where q f (jb_rows s)\<rparr>)"
proof -
  from assms(1) obtain p where "find (\<lambda>x. jr_id x = jr_id r) (jb_rows s) = Some (r\<lparr>jr_progress := p\<rparr>)"
    by (auto simp: cancelled_as_def get_job_for_worker_def)
  then have "find (\<lambda>x. jr_id x = jr_id r) (upd_where q f (jb_rows s))
      = Some (if q (r\<lparr>jr_progress := p\<rparr>) then f (r\<lparr>jr_progress := p\<rparr>) else r\<lparr>jr_progress := p\<rparr>)"
    by (rule find_upd_where_keeps) (simp add: assms(2))
  then show ?thesis using assms(3) [of p] by (auto simp: cancelled_as_def get_job_for_worker_def)
qed

lemma cancelled_as_insert:
  assumes "cancelled_as r s" and "insert_job st res jid user tok kind req key (jb_rows s) = rows"
  shows "cancelled_as r (keep_or rows s)"
  using assms by (auto simp: cancelled_as_def get_job_for_worker_def insert_job_def keep_or_def find_append split: if_splits)

lemma cancelled_as_step:
  assumes "cancelled_as r s" and "jr_status r = ''cancelled''"
  shows "cancelled_as r (job_step op s)"
proof (cases op)
  case (Submit jid user tok kind req key)
  with assms show ?thesis by (auto simp: submit_job_def intro: cancelled_as_insert)
next
  case (Record_Completed jid user tok kind req res key)
  with assms show ?thesis by (auto simp: record_completed_job_def intro: cancelled_as_insert)
next
  case (Append_Event jid n data terminal)
  with assms show ?thesis by (simp add: append_event_def cancelled_as_def)
next
  case (Collect jid)
  with assms show ?thesis by (simp add: gc_job_state_def cancelled_as_def)
qed (use assms in \<open>auto simp: on_rows_def update_jobs_def set_status_def set_result_def set_failure_def cancel_row_def
       cancellable_def persist_progress_def intro!: cancelled_as_rows\<close>)

lemma cancelled_as_fold:
  "cancelled_as r s \<Longrightarrow> jr_status r = ''cancelled'' \<Longrightarrow> cancelled_as r (fold job_step ops s)"
  by (induction ops arbitrary: s) (auto intro: cancelled_as_step)

lemma cancel_reply_200:
  assumes "cancel_user_job jid user s = (200, s')"
  shows "\<exists>r. get_job jid user (jb_rows s') = Some r \<and> jr_status r = ''cancelled''"
proof -
  have g: "get_job jid user (jb_rows (publish_progress jid d b x)) = map_option (\<lambda>r. r\<lparr>jr_progress := Some d\<rparr>) (get_job jid user (jb_rows x))" for d b x
  proof -
    have "find (\<lambda>r. jr_id r = jid \<and> jr_user r = user) (upd_where (\<lambda>r. jr_id r = jid) (\<lambda>r. r\<lparr>jr_progress := Some d\<rparr>) t)
        = map_option (\<lambda>r. r\<lparr>jr_progress := Some d\<rparr>) (find (\<lambda>r. jr_id r = jid \<and> jr_user r = user) t)" for t
      by (induction t) auto
    then show ?thesis by (simp add: get_job_def publish_progress_def persist_progress_def append_event_def)
  qed
  from assms show ?thesis
    by (auto simp: cancel_user_job_def cancel_job_def Let_def g split: prod.splits if_splits option.splits)
qed

text \<open>C40.  Once the gateway has answered that a job is cancelled, it stays cancelled and its result and
  error never change, whatever its runner and other processes still do.\<close>

theorem cancelled_final:
  assumes "cancel_user_job jid user s = (200, s')"
    and "get_job_for_worker jid (jb_rows s') = Some r" and "jr_user r = user"
  shows "\<exists>p. get_job_for_worker jid (jb_rows (fold job_step ops s')) = Some (r\<lparr>jr_progress := p\<rparr>)
    \<and> jr_status r = ''cancelled''"
proof -
  have "jr_id r = jid" using assms(2) find_SomeD by (fastforce simp: get_job_for_worker_def)
  moreover have "find (\<lambda>x. jr_id x = jid \<and> jr_user x = user) t = Some r"
    if "find (\<lambda>x. jr_id x = jid) t = Some r" for t
    using that assms(3) by (induction t) (auto split: if_splits)
  ultimately have "jr_status r = ''cancelled''"
    using cancel_reply_200 [OF assms(1)] assms(2) by (auto simp: get_job_def get_job_for_worker_def)
  moreover have "cancelled_as r s'"
    unfolding cancelled_as_def using assms(2) \<open>jr_id r = jid\<close> by (intro exI [of _ "jr_progress r"]) simp
  ultimately show ?thesis
    using cancelled_as_fold [of r s' ops] \<open>jr_id r = jid\<close> by (auto simp: cancelled_as_def)
qed


definition demo_job :: job_row where
  "demo_job = \<lparr>jr_id = ''j1'', jr_user = 7, jr_token = Some 1, jr_kind = ''backtest'', jr_status = ''running'',
     jr_request = JNull, jr_result = None, jr_error = [], jr_progress = None, jr_key = None\<rparr>"

lemma cancelled_final_witness:
  "\<exists>p. get_job_for_worker ''j1'' (jb_rows (fold job_step [Set_Running ''j1'', Set_Result ''j1'' JNull]
     (snd (cancel_user_job ''j1'' 7 (no_jobs\<lparr>jb_rows := [demo_job]\<rparr>)))))
   = Some (demo_job\<lparr>jr_status := ''cancelled'', jr_progress := p\<rparr>)"
proof -
  let ?s = "snd (cancel_user_job ''j1'' 7 (no_jobs\<lparr>jb_rows := [demo_job]\<rparr>))"
  let ?r = "demo_job\<lparr>jr_status := ''cancelled'', jr_progress := Some (phase ''cancelled'')\<rparr>"
  have e: "cancel_user_job ''j1'' 7 (no_jobs\<lparr>jb_rows := [demo_job]\<rparr>) = (200, ?s)"
    "get_job_for_worker ''j1'' (jb_rows ?s) = Some ?r"
    by (simp_all add: cancel_user_job_def cancel_job_def on_rows_def cancel_row_def update_jobs_def cancellable_def
        get_job_def get_job_for_worker_def publish_progress_def persist_progress_def append_event_def no_jobs_def demo_job_def)
  from cancelled_final [OF e, of "[Set_Running ''j1'', Set_Result ''j1'' JNull]"]
  show ?thesis by (auto simp: demo_job_def)
qed

section \<open>Streams\<close>

lemma yield_pending_stops:
  "yield_pending es c = (ys, None) \<Longrightarrow> ys \<noteq> [] \<and> ev_terminal (last ys)"
proof (induction es arbitrary: c ys)
  case (Cons e es)
  then show ?case by (cases "ev_terminal e") (fastforce split: prod.splits)+
qed simp

text \<open>Once a job has ended, the next turn of any stream of it ends the stream with a terminal event,
  whatever the client has seen.\<close>

theorem stream_ends:
  assumes "get_job_for_worker jid (jb_rows s) = Some r" and "final_status (jr_status r)"
  shows "\<exists>ys s'. stream_turn jid c s = (ys, None, s') \<and> ys \<noteq> [] \<and> ev_terminal (last ys)"
proof (cases "yield_pending (filter (\<lambda>e. cu_seq c < ev_seq e) (ring_of jid s)) c")
  case (Pair ys nx)
  show ?thesis
  proof (cases nx)
    case None
    with Pair show ?thesis using yield_pending_stops by (fastforce simp: stream_turn_def)
  next
    case (Some c1)
    from assms have "\<exists>e. yield_persisted (get_job_for_worker jid (jb_rows s)) c1 = ([e], None) \<and> ev_terminal e"
      by (auto simp: yield_persisted_def Let_def)
    with Pair Some show ?thesis by (auto simp: stream_turn_def)
  qed
qed

lemma stream_ends_witness:
  "\<exists>ys s'. stream_turn ''j1'' \<lparr>cu_seq = 5, cu_last = None\<rparr> (no_jobs\<lparr>jb_rows := [demo_job\<lparr>jr_status := ''failed''\<rparr>]\<rparr>) = (ys, None, s')
    \<and> ys \<noteq> [] \<and> ev_terminal (last ys)"
  by (rule stream_ends [of _ _ "demo_job\<lparr>jr_status := ''failed''\<rparr>"])
     (simp_all add: get_job_for_worker_def demo_job_def no_jobs_def final_status_def)

text \<open>\<open>numbered n ds\<close>: the events of \<open>ds\<close> that follow number \<open>n\<close>.\<close>

fun numbered :: "int \<Rightarrow> json list \<Rightarrow> event list" where
  "numbered n [] = []"
| "numbered n (d # ds) = \<lparr>ev_seq = n + 1, ev_data = d, ev_terminal = False\<rparr> # numbered (n + 1) ds"

definition clip :: "event list \<Rightarrow> event list" where
  "clip xs = drop (length xs - 200) xs"

lemma ring_append_clip: "ring_append (clip xs) e = clip (xs @ [e])"
proof -
  have "n - (n - 200 + 199) + (n - 200) = n - (199::nat)" for n by (cases "n \<le> 199"; cases "n \<le> 200") auto
  then show ?thesis by (auto simp: ring_append_def clip_def Let_def)
qed

lemma last_clip: "xs \<noteq> [] \<Longrightarrow> clip xs \<noteq> [] \<and> last (clip xs) = last xs"
  by (cases xs) (auto simp: clip_def last_drop)

lemma clip_keeps_new: "length ys \<le> 200 \<Longrightarrow> \<exists>k. clip (xs @ ys) = drop k xs @ ys"
  by (auto simp: clip_def)

lemma numbered_snoc: "numbered n (ds @ [d]) = numbered n ds @ [\<lparr>ev_seq = n + int (length ds) + 1, ev_data = d, ev_terminal = False\<rparr>]"
  by (induction ds arbitrary: n) simp_all

lemma length_numbered [simp]: "length (numbered n ds) = length ds"
  by (induction ds arbitrary: n) simp_all

lemma numbered_above: "\<forall>e \<in> set (numbered n ds). n < ev_seq e \<and> \<not> ev_terminal e"
  by (induction ds arbitrary: n) (simp, fastforce)

lemma yield_numbered:
  "\<forall>e \<in> set es. \<not> ev_terminal e \<Longrightarrow>
   yield_pending es c = (es, Some (if es = [] then c else \<lparr>cu_seq = ev_seq (last es), cu_last = Some (ev_data (last es))\<rparr>))"
  by (induction es arbitrary: c) auto

text \<open>
  The client is in step with the runner: it has seen the last event of the buffer, which is also the
  snapshot in the row of a job that has not ended.
\<close>

definition in_step :: "string \<Rightarrow> cursor \<Rightarrow> jobs \<Rightarrow> bool" where
  "in_step jid c s =
     (let ring = ring_of jid s in
      ring \<noteq> [] \<and> length ring \<le> 200 \<and> list_all (\<lambda>e. ev_seq e \<le> cu_seq c) ring \<and> ev_seq (last ring) = cu_seq c
      \<and> cu_last c = Some (ev_data (last ring))
      \<and> (case get_job_for_worker jid (jb_rows s) of None \<Rightarrow> False
         | Some r \<Rightarrow> \<not> final_status (jr_status r) \<and> jr_progress r = cu_last c))"

definition publish_all :: "string \<Rightarrow> json list \<Rightarrow> jobs \<Rightarrow> jobs" where
  "publish_all jid ds s = fold (\<lambda>d. publish_progress jid d False) ds s"

lemma publish_row:
  "get_job_for_worker jid (jb_rows (publish_progress jid d b s))
     = map_option (\<lambda>r. r\<lparr>jr_progress := Some d\<rparr>) (get_job_for_worker jid (jb_rows s))"
proof -
  have "find (\<lambda>r. jr_id r = jid) (upd_where (\<lambda>r. jr_id r = jid) (\<lambda>r. r\<lparr>jr_progress := Some d\<rparr>) t)
      = map_option (\<lambda>r. r\<lparr>jr_progress := Some d\<rparr>) (find (\<lambda>r. jr_id r = jid) t)" for t
    by (induction t) auto
  then show ?thesis by (simp add: get_job_for_worker_def publish_progress_def persist_progress_def append_event_def)
qed

lemma publish_ring:
  "ring_of jid (publish_progress jid d b s)
     = ring_append (ring_of jid s) \<lparr>ev_seq = next_seq jid s, ev_data = d, ev_terminal = b\<rparr>"
  by (simp add: ring_of_def publish_progress_def persist_progress_def append_event_def)

lemma publish_all_row:
  "get_job_for_worker jid (jb_rows (publish_all jid ds s))
     = map_option (\<lambda>r. if ds = [] then r else r\<lparr>jr_progress := Some (last ds)\<rparr>) (get_job_for_worker jid (jb_rows s))"
  by (induction ds rule: rev_induct)
     (auto simp: publish_all_def publish_row option.map_comp comp_def option.map_id [unfolded id_def] intro!: option.map_cong)

lemma publish_all_ring:
  assumes "ring_of jid s \<noteq> []" and "length (ring_of jid s) \<le> 200" and "ev_seq (last (ring_of jid s)) = n"
  shows "ring_of jid (publish_all jid ds s) = clip (ring_of jid s @ numbered n ds)"
proof (induction ds rule: rev_induct)
  case Nil
  with assms show ?case by (simp add: publish_all_def clip_def)
next
  case (snoc d ds)
  let ?x = "ring_of jid s @ numbered n ds"
  have last: "ev_seq (last ?x) = n + int (length ds)"
    using assms by (cases ds rule: rev_exhaust) (auto simp: numbered_snoc)
  have "last (clip ?x) = last ?x" "clip ?x \<noteq> []" using assms(1) last_clip [of ?x] by auto
  then have "next_seq jid (publish_all jid ds s) = n + int (length ds) + 1"
    by (simp add: next_seq_def snoc last)
  then show ?case
    using publish_ring [of jid d False "publish_all jid ds s"]
    by (simp add: publish_all_def snoc [unfolded publish_all_def] ring_append_clip numbered_snoc)
qed

lemma new_events:
  assumes "in_step jid c s" and "length ds \<le> 200"
  shows "filter (\<lambda>e. cu_seq c < ev_seq e) (ring_of jid (publish_all jid ds s)) = numbered (cu_seq c) ds"
proof -
  from assms have r: "ring_of jid s \<noteq> []" "length (ring_of jid s) \<le> 200" "ev_seq (last (ring_of jid s)) = cu_seq c"
    "\<forall>e \<in> set (ring_of jid s). ev_seq e \<le> cu_seq c"
    by (simp_all add: in_step_def Let_def list_all_iff)
  from clip_keeps_new [of "numbered (cu_seq c) ds" "ring_of jid s"] assms(2)
  obtain k where k: "clip (ring_of jid s @ numbered (cu_seq c) ds) = drop k (ring_of jid s) @ numbered (cu_seq c) ds" by auto
  have "filter (\<lambda>e. cu_seq c < ev_seq e) (drop k (ring_of jid s)) = []"
    using r(4) by (auto simp: filter_empty_conv dest!: in_set_dropD)
  moreover have "filter (\<lambda>e. cu_seq c < ev_seq e) (numbered (cu_seq c) ds) = numbered (cu_seq c) ds"
    using numbered_above by (auto intro!: filter_True)
  ultimately show ?thesis by (simp add: publish_all_ring [OF r(1-3)] k)
qed

text \<open>A client in step with the runner of a job receives in its next turn exactly the events published
  since, in their order, and is in step again, as long as these are not more than the buffer holds.\<close>

theorem stream_follows:
  assumes "in_step jid c s" and "length ds \<le> 200"
  shows "\<exists>c'. stream_turn jid c (publish_all jid ds s) = (numbered (cu_seq c) ds, Some c', publish_all jid ds s)
    \<and> in_step jid c' (publish_all jid ds s)"
proof -
  let ?s = "publish_all jid ds s"
  let ?ys = "numbered (cu_seq c) ds"
  define c' where "c' = (if ds = [] then c else \<lparr>cu_seq = cu_seq c + int (length ds), cu_last = Some (last ds)\<rparr>)"
  from assms(1) obtain r where r: "ring_of jid s \<noteq> []" "length (ring_of jid s) \<le> 200"
    "list_all (\<lambda>e. ev_seq e \<le> cu_seq c) (ring_of jid s)" "ev_seq (last (ring_of jid s)) = cu_seq c"
    "cu_last c = Some (ev_data (last (ring_of jid s)))" "get_job_for_worker jid (jb_rows s) = Some r"
    "\<not> final_status (jr_status r)" "jr_progress r = cu_last c"
    by (auto simp: in_step_def Let_def split: option.splits)
  have row: "\<exists>r'. get_job_for_worker jid (jb_rows ?s) = Some r' \<and> \<not> final_status (jr_status r') \<and> jr_progress r' = cu_last c'"
    using r(6-8) by (auto simp: publish_all_row c'_def)
  have ring: "ring_of jid ?s = clip (ring_of jid s @ ?ys)" by (rule publish_all_ring [OF r(1,2,4)])
  have "yield_pending ?ys c = (?ys, Some c')"
    using numbered_above [of "cu_seq c" ds]
    by (cases ds rule: rev_exhaust) (auto simp: yield_numbered c'_def numbered_snoc)
  moreover have "yield_persisted (get_job_for_worker jid (jb_rows ?s)) c' = ([], Some c')"
    using row by (auto simp: yield_persisted_def Let_def split: option.split)
  ultimately have "stream_turn jid c ?s = (?ys, Some c', ?s)"
    by (simp add: stream_turn_def new_events [OF assms])
  moreover have "in_step jid c' ?s"
  proof -
    have l: "last (ring_of jid ?s) = last (ring_of jid s @ ?ys)" "ring_of jid ?s \<noteq> []" "length (ring_of jid ?s) \<le> 200"
      using last_clip [of "ring_of jid s @ ?ys"] r(1) by (auto simp: ring clip_def)
    have "\<forall>e \<in> set (ring_of jid s @ ?ys). ev_seq e \<le> cu_seq c + int (length ds)"
    proof -
      have "\<forall>e \<in> set (numbered n ds). ev_seq e \<le> n + int (length ds)" for n by (induction ds arbitrary: n) (simp, fastforce)
      moreover have "\<forall>e \<in> set (ring_of jid s). ev_seq e \<le> cu_seq c" using r(3) by (simp add: list_all_iff)
      ultimately show ?thesis by fastforce
    qed
    then have "list_all (\<lambda>e. ev_seq e \<le> cu_seq c + int (length ds)) (ring_of jid ?s)"
      by (auto simp: ring clip_def list_all_iff dest!: in_set_dropD)
    with l r(4,5) row show ?thesis
      by (cases ds rule: rev_exhaust) (auto simp: in_step_def Let_def c'_def numbered_snoc)
  qed
  ultimately show ?thesis by blast
qed

definition demo_jobs :: jobs where
  "demo_jobs = publish_progress ''j1'' (phase ''running'') False (no_jobs\<lparr>jb_rows := [demo_job]\<rparr>)"

lemma demo_in_step: "in_step ''j1'' \<lparr>cu_seq = 1, cu_last = Some (phase ''running'')\<rparr> demo_jobs"
  by (simp add: demo_jobs_def in_step_def publish_progress_def persist_progress_def append_event_def next_seq_def
      ring_of_def no_jobs_def ring_append_def get_job_for_worker_def demo_job_def final_status_def)

lemma stream_follows_witness:
  "\<exists>c'. stream_turn ''j1'' \<lparr>cu_seq = 1, cu_last = Some (phase ''running'')\<rparr> (publish_all ''j1'' [JInt 1, JInt 2] demo_jobs)
     = (numbered 1 [JInt 1, JInt 2], Some c', publish_all ''j1'' [JInt 1, JInt 2] demo_jobs)
    \<and> in_step ''j1'' c' (publish_all ''j1'' [JInt 1, JInt 2] demo_jobs)"
  using stream_follows [OF demo_in_step, of "[JInt 1, JInt 2]"] by simp

text \<open>A client that reconnects with the number of the last event it has seen gets that event again under
  the next number; of the events published before its next turn the first, which has this number, is
  skipped, and this run of the stream, in step from then on, never comes back to it.\<close>

theorem reconnect_drops_event:
  assumes "in_step jid c s" and "json_truthy d" and "cu_last c = Some d" and "ds \<noteq> []" and "length ds < 200"
  shows "\<exists>c1 c2. stream_turn jid \<lparr>cu_seq = cu_seq c, cu_last = None\<rparr> s
        = ([\<lparr>ev_seq = cu_seq c + 1, ev_data = d, ev_terminal = False\<rparr>], Some c1, s)
    \<and> stream_turn jid c1 (publish_all jid (x # ds) s) = (numbered (cu_seq c + 1) ds, Some c2, publish_all jid (x # ds) s)
    \<and> in_step jid c2 (publish_all jid (x # ds) s)"
proof -
  let ?c1 = "\<lparr>cu_seq = cu_seq c + 1, cu_last = Some d\<rparr>"
  let ?s = "publish_all jid (x # ds) s"
  from assms obtain r where row: "get_job_for_worker jid (jb_rows s) = Some r" "\<not> final_status (jr_status r)"
    "jr_progress r = Some d" by (auto simp: in_step_def Let_def split: option.splits)
  have none: "filter (\<lambda>e. cu_seq c < ev_seq e) (ring_of jid s) = []"
    using new_events [OF assms(1), of "[]"] by (simp add: publish_all_def)
  have one: "stream_turn jid \<lparr>cu_seq = cu_seq c, cu_last = None\<rparr> s
      = ([\<lparr>ev_seq = cu_seq c + 1, ev_data = d, ev_terminal = False\<rparr>], Some ?c1, s)"
    using row assms(2) none by (simp add: stream_turn_def yield_persisted_def Let_def)
  obtain c' where f: "stream_turn jid c ?s = (numbered (cu_seq c) (x # ds), Some c', ?s)" "in_step jid c' ?s"
    using stream_follows [OF assms(1), of "x # ds"] assms(5) by auto
  have "filter (\<lambda>e. cu_seq c + 1 < ev_seq e) (ring_of jid ?s)
      = filter (\<lambda>e. cu_seq c + 1 < ev_seq e) (filter (\<lambda>e. cu_seq c < ev_seq e) (ring_of jid ?s))"
    by (auto intro: filter_cong)
  also have "\<dots> = filter (\<lambda>e. cu_seq c + 1 < ev_seq e) (numbered (cu_seq c) (x # ds))"
    using new_events [OF assms(1), of "x # ds"] assms(5) by simp
  also have "\<dots> = numbered (cu_seq c + 1) ds"
    using numbered_above [of "cu_seq c + 1" ds] by simp
  finally have two: "filter (\<lambda>e. cu_seq ?c1 < ev_seq e) (ring_of jid ?s) = numbered (cu_seq c + 1) ds" by simp
  define c2 where "c2 = \<lparr>cu_seq = ev_seq (last (numbered (cu_seq c + 1) ds)), cu_last = Some (ev_data (last (numbered (cu_seq c + 1) ds)))\<rparr>"
  have ne: "numbered (cu_seq c + 1) ds \<noteq> []" using assms(4) by (cases ds) auto
  have "last (ring_of jid ?s) = last (numbered (cu_seq c + 1) ds)"
  proof -
    have "ring_of jid ?s = clip (ring_of jid s @ numbered (cu_seq c) (x # ds))"
      using assms(1) by (intro publish_all_ring) (auto simp: in_step_def Let_def)
    then show ?thesis using last_clip [of "ring_of jid s @ numbered (cu_seq c) (x # ds)"] ne by simp
  qed
  then have c2: "c' = c2" using f(2) by (cases c') (simp add: in_step_def Let_def c2_def)
  have "yield_pending (numbered (cu_seq c + 1) ds) ?c1 = (numbered (cu_seq c + 1) ds, Some c2)"
    using numbered_above [of "cu_seq c + 1" ds] ne by (simp add: yield_numbered c2_def)
  moreover have "yield_persisted (get_job_for_worker jid (jb_rows ?s)) c2 = ([], Some c2)"
    using f(2) c2 by (auto simp: in_step_def Let_def yield_persisted_def split: option.splits)
  ultimately have "stream_turn jid ?c1 ?s = (numbered (cu_seq c + 1) ds, Some c2, ?s)"
    by (simp add: stream_turn_def two [simplified])
  with one f(2) c2 show ?thesis by auto
qed

lemma reconnect_drops_event_witness:
  "\<exists>c1 c2. stream_turn ''j1'' \<lparr>cu_seq = 1, cu_last = None\<rparr> demo_jobs
        = ([\<lparr>ev_seq = 2, ev_data = phase ''running'', ev_terminal = False\<rparr>], Some c1, demo_jobs)
    \<and> stream_turn ''j1'' c1 (publish_all ''j1'' [JInt 1, JInt 2] demo_jobs)
        = (numbered 2 [JInt 2], Some c2, publish_all ''j1'' [JInt 1, JInt 2] demo_jobs)
    \<and> in_step ''j1'' c2 (publish_all ''j1'' [JInt 1, JInt 2] demo_jobs)"
  using reconnect_drops_event [OF demo_in_step, of "phase ''running''" "[JInt 2]" "JInt 1"]
  by (simp add: phase_def)

end
