(* ===== verification/Agent_Trade.thy ===== *)
theory Agent_Trade
  imports Agent_Jobs Order_Flow
begin

text \<open>
  Orders of external agents, \<open>routes/agent_v1/quick_trade.py\<close>: the reservation of notional, the way into
  \<open>pending_orders\<close>, the wait for the worker, and the emergency stop.  \<open>begin_order\<close>,
  \<open>queue_agent_order\<close>, \<open>await_order\<close> and \<open>end_order\<close> are the parts between which other transactions
  run; \<open>place_agent_order\<close> is the route.

  The quantity of an order may be NaN, which \<open>float\<close> reads from text and the checks let pass: a
  notional is a \<open>pyfloat\<close>.  The order itself is only modelled for a number.  Floats are left out of the
  JSON of a result.
\<close>

section \<open>Tables\<close>

datatype pyfloat = NaN | Finite rat

record notional_row =
  nr_user :: int
  nr_token :: int
  nr_key :: string
  nr_notional :: pyfloat
  nr_status :: string
  nr_created :: int

record quick_trade =
  qt_id :: int
  qt_user :: int
  qt_source :: string
  qt_status :: string
  qt_oid :: string

record paper_order =
  po_user :: int
  po_status :: string
  po_note :: string

record trade_db = gate +
  td_reservations :: "notional_row list"
  td_jobs :: "job_row list"
  td_queue :: queue
  td_trades :: "quick_trade list"
  td_papers :: "paper_order list"

text \<open>
  The body of an order.  Numbers are what \<open>float()\<close> and \<open>int()\<close> make of the value (or of the default
  the code has for a false one), \<open>None\<close> where they raise.
\<close>

record order_body =
  ob_fields :: "string list"
  ob_market :: string
  ob_symbol :: string
  ob_side :: string
  ob_qty :: "pyfloat option"
  ob_order_type :: string
  ob_limit :: "rat option"
  ob_credential :: "int option"
  ob_market_type :: string
  ob_leverage :: "int option"
  ob_json :: json

text \<open>
  The rest an order meets: the clock, \<open>AGENT_LIVE_TRADING_ENABLED\<close>, the last price, the random part of
  the client order id and of the job, what the polls see of the row, and whether one of them fails.
\<close>

record trade_env =
  te_now :: int
  te_live :: string
  te_last :: "rat option"
  te_uuid :: string
  te_job :: string
  te_seen :: "pending_row option list"
  te_poll_fails :: bool

section \<open>Notional\<close>

fun exceeds :: "pyfloat \<Rightarrow> rat \<Rightarrow> bool" where
  "exceeds NaN limit = False"
| "exceeds (Finite x) limit = (limit < x)"

fun plus_float :: "pyfloat \<Rightarrow> pyfloat \<Rightarrow> pyfloat" where
  "plus_float (Finite x) (Finite y) = Finite (fadd x y)"
| "plus_float _ _ = NaN"

fun times_price :: "pyfloat \<Rightarrow> rat \<Rightarrow> pyfloat" where
  "times_price (Finite x) p = Finite (fmul x p)"
| "times_price NaN p = NaN"

text \<open>\<open>SUM\<close> over a column, and the column a float is written to.\<close>

fun sum_notional :: "pyfloat list \<Rightarrow> pyfloat" where
  "sum_notional [] = Finite 0"
| "sum_notional (NaN # xs) = NaN"
| "sum_notional (Finite x # xs) = (case sum_notional xs of NaN \<Rightarrow> NaN | Finite y \<Rightarrow> Finite (x + y))"

fun notional_column :: "pyfloat \<Rightarrow> pyfloat" where
  "notional_column NaN = NaN"
| "notional_column (Finite x) = Finite (column 8 x)"

fun read_float :: "pyfloat \<Rightarrow> pyfloat" where
  "read_float NaN = NaN"
| "read_float (Finite x) = Finite (fl x)"

definition counts_today :: "int \<Rightarrow> int \<Rightarrow> notional_row \<Rightarrow> bool" where
  "counts_today token_id now r =
     (nr_token r = token_id \<and> now - now mod day \<le> nr_created r \<and> nr_status r \<in> {''reserved'', ''executed''})"

definition used_today :: "int \<Rightarrow> int \<Rightarrow> notional_row list \<Rightarrow> pyfloat" where
  "used_today token_id now rs = sum_notional (map nr_notional (filter (counts_today token_id now) rs))"

definition order_limits :: "int \<Rightarrow> int \<Rightarrow> token list \<Rightarrow> rat \<times> rat" where
  "order_limits token_id user tokens =
     (case find (\<lambda>t. tk_id t = token_id \<and> tk_user t = user) tokens of
        None \<Rightarrow> (1000, 5000)
      | Some t \<Rightarrow> (num_or (fl (tk_max_order t)) 1000, num_or (fl (tk_max_daily t)) 5000))"

datatype reserved = Reserved_Notional | Over_Order_Limit | Over_Daily_Limit

text \<open>\<open>_reserve_live_notional\<close>; the lock on the token's row makes it one step.\<close>

definition reserve_live_notional ::
  "int \<Rightarrow> int \<Rightarrow> string \<Rightarrow> pyfloat \<Rightarrow> int \<Rightarrow> token list \<Rightarrow> notional_row list \<Rightarrow> reserved \<times> notional_row list" where
  "reserve_live_notional token_id user key notional now tokens rs =
     (let (per_order, daily) = order_limits token_id user tokens in
      if exceeds notional per_order then (Over_Order_Limit, rs)
      else if exceeds (plus_float (read_float (used_today token_id now rs)) notional) daily then (Over_Daily_Limit, rs)
      else (Reserved_Notional,
            if list_ex (\<lambda>r. nr_token r = token_id \<and> nr_key r = key) rs then rs
            else rs @ [\<lparr>nr_user = user, nr_token = token_id, nr_key = key, nr_notional = notional_column notional,
                        nr_status = ''reserved'', nr_created = now\<rparr>]))"

definition finish_live_notional :: "int \<Rightarrow> string \<Rightarrow> string \<Rightarrow> notional_row list \<Rightarrow> notional_row list" where
  "finish_live_notional token_id key status rs =
     upd_where (\<lambda>r. nr_token r = token_id \<and> nr_key r = key) (\<lambda>r. r\<lparr>nr_status := status\<rparr>) rs"

section \<open>Placing an order\<close>

definition order_fields :: "string list" where
  "order_fields = [''market'', ''symbol'', ''side'', ''qty'', ''order_type'', ''limit_price'', ''credential_id'',
     ''market_type'', ''leverage'', ''margin_mode'', ''tp_price'', ''sl_price'']"

definition live_trading_enabled :: "trade_env \<Rightarrow> bool" where
  "live_trading_enabled e = (py_lower (te_live e) \<in> {''1'', ''true'', ''yes''})"

definition body_market :: "order_body \<Rightarrow> string" where
  "body_market b = py_strip (ob_market b)"

definition body_symbol :: "order_body \<Rightarrow> string" where
  "body_symbol b = py_strip (ob_symbol b)"

definition body_side :: "order_body \<Rightarrow> string" where
  "body_side b = py_lower (py_strip (ob_side b))"

definition body_type :: "order_body \<Rightarrow> string" where
  "body_type b = py_lower (py_strip (str_or (ob_order_type b) ''market''))"

fun positive_quantity :: "pyfloat option \<Rightarrow> bool" where
  "positive_quantity None = False"
| "positive_quantity (Some NaN) = True"
| "positive_quantity (Some (Finite q)) = (0 < q)"

definition order_rejection :: "order_body \<Rightarrow> string option" where
  "order_rejection b =
     (if \<exists>f \<in> set (ob_fields b). f \<notin> set order_fields then Some ''Unsupported order fields''
      else if body_market b = [] \<or> body_symbol b = [] then Some ''market and symbol are required''
      else if body_side b \<notin> {''buy'', ''sell''} then Some ''side must be buy or sell''
      else if \<not> positive_quantity (ob_qty b) then Some ''qty must be a positive number''
      else if body_type b \<notin> {''market'', ''limit''} then Some ''order_type must be market or limit''
      else if body_type b = ''limit'' \<and> (case ob_limit b of None \<Rightarrow> True | Some p \<Rightarrow> p \<le> 0)
        then Some ''limit_price is required for limit orders''
      else None)"

text \<open>\<open>with_idempotency\<close>: the last job of the token with this kind and key (the header as it came).\<close>

definition previous_job :: "token \<Rightarrow> agent_request \<Rightarrow> string \<Rightarrow> job_row list \<Rightarrow> job_row option" where
  "previous_job t r kind rows =
     (if ar_key r = [] then None
      else find_last (\<lambda>j. jr_token j = Some (tk_id t) \<and> jr_kind j = kind \<and> jr_key j = Some (ar_key r)) rows)"

definition order_kind :: string where
  "order_kind = ''quick_trade_order''"

definition reference_price :: "trade_env \<Rightarrow> order_body \<Rightarrow> rat" where
  "reference_price e b =
     (if body_type b = ''limit'' then (case ob_limit b of None \<Rightarrow> 0 | Some p \<Rightarrow> p)
      else (case te_last e of None \<Rightarrow> 0 | Some p \<Rightarrow> p))"

definition order_qty :: "order_body \<Rightarrow> pyfloat" where
  "order_qty b = (case ob_qty b of None \<Rightarrow> Finite 0 | Some q \<Rightarrow> q)"

text \<open>Up to the reservation: the reply of a refusal, or the execution mode.\<close>

definition begin_order :: "trade_env \<Rightarrow> order_body \<Rightarrow> token \<Rightarrow> agent_request \<Rightarrow> trade_db \<Rightarrow> (reply + string) \<times> trade_db" where
  "begin_order e b t r db =
     (case order_rejection b of
        Some msg \<Rightarrow> (Inl (err 400 msg), db)
      | None \<Rightarrow>
          if \<not> market_allowed t (body_market b) then (Inl (err 403 (''Market not allowed: '' @ body_market b)), db)
          else if \<not> instrument_allowed t (body_symbol b) then (Inl (err 403 (''Instrument not allowed: '' @ body_symbol b)), db)
          else case previous_job t r order_kind (td_jobs db) of
            Some j \<Rightarrow> (Inl \<lparr>rp_status = 200, rp_body = JObj [(''duplicate'', JBool True),
                        (''previous'', case jr_result j of None \<Rightarrow> JNull | Some x \<Rightarrow> x)]\<rparr>, db)
          | None \<Rightarrow>
              if tk_paper t then (Inr ''paper'', db)
              else if \<not> live_trading_enabled e
                then (Inl (err 501 ''Live agent trading is disabled by AGENT_LIVE_TRADING_ENABLED''), db)
              else if reference_price e b \<le> 0
                then (Inl (err 400 ''A current market price is required to enforce live notional limits''), db)
              else
                let (res, rs) = reserve_live_notional (tk_id t) (tk_user t) (py_strip (ar_key r))
                      (times_price (order_qty b) (reference_price e b)) (te_now e) (gt_tokens db) (td_reservations db) in
                if res = Reserved_Notional then (Inr ''live'', db\<lparr>td_reservations := rs\<rparr>)
                else (Inl (err 403 ''Live agent trading notional limit exceeded''), db))"

definition agent_market_type :: "order_body \<Rightarrow> int \<Rightarrow> string" where
  "agent_market_type b leverage =
     (let mt = py_lower (py_strip (ob_market_type b));
          mt' = (if mt \<in> {''futures'', ''future'', ''perp'', ''perpetual''} then ''swap'' else mt) in
      if mt' \<in> {''spot'', ''swap''} then mt' else if 1 < leverage then ''swap'' else ''spot'')"

text \<open>The payload of the queued order.\<close>

definition agent_request_of :: "trade_env \<Rightarrow> order_body \<Rightarrow> token \<Rightarrow> rat \<Rightarrow> rat \<Rightarrow> int \<Rightarrow> string \<Rightarrow> string \<Rightarrow> order_request" where
  "agent_request_of e b t qty limit leverage mode client =
     \<lparr>rq_strategy = 0, rq_run = 0, rq_user = tk_user t, rq_symbol = body_symbol b,
      rq_action = ''open_'' @ (if body_side b = ''buy'' then ''long'' else ''short''),
      rq_quantity = qty, rq_price = (if body_type b = ''limit'' then limit else (case te_last e of None \<Rightarrow> 0 | Some p \<Rightarrow> p)),
      rq_ts = te_now e div second, rq_market = agent_market_type b leverage, rq_mode = mode,
      rq_leverage = of_int leverage, rq_reason = [], rq_order_type = body_type b, rq_algo = [], rq_limit = limit,
      rq_client = client\<rparr>"

definition agent_intent :: "order_request \<Rightarrow> string \<Rightarrow> string \<Rightarrow> int \<Rightarrow> intent_row" where
  "agent_intent r side key n =
     \<lparr>in_id = n, in_run = 0, in_strategy = 0, in_key = key, in_symbol = rq_symbol r, in_market = rq_market r,
      in_side = side, in_position_side = [], in_reduce_only = False, in_order_type = rq_order_type r,
      in_quantity = column 12 (rq_quantity r), in_notional = 0, in_limit = column 12 (rq_limit r),
      in_status = ''intent_created'', in_client = take 100 (rq_client r)\<rparr>"

definition agent_pending :: "order_request \<Rightarrow> string \<Rightarrow> string \<Rightarrow> int \<Rightarrow> int \<Rightarrow> int \<Rightarrow> pending_row" where
  "agent_pending r exchange key intent n now =
     \<lparr>pd_id = n, pd_user = rq_user r, pd_strategy = 0, pd_run = 0, pd_symbol = rq_symbol r, pd_action = rq_action r,
      pd_amount = column 8 (rq_quantity r), pd_price = column 8 (rq_price r), pd_status = ''pending'', pd_intent = intent,
      pd_key = key, pd_payload = r, pd_priority = 0, pd_attempts = 0, pd_max = 10, pd_updated = now, pd_sent = None,
      pd_note = [], pd_exchange = exchange, pd_oid = [], pd_filled = 0, pd_avg = 0, pd_response = No_Response\<rparr>"

text \<open>\<open>str(int(time.time()))[-6:]\<close> and eight digits of a UUID.\<close>

definition agent_client_id :: "trade_env \<Rightarrow> string" where
  "agent_client_id e =
     (let s = int_str (te_now e div second) in ''qa'' @ drop (length s - 6) s @ take 8 (te_uuid e))"

text \<open>\<open>_dispatch_to_canonical_pipeline\<close> up to the commit of the order; \<open>Inl\<close> is an exception.\<close>

definition queue_agent_order ::
  "trade_env \<Rightarrow> order_body \<Rightarrow> token \<Rightarrow> rat \<Rightarrow> string \<Rightarrow> queue \<Rightarrow> (string + int) \<times> queue" where
  "queue_agent_order e b t qty mode q =
     (case (ob_credential b, ob_limit b, ob_leverage b) of
        (Some credential, Some limit, Some leverage) \<Rightarrow>
          let client = agent_client_id e; key = ''agent:'' @ int_str (tk_user t) @ '':'' @ client;
              r = agent_request_of e b t qty limit leverage mode client; ikey = take 180 (py_strip key);
              (intent, q1) = (case get_by_key 0 ikey q of
                 Some i \<Rightarrow> (i, q)
               | None \<Rightarrow> (let i = agent_intent r (body_side b) ikey (next_intent q) in
                          (i, q\<lparr>intents := intents q @ [i], next_intent := next_intent q + 1\<rparr>)));
              n = next_pending q1; q2 = q1\<lparr>next_pending := n + 1\<rparr> in
          if pending_id key q2 \<noteq> None then (Inr 0, q2)
          else (Inr n, q2\<lparr>pending := pending q2 @ [agent_pending r (body_market b) key (in_id intent) n (clock q)]\<rparr>)
      | _ \<Rightarrow> (Inl ''invalid number'', q))"

record order_result =
  or_pending :: int
  or_oid :: string
  or_filled :: rat
  or_avg :: rat
  or_status :: string

text \<open>The polls for at most 15 seconds, of the rows \<open>seen\<close>.\<close>

fun await_order :: "pending_row option list \<Rightarrow> order_result \<Rightarrow> order_result" where
  "await_order [] res = res"
| "await_order (None # seen) res = await_order seen res"
| "await_order (Some p # seen) res =
     (if pd_status p \<in> {''pending'', ''processing'', ''syncing''} then await_order seen (res\<lparr>or_status := pd_status p\<rparr>)
      else res\<lparr>or_status := pd_status p, or_oid := pd_oid p, or_filled := fl (pd_filled p), or_avg := fl (pd_avg p)\<rparr>)"

definition result_json :: "order_result \<Rightarrow> string \<Rightarrow> json" where
  "result_json res mode =
     JObj [(''pending_order_id'', JInt (or_pending res)), (''exchange_order_id'', JStr (or_oid res)),
           (''status'', JStr (or_status res)), (''paper'', JBool (mode = ''paper''))]"

definition finish_mode :: "string \<Rightarrow> token \<Rightarrow> agent_request \<Rightarrow> string \<Rightarrow> trade_db \<Rightarrow> trade_db" where
  "finish_mode mode t r status db =
     (if mode = ''live'' then db\<lparr>td_reservations := finish_live_notional (tk_id t) (py_strip (ar_key r)) status (td_reservations db)\<rparr>
      else db)"

text \<open>After the order has been dispatched, with its result or the exception.\<close>

definition end_order ::
  "trade_env \<Rightarrow> order_body \<Rightarrow> token \<Rightarrow> agent_request \<Rightarrow> string \<Rightarrow> string + order_result \<Rightarrow> trade_db \<Rightarrow> (string + reply) \<times> trade_db" where
  "end_order e b t r mode outcome db =
     (case outcome of
        Inl msg \<Rightarrow> (Inr (err 500 ''quick_trade failed''), finish_mode mode t r ''failed'' db)
      | Inr res \<Rightarrow>
          let db1 = finish_mode mode t r ''executed'' db in
          (case record_completed_job (te_job e) (tk_user t) (Some (tk_id t)) order_kind (ob_json b) (result_json res mode)
                  (if ar_key r = [] then None else Some (ar_key r)) (td_jobs db1) of
             None \<Rightarrow> (Inl ''duplicate job'', db1)
           | Some rows \<Rightarrow> (Inr \<lparr>rp_status = 200, rp_body = result_json res mode\<rparr>, db1\<lparr>td_jobs := rows\<rparr>)))"

text \<open>
  The route.  The order with the quantity NaN would be queued, its reservation executed, and recording the
  job would fail, since PostgreSQL has no JSON for NaN; the model leaves the queue as it is.
\<close>

definition place_agent_order :: "trade_env \<Rightarrow> order_body \<Rightarrow> token \<Rightarrow> agent_request \<Rightarrow> trade_db \<Rightarrow> (string + reply) \<times> trade_db" where
  "place_agent_order e b t r db =
     (case begin_order e b t r db of
        (Inl rp, db1) \<Rightarrow> (Inr rp, db1)
      | (Inr mode, db1) \<Rightarrow>
          (case order_qty b of
             NaN \<Rightarrow> (Inl ''NaN'', finish_mode mode t r ''executed'' db1)
           | Finite qty \<Rightarrow>
               let (queued, q) = queue_agent_order e b t qty mode (td_queue db1); db2 = db1\<lparr>td_queue := q\<rparr> in
               (case queued of
                  Inl msg \<Rightarrow> end_order e b t r mode (Inl msg) db2
                | Inr n \<Rightarrow> end_order e b t r mode
                    (if te_poll_fails e then Inl ''poll failed''
                     else Inr (await_order (te_seen e) \<lparr>or_pending = n, or_oid = [], or_filled = 0, or_avg = 0, or_status = ''pending''\<rparr>))
                    db2)))"

section \<open>The emergency stop\<close>

definition open_agent_trade :: "int \<Rightarrow> quick_trade \<Rightarrow> bool" where
  "open_agent_trade user x =
     (qt_user x = user \<and> qt_source x = ''agent_mcp'' \<and> qt_status x \<in> {''submitted'', ''partial'', ''partially_filled''}
      \<and> qt_oid x \<noteq> [])"

definition trades_scope :: "token \<Rightarrow> bool" where
  "trades_scope t = py_contains '',T,'' ('','' @ py_upper (tk_scopes t) @ '','')"

text \<open>\<open>cancels\<close> says for which trades the exchange accepts the cancellation.\<close>

definition kill_switch :: "(int \<Rightarrow> bool) \<Rightarrow> bool \<Rightarrow> token \<Rightarrow> agent_request \<Rightarrow> trade_db \<Rightarrow> (string + reply) \<times> trade_db" where
  "kill_switch cancels confirm t r db =
     (if \<not> confirm then (Inr (err 400 ''confirm=true is required for the emergency kill switch''), db)
      else
        let user = tk_user t; live = filter (open_agent_trade user) (td_trades db);
            done = map qt_id (filter (\<lambda>x. cancels (qt_id x)) live);
            papers = (\<lambda>p. po_user p = user \<and> po_status p \<notin> {''filled'', ''cancelled'', ''rejected''});
            traders = (\<lambda>k. tk_user k = user \<and> tk_status k = ''active'' \<and> trades_scope k) in
        (Inr \<lparr>rp_status = 200, rp_body = JObj
            [(''cancelled_open_paper_orders'', JInt (count_where papers (td_papers db))),
             (''cancelled_live_agent_orders'', JInt (int (length done))),
             (''live_cancel_failures'', JInt (int (length live) - int (length done))),
             (''revoked_t_tokens'', JInt (count_where traders (gt_tokens db)))]\<rparr>,
         db\<lparr>td_trades := upd_where (\<lambda>x. qt_id x \<in> set done \<and> qt_user x = user) (\<lambda>x. x\<lparr>qt_status := ''cancelled''\<rparr>) (td_trades db),
            td_papers := upd_where papers (\<lambda>p. p\<lparr>po_status := ''cancelled'', po_note := po_note p @ '' [kill_switch]''\<rparr>) (td_papers db),
            gt_tokens := upd_where traders (\<lambda>k. k\<lparr>tk_status := ''revoked''\<rparr>) (gt_tokens db)\<rparr>))"

end
