(* ===== verification/Agent_Safety.thy ===== *)
theory Agent_Safety
  imports Agent_Trade Dispatch
begin

text \<open>
  The agent gateway: an idempotency key runs its route again only after the time for which an unfinished
  run is believed, and never once it has answered; a live order passes every gate.  Then the ways around the
  limits, and what the emergency stop does not stop.
\<close>

section \<open>Idempotency\<close>

definition idem_keys_distinct :: "idem_row list \<Rightarrow> bool" where
  "idem_keys_distinct table = distinct (map row_id table)"

text \<open>A run of key \<open>i\<close> has begun at time \<open>s\<close> and is not forgotten; key \<open>i\<close> has answered.\<close>

definition begun :: "idem_id \<Rightarrow> int \<Rightarrow> idem_row list \<Rightarrow> bool" where
  "begun i s table = (\<exists>x \<in> set table. row_id x = i \<and> (id_status x = ''started'' \<longrightarrow> s \<le> id_updated x))"

definition answered :: "idem_id \<Rightarrow> idem_row list \<Rightarrow> bool" where
  "answered i table = (\<exists>x \<in> set table. row_id x = i \<and> id_status x = ''completed'')"

lemma row_id_updates [simp]: "row_id (x\<lparr>id_updated := t\<rparr>) = row_id x"
  "row_id (x\<lparr>id_status := st\<rparr>) = row_id x" "row_id (x\<lparr>id_reply := rp\<rparr>) = row_id x"
  by (simp_all add: row_id_def)

lemma row_id_new [simp]: "row_id (new_idem_row i h now) = i"
  by (cases i) (simp add: row_id_def new_idem_row_def)

lemma reserve_distinct: "idem_keys_distinct table \<Longrightarrow> idem_keys_distinct (snd (reserve_idempotency i h stale now table))"
  by (auto simp: idem_keys_distinct_def reserve_idempotency_def map_upd_where_same find_None_iff split: option.split)

lemma complete_distinct: "idem_keys_distinct table \<Longrightarrow> idem_keys_distinct (complete_idempotency i rp now table)"
  by (simp add: idem_keys_distinct_def complete_idempotency_def map_upd_where_same)

lemma same_row: "idem_keys_distinct table \<Longrightarrow> x \<in> set table \<Longrightarrow> y \<in> set table \<Longrightarrow> row_id x = row_id y \<Longrightarrow> x = y"
  unfolding idem_keys_distinct_def by (rule distinct_key_eq)

lemma in_upd_where: "x \<in> set t \<Longrightarrow> (if p x then f x else x) \<in> set (upd_where p f t)"
  by (auto simp: set_upd_where)

lemma begun_upd:
  assumes "begun i s table" and "\<And>x. row_id (f x) = row_id x"
    and "\<And>x. p x \<Longrightarrow> id_status (f x) = ''started'' \<Longrightarrow> row_id x = i \<Longrightarrow> id_status x = ''started'' \<and> id_updated x \<le> id_updated (f x)"
  shows "begun i s (upd_where p f table)"
proof -
  from assms(1) obtain x where x: "x \<in> set table" "row_id x = i" "id_status x = ''started'' \<longrightarrow> s \<le> id_updated x"
    by (auto simp: begun_def)
  let ?y = "if p x then f x else x"
  have "row_id ?y = i" using x(2) assms(2) by simp
  moreover have "id_status ?y = ''started'' \<longrightarrow> s \<le> id_updated ?y" using x assms(3) [of x] by auto
  ultimately show ?thesis unfolding begun_def using in_upd_where [OF x(1), of p f] by blast
qed


lemma reserve_keeps_begun:
  assumes "begun i s table" and "0 \<le> stale"
  shows "begun i s (snd (reserve_idempotency j h stale now table))"
proof -
  have "begun i s (upd_where (takes_over j stale now) (\<lambda>x. x\<lparr>id_updated := now\<rparr>) table)"
    using assms(1) by (rule begun_upd) (use assms(2) in \<open>auto simp: takes_over_def second_def\<close>)
  moreover have "begun i s (table @ [new_idem_row j h now])" using assms(1) by (auto simp: begun_def)
  ultimately show ?thesis using assms(1) by (simp add: reserve_idempotency_def split: option.split)
qed

lemma complete_keeps_begun: "begun i s table \<Longrightarrow> begun i s (complete_idempotency j rp now table)"
  unfolding complete_idempotency_def by (erule begun_upd) auto

lemma answered_upd:
  assumes "answered i table" and "\<And>x. row_id (f x) = row_id x"
    and "\<And>x. p x \<Longrightarrow> id_status x = ''completed'' \<Longrightarrow> id_status (f x) = ''completed''"
  shows "answered i (upd_where p f table)"
proof -
  from assms(1) obtain x where x: "x \<in> set table" "row_id x = i" "id_status x = ''completed''"
    by (auto simp: answered_def)
  have "row_id (if p x then f x else x) = i" "id_status (if p x then f x else x) = ''completed''"
    using x assms(2,3) by auto
  then show ?thesis unfolding answered_def using in_upd_where [OF x(1), of p f] by blast
qed

lemma reserve_keeps_answered:
  assumes "answered i table"
  shows "answered i (snd (reserve_idempotency j h stale now table))"
proof -
  have "answered i (upd_where (takes_over j stale now) (\<lambda>x. x\<lparr>id_updated := now\<rparr>) table)"
    using assms by (rule answered_upd) auto
  moreover have "answered i (table @ [new_idem_row j h now])" using assms by (auto simp: answered_def)
  ultimately show ?thesis using assms by (simp add: reserve_idempotency_def split: option.split)
qed


lemma complete_keeps_answered: "answered i table \<Longrightarrow> answered i (complete_idempotency j rp now table)"
  unfolding complete_idempotency_def by (erule answered_upd) auto


lemma reserved_begins:
  assumes "reserve_idempotency i h stale now table = (Reserved, table')"
  shows "begun i now table'"
proof (cases "find (\<lambda>x. row_id x = i) table")
  case None
  with assms show ?thesis by (auto simp: reserve_idempotency_def begun_def) (simp add: new_idem_row_def)
next
  case (Some row)
  with assms have "0 < count_where (takes_over i stale now) table"
    and t: "table' = upd_where (takes_over i stale now) (\<lambda>x. x\<lparr>id_updated := now\<rparr>) table"
    by (auto simp: reserve_idempotency_def split: if_splits)
  then obtain x where x: "x \<in> set table" "takes_over i stale now x" by (auto simp: count_where_pos)
  with in_upd_where [OF x(1), of "takes_over i stale now" "\<lambda>x. x\<lparr>id_updated := now\<rparr>"]
  show ?thesis unfolding begun_def t by (intro bexI [of _ "x\<lparr>id_updated := now\<rparr>"]) (auto simp: takes_over_def)
qed


lemma reserved_after:
  assumes "reserve_idempotency i h stale now table = (Reserved, table')" and "idem_keys_distinct table" and "begun i s table"
  shows "s + stale * second < now"
proof -
  from assms(3) obtain x where x: "x \<in> set table" "row_id x = i" "id_status x = ''started'' \<longrightarrow> s \<le> id_updated x"
    by (auto simp: begun_def)
  then have "find (\<lambda>x. row_id x = i) table \<noteq> None" by (auto simp: find_None_iff)
  with assms(1) have "0 < count_where (takes_over i stale now) table"
    by (auto simp: reserve_idempotency_def split: if_splits option.splits)
  then obtain y where y: "y \<in> set table" "takes_over i stale now y" by (auto simp: count_where_pos)
  with x same_row [OF assms(2)] have "x = y" by (auto simp: takes_over_def)
  with x y show ?thesis by (auto simp: takes_over_def)
qed

lemma answered_not_reserved:
  assumes "answered i table" and "idem_keys_distinct table"
  shows "fst (reserve_idempotency i h stale now table) \<noteq> Reserved"
proof
  assume "fst (reserve_idempotency i h stale now table) = Reserved"
  from assms(1) obtain x where x: "x \<in> set table" "row_id x = i" "id_status x = ''completed''" by (auto simp: answered_def)
  then have "find (\<lambda>x. row_id x = i) table \<noteq> None" by (auto simp: find_None_iff)
  with \<open>fst _ = _\<close> have "0 < count_where (takes_over i stale now) table"
    by (auto simp: reserve_idempotency_def split: if_splits option.splits)
  then obtain y where "y \<in> set table" "takes_over i stale now y" by (auto simp: count_where_pos)
  with x same_row [OF assms(2)] have "x = y" by (auto simp: takes_over_def)
  with x \<open>takes_over i stale now y\<close> show False by (simp add: takes_over_def)
qed

text \<open>
  What happens at the gate, request by request and in any order: arrivals, ends of routes, and whatever
  the routes and the administration do elsewhere.  \<open>gate_step stale g runs g'\<close> lists the run that begins.
\<close>

definition begins :: "gate_env \<Rightarrow> string \<Rightarrow> agent_request \<Rightarrow> admission \<Rightarrow> (idem_id \<times> int) list" where
  "begins e scope r a =
     (case a of Admitted t \<Rightarrow> if needs_idempotency scope r then [(idem_id (tk_id t) r (py_strip (ar_key r)), ge_now e)] else []
      | _ \<Rightarrow> [])"

inductive gate_step :: "int \<Rightarrow> 'w gate_scheme \<Rightarrow> (idem_id \<times> int) list \<Rightarrow> 'w gate_scheme \<Rightarrow> bool" for stale :: int where
  arrive: "admit e scope r g = (a, g') \<Longrightarrow> stale_after (ge_stale e) = stale \<Longrightarrow> gate_step stale g (begins e scope r a) g'"
| leave: "gate_step stale g [] (settle e scope r t rp now g)"
| elsewhere: "gt_idem g' = gt_idem g \<Longrightarrow> gate_step stale g [] g'"

inductive gate_run :: "int \<Rightarrow> 'w gate_scheme \<Rightarrow> (idem_id \<times> int) list \<Rightarrow> 'w gate_scheme \<Rightarrow> bool" for stale :: int where
  stop: "gate_run stale g [] g"
| go: "gate_step stale g rs g1 \<Longrightarrow> gate_run stale g1 rest g2 \<Longrightarrow> gate_run stale g (rs @ rest) g2"

definition times_of :: "idem_id \<Rightarrow> (idem_id \<times> int) list \<Rightarrow> int list" where
  "times_of i runs = map snd (filter (\<lambda>x. fst x = i) runs)"

lemma audit_idem [simp]: "gt_idem (audit tok scope r st g) = gt_idem g"
  by (simp add: audit_def)

lemma admit_idem:
  assumes "admit e scope r g = (a, g')"
  shows "begins e scope r a = [] \<and> gt_idem g' = gt_idem g
    \<or> (\<exists>i h v table. reserve_idempotency i h (stale_after (ge_stale e)) (ge_now e) (gt_idem g) = (v, table)
        \<and> gt_idem g' = table \<and> begins e scope r a = (if v = Reserved then [(i, ge_now e)] else []))"
proof (cases "authenticate e scope r (gt_tokens g)")
  case (Inl x)
  with assms show ?thesis by (cases x) (auto simp: admit_def begins_def)
next
  case (Inr t)
  show ?thesis
  proof (cases "\<exists>st table. reserve_idempotency (idem_id (tk_id t) r (py_strip (ar_key r))) (request_fingerprint (ge_sha e) r)
      (stale_after (ge_stale e)) (ge_now e) (gt_idem g) = (st, table) \<and> gt_idem g' = table
      \<and> begins e scope r a = (if st = Reserved then [(idem_id (tk_id t) r (py_strip (ar_key r)), ge_now e)] else [])")
    case True
    then show ?thesis by blast
  next
    case False
    with assms Inr show ?thesis
      by (auto simp: admit_def begins_def reserve_call_def Let_def split: prod.splits if_splits reservation_state.splits)
  qed
qed

lemma settle_idem:
  "gt_idem (settle e scope r t rp now g) = gt_idem g
   \<or> (\<exists>i. gt_idem (settle e scope r t rp now g) = complete_idempotency i rp now (gt_idem g))"
proof (cases "needs_idempotency scope r \<and> \<not> ge_complete_fails e")
  case True
  then have "gt_idem (settle e scope r t rp now g) = complete_idempotency (idem_id (tk_id t) r (py_strip (ar_key r))) rp now (gt_idem g)"
    by (simp add: settle_def)
  then show ?thesis by blast
next
  case False
  then have "gt_idem (settle e scope r t rp now g) = gt_idem g" by (auto simp: settle_def)
  then show ?thesis by blast
qed


lemma stale_pos: "0 < stale_after env"
  by (cases env) (simp_all add: stale_after_def)

lemma gate_step_facts:
  assumes "gate_step stale g rs g'" and "idem_keys_distinct (gt_idem g)"
  shows "idem_keys_distinct (gt_idem g')" and "\<forall>(i, t) \<in> set rs. begun i t (gt_idem g')"
    and "begun i s (gt_idem g) \<Longrightarrow> begun i s (gt_idem g') \<and> (\<forall>t \<in> set (times_of i rs). s + stale * second < t)"
    and "answered i (gt_idem g) \<Longrightarrow> answered i (gt_idem g') \<and> times_of i rs = []"
    and "length rs \<le> 1"
proof -
  have "idem_keys_distinct (gt_idem g') \<and> (\<forall>(i, t) \<in> set rs. begun i t (gt_idem g'))
    \<and> (begun i s (gt_idem g) \<longrightarrow> begun i s (gt_idem g') \<and> (\<forall>t \<in> set (times_of i rs). s + stale * second < t))
    \<and> (answered i (gt_idem g) \<longrightarrow> answered i (gt_idem g') \<and> times_of i rs = []) \<and> length rs \<le> 1"
    using assms(1)
  proof cases
    case (arrive e scope r a)
    from admit_idem [OF arrive(2)] show ?thesis
    proof (elim disjE exE conjE)
      fix j h v table
      assume res: "reserve_idempotency j h (stale_after (ge_stale e)) (ge_now e) (gt_idem g) = (v, table)"
        and table: "gt_idem g' = table" and rs: "begins e scope r a = (if v = Reserved then [(j, ge_now e)] else [])"
      have st: "0 \<le> stale" using stale_pos [of "ge_stale e"] arrive(3) by simp
      have tab: "table = snd (reserve_idempotency j h stale (ge_now e) (gt_idem g))" using res arrive(3) by simp
      have f: "fst (reserve_idempotency j h stale (ge_now e) (gt_idem g)) = v" using res arrive(3) by simp
      show ?thesis
        using reserve_distinct [OF assms(2), of j h stale "ge_now e"]
          reserved_begins [of j h stale "ge_now e" "gt_idem g" table] reserved_after [of j h stale "ge_now e" "gt_idem g" table, OF _ assms(2), of s]
          reserve_keeps_begun [of i s "gt_idem g" stale j h "ge_now e", OF _ st] reserve_keeps_answered [of i "gt_idem g" j h stale "ge_now e"]
          answered_not_reserved [OF _ assms(2), of i h stale "ge_now e"] res arrive(1,3) table rs tab f
        by (auto simp: times_of_def)
    qed (use assms(2) arrive in \<open>simp add: times_of_def\<close>)
  next
    case (leave e scope r t rp now)
    from settle_idem [of e scope r t rp now g] assms(2) leave show ?thesis
      by (auto simp: times_of_def complete_distinct complete_keeps_begun complete_keeps_answered)
  qed (use assms(2) in \<open>simp add: times_of_def\<close>)
  then show "idem_keys_distinct (gt_idem g')" "\<forall>(i, t) \<in> set rs. begun i t (gt_idem g')"
    "begun i s (gt_idem g) \<Longrightarrow> begun i s (gt_idem g') \<and> (\<forall>t \<in> set (times_of i rs). s + stale * second < t)"
    "answered i (gt_idem g) \<Longrightarrow> answered i (gt_idem g') \<and> times_of i rs = []" "length rs \<le> 1"
    by blast+
qed

lemma times_of_append [simp]: "times_of i (xs @ ys) = times_of i xs @ times_of i ys"
  by (simp add: times_of_def)

lemma gate_run_facts:
  assumes "gate_run stale g runs g'" and "idem_keys_distinct (gt_idem g)"
  shows "sorted_wrt (\<lambda>s t. s + stale * second < t) (times_of i runs)
    \<and> (\<forall>s. begun i s (gt_idem g) \<longrightarrow> (\<forall>t \<in> set (times_of i runs). s + stale * second < t))
    \<and> (answered i (gt_idem g) \<longrightarrow> times_of i runs = [])"
  using assms
proof (induction rule: gate_run.induct)
  case (stop g)
  then show ?case by (simp add: times_of_def)
next
  case (go g rs g1 rest g2)
  note f = gate_step_facts [OF go(1) go(4)]
  note IH = go(3) [OF f(1)]
  have cross: "s + stale * second < t" if "s \<in> set (times_of i rs)" "t \<in> set (times_of i rest)" for s t
  proof -
    from that(1) have "(i, s) \<in> set rs" by (auto simp: times_of_def)
    with f(2) have "begun i s (gt_idem g1)" by auto
    with IH that(2) show ?thesis by blast
  qed
  have "sorted_wrt (\<lambda>s t. s + stale * second < t) (times_of i rs)"
    using f(5) by (cases rs) (auto simp: times_of_def)
  with IH cross have "sorted_wrt (\<lambda>s t. s + stale * second < t) (times_of i (rs @ rest))"
    by (simp add: sorted_wrt_append)
  moreover have "\<forall>t \<in> set (times_of i (rs @ rest)). s + stale * second < t" if "begun i s (gt_idem g)" for s
    using f(3) [OF that] IH by auto
  moreover have "times_of i (rs @ rest) = []" if "answered i (gt_idem g)"
    using f(4) [OF that] IH by simp
  ultimately show ?case by blast
qed

text \<open>C39.  However requests interleave, the runs of a route under one idempotency key begin more than the
  takeover time apart, and none begins once the key has its answer.\<close>

theorem runs_spaced:
  assumes "gate_run stale g runs g'" and "idem_keys_distinct (gt_idem g)"
  shows "sorted_wrt (\<lambda>s t. s + stale * second < t) (times_of i runs)
    \<and> (answered i (gt_idem g) \<longrightarrow> times_of i runs = [])"
  using gate_run_facts [OF assms] by blast


definition idle_limiter :: limiter where
  "idle_limiter = \<lparr>lm_rates = (\<lambda>_. []), lm_counts = (\<lambda>_. None)\<rparr>"

definition demo_token :: token where
  "demo_token = \<lparr>tk_id = 1, tk_user = 7, tk_name = ''bot'', tk_hash = ''qd_agent_a'', tk_scopes = ''R,T'', tk_markets = ''*'',
     tk_instruments = ''*'', tk_paper = False, tk_rate = 60, tk_max_order = 1000, tk_max_daily = 5000,
     tk_status = ''active'', tk_expires = None, tk_used = None\<rparr>"

definition demo_gate :: gate where
  "demo_gate = \<lparr>gt_tokens = [demo_token], gt_limiter = idle_limiter, gt_idem = [], gt_audit = []\<rparr>"

definition demo_env :: "int \<Rightarrow> gate_env" where
  "demo_env now = \<lparr>ge_sha = (\<lambda>s. s), ge_bucket = (\<lambda>s. int (length s)), ge_now = now, ge_offset = 0, ge_backend = In_Memory,
     ge_tenant = None, ge_stale = None, ge_reserve_fails = False, ge_complete_fails = False\<rparr>"

definition demo_call :: agent_request where
  "demo_call = \<lparr>ar_method = ''POST'', ar_path = ''/api/agent/v1/quick-trade/orders'', ar_query = [], ar_data = ''x'',
     ar_authorization = ''Bearer qd_agent_a'', ar_key = ''k1''\<rparr>"

lemma runs_spaced_witness:
  "\<exists>g'. gate_run 900 demo_gate (begins (demo_env 0) ''T'' demo_call (fst (admit (demo_env 0) ''T'' demo_call demo_gate)) @ []) g'
    \<and> begins (demo_env 0) ''T'' demo_call (fst (admit (demo_env 0) ''T'' demo_call demo_gate)) = [(idem_id 1 demo_call ''k1'', 0)]
    \<and> sorted_wrt (\<lambda>s t. s + 900 * second < t)
        (times_of (idem_id 1 demo_call ''k1'') (begins (demo_env 0) ''T'' demo_call (fst (admit (demo_env 0) ''T'' demo_call demo_gate)) @ []))"
proof -
  let ?a = "admit (demo_env 0) ''T'' demo_call demo_gate"
  have run: "gate_run 900 demo_gate (begins (demo_env 0) ''T'' demo_call (fst ?a) @ []) (snd ?a)"
    by (rule gate_run.go [OF gate_step.arrive gate_run.stop]) (simp_all add: demo_env_def stale_after_def)
  have "begins (demo_env 0) ''T'' demo_call (fst ?a) = [(idem_id 1 demo_call ''k1'', 0)]" by code_simp
  with run runs_spaced [OF run, of "idem_id 1 demo_call ''k1''"] show ?thesis
    by (intro exI [of _ "snd ?a"]) (simp add: demo_gate_def idem_keys_distinct_def)
qed

section \<open>What a live order has passed\<close>

lemma gate_frame [simp]:
  "td_queue (audit tok scope r st db) = td_queue db" "gt_tokens (audit tok scope r st db) = gt_tokens db"
  "td_reservations (audit tok scope r st db) = td_reservations db"
  "td_queue (settle e scope r t rp now db) = td_queue db"
  "td_reservations (settle e scope r t rp now db) = td_reservations db"
  by (simp_all add: audit_def settle_def)

lemma admit_frame:
  assumes "admit e scope r db = (a, db')"
  shows "td_queue db' = td_queue db" "gt_tokens db' = gt_tokens db" "td_reservations db' = td_reservations db"
  using assms by (auto simp: admit_def Let_def case_prod_beta split: sum.splits if_splits admission.splits)

lemma admitted_token:
  assumes "admit e scope r g = (Admitted t, g')"
  shows "authenticate e scope r (gt_tokens g) = Inr t"
  using assms by (auto simp: admit_def Let_def case_prod_beta reserve_call_def split: sum.splits if_splits reservation_state.splits)

lemma authenticated:
  assumes "authenticate e scope r tokens = Inr t"
  shows "\<exists>raw. extract_bearer r = Some raw \<and> py_startswith raw ''qd_agent_'' \<and> tk_hash t = ge_sha e raw"
    and "t \<in> set tokens" "tk_status t = ''active''" "\<not> expired e t" "scope \<in> parse_scopes (Scope_Text (tk_scopes t))"
  using assms by (auto simp: authenticate_def lookup_token_def split: option.splits if_splits dest: find_SomeD)

lemma finish_mode_queue [simp]: "td_queue (finish_mode mode t r st db) = td_queue db"
  by (simp add: finish_mode_def)

lemma end_order_queue [simp]: "td_queue (snd (end_order te b t r mode out db)) = td_queue db"
  by (simp add: end_order_def Let_def split: sum.split option.split)

lemma begin_order_queue: "begin_order te b t r db = (x, db1) \<Longrightarrow> td_queue db1 = td_queue db"
  by (auto simp: begin_order_def Let_def case_prod_beta split: option.splits if_splits)

text \<open>The token's limits at the time of the reservation: one order, and the day so far with it.\<close>

definition within_limits :: "token \<Rightarrow> pyfloat \<Rightarrow> int \<Rightarrow> token list \<Rightarrow> notional_row list \<Rightarrow> bool" where
  "within_limits t notional now tokens rs =
     (let (per_order, daily) = order_limits (tk_id t) (tk_user t) tokens in
      \<not> exceeds notional per_order \<and> \<not> exceeds (plus_float (read_float (used_today (tk_id t) now rs)) notional) daily)"

lemma begin_live_order:
  assumes "begin_order te b t r db = (Inr ''live'', db1)"
  shows "order_rejection b = None" "market_allowed t (body_market b)" "instrument_allowed t (body_symbol b)"
    "\<not> tk_paper t" "live_trading_enabled te" "0 < reference_price te b"
    "within_limits t (times_price (order_qty b) (reference_price te b)) (te_now te) (gt_tokens db) (td_reservations db)"
  using assms
  by (auto simp: begin_order_def within_limits_def reserve_live_notional_def Let_def case_prod_beta not_le split: option.splits if_splits)

lemma agent_order_queued:
  assumes "queue_agent_order te b t qty mode q = (x, q')" and "p \<in> set (pending q')" "p \<notin> set (pending q)"
  shows "\<exists>limit leverage client. pd_payload p = agent_request_of te b t qty limit leverage mode client"
  using assms
  by (auto simp: queue_agent_order_def agent_pending_def Let_def case_prod_beta split: option.splits if_splits; blast)

lemma agent_order_placed:
  assumes p: "p \<in> set (pending (td_queue (snd (place_agent_order te b t r db))))" "p \<notin> set (pending (td_queue db))"
  shows "\<exists>mode db1 qty limit leverage client. begin_order te b t r db = (Inr mode, db1) \<and> order_qty b = Finite qty
    \<and> pd_payload p = agent_request_of te b t qty limit leverage mode client"
proof -
  obtain x db1 where b: "begin_order te b t r db = (x, db1)" by fastforce
  note q = begin_order_queue [OF b]
  obtain mode where x: "x = Inr mode" using p b q by (cases x) (simp_all add: place_agent_order_def)
  obtain qty where qty: "order_qty b = Finite qty" using p b q x by (cases "order_qty b") (simp_all add: place_agent_order_def)
  obtain y q' where y: "queue_agent_order te b t qty mode (td_queue db1) = (y, q')" by fastforce
  have "td_queue (snd (place_agent_order te b t r db)) = q'"
    by (simp add: place_agent_order_def b x qty y Let_def split: sum.split)
  with agent_order_queued [OF y, of p] p q b x qty show ?thesis by auto
qed

text \<open>C38.  A live order that a request, taken on its own, adds to the queue has passed every gate: the
  request carries the secret of a token that is active, not expired and has scope T; the token is not
  restricted to paper trading and live trading is enabled on the server; market and instrument are on its
  lists; the order is the one asked for, for the token's user and of a positive quantity; and its notional
  at the price the gateway takes is within the limit of one order and, with what the token has reserved
  that day, within the daily limit.  This is for numbers: a quantity or a limit price of NaN, which \<open>float\<close>
  reads from text, passes the checks too (\<open>nan_order_passes\<close>), but an order with it is not among the orders
  the queue of the model can hold.\<close>

theorem live_order_gates:
  assumes call: "agent_call e ''T'' (place_agent_order te b) r later db = (rp, db')"
    and p: "p \<in> set (pending (td_queue db'))" "p \<notin> set (pending (td_queue db))" and live: "rq_mode (pd_payload p) = ''live''"
  shows "\<exists>t raw. extract_bearer r = Some raw \<and> t \<in> set (gt_tokens db) \<and> tk_hash t = ge_sha e raw
    \<and> tk_status t = ''active'' \<and> \<not> expired e t \<and> ''T'' \<in> parse_scopes (Scope_Text (tk_scopes t))
    \<and> \<not> tk_paper t \<and> live_trading_enabled te \<and> market_allowed t (body_market b) \<and> instrument_allowed t (body_symbol b)
    \<and> rq_user (pd_payload p) = tk_user t \<and> rq_symbol (pd_payload p) = body_symbol b
    \<and> rq_action (pd_payload p) = (if body_side b = ''buy'' then ''open_long'' else ''open_short'')
    \<and> ob_qty b = Some (Finite (rq_quantity (pd_payload p))) \<and> 0 < rq_quantity (pd_payload p) \<and> 0 < reference_price te b
    \<and> within_limits t (Finite (fmul (rq_quantity (pd_payload p)) (reference_price te b))) (te_now te) (gt_tokens db) (td_reservations db)"
proof -
  obtain a db1 where adm: "admit e ''T'' r db = (a, db1)" by fastforce
  note frame = admit_frame [OF adm]
  obtain t where a: "a = Admitted t" using call p adm frame by (cases a) (simp_all add: agent_call_def)
  note auth = authenticated [OF admitted_token [OF adm [unfolded a]]]
  have "td_queue db' = td_queue (snd (place_agent_order te b t r db1))"
    using call adm a by (auto simp: agent_call_def Let_def case_prod_beta)
  then obtain mode db2 qty limit leverage client where o: "begin_order te b t r db1 = (Inr mode, db2)" "order_qty b = Finite qty"
    "pd_payload p = agent_request_of te b t qty limit leverage mode client"
    using agent_order_placed [of p te b t r db1] p frame by auto
  have req: "rq_mode (pd_payload p) = mode" "rq_user (pd_payload p) = tk_user t" "rq_symbol (pd_payload p) = body_symbol b"
    "rq_quantity (pd_payload p) = qty" "rq_action (pd_payload p) = (if body_side b = ''buy'' then ''open_long'' else ''open_short'')"
    by (simp_all add: o(3) agent_request_of_def)
  note g = begin_live_order [OF o(1) [unfolded live [unfolded req(1)]]]
  have qty: "ob_qty b = Some (Finite qty) \<and> 0 < qty"
  proof (cases "ob_qty b")
    case None
    with g(1) show ?thesis by (simp add: order_rejection_def split: if_splits)
  next
    case (Some y)
    with o(2) g(1) show ?thesis by (auto simp: order_qty_def order_rejection_def split: if_splits)
  qed
  obtain raw where "extract_bearer r = Some raw" "tk_hash t = ge_sha e raw" using auth(1) by blast
  then show ?thesis
    using auth(2-) g(2-) qty req frame by (intro exI [of _ t] exI [of _ raw]) (simp add: o(2))
qed

text \<open>A token that may trade, and an order of two units at a price of 10.\<close>

definition demo_body :: order_body where
  "demo_body = \<lparr>ob_fields = [''market'', ''symbol'', ''side'', ''qty''], ob_market = ''okx'', ob_symbol = ''BTC/USDT'', ob_side = ''buy'',
     ob_qty = Some (Finite 2), ob_order_type = [], ob_limit = Some 0, ob_credential = Some 0, ob_market_type = ''spot'',
     ob_leverage = Some 1, ob_json = JNull\<rparr>"

definition demo_market :: trade_env where
  "demo_market = \<lparr>te_now = 0, te_live = ''true'', te_last = Some 10, te_uuid = ''0123456789'', te_job = ''j1'', te_seen = [],
     te_poll_fails = False\<rparr>"

definition demo_desk :: trade_db where
  "demo_desk = \<lparr>gt_tokens = [demo_token], gt_limiter = idle_limiter, gt_idem = [], gt_audit = [], td_reservations = [],
     td_jobs = [], td_queue = \<lparr>intents = [], next_intent = 1, pending = [], next_pending = 1, clock = 0\<rparr>, td_trades = [], td_papers = []\<rparr>"

lemma live_order_gates_witness:
  "let (rp, db') = agent_call (demo_env 0) ''T'' (place_agent_order demo_market demo_body) demo_call 0 demo_desk in
     map (\<lambda>p. (rq_mode (pd_payload p), rq_quantity (pd_payload p))) (pending (td_queue db')) = [(''live'', 2)]
     \<and> within_limits demo_token (Finite (fmul 2 10)) 0 [demo_token] []"
proof -
  obtain rp db' where c: "agent_call (demo_env 0) ''T'' (place_agent_order demo_market demo_body) demo_call 0 demo_desk = (rp, db')"
    by fastforce
  have "map (\<lambda>p. (rq_mode (pd_payload p), rq_quantity (pd_payload p))) (pending (td_queue (snd
      (agent_call (demo_env 0) ''T'' (place_agent_order demo_market demo_body) demo_call 0 demo_desk)))) = [(''live'', 2)]"
    by code_simp
  then have m: "map (\<lambda>p. (rq_mode (pd_payload p), rq_quantity (pd_payload p))) (pending (td_queue db')) = [(''live'', 2)]"
    by (simp add: c)
  then obtain p where p: "pending (td_queue db') = [p]" "rq_mode (pd_payload p) = ''live''" "rq_quantity (pd_payload p) = 2" by auto
  have "p \<in> set (pending (td_queue db'))" "p \<notin> set (pending (td_queue demo_desk))" by (simp_all add: p demo_desk_def)
  from live_order_gates [OF c this p(2)] p(3)
  have "\<exists>t \<in> set (gt_tokens demo_desk). within_limits t (Finite (fmul 2 (reference_price demo_market demo_body)))
      (te_now demo_market) (gt_tokens demo_desk) (td_reservations demo_desk)" by auto
  moreover have "reference_price demo_market demo_body = 10" "te_now demo_market = 0" "gt_tokens demo_desk = [demo_token]"
    "td_reservations demo_desk = []" by code_simp+
  ultimately show ?thesis using m by (simp add: c)
qed

section \<open>Around the limits\<close>

text \<open>
  A quantity that is not a number passes the checks of the order and of both limits; once its notional is
  reserved, the sum of the day is not a number either, and the daily limit refuses nothing.
\<close>

lemma sum_with_nan: "NaN \<in> set xs \<Longrightarrow> sum_notional xs = NaN"
proof (induction xs)
  case (Cons x xs)
  then show ?case by (cases x) auto
qed simp

lemma nan_order_lifts_daily_limit:
  assumes "x \<in> set rs" "counts_today n now x" "nr_notional x = NaN" and "\<not> exceeds notional (fst (order_limits n user tokens))"
  shows "fst (reserve_live_notional n user key notional now tokens rs) = Reserved_Notional"
proof -
  have "used_today n now rs = NaN" unfolding used_today_def using assms(1-3) by (intro sum_with_nan) force
  then show ?thesis using assms(4) by (simp add: reserve_live_notional_def case_prod_beta)
qed

lemma nan_order_passes: "order_rejection b = None \<longleftrightarrow> order_rejection (b\<lparr>ob_qty := Some NaN\<rparr>) = None" if "positive_quantity (ob_qty b)"
  using that by (simp add: order_rejection_def body_market_def body_symbol_def body_side_def body_type_def)

text \<open>The notional of a limit order is counted at its limit: the market does not matter, a sale far below it passes.\<close>

lemma limit_order_ignores_market:
  assumes "body_type b = ''limit''"
  shows "begin_order (te\<lparr>te_last := m\<rparr>) b t r db = begin_order te b t r db"
proof -
  have "reference_price (te\<lparr>te_last := m\<rparr>) b = reference_price te b" "te_now (te\<lparr>te_last := m\<rparr>) = te_now te"
    "live_trading_enabled (te\<lparr>te_last := m\<rparr>) = live_trading_enabled te"
    using assms by (simp_all add: reference_price_def live_trading_enabled_def)
  then show ?thesis unfolding begin_order_def by (simp only:)
qed

section \<open>After the emergency stop\<close>

text \<open>
  The stop cancels trades of \<open>qd_quick_trades\<close> and paper orders, and revokes tokens.  The gateway's own
  orders are in \<open>pending_orders\<close>: what waits there is fetched and claimed as before.
\<close>

theorem killed_order_still_dispatched:
  assumes stop: "kill_switch cancels True t r db = (rp, db')"
    and p: "p \<in> set (pending (td_queue db))" "pd_status p = ''pending''" "pd_attempts p < pd_max p"
    and room: "length (pending (td_queue db)) \<le> limit"
  shows "p \<in> set (fst (fetch_pending_orders stale limit (td_queue db')))
    \<and> fst (mark_processing (pd_id p) (snd (fetch_pending_orders stale limit (td_queue db'))))"
proof -
  have q: "td_queue db' = td_queue db" using stop by (auto simp: kill_switch_def Let_def)
  define q1 where "q1 = (if 0 < stale then requeue_stale stale (dead_letters (td_queue db)) else td_queue db)"
  have f: "fetch_pending_orders stale limit (td_queue db) = (take limit (sort_key (\<lambda>p. - pd_priority p) (sort_key pd_id
         (filter (\<lambda>p. pd_status p = ''pending'' \<and> pd_attempts p < pd_max p) (pending q1)))), q1)"
    by (simp add: fetch_pending_orders_def q1_def Let_def)
  have keep: "p \<in> set (upd_where P g xs)" if "p \<in> set xs" "\<not> P p" for P g xs
    using in_upd_where [OF that(1), of P g] that(2) by simp
  have p1: "p \<in> set (pending q1)"
    using p by (auto simp: q1_def requeue_stale_def dead_letters_def intro!: keep)
  have "length (pending q1) = length (pending (td_queue db))" by (simp add: q1_def requeue_stale_def dead_letters_def)
  then have "length (filter (\<lambda>p. pd_status p = ''pending'' \<and> pd_attempts p < pd_max p) (pending q1)) \<le> limit"
    using room by (intro order_trans [OF length_filter_le]) simp
  with p p1 show ?thesis
    by (auto simp: q f mark_processing_def count_where_def filter_empty_conv)
qed

end
