(* ===== verification/Spec2Isabelle.thy ===== *)
theory Spec2Isabelle
  imports Worker_Safety Command_Client Usdt_Orders Order_Safety Protection Grid_Posting Stream_Safety Session_Safety
    Agent_Job_Safety Agent_Safety
begin

text \<open>
  QuantDinger backend: a model of the trading core of \<open>src/backend/app\<close>.

  \<^bold>\<open>The program.\<close>  QuantDinger runs trading strategies for its users.  An API process records what a
  user wants as durable \<^emph>\<open>commands\<close>; trading workers claim them, run the strategies under
  \<^emph>\<open>leases\<close> and report back.  A running strategy emits \<^emph>\<open>intents\<close>, which the executor turns into
  guarded orders in a queue, protects with stops, and whose fills it books in a local
  \<^emph>\<open>position ledger\<close>; a grid strategy keeps resting orders of its own on the exchange.  Users pay with
  \<^emph>\<open>credits\<close> and memberships, bought by on-chain USDT transfers.  External agents
  reach jobs and the order queue through a gateway with scoped tokens.  All durable state lives in
  PostgreSQL tables; every component below is a set of operations on some of them.

  \<^bold>\<open>Conventions.\<close>  A table is the list of its rows, a statement an operation of \<open>Prelude\<close>; a transaction is
  one function from state to result and state, and where the code spreads one action over several
  transactions, the model has one function for each, so that their interleavings can be stated.
  Floats are rationals with the rounding of every operation written out (\<open>fl\<close>), decimal columns
  round again when written (\<open>column s\<close>, \<open>Py_Float\<close>); infinities, NaN and overflow to them are
  outside the model (only the notional of an agent's order may be NaN).  Times are microseconds.  Errors are values of a sum or option type.  Logging,
  caching and the handling of database connections are left out everywhere.

  \<^bold>\<open>Theories.\<close>

  \<^item> \<open>Prelude\<close>: tables, Python strings, JSON payloads.  \<open>Py_Float\<close>: binary64 and decimal columns, with
    the locales \<open>conversion\<close> (monotone, odd) and \<open>rounding\<close> (idempotent too), interpreted for \<open>fl\<close>,
    \<open>dec s\<close>, \<open>column s\<close> and \<open>reload s\<close>.
  \<^item> \<open>Command_Db\<close>, \<open>Commands\<close>, \<open>Leases\<close>, \<open>Command_Safety\<close>: \<open>services/strategy_command_repository.py\<close>, one function
    for each method (\<open>enqueue\<close>, \<open>claim_next\<close>, \<open>complete\<close>, \<open>fail\<close>, \<open>acquire_strategy_lease\<close>, ..).  Both
    kinds of leases interpret the locale \<open>lease_service\<close>.  \<open>Command_Safety\<close> runs any interleaving of
    calls of any number of processes (\<open>step\<close>, \<open>run\<close>) and shows the table invariant, the exclusion of
    claims and of leases, the bound on attempts, idempotent enqueueing, and where the protocol
    fails: a retry reported late wedges its command, fencing tokens restart.
  \<^item> \<open>Worker\<close>, \<open>Worker_Safety\<close>: \<open>workers/trading.py\<close> with the runtime bookkeeping of
    \<open>services/trading_executor.py\<close>: handlers, heartbeat, renewal, restore, the loop's turn.
    \<open>Command_Client\<close>: \<open>services/strategy_command_client.py\<close>; waiting takes the database as a function of
    time, its recursion is bounded by the number of polls that fit the timeout.
  \<^item> \<open>Order_Flow\<close>, \<open>Order_Safety\<close>: \<open>_execute_strategy_v2_intent\<close>, \<open>_order_plan\<close>, \<open>_execute_signal\<close> of the executor,
    \<open>strategy_direction.py\<close>, \<open>pending_orders/order_budget.py\<close>, the queue of
    \<open>strategy_v2/live_execution.py\<close> and \<open>strategy_runtime/order_intents.py\<close>.  The plan reaches its target
    without crossing zero in a step, live intents queue at most one guarded order, submission is
    idempotent per key.
  \<^item> \<open>Execution\<close>, \<open>Dispatch\<close>, \<open>Live_Order\<close>, \<open>Fill_Sync\<close>: \<open>services/pending_order_worker.py\<close>.  \<open>Execution\<close> has the
    execution algorithms (\<open>live_trading/executors.py\<close>) and what \<open>LiveOrderPhaseAdapter\<close> makes of an intent
    with a quote amount (\<open>adapters.py\<close>), \<open>Dispatch\<close> every transaction on the queue, the
    attempts and the fills, \<open>Live_Order\<close> the handler of a claimed order (\<open>_execute_live_order\<close>, \<open>_dispatch_one\<close>,
    \<open>_tick\<close>) over the state \<open>floor\<close> with the spot sizes of \<open>live_trading/spot_sizing.py\<close>, \<open>Fill_Sync\<close> one round of reconciliation.  \<open>Dispatch_Safety\<close> bounds
    the dispatches of an order over any interleaving of transactions (\<open>queue_step\<close>, \<open>queue_run\<close>);
    \<open>Sync_Safety\<close> shows that rounds post what the exchange reports, once, and where they lose it;
    \<open>Live_Safety\<close> shows what can reach the exchange (an adapter restricted to accepted orders makes no
    difference), that an order recorded at its dispatch is accounted for from then on, and the error
    paths that submit twice, spend twice or record nothing.
  \<^item> \<open>Streams\<close>, \<open>Stream_Safety\<close>: \<open>services/execution_streams\<close>, the events of private websocket streams,
    their bindings to orders and their projection into queue and ledger: cumulative events are posted
    in full, and the three ways in which streams, dispatch and reconciliation together post twice or
    not at all.
  \<^item> \<open>Ownership\<close>, \<open>Ownership_Safety\<close>: \<open>live_trading/position_ownership.py\<close>,
    \<open>pending_orders/entry_position_guard.py\<close>, \<open>position_query.py\<close>: reservations of a shared leg, the guard
    before an entry, the size of an exit; exits leave protected inventory alone.
  \<^item> \<open>Protection\<close>: \<open>strategy_v2/protection.py\<close>; the live evaluator refines the bar evaluator, exits are
    priced within the bar, trailing stops ratchet, saved states are restored.
  \<^item> \<open>Backtest\<close>, \<open>Backtest_Safety\<close>, \<open>Backtest_Audit\<close>: \<open>strategy_v2/data.py\<close> and the simulation broker, the
    run of a backtest and its audit in \<open>strategy_v2/runtime.py\<close>.  A strategy is a record of handlers, which
    return the orders they queue.  The locale \<open>broker_invariant\<close> lists what a property of the broker
    needs of its primitives and shows that batches, liquidations, protections and bars keep it; it is
    interpreted for well-formed books and for fills the audit finds right.  \<open>Backtest_Audit\<close> also has the
    bound on attempts, the limit orders, and four ways in which sizing goes wrong.
  \<^item> \<open>Schedule\<close>: \<open>_schedule_due\<close> with the calendar; the locale \<open>periods\<close> (one moment in each period) is
    interpreted for days, weeks and months, and gives that a schedule is due once in a period.
    \<open>Live_Session\<close>, \<open>Session_Safety\<close>: \<open>StrategyV2LiveSession\<close> and a cycle of the executor's loop
    (\<open>run_cycle\<close>): held legs are protected, a restart loses no protection, a leg with a pending exit
    gets only the orders of the equity rule, and the ways in which a leg loses its protection.
  \<^item> \<open>Symbols\<close>, \<open>Positions\<close>: \<open>services/live_trading/records.py\<close>, \<open>leg_context.py\<close>: canonical symbols, the
    ledger of positions and trades, fills and the rebuild from trades.
  \<^item> \<open>Grid_Levels\<close>: \<open>services/grid/levels.py\<close>, \<open>config.py\<close>, \<open>validator.py\<close>; an accepted grid earns its fees.
    \<open>Grid_Cells\<close>: the tables of \<open>live_trading/grid_cells.py\<close> and \<open>grid/resting_orders_repo.py\<close>.
    \<open>Grid_Engine\<close>: \<open>grid/engine.py\<close>, \<open>fill_handler.py\<close>, the poller's \<open>_poll_order\<close> and \<open>_process_grid\<close> of
    \<open>execution_streams/processor.py\<close>; the exchange's adapter is the record \<open>venue\<close>, a fresh one for each
    operation.  \<open>Grid_Safety\<close>: the locale \<open>engine_invariant\<close>
    lists what a property of the tables needs of the engine's primitives; that every operation
    keeps it is proved inside, once, and it is interpreted for "at most one open order per cell
    and purpose" and for "this cell is lost to the grid's own steps".  The operations take turns there;
    what two threads, or a report that comes late, do beyond that is shown beside it.  \<open>Grid_Posting\<close>: fills on their way to the
    ledger, posted once unless their readers race.
  \<^item> \<open>Billing\<close>: \<open>services/billing_service.py\<close>, \<open>billing_config.py\<close>: balances equal their logs, purchases extend.
    \<open>Usdt_Orders\<close>: \<open>services/usdt_payment\<close>: distinct amounts, the TRC20 matching, confirmation.

  \<^item> \<open>Agent_Auth\<close>, \<open>Agent_Jobs\<close>, \<open>Agent_Trade\<close>: the agent gateway, \<open>utils/agent_auth.py\<close> with
    \<open>services/agent_token_service.py\<close>, \<open>utils/agent_jobs.py\<close> with \<open>tasks/agent_jobs.py\<close>, and
    \<open>routes/agent_v1/quick_trade.py\<close>.  A request is \<open>admit\<close>, the route, \<open>settle\<close>.  \<open>Agent_Safety\<close> shows
    what a live order has passed and how far apart the runs of a key begin (\<open>gate_step\<close>, \<open>gate_run\<close>), and
    how orders get around the limits and the emergency stop; \<open>Agent_Job_Safety\<close> that cancelled jobs
    stay so (\<open>job_step\<close>) and what a stream delivers.

  \<^bold>\<open>Parameters.\<close>  Exchanges and brokers (\<open>venue\<close>, \<open>adapter\<close>, the reports of \<open>poll_order\<close>
  and of \<open>sync_env\<close>, \<open>env\<close> and \<open>live_env\<close> of the workers), the account risk snapshot, hashes
  and random digests, the code of a strategy (the handlers of \<open>strategy\<close>, \<open>program\<close>), environment variables (\<open>cfg\<close>), the C library's \<open>**\<close> (\<open>fpow\<close>) and resolved
  dictionaries are arguments of the definitions.  No theorem assumes more of them than its own
  hypotheses say.

  \<^bold>\<open>Bounds and fuel.\<close>  \<open>repr\<close> searches the shortest decimal with 17 digits of fuel, which binary64 never
  exceeds (its failure case returns the float itself).  \<open>neutral_entries\<close> recurses on the free slots,
  each round using one or ending; all other loops are structural or have a termination proof.

  \<^bold>\<open>Not modelled.\<close>  The exchange and broker adapters (\<open>services/live_trading/brokers\<close>, the REST clients), the
  other HTTP routes and user authentication, the LLM, research, data-source, notification and community services are
  I/O around third-party interfaces and hold little state of their own.  Of the trading core the
  stock brokers' flows and quick trades of the pending order worker, its native protection orders and
  fee backfill, the indicators, factors and reports of the strategy runtime, the grid runner's
  start and the initial market position of a grid are left out: each mixes little state with many
  calls to libraries and exchanges.
\<close>

end
